(* ===== verification/Prelude.thy ===== *)
theory Prelude
  imports Main "HOL-Library.Word" "HOL-Library.Sublist"
begin

text \<open>
  Shared vocabulary of the development: Go strings as lists of bytes, the parts of
  \<open>strings\<close> and \<open>strconv\<close> that the modelled packages call, error results as sums,
  and the generic lemmas the component theories use. A Go \<open>string\<close> is a byte
  sequence, so HOL's \<open>string\<close> (8-bit characters) represents it exactly.
\<close>

named_theorems go_simps \<open>executable rules of the Go string and number helpers\<close>
named_theorems res_simps \<open>rules for error results\<close>

type_synonym i64 = "64 word"
type_synonym bytes = string

section \<open>Error results\<close>

text \<open>A Go \<open>(value, error)\<close> result: \<open>Inl\<close> the error, \<open>Inr\<close> the value.\<close>

definition rbind :: "'e + 'a \<Rightarrow> ('a \<Rightarrow> 'e + 'b) \<Rightarrow> 'e + 'b" where
  "rbind r f = (case r of Inl e \<Rightarrow> Inl e | Inr x \<Rightarrow> f x)"

lemma rbind_Inl [simp, res_simps]: "rbind (Inl e) f = Inl e"
  by (simp add: rbind_def)

lemma rbind_Inr [simp, res_simps]: "rbind (Inr x) f = f x"
  by (simp add: rbind_def)

lemma rbind_eq_Inr [res_simps]: "rbind r f = Inr y \<longleftrightarrow> (\<exists>x. r = Inr x \<and> f x = Inr y)"
  by (cases r) auto

lemma rbind_eq_Inl [res_simps]:
  "rbind r f = Inl e \<longleftrightarrow> r = Inl e \<or> (\<exists>x. r = Inr x \<and> f x = Inl e)"
  by (cases r) auto

section \<open>Lists\<close>

text \<open>\<open>strings.Join\<close>.\<close>

fun join :: "string \<Rightarrow> string list \<Rightarrow> string" where
  "join sep [] = []"
| "join sep [x] = x"
| "join sep (x # y # ys) = x @ sep @ join sep (y # ys)"

text \<open>The same separation on lists of tokens: the separator between two parts only.\<close>

fun sepBy :: "'a list \<Rightarrow> 'a list list \<Rightarrow> 'a list" where
  "sepBy sep [] = []"
| "sepBy sep [x] = x"
| "sepBy sep (x # y # ys) = x @ sep @ sepBy sep (y # ys)"

lemma join_Cons: "join sep (x # xs) = x @ (if xs = [] then [] else sep @ join sep xs)"
  by (cases xs) auto

lemma sepBy_Cons: "sepBy sep (x # xs) = x @ (if xs = [] then [] else sep @ sepBy sep xs)"
  by (cases xs) auto

lemma join_sepBy: "join sep xs = sepBy sep xs"
  by (induction sep xs rule: join.induct) auto

lemma concat_map_sepBy:
  "concat (map f (sepBy sep xss)) = join (concat (map f sep)) (map (\<lambda>xs. concat (map f xs)) xss)"
  by (induction sep xss rule: sepBy.induct) auto

lemma map_sepBy: "map f (sepBy sep xss) = sepBy (map f sep) (map (map f) xss)"
  by (induction sep xss rule: sepBy.induct) auto

lemma set_sepBy_subset: "set (sepBy sep xss) \<subseteq> set sep \<union> \<Union> (set ` set xss)"
  by (induction sep xss rule: sepBy.induct) auto

lemma filter_length_le: "(\<And>x. x \<in> set xs \<Longrightarrow> P x \<Longrightarrow> Q x) \<Longrightarrow> length (filter P xs) \<le> length (filter Q xs)"
  by (induction xs) (auto intro: le_SucI)

lemma filter_length_less:
  "(\<And>x. x \<in> set xs \<Longrightarrow> P x \<Longrightarrow> Q x) \<Longrightarrow> y \<in> set xs \<Longrightarrow> Q y \<Longrightarrow> \<not> P y \<Longrightarrow>
     length (filter P xs) < length (filter Q xs)"
proof (induction xs)
  case (Cons x xs)
  show ?case
  proof (cases "y \<in> set xs")
    case True
    then show ?thesis using Cons by (auto intro: less_SucI)
  next
    case False
    then show ?thesis using Cons.prems filter_length_le [of xs P Q] by (auto simp: less_Suc_eq_le)
  qed
qed simp

section \<open>Characters and the strings package\<close>

definition isDigit :: "char \<Rightarrow> bool" where
  "isDigit c \<longleftrightarrow> 48 \<le> (of_char c :: nat) \<and> (of_char c :: nat) \<le> 57"

definition digitVal :: "char \<Rightarrow> nat" where
  "digitVal c = (of_char c :: nat) - 48"

definition digitChar :: "nat \<Rightarrow> char" where
  "digitChar n = char_of (48 + n)"

lemma of_char_digitChar: "n < 10 \<Longrightarrow> (of_char (digitChar n) :: nat) = 48 + n"
  by (simp add: digitChar_def)

lemma isDigit_digitChar [simp]: "n < 10 \<Longrightarrow> isDigit (digitChar n)"
  by (simp add: isDigit_def of_char_digitChar)

lemma digitVal_digitChar [simp]: "n < 10 \<Longrightarrow> digitVal (digitChar n) = n"
  by (simp add: digitVal_def of_char_digitChar)

text \<open>\<open>strings.HasPrefix\<close>, \<open>strings.HasSuffix\<close>, \<open>strings.TrimPrefix\<close>.\<close>

definition hasPrefix :: "string \<Rightarrow> string \<Rightarrow> bool" where
  "hasPrefix s p = prefix p s"

definition hasSuffix :: "string \<Rightarrow> string \<Rightarrow> bool" where
  "hasSuffix s p = suffix p s"

definition trimPrefix :: "string \<Rightarrow> string \<Rightarrow> string" where
  "trimPrefix s p = (if hasPrefix s p then drop (length p) s else s)"

lemma hasPrefix_append [simp]: "hasPrefix (p @ s) p"
  by (simp add: hasPrefix_def)

lemma trimPrefix_append [simp]: "trimPrefix (p @ s) p = s"
  by (simp add: trimPrefix_def)

text \<open>\<open>strings.ReplaceAll\<close> with a one-byte needle.\<close>

definition replaceChar :: "char \<Rightarrow> string \<Rightarrow> string \<Rightarrow> string" where
  "replaceChar c r s = concat (map (\<lambda>x. if x = c then r else [x]) s)"

lemma replaceChar_Nil [simp]: "replaceChar c r [] = []"
  by (simp add: replaceChar_def)

lemma replaceChar_Cons [simp]:
  "replaceChar c r (x # s) = (if x = c then r else [x]) @ replaceChar c r s"
  by (simp add: replaceChar_def)

text \<open>\<open>strings.Split\<close> with a one-byte separator: never the empty list.\<close>

fun splitOn :: "char \<Rightarrow> string \<Rightarrow> string list" where
  "splitOn c [] = [[]]"
| "splitOn c (x # s) =
     (if x = c then [] # splitOn c s
      else (case splitOn c s of [] \<Rightarrow> [[x]] | p # ps \<Rightarrow> (x # p) # ps))"

lemma splitOn_not_Nil [simp]: "splitOn c s \<noteq> []"
  by (cases s) (auto split: list.splits)

lemma join_splitOn: "join [c] (splitOn c s) = s"
proof (induction s)
  case (Cons x s)
  then show ?case
    by (cases "splitOn c s") (auto simp: join_Cons)
qed simp

text \<open>
  \<open>strings.ToLower\<close> on the ASCII range. Go also maps letters outside ASCII; the modelled
  callers compare host names, header names and identifiers, which are ASCII, and bytes
  from 128 up are left as they are here.
\<close>

definition toLowerChar :: "char \<Rightarrow> char" where
  "toLowerChar c = (let n = (of_char c :: nat) in if 65 \<le> n \<and> n \<le> 90 then char_of (n + 32) else c)"

definition toLower :: "string \<Rightarrow> string" where
  "toLower s = map toLowerChar s"

lemma toLowerChar_idem [simp]: "toLowerChar (toLowerChar c) = toLowerChar c"
  by (auto simp: toLowerChar_def Let_def)

lemma toLower_idem [simp]: "toLower (toLower s) = toLower s"
  by (simp add: toLower_def)

lemma toLower_append [simp]: "toLower (s @ t) = toLower s @ toLower t"
  by (simp add: toLower_def)

text \<open>\<open>strings.TrimSpace\<close> on ASCII white space.\<close>

definition isSpace :: "char \<Rightarrow> bool" where
  "isSpace c \<longleftrightarrow> c = CHR '' '' \<or> (9 \<le> (of_char c :: nat) \<and> (of_char c :: nat) \<le> 13)"

definition trimSpace :: "string \<Rightarrow> string" where
  "trimSpace s = rev (dropWhile isSpace (rev (dropWhile isSpace s)))"

lemma dropWhile_none: "\<forall>c\<in>set s. \<not> P c \<Longrightarrow> dropWhile P s = s"
  by (cases s) simp_all

lemma trimSpace_id: "\<forall>c\<in>set s. \<not> isSpace c \<Longrightarrow> trimSpace s = s"
  by (simp add: trimSpace_def dropWhile_none)

text \<open>\<open>strings.Contains\<close>.\<close>

definition containsStr :: "string \<Rightarrow> string \<Rightarrow> bool" where
  "containsStr s sub \<longleftrightarrow> sublist sub s"

text \<open>
  \<open>net.SplitHostPort\<close>: host and port of \<open>host:port\<close> and \<open>[host]:port\<close>; \<open>None\<close> is any of its
  errors (no port, too many colons, misplaced brackets).
\<close>

definition splitHostPort :: "string \<Rightarrow> (string \<times> string) option" where
  "splitHostPort a =
     (case dropWhile (\<lambda>c. c \<noteq> CHR '':'') (rev a) of
        [] \<Rightarrow> None
      | _ # revHost \<Rightarrow>
          let host = rev revHost; port = drop (Suc (length host)) a in
          if hasPrefix a ''['' then
            (if \<not> hasSuffix host '']'' \<or> CHR ''['' \<in> set (tl a) \<or> CHR '']'' \<in> set (butlast host) \<union> set port
             then None else Some (butlast (tl host), port))
          else if CHR '':'' \<in> set host \<or> CHR ''['' \<in> set a \<or> CHR '']'' \<in> set a then None
          else Some (host, port))"

section \<open>strconv\<close>

text \<open>\<open>strconv.Itoa\<close> and \<open>strconv.FormatInt\<close> in base 10.\<close>

fun itoa :: "nat \<Rightarrow> string" where
  "itoa n = (if n < 10 then [digitChar n] else itoa (n div 10) @ [digitChar (n mod 10)])"

declare itoa.simps [simp del]

definition formatInt :: "int \<Rightarrow> string" where
  "formatInt i = (if i < 0 then CHR ''-'' # itoa (nat (- i)) else itoa (nat i))"

definition digitsVal :: "nat \<Rightarrow> string \<Rightarrow> nat" where
  "digitsVal acc s = foldl (\<lambda>a c. a * 10 + digitVal c) acc s"

lemma digitsVal_simps [simp]:
  "digitsVal acc [] = acc"
  "digitsVal acc (c # s) = digitsVal (acc * 10 + digitVal c) s"
  "digitsVal acc (s @ t) = digitsVal (digitsVal acc s) t"
  by (simp_all add: digitsVal_def)

lemma itoa_digits: "list_all isDigit (itoa n)"
proof (induction n rule: itoa.induct)
  case (1 n)
  then show ?case by (subst itoa.simps) auto
qed

lemma itoa_not_Nil [simp]: "itoa n \<noteq> []"
  by (subst itoa.simps) simp

lemma digitsVal_itoa [simp]: "digitsVal 0 (itoa n) = n"
proof (induction n rule: itoa.induct)
  case (1 n)
  then show ?case by (subst itoa.simps) auto
qed

lemma itoa_inject [simp]: "itoa m = itoa n \<longleftrightarrow> m = n"
  by (metis digitsVal_itoa)

text \<open>\<open>strconv.Atoi\<close> on a string of digits: \<open>None\<close> is its range error.\<close>

definition atoiDigits :: "string \<Rightarrow> nat option" where
  "atoiDigits s = (let n = digitsVal 0 s in if n < 2 ^ 63 then Some n else None)"

lemma atoiDigits_code [code]:
  "atoiDigits s = (let n = digitsVal 0 s in if int n < 9223372036854775808 then Some n else None)"
  by (simp add: atoiDigits_def Let_def)

text \<open>\<open>strconv.ParseInt(s, 10, 64)\<close>: \<open>None\<close> is any of its errors.\<close>

definition parseInt64 :: "string \<Rightarrow> i64 option" where
  "parseInt64 s =
     (let neg = (s \<noteq> [] \<and> hd s = CHR ''-'');
          ds = (if s \<noteq> [] \<and> (hd s = CHR ''-'' \<or> hd s = CHR ''+'') then tl s else s);
          n = digitsVal 0 ds
      in if ds = [] \<or> \<not> list_all isDigit ds then None
         else if neg then (if n \<le> 2 ^ 63 then Some (word_of_int (- int n)) else None)
         else (if n < 2 ^ 63 then Some (word_of_nat n) else None))"

lemma parseInt64_code [code]:
  "parseInt64 s =
     (let neg = (s \<noteq> [] \<and> hd s = CHR ''-'');
          ds = (if s \<noteq> [] \<and> (hd s = CHR ''-'' \<or> hd s = CHR ''+'') then tl s else s);
          n = digitsVal 0 ds
      in if ds = [] \<or> \<not> list_all isDigit ds then None
         else if neg then (if int n \<le> 9223372036854775808 then Some (word_of_int (- int n)) else None)
         else (if int n < 9223372036854775808 then Some (word_of_int (int n)) else None))"
  unfolding parseInt64_def Let_def by simp

lemma itoa_hd_digit: "isDigit (hd (itoa n))"
  using itoa_digits [of n] by (cases "itoa n") auto

lemma isDigit_not_sign: "isDigit c \<Longrightarrow> c \<noteq> CHR ''-'' \<and> c \<noteq> CHR ''+''"
  by (auto simp: isDigit_def)

lemma parseInt64_formatInt:
  assumes "- (2 ^ 63) \<le> i" and "i < 2 ^ 63"
  shows "parseInt64 (formatInt i) = Some (word_of_int i)"
proof (cases "i < 0")
  case True
  then have "nat (- i) \<le> 2 ^ 63" using assms by simp
  with True show ?thesis
    by (simp add: parseInt64_def formatInt_def Let_def itoa_digits)
next
  case False
  then have "nat i < 2 ^ 63" using assms by simp
  moreover have "hd (itoa (nat i)) \<noteq> CHR ''-''" "hd (itoa (nat i)) \<noteq> CHR ''+''"
    using isDigit_not_sign [OF itoa_hd_digit] by auto
  ultimately show ?thesis using False
    by (simp add: parseInt64_def formatInt_def Let_def itoa_digits)
qed

lemma parseInt64_formatInt_sint [simp]: "parseInt64 (formatInt (sint w)) = Some (w :: i64)"
proof -
  have "- (2 ^ 63) \<le> sint w" "sint w < 2 ^ 63"
    using sint_greater_eq [of w] sint_lt [of w] by simp_all
  then show ?thesis by (simp add: parseInt64_formatInt)
qed

lemma sint_word_of_int_small:
  "- (2 ^ 63) \<le> i \<Longrightarrow> i < 2 ^ 63 \<Longrightarrow> sint (word_of_int i :: i64) = i"
  by (simp add: signed_of_int signed_take_bit_int_eq_self)

text \<open>\<open>strconv.ParseBool\<close>.\<close>

definition parseBool :: "string \<Rightarrow> bool option" where
  "parseBool s =
     (if s \<in> {''1'', ''t'', ''T'', ''TRUE'', ''true'', ''True''} then Some True
      else if s \<in> {''0'', ''f'', ''F'', ''FALSE'', ''false'', ''False''} then Some False
      else None)"

end
