(* ===== verification/Dialect.thy ===== *)
theory Dialect
  imports Prelude
begin

text \<open>
  The SQL dialects (\<open>pack/dialect\<close>). The Go interface \<open>dialect.Dialect\<close> is a record of
  its methods, and the three implementations (\<open>mysqldialect\<close>, \<open>pgdialect\<close>,
  \<open>sqlitedialect\<close>) are values of that record. The contract the SQL builder relies on,
  that a quoted identifier is one token and can be read back whatever follows it, is the
  locale \<open>ident_quoting\<close>, interpreted on each of the three dialects.
\<close>

record dialect =
  Name :: string
  QuoteIdent :: "string \<Rightarrow> string"
  Placeholder :: "nat \<Rightarrow> string"
  SupportsILike :: bool
  SupportsRowLocking :: bool
  SupportsReturning :: bool
  SupportsOnConflict :: bool
  SupportsSavepoints :: bool

abbreviation backtick :: char where
  "backtick \<equiv> CHR 0x60"

abbreviation dquote :: char where
  "dquote \<equiv> CHR 0x22"

definition MySQL :: dialect where
  "MySQL = \<lparr> Name = ''mysql'',
     QuoteIdent = (\<lambda>name. [backtick] @ replaceChar backtick [backtick, backtick] name @ [backtick]),
     Placeholder = (\<lambda>n. ''?''),
     SupportsILike = False, SupportsRowLocking = True, SupportsReturning = False,
     SupportsOnConflict = False, SupportsSavepoints = True \<rparr>"

definition Postgres :: dialect where
  "Postgres = \<lparr> Name = ''postgres'',
     QuoteIdent = (\<lambda>name. [dquote] @ replaceChar dquote [dquote, dquote] name @ [dquote]),
     Placeholder = (\<lambda>n. ''$'' @ itoa n),
     SupportsILike = True, SupportsRowLocking = True, SupportsReturning = True,
     SupportsOnConflict = True, SupportsSavepoints = True \<rparr>"

definition SQLite :: dialect where
  "SQLite = \<lparr> Name = ''sqlite'',
     QuoteIdent = (\<lambda>name. [dquote] @ replaceChar dquote [dquote, dquote] name @ [dquote]),
     Placeholder = (\<lambda>n. ''?'' @ itoa n),
     SupportsILike = False, SupportsRowLocking = False, SupportsReturning = True,
     SupportsOnConflict = True, SupportsSavepoints = True \<rparr>"

lemmas dialect_defs = MySQL_def Postgres_def SQLite_def

section \<open>Reading an identifier back\<close>

text \<open>
  How an engine reads a quoted identifier: after the opening quote, a doubled quote stands
  for itself and a single one ends the identifier. The result is the name and the rest
  of the text.
\<close>

fun readBody :: "char \<Rightarrow> string \<Rightarrow> (string \<times> string) option" where
  "readBody q [] = None"
| "readBody q [c] = (if c = q then Some ([], []) else None)"
| "readBody q (c # d # s) =
     (if c = q then
        (if d = q then map_option (\<lambda>(n, r). (q # n, r)) (readBody q s) else Some ([], d # s))
      else map_option (\<lambda>(n, r). (c # n, r)) (readBody q (d # s)))"

definition readIdent :: "char \<Rightarrow> string \<Rightarrow> (string \<times> string) option" where
  "readIdent q s = (case s of [] \<Rightarrow> None | c # s' \<Rightarrow> if c = q then readBody q s' else None)"

text \<open>A text that does not continue an identifier quoted with \<open>q\<close>.\<close>

definition stopsAt :: "char \<Rightarrow> string \<Rightarrow> bool" where
  "stopsAt q s \<longleftrightarrow> (case s of [] \<Rightarrow> True | c # _ \<Rightarrow> c \<noteq> q)"

lemma stopsAt_simps [simp]: "stopsAt q []" "stopsAt q (c # s) \<longleftrightarrow> c \<noteq> q"
  by (simp_all add: stopsAt_def)

lemma readBody_other: "c \<noteq> q \<Longrightarrow> s \<noteq> [] \<Longrightarrow>
    readBody q (c # s) = map_option (\<lambda>(n, r). (c # n, r)) (readBody q s)"
  by (cases s) auto

lemma readBody_double: "readBody q (q # q # s) = map_option (\<lambda>(n, r). (q # n, r)) (readBody q s)"
  by (cases s) auto

lemma readBody_close: "stopsAt q rest \<Longrightarrow> readBody q (q # rest) = Some ([], rest)"
  by (cases rest) auto

lemma readBody_replace:
  "stopsAt q rest \<Longrightarrow> readBody q (replaceChar q [q, q] name @ q # rest) = Some (name, rest)"
  by (induction name) (auto simp: readBody_close readBody_double readBody_other)

text \<open>A list of identifiers separated by \<open>", "\<close>, as column lists are written.\<close>

fun readIdents :: "(string \<Rightarrow> (string \<times> string) option) \<Rightarrow> nat \<Rightarrow> string \<Rightarrow> (string list \<times> string) option" where
  "readIdents rd 0 s = None"
| "readIdents rd (Suc fuel) s =
     (case rd s of None \<Rightarrow> None
      | Some (n, r) \<Rightarrow>
          if hasPrefix r '', '' then
            map_option (\<lambda>(ns, r'). (n # ns, r')) (readIdents rd fuel (trimPrefix r '', ''))
          else Some ([n], r))"

section \<open>The quoting contract\<close>

locale ident_quoting =
  fixes quote :: "string \<Rightarrow> string"
    and rd :: "string \<Rightarrow> (string \<times> string) option"
    and stops :: "string \<Rightarrow> bool"
  assumes rd_quote: "stops rest \<Longrightarrow> rd (quote name @ rest) = Some (name, rest)"
    and stops_Nil: "stops []"
    and stops_sep: "stops ('', '' @ s)" "stops (''.'' @ s)" "stops ('' '' @ s)" "stops ('')'' @ s)"
begin

lemma quote_inject: "quote m = quote n \<longleftrightarrow> m = n"
  using rd_quote [OF stops_Nil] by (metis append_Nil2 option.inject prod.inject)

lemma quote_prefix_free:
  assumes "stops r" and "stops s" and "quote m @ r = quote n @ s"
  shows "m = n \<and> r = s"
proof -
  have "Some (m, r) = Some (n, s)"
    unfolding rd_quote [OF assms(1), symmetric] rd_quote [OF assms(2), symmetric] assms(3) ..
  then show ?thesis by simp
qed

lemma qualified_inject:
  "quote t @ ''.'' @ quote c = quote t' @ ''.'' @ quote c' \<longleftrightarrow> t = t' \<and> c = c'"
proof
  assume "quote t @ ''.'' @ quote c = quote t' @ ''.'' @ quote c'"
  then have "t = t' \<and> ''.'' @ quote c = ''.'' @ quote c'"
    by (rule quote_prefix_free [OF stops_sep(2) stops_sep(2)])
  then show "t = t' \<and> c = c'" by (simp add: quote_inject)
qed simp

lemma qualified_not_plain: "quote t @ ''.'' @ quote c \<noteq> quote c'"
proof
  assume "quote t @ ''.'' @ quote c = quote c'"
  then have "quote t @ (''.'' @ quote c) = quote c' @ []" by simp
  then have "t = c' \<and> ''.'' @ quote c = []"
    by (rule quote_prefix_free [OF stops_sep(2) stops_Nil])
  then show False by simp
qed

lemma read_list:
  assumes "names \<noteq> []" and "length names \<le> fuel" and "stops rest"
    and "\<not> hasPrefix rest '', ''"
  shows "readIdents rd fuel (join '', '' (map quote names) @ rest) = Some (names, rest)"
  using assms
proof (induction names arbitrary: fuel)
  case (Cons n ns)
  then obtain k where k: "fuel = Suc k" by (cases fuel) auto
  show ?case
  proof (cases "ns = []")
    case True
    then show ?thesis using Cons.prems k by (simp add: rd_quote)
  next
    case False
    have "readIdents rd k (join '', '' (map quote ns) @ rest) = Some (ns, rest)"
      using Cons.IH [of k] Cons.prems False k by simp
    moreover have "rd (quote n @ '', '' @ join '', '' (map quote ns) @ rest)
        = Some (n, '', '' @ join '', '' (map quote ns) @ rest)"
      by (rule rd_quote) (rule stops_sep)
    moreover have "hasPrefix ('', '' @ join '', '' (map quote ns) @ rest) '', ''"
      by (rule hasPrefix_append)
    ultimately show ?thesis
      using False k trimPrefix_append [of "'', ''" "join '', '' (map quote ns) @ rest"]
      by (simp add: join_Cons)
  qed
qed simp

end

interpretation mysql: ident_quoting "QuoteIdent MySQL" "readIdent backtick" "stopsAt backtick"
  by unfold_locales (simp_all add: MySQL_def readIdent_def readBody_replace)

interpretation pg: ident_quoting "QuoteIdent Postgres" "readIdent dquote" "stopsAt dquote"
  by unfold_locales (simp_all add: Postgres_def readIdent_def readBody_replace)

interpretation sqlite: ident_quoting "QuoteIdent SQLite" "readIdent dquote" "stopsAt dquote"
  by unfold_locales (simp_all add: SQLite_def readIdent_def readBody_replace)

end
