(* ===== verification/SqlRender.thy ===== *)
theory SqlRender
  imports Dialect
begin

text \<open>
  Rendering of SQL fragments (\<open>pack/internal/sqlbuild\<close>: \<open>types.go\<close>, \<open>predicate.go\<close>,
  \<open>render.go\<close>). A Go \<open>*renderer\<close> holds the dialect and the argument list bound so far;
  here the argument list is passed and returned. Bound values have any type \<open>'v\<close>
  (Go \<open>any\<close>). Rendering returns the SQL text and the new argument list, or the error.
  The specification of this code is the token view of \<open>SqlTokens\<close>.
\<close>

section \<open>Tables, columns, assignments, order terms\<close>

record table =
  tblName :: string
  tblAlias :: string

record column =
  colTable :: string
  colName :: string

definition Col :: "string \<Rightarrow> column" where
  "Col name = \<lparr>colTable = [], colName = name\<rparr>"

definition QualifiedCol :: "string \<Rightarrow> string \<Rightarrow> column" where
  "QualifiedCol tableAlias name = \<lparr>colTable = tableAlias, colName = name\<rparr>"

text \<open>\<open>Assignment\<close>, by its two constructors \<open>Set\<close> and \<open>SetExpr\<close> (field \<open>isRaw\<close>).\<close>

datatype 'v assignment =
    SetVal (asgCol: column) 'v
  | SetExpr (asgCol: column) string "'v list"

record orderTerm =
  ordCol :: column
  ordDesc :: bool
  ordRaw :: string

definition Asc :: "column \<Rightarrow> orderTerm" where
  "Asc c = \<lparr>ordCol = c, ordDesc = False, ordRaw = []\<rparr>"

definition Desc :: "column \<Rightarrow> orderTerm" where
  "Desc c = \<lparr>ordCol = c, ordDesc = True, ordRaw = []\<rparr>"

definition OrderRaw :: "string \<Rightarrow> orderTerm" where
  "OrderRaw fragment = \<lparr>ordCol = Col [], ordDesc = False, ordRaw = fragment\<rparr>"

datatype joinKind = InnerJoin | LeftJoin

section \<open>Predicates\<close>

text \<open>
  \<open>Predicate\<close> is a tagged struct whose tag fixes which fields are used and how many
  arguments and children there are; one constructor per tag.
\<close>

datatype 'v predicate =
    PredNone
  | Eq column 'v
  | Ne column 'v
  | Gt column 'v
  | Gte column 'v
  | Lt column 'v
  | Lte column 'v
  | In column "'v list"
  | NotIn column "'v list"
  | IsNull column
  | IsNotNull column
  | Between column 'v 'v
  | Like column 'v
  | ILike column 'v
  | NotLike column 'v
  | And "'v predicate list"
  | Or "'v predicate list"
  | Not "'v predicate"
  | Raw string "'v list"
  | EqCol column column

definition IsZero :: "'v predicate \<Rightarrow> bool" where
  "IsZero p \<longleftrightarrow> (case p of PredNone \<Rightarrow> True | _ \<Rightarrow> False)"

definition andJoin :: "'v predicate \<Rightarrow> 'v predicate \<Rightarrow> 'v predicate" where
  "andJoin a b = (if IsZero a then b else And [a, b])"

record 'v joinSpec =
  jKind :: joinKind
  jTable :: table
  jOn :: "'v predicate"

datatype sqlError =
    ErrRawPlaceholderOutOfRange string nat nat
  | ErrConflictingLockClause
  | ErrILikeUnsupportedByDialect string
  | ErrSkipLockedRequiresLockClause
  | ErrRowLockingUnsupportedByDialect string
  | ErrReturningUnsupportedByDialect string
  | ErrConstraintsUnsupportedByDialect string

section \<open>The renderer\<close>

definition bindArg :: "dialect \<Rightarrow> 'v \<Rightarrow> 'v list \<Rightarrow> string \<times> 'v list" where
  "bindArg d v args = (Placeholder d (Suc (length args)), args @ [v])"

definition quoteColumn :: "dialect \<Rightarrow> column \<Rightarrow> string" where
  "quoteColumn d c =
     (if colTable c \<noteq> [] then QuoteIdent d (colTable c) @ ''.'' @ QuoteIdent d (colName c)
      else QuoteIdent d (colName c))"

definition quoteTable :: "dialect \<Rightarrow> table \<Rightarrow> string" where
  "quoteTable d t =
     (if tblAlias t \<noteq> [] then QuoteIdent d (tblName t) @ '' AS '' @ QuoteIdent d (tblAlias t)
      else QuoteIdent d (tblName t))"

fun bindList :: "dialect \<Rightarrow> 'v list \<Rightarrow> 'v list \<Rightarrow> string list \<times> 'v list" where
  "bindList d [] args = ([], args)"
| "bindList d (v # vs) args =
     (let (s, args1) = bindArg d v args; (ss, args2) = bindList d vs args1 in (s # ss, args2))"

text \<open>
  The matches of the regular expression \<open>\$([0-9]+)\<close>: a dollar sign followed by a
  longest nonempty run of digits. All other bytes are copied.
\<close>

datatype piece = PieceChar char | PieceRef string

function pieces :: "string \<Rightarrow> piece list" where
  "pieces [] = []"
| "pieces (c # cs) =
     (if c = CHR ''$'' \<and> takeWhile isDigit cs \<noteq> []
      then PieceRef (takeWhile isDigit cs) # pieces (dropWhile isDigit cs)
      else PieceChar c # pieces cs)"
  by pat_completeness auto
termination
  by (relation "measure length") (auto simp: le_imp_less_Suc length_dropWhile_le)

lemma pieces_no_ref: "CHR ''$'' \<notin> set f \<Longrightarrow> pieces (f @ h) = map PieceChar f @ pieces h"
  by (induction f) auto

text \<open>
  The callback of \<open>ReplaceAllStringFunc\<close>: \<open>Atoi\<close>, the range check and the dialect's
  placeholder at \<open>base + k\<close>. \<open>Atoi\<close> fails only on overflow and then leaves its largest
  value in \<open>k\<close>. The first failing match decides the error.
\<close>

fun replaceRefs :: "dialect \<Rightarrow> nat \<Rightarrow> string \<Rightarrow> nat \<Rightarrow> piece list \<Rightarrow> sqlError + string" where
  "replaceRefs d base fragment numArgs [] = Inr []"
| "replaceRefs d base fragment numArgs (PieceChar c # ps) =
     rbind (replaceRefs d base fragment numArgs ps) (\<lambda>s. Inr (c # s))"
| "replaceRefs d base fragment numArgs (PieceRef ds # ps) =
     (case atoiDigits ds of
        None \<Rightarrow> Inl (ErrRawPlaceholderOutOfRange fragment (2 ^ 63 - 1) numArgs)
      | Some k \<Rightarrow>
          if k < 1 \<or> numArgs < k then Inl (ErrRawPlaceholderOutOfRange fragment k numArgs)
          else rbind (replaceRefs d base fragment numArgs ps)
                 (\<lambda>s. Inr (Placeholder d (base + k) @ s)))"

definition renderRawFragment ::
    "dialect \<Rightarrow> string \<Rightarrow> 'v list \<Rightarrow> 'v list \<Rightarrow> sqlError + string \<times> 'v list" where
  "renderRawFragment d fragment rawArgs args =
     rbind (replaceRefs d (length args) fragment (length rawArgs) (pieces fragment))
       (\<lambda>out. Inr (out, args @ rawArgs))"

definition isCompound :: "'v predicate \<Rightarrow> bool" where
  "isCompound p \<longleftrightarrow> (case p of And _ \<Rightarrow> True | Or _ \<Rightarrow> True | Not _ \<Rightarrow> True | _ \<Rightarrow> False)"

definition renderCmp :: "dialect \<Rightarrow> column \<Rightarrow> string \<Rightarrow> 'v \<Rightarrow> 'v list \<Rightarrow> sqlError + string \<times> 'v list" where
  "renderCmp d c op v args =
     (let (s, args') = bindArg d v args in Inr (quoteColumn d c @ op @ s, args'))"

fun renderPredicate :: "dialect \<Rightarrow> 'v predicate \<Rightarrow> 'v list \<Rightarrow> sqlError + string \<times> 'v list"
  and renderChild :: "dialect \<Rightarrow> 'v predicate \<Rightarrow> 'v list \<Rightarrow> sqlError + string \<times> 'v list"
  and renderChildren :: "dialect \<Rightarrow> 'v predicate list \<Rightarrow> 'v list \<Rightarrow> sqlError + string list \<times> 'v list"
where
  "renderPredicate d PredNone args = Inr (''TRUE'', args)"
| "renderPredicate d (Eq c v) args = renderCmp d c '' = '' v args"
| "renderPredicate d (Ne c v) args = renderCmp d c '' <> '' v args"
| "renderPredicate d (Gt c v) args = renderCmp d c '' > '' v args"
| "renderPredicate d (Gte c v) args = renderCmp d c '' >= '' v args"
| "renderPredicate d (Lt c v) args = renderCmp d c '' < '' v args"
| "renderPredicate d (Lte c v) args = renderCmp d c '' <= '' v args"
| "renderPredicate d (In c vs) args =
     (if vs = [] then Inr (''FALSE'', args)
      else let (ss, args') = bindList d vs args
           in Inr (quoteColumn d c @ '' IN ('' @ join '', '' ss @ '')'', args'))"
| "renderPredicate d (NotIn c vs) args =
     (if vs = [] then Inr (''TRUE'', args)
      else let (ss, args') = bindList d vs args
           in Inr (quoteColumn d c @ '' NOT IN ('' @ join '', '' ss @ '')'', args'))"
| "renderPredicate d (IsNull c) args = Inr (quoteColumn d c @ '' IS NULL'', args)"
| "renderPredicate d (IsNotNull c) args = Inr (quoteColumn d c @ '' IS NOT NULL'', args)"
| "renderPredicate d (Between c lo hi) args =
     (let (s1, args1) = bindArg d lo args; (s2, args2) = bindArg d hi args1
      in Inr (quoteColumn d c @ '' BETWEEN '' @ s1 @ '' AND '' @ s2, args2))"
| "renderPredicate d (Like c v) args = renderCmp d c '' LIKE '' v args"
| "renderPredicate d (ILike c v) args =
     (if \<not> SupportsILike d then Inl (ErrILikeUnsupportedByDialect (Name d))
      else renderCmp d c '' ILIKE '' v args)"
| "renderPredicate d (NotLike c v) args = renderCmp d c '' NOT LIKE '' v args"
| "renderPredicate d (And ps) args =
     (if ps = [] then Inr (''TRUE'', args)
      else rbind (renderChildren d ps args) (\<lambda>(ss, args'). Inr (join '' AND '' ss, args')))"
| "renderPredicate d (Or ps) args =
     (if ps = [] then Inr (''FALSE'', args)
      else rbind (renderChildren d ps args) (\<lambda>(ss, args'). Inr (join '' OR '' ss, args')))"
| "renderPredicate d (Not p) args =
     rbind (renderChild d p args) (\<lambda>(s, args'). Inr (''NOT '' @ s, args'))"
| "renderPredicate d (Raw fragment rawArgs) args = renderRawFragment d fragment rawArgs args"
| "renderPredicate d (EqCol l r) args = Inr (quoteColumn d l @ '' = '' @ quoteColumn d r, args)"
| "renderChild d p args =
     rbind (renderPredicate d p args)
       (\<lambda>(s, args'). Inr (if isCompound p then ''('' @ s @ '')'' else s, args'))"
| "renderChildren d [] args = Inr ([], args)"
| "renderChildren d (p # ps) args =
     rbind (renderChild d p args) (\<lambda>(s, args1).
       rbind (renderChildren d ps args1) (\<lambda>(ss, args2). Inr (s # ss, args2)))"

definition renderAssignment :: "dialect \<Rightarrow> 'v assignment \<Rightarrow> 'v list \<Rightarrow> sqlError + string \<times> 'v list" where
  "renderAssignment d a args =
     (case a of
        SetExpr c raw rawArgs \<Rightarrow>
          rbind (renderRawFragment d raw rawArgs args)
            (\<lambda>(expr, args'). Inr (QuoteIdent d (colName c) @ '' = '' @ expr, args'))
      | SetVal c v \<Rightarrow>
          (let (s, args') = bindArg d v args
           in Inr (QuoteIdent d (colName c) @ '' = '' @ s, args')))"

definition renderJoin :: "dialect \<Rightarrow> 'v joinSpec \<Rightarrow> 'v list \<Rightarrow> sqlError + string \<times> 'v list" where
  "renderJoin d j args =
     rbind (renderPredicate d (jOn j) args)
       (\<lambda>(onSQL, args').
          Inr ((if jKind j = LeftJoin then '' LEFT JOIN '' else '' JOIN '')
                 @ quoteTable d (jTable j) @ '' ON '' @ onSQL, args'))"

definition renderOrderTerm :: "dialect \<Rightarrow> orderTerm \<Rightarrow> string" where
  "renderOrderTerm d t =
     (if ordRaw t \<noteq> [] then ordRaw t
      else if ordDesc t then quoteColumn d (ordCol t) @ '' DESC''
      else quoteColumn d (ordCol t) @ '' ASC'')"

end
