(* ===== verification/SqlTokens.thy ===== *)
theory SqlTokens
  imports SqlRender
begin

text \<open>
  Specification of the renderer. A fragment of SQL is a list of tokens: text, the
  boolean connectives and parentheses that the renderer adds, and holes. A hole carries
  the value the caller supplied for it together with the number of its placeholder. The
  renderer's text is these tokens written in the dialect's syntax
  (\<open>render_tokens\<close>), and its argument list holds at each hole's number the
  value of that hole (\<open>holesOk_tokPredicate\<close>).
\<close>

datatype 'h tok = TText string | THole 'h | TAnd | TOr | TNot | TOpen | TClose

text \<open>The hole of value \<open>v\<close> and placeholder number \<open>k\<close>.\<close>

type_synonym 'v hole = "'v \<times> nat"

fun tokText :: "dialect \<Rightarrow> 'v hole tok \<Rightarrow> string" where
  "tokText d (TText s) = s"
| "tokText d (THole h) = Placeholder d (snd h)"
| "tokText d TAnd = '' AND ''"
| "tokText d TOr = '' OR ''"
| "tokText d TNot = ''NOT ''"
| "tokText d TOpen = ''(''"
| "tokText d TClose = '')''"

definition flatten :: "dialect \<Rightarrow> 'v hole tok list \<Rightarrow> string" where
  "flatten d ts = concat (map (tokText d) ts)"

lemma flatten_simps [simp]:
  "flatten d [] = []"
  "flatten d (t # ts) = tokText d t @ flatten d ts"
  "flatten d (ts @ us) = flatten d ts @ flatten d us"
  by (simp_all add: flatten_def)

lemma flatten_sepBy: "flatten d (sepBy sep tss) = join (flatten d sep) (map (flatten d) tss)"
  unfolding flatten_def by (rule concat_map_sepBy)

fun holesOf :: "'h tok list \<Rightarrow> 'h list" where
  "holesOf [] = []"
| "holesOf (THole h # ts) = h # holesOf ts"
| "holesOf (_ # ts) = holesOf ts"

lemma holesOf_append [simp]: "holesOf (ts @ us) = holesOf ts @ holesOf us"
  by (induction ts rule: holesOf.induct) auto

lemma holesOf_sepBy: "holesOf sep = [] \<Longrightarrow> holesOf (sepBy sep tss) = concat (map holesOf tss)"
  by (induction sep tss rule: sepBy.induct) auto

lemma holesOf_concat: "holesOf (concat tss) = concat (map holesOf tss)"
  by (induction tss) auto

section \<open>Raw fragments\<close>

fun pieceErr :: "string \<Rightarrow> nat \<Rightarrow> piece list \<Rightarrow> sqlError option" where
  "pieceErr fragment n [] = None"
| "pieceErr fragment n (PieceChar c # ps) = pieceErr fragment n ps"
| "pieceErr fragment n (PieceRef ds # ps) =
     (case atoiDigits ds of
        None \<Rightarrow> Some (ErrRawPlaceholderOutOfRange fragment (2 ^ 63 - 1) n)
      | Some k \<Rightarrow> if k < 1 \<or> n < k then Some (ErrRawPlaceholderOutOfRange fragment k n)
                  else pieceErr fragment n ps)"

lemma pieceErr_fragment: "pieceErr fragment n ps = None \<Longrightarrow> pieceErr fragment' n ps = None"
  by (induction fragment n ps rule: pieceErr.induct) (auto split: option.splits if_splits)

fun tokPieces :: "nat \<Rightarrow> 'v list \<Rightarrow> piece list \<Rightarrow> 'v hole tok list" where
  "tokPieces base vs [] = []"
| "tokPieces base vs (PieceChar c # ps) = TText [c] # tokPieces base vs ps"
| "tokPieces base vs (PieceRef ds # ps) =
     THole (vs ! (digitsVal 0 ds - 1), base + digitsVal 0 ds) # tokPieces base vs ps"

lemma replaceRefs_tokens:
  "replaceRefs d base fragment (length vs) ps =
     (case pieceErr fragment (length vs) ps of
        Some e \<Rightarrow> Inl e | None \<Rightarrow> Inr (flatten d (tokPieces base vs ps)))"
  by (induction d base fragment "length vs" ps rule: replaceRefs.induct)
     (auto simp: atoiDigits_def Let_def split: option.splits)

lemma replaceRefs_chars:
  "replaceRefs d base fragment k (map PieceChar f @ ps)
     = rbind (replaceRefs d base fragment k ps) (\<lambda>s. Inr (f @ s))"
  by (induction f) (auto simp: rbind_def split: sum.splits)

lemma renderRawFragment_tokens:
  "renderRawFragment d fragment vs args =
     (case pieceErr fragment (length vs) (pieces fragment) of
        Some e \<Rightarrow> Inl e
      | None \<Rightarrow> Inr (flatten d (tokPieces (length args) vs (pieces fragment)), args @ vs))"
  by (simp add: renderRawFragment_def replaceRefs_tokens split: option.splits)

text \<open>A fragment whose references are \<open>$1, $2, \<dots>\<close> in this order, each argument once.\<close>

fun pieceRefs :: "piece list \<Rightarrow> nat list" where
  "pieceRefs [] = []"
| "pieceRefs (PieceChar c # ps) = pieceRefs ps"
| "pieceRefs (PieceRef ds # ps) = digitsVal 0 ds # pieceRefs ps"

definition fragInOrder :: "string \<Rightarrow> 'v list \<Rightarrow> bool" where
  "fragInOrder fragment vs \<longleftrightarrow> pieceRefs (pieces fragment) = [1..<Suc (length vs)]"

lemma holes_tokPieces: "map snd (holesOf (tokPieces base vs ps)) = map ((+) base) (pieceRefs ps)"
  by (induction base vs ps rule: tokPieces.induct) auto

section \<open>Predicates\<close>

fun predArgs :: "'v predicate \<Rightarrow> 'v list" where
  "predArgs PredNone = []"
| "predArgs (Eq c v) = [v]"
| "predArgs (Ne c v) = [v]"
| "predArgs (Gt c v) = [v]"
| "predArgs (Gte c v) = [v]"
| "predArgs (Lt c v) = [v]"
| "predArgs (Lte c v) = [v]"
| "predArgs (In c vs) = vs"
| "predArgs (NotIn c vs) = vs"
| "predArgs (IsNull c) = []"
| "predArgs (IsNotNull c) = []"
| "predArgs (Between c lo hi) = [lo, hi]"
| "predArgs (Like c v) = [v]"
| "predArgs (ILike c v) = [v]"
| "predArgs (NotLike c v) = [v]"
| "predArgs (And ps) = concat (map predArgs ps)"
| "predArgs (Or ps) = concat (map predArgs ps)"
| "predArgs (Not p) = predArgs p"
| "predArgs (Raw fragment vs) = vs"
| "predArgs (EqCol l r) = []"

text \<open>The first error of a list.\<close>

fun firstErr :: "sqlError option list \<Rightarrow> sqlError option" where
  "firstErr [] = None"
| "firstErr (Some e # es) = Some e"
| "firstErr (None # es) = firstErr es"

fun predErr :: "dialect \<Rightarrow> 'v predicate \<Rightarrow> sqlError option" where
  "predErr d (ILike c v) =
     (if SupportsILike d then None else Some (ErrILikeUnsupportedByDialect (Name d)))"
| "predErr d (And ps) = firstErr (map (predErr d) ps)"
| "predErr d (Or ps) = firstErr (map (predErr d) ps)"
| "predErr d (Not p) = predErr d p"
| "predErr d (Raw fragment vs) = pieceErr fragment (length vs) (pieces fragment)"
| "predErr d _ = None"

definition tokCmp :: "dialect \<Rightarrow> nat \<Rightarrow> column \<Rightarrow> string \<Rightarrow> 'v \<Rightarrow> 'v hole tok list" where
  "tokCmp d n c op v = [TText (quoteColumn d c @ op), THole (v, Suc n)]"

definition tokList :: "nat \<Rightarrow> 'v list \<Rightarrow> 'v hole tok list" where
  "tokList n vs = sepBy [TText '', ''] (map (\<lambda>i. [THole (vs ! i, Suc (n + i))]) [0..<length vs])"

fun tokPredicate :: "dialect \<Rightarrow> nat \<Rightarrow> 'v predicate \<Rightarrow> 'v hole tok list"
  and tokChild :: "dialect \<Rightarrow> nat \<Rightarrow> 'v predicate \<Rightarrow> 'v hole tok list"
  and tokChildren :: "dialect \<Rightarrow> nat \<Rightarrow> 'v predicate list \<Rightarrow> 'v hole tok list list"
where
  "tokPredicate d n PredNone = [TText ''TRUE'']"
| "tokPredicate d n (Eq c v) = tokCmp d n c '' = '' v"
| "tokPredicate d n (Ne c v) = tokCmp d n c '' <> '' v"
| "tokPredicate d n (Gt c v) = tokCmp d n c '' > '' v"
| "tokPredicate d n (Gte c v) = tokCmp d n c '' >= '' v"
| "tokPredicate d n (Lt c v) = tokCmp d n c '' < '' v"
| "tokPredicate d n (Lte c v) = tokCmp d n c '' <= '' v"
| "tokPredicate d n (In c vs) =
     (if vs = [] then [TText ''FALSE'']
      else [TText (quoteColumn d c @ '' IN ('')] @ tokList n vs @ [TText '')''])"
| "tokPredicate d n (NotIn c vs) =
     (if vs = [] then [TText ''TRUE'']
      else [TText (quoteColumn d c @ '' NOT IN ('')] @ tokList n vs @ [TText '')''])"
| "tokPredicate d n (IsNull c) = [TText (quoteColumn d c @ '' IS NULL'')]"
| "tokPredicate d n (IsNotNull c) = [TText (quoteColumn d c @ '' IS NOT NULL'')]"
| "tokPredicate d n (Between c lo hi) =
     [TText (quoteColumn d c @ '' BETWEEN ''), THole (lo, Suc n), TText '' AND '',
      THole (hi, Suc (Suc n))]"
| "tokPredicate d n (Like c v) = tokCmp d n c '' LIKE '' v"
| "tokPredicate d n (ILike c v) = tokCmp d n c '' ILIKE '' v"
| "tokPredicate d n (NotLike c v) = tokCmp d n c '' NOT LIKE '' v"
| "tokPredicate d n (And ps) =
     (if ps = [] then [TText ''TRUE''] else sepBy [TAnd] (tokChildren d n ps))"
| "tokPredicate d n (Or ps) =
     (if ps = [] then [TText ''FALSE''] else sepBy [TOr] (tokChildren d n ps))"
| "tokPredicate d n (Not p) = TNot # tokChild d n p"
| "tokPredicate d n (Raw fragment vs) = tokPieces n vs (pieces fragment)"
| "tokPredicate d n (EqCol l r) = [TText (quoteColumn d l @ '' = '' @ quoteColumn d r)]"
| "tokChild d n p =
     (if isCompound p then TOpen # tokPredicate d n p @ [TClose] else tokPredicate d n p)"
| "tokChildren d n [] = []"
| "tokChildren d n (p # ps) = tokChild d n p # tokChildren d (n + length (predArgs p)) ps"

section \<open>The renderer writes the tokens\<close>

lemma bindList_tokens:
  "bindList d vs args =
     (map (\<lambda>i. Placeholder d (Suc (length args + i))) [0..<length vs], args @ vs)"
proof (induction vs arbitrary: args)
  case (Cons v vs)
  then show ?case
    by (simp add: bindArg_def Let_def map_upt_Suc del: upt_Suc)
qed simp

lemma flatten_tokList:
  "flatten d (tokList n vs) =
     join '', '' (map (\<lambda>i. Placeholder d (Suc (n + i))) [0..<length vs])"
  by (simp add: tokList_def flatten_sepBy comp_def)

lemma renderCmp_tokens:
  "renderCmp d c op v args = Inr (flatten d (tokCmp d (length args) c op v), args @ [v])"
  by (simp add: renderCmp_def bindArg_def tokCmp_def)

definition rendered ::
    "dialect \<Rightarrow> sqlError option \<Rightarrow> 'v hole tok list \<Rightarrow> 'v list \<Rightarrow> sqlError + string \<times> 'v list" where
  "rendered d err ts args' = (case err of Some e \<Rightarrow> Inl e | None \<Rightarrow> Inr (flatten d ts, args'))"

lemma rendered_simps [simp]:
  "rendered d (Some e) ts args' = Inl e"
  "rendered d None ts args' = Inr (flatten d ts, args')"
  by (simp_all add: rendered_def)

lemma rendered_if: "rendered d (if b then None else Some e) ts args' =
    (if b then Inr (flatten d ts, args') else Inl e)"
  by simp

lemma tokChildren_Nil_iff [simp]: "tokChildren d n ps = [] \<longleftrightarrow> ps = []"
  by (cases ps) auto

lemma render_tokens:
  "renderPredicate d p args =
     rendered d (predErr d p) (tokPredicate d (length args) p) (args @ predArgs p)"
  "renderChild d p args =
     rendered d (predErr d p) (tokChild d (length args) p) (args @ predArgs p)"
  "renderChildren d ps args =
     (case firstErr (map (predErr d) ps) of
        Some e \<Rightarrow> Inl e
      | None \<Rightarrow> Inr (map (flatten d) (tokChildren d (length args) ps),
                      args @ concat (map predArgs ps)))"
proof (induction d p args and d p args and d ps args
    rule: renderPredicate_renderChild_renderChildren.induct)
  case (23 d p ps args)
  show ?case
  proof (cases "predErr d p")
    case None
    then show ?thesis using 23
      by (auto split: option.splits)
  next
    case (Some e)
    then show ?thesis using 23 by simp
  qed
qed (auto simp: renderCmp_tokens bindList_tokens bindArg_def flatten_tokList flatten_sepBy
       renderRawFragment_tokens rendered_def split: option.splits)


section \<open>Every hole is bound to its value\<close>

definition holeOk :: "'v list \<Rightarrow> 'v hole \<Rightarrow> bool" where
  "holeOk args h \<longleftrightarrow> 1 \<le> snd h \<and> snd h \<le> length args \<and> args ! (snd h - 1) = fst h"

definition holesOk :: "'v list \<Rightarrow> 'v hole tok list \<Rightarrow> bool" where
  "holesOk args ts \<longleftrightarrow> list_all (holeOk args) (holesOf ts)"

lemma holesOk_simps [simp]:
  "holesOk args []"
  "holesOk args (TText s # ts) \<longleftrightarrow> holesOk args ts"
  "holesOk args (THole h # ts) \<longleftrightarrow> holeOk args h \<and> holesOk args ts"
  "holesOk args (TAnd # ts) \<longleftrightarrow> holesOk args ts"
  "holesOk args (TOr # ts) \<longleftrightarrow> holesOk args ts"
  "holesOk args (TNot # ts) \<longleftrightarrow> holesOk args ts"
  "holesOk args (TOpen # ts) \<longleftrightarrow> holesOk args ts"
  "holesOk args (TClose # ts) \<longleftrightarrow> holesOk args ts"
  "holesOk args (ts @ us) \<longleftrightarrow> holesOk args ts \<and> holesOk args us"
  by (simp_all add: holesOk_def)

lemma holesOk_sepBy:
  "holesOf sep = [] \<Longrightarrow> holesOk args (sepBy sep tss) \<longleftrightarrow> list_all (holesOk args) tss"
  by (induction sep tss rule: sepBy.induct) (auto simp: holesOk_def)

lemma holeOk_bound [simp]: "holeOk (pre @ v # post) (w, Suc (length pre)) \<longleftrightarrow> w = v"
  by (auto simp: holeOk_def)

lemma holeOk_mono: "holeOk args h \<Longrightarrow> holeOk (args @ xs) h"
  by (auto simp: holeOk_def nth_append)

lemma holesOk_mono: "holesOk args ts \<Longrightarrow> holesOk (args @ xs) ts"
  by (auto simp: holesOk_def list_all_iff holeOk_mono)

lemma holesOk_tokList: "holesOk (pre @ vs @ post) (tokList (length pre) vs)"
  by (simp add: tokList_def holesOk_sepBy list_all_iff holeOk_def nth_append)

lemma holesOk_tokPieces:
  "pieceErr fragment (length vs) ps = None \<Longrightarrow>
   holesOk (pre @ vs @ post) (tokPieces (length pre) vs ps)"
proof (induction fragment "length vs" ps rule: pieceErr.induct)
  case (3 fragment ds ps)
  then show ?case
    by (auto simp: holeOk_def nth_append atoiDigits_def Let_def split: if_splits option.splits)
qed auto

lemma firstErr_None [simp]: "firstErr es = None \<longleftrightarrow> list_all (\<lambda>e. e = None) es"
  by (induction es rule: firstErr.induct) auto

lemma holesOk_tokPredicate:
  "predErr d p = None \<Longrightarrow> n = length pre \<Longrightarrow>
     holesOk (pre @ predArgs p @ post) (tokPredicate d n p)"
  "predErr d p = None \<Longrightarrow> n = length pre \<Longrightarrow>
     holesOk (pre @ predArgs p @ post) (tokChild d n p)"
  "list_all (\<lambda>p. predErr d p = None) ps \<Longrightarrow> n = length pre \<Longrightarrow>
     list_all (holesOk (pre @ concat (map predArgs ps) @ post)) (tokChildren d n ps)"
proof (induction d n p and d n p and d n ps arbitrary: pre post and pre post and pre post
    rule: tokPredicate_tokChild_tokChildren.induct)
  case (12 d n c lo hi)
  then show ?case using holeOk_bound [of "pre @ [lo]" hi post hi] by simp
next
  case (23 d n p ps)
  have "list_all (holesOk ((pre @ predArgs p) @ concat (map predArgs ps) @ post))
          (tokChildren d (n + length (predArgs p)) ps)"
    using 23 by (intro "23.IH"(2)) simp_all
  moreover have "holesOk (pre @ predArgs p @ (concat (map predArgs ps) @ post)) (tokChild d n p)"
    using 23 by (intro "23.IH"(1)) simp_all
  ultimately show ?case by simp
qed (auto simp: tokCmp_def holesOk_tokList holesOk_tokPieces holesOk_sepBy list_all_iff)

section \<open>Positional placeholders\<close>

text \<open>
  A positional dialect (MySQL, whose placeholder is always \<open>?\<close>) binds the \<open>i\<close>-th
  placeholder of the text to the \<open>i\<close>-th argument. That agrees with the numbers when the
  holes are numbered consecutively in text order, which raw fragments can break.
\<close>

fun rawInOrder :: "'v predicate \<Rightarrow> bool" where
  "rawInOrder (And ps) = list_all rawInOrder ps"
| "rawInOrder (Or ps) = list_all rawInOrder ps"
| "rawInOrder (Not p) = rawInOrder p"
| "rawInOrder (Raw fragment vs) = fragInOrder fragment vs"
| "rawInOrder _ = True"

lemma map_add_upt_Suc: "map ((+) n) [Suc a..<Suc b] = [Suc (n + a)..<Suc (n + b)]"
  by (rule nth_equalityI) (simp_all del: upt_Suc)

lemma holes_tokList: "map snd (holesOf (tokList n vs)) = [Suc n..<Suc (n + length vs)]"
proof -
  have "map snd (holesOf (tokList n vs)) = map (\<lambda>i. Suc (n + i)) [0..<length vs]"
    by (simp add: tokList_def holesOf_sepBy comp_def)
  also have "\<dots> = [Suc n..<Suc (n + length vs)]"
    by (rule nth_equalityI) (simp_all del: upt_Suc)
  finally show ?thesis .
qed

lemma upt_short: "[Suc n..<Suc (Suc n)] = [Suc n]"
  "[Suc n..<Suc (Suc (Suc n))] = [Suc n, Suc (Suc n)]"
  by (simp_all add: upt_conv_Cons del: upt_Suc)

lemma holes_tokPredicate:
  fixes p :: "'v predicate" and ps :: "'v predicate list"
  shows
  "rawInOrder p \<Longrightarrow>
     map snd (holesOf (tokPredicate d n p)) = [Suc n..<Suc (n + length (predArgs p))]"
  "rawInOrder p \<Longrightarrow>
     map snd (holesOf (tokChild d n p)) = [Suc n..<Suc (n + length (predArgs p))]"
  "list_all rawInOrder ps \<Longrightarrow>
     map snd (holesOf (concat (tokChildren d n ps)))
       = [Suc n..<Suc (n + length (concat (map predArgs ps)))]"
proof (induction d n p and d n p and d n ps rule: tokPredicate_tokChild_tokChildren.induct)
  case (19 d n fragment vs)
  then show ?case
    by (simp add: holes_tokPieces fragInOrder_def map_add_upt_Suc del: upt_Suc)
next
  case (23 d n p ps)
  then show ?case
    using upt_add_eq_append [of "Suc n" "Suc (n + length (predArgs p))" "length (concat (map predArgs ps))"]
    by (simp add: add.assoc del: upt_Suc)
qed (auto simp: tokCmp_def holes_tokList holesOf_sepBy holesOf_concat comp_def upt_short simp del: upt_Suc)

end
