(* ===== verification/SqlBoolean.thy ===== *)
theory SqlBoolean
  imports SqlTokens
begin

text \<open>
  The boolean reading of rendered predicates. SQL gives \<open>NOT\<close> a tighter binding than
  \<open>AND\<close>, and \<open>AND\<close> a tighter one than \<open>OR\<close>; the renderer writes parentheses around
  compound children only. \<open>evalOr\<close> is a recursive-descent reading of a token list with
  these precedences, and the theorem says that it gives every predicate built from the
  constructors (raw fragments aside) the value its constructors mean.
\<close>

definition isAtomTok :: "'h tok \<Rightarrow> bool" where
  "isAtomTok t \<longleftrightarrow> (case t of TText _ \<Rightarrow> True | THole _ \<Rightarrow> True | _ \<Rightarrow> False)"

lemma isAtomTok_simps [simp]:
  "isAtomTok (TText s)" "isAtomTok (THole h)" "\<not> isAtomTok TAnd" "\<not> isAtomTok TOr"
  "\<not> isAtomTok TNot" "\<not> isAtomTok TOpen" "\<not> isAtomTok TClose"
  by (simp_all add: isAtomTok_def)

section \<open>Reading a token list\<close>

fun evalOr :: "nat \<Rightarrow> ('h tok list \<Rightarrow> bool) \<Rightarrow> 'h tok list \<Rightarrow> (bool \<times> 'h tok list) option"
  and evalAnd :: "nat \<Rightarrow> ('h tok list \<Rightarrow> bool) \<Rightarrow> 'h tok list \<Rightarrow> (bool \<times> 'h tok list) option"
  and evalNot :: "nat \<Rightarrow> ('h tok list \<Rightarrow> bool) \<Rightarrow> 'h tok list \<Rightarrow> (bool \<times> 'h tok list) option"
  and evalPrim :: "nat \<Rightarrow> ('h tok list \<Rightarrow> bool) \<Rightarrow> 'h tok list \<Rightarrow> (bool \<times> 'h tok list) option"
where
  "evalOr 0 env ts = None"
| "evalOr (Suc f) env ts =
     (case evalAnd f env ts of
        Some (b, TOr # r) \<Rightarrow> map_option (\<lambda>(b', r'). (b \<or> b', r')) (evalOr f env r)
      | res \<Rightarrow> res)"
| "evalAnd 0 env ts = None"
| "evalAnd (Suc f) env ts =
     (case evalNot f env ts of
        Some (b, TAnd # r) \<Rightarrow> map_option (\<lambda>(b', r'). (b \<and> b', r')) (evalAnd f env r)
      | res \<Rightarrow> res)"
| "evalNot 0 env ts = None"
| "evalNot (Suc f) env ts =
     (case ts of
        TNot # r \<Rightarrow> map_option (\<lambda>(b, r'). (\<not> b, r')) (evalNot f env r)
      | _ \<Rightarrow> evalPrim f env ts)"
| "evalPrim 0 env ts = None"
| "evalPrim (Suc f) env ts =
     (case ts of
        TOpen # r \<Rightarrow> (case evalOr f env r of Some (b, TClose # r') \<Rightarrow> Some (b, r') | _ \<Rightarrow> None)
      | _ \<Rightarrow> if takeWhile isAtomTok ts = [] then None
             else Some (env (takeWhile isAtomTok ts), dropWhile isAtomTok ts))"

section \<open>The meaning of a predicate\<close>

text \<open>The tokens with the supplied values in the holes and no placeholder numbers.\<close>

definition holeVals :: "'v hole tok list \<Rightarrow> 'v tok list" where
  "holeVals ts = map (map_tok fst) ts"

definition atomToks :: "dialect \<Rightarrow> 'v predicate \<Rightarrow> 'v tok list" where
  "atomToks d p = holeVals (tokPredicate d 0 p)"

fun sem :: "('v predicate \<Rightarrow> bool) \<Rightarrow> 'v predicate \<Rightarrow> bool" where
  "sem I (And ps) = list_all (sem I) ps"
| "sem I (Or ps) = list_ex (sem I) ps"
| "sem I (Not p) = (\<not> sem I p)"
| "sem I PredNone = True"
| "sem I (In c vs) = (vs \<noteq> [] \<and> I (In c vs))"
| "sem I (NotIn c vs) = (vs = [] \<or> I (NotIn c vs))"
| "sem I p = I p"

fun rawFree :: "'v predicate \<Rightarrow> bool" where
  "rawFree (And ps) = list_all rawFree ps"
| "rawFree (Or ps) = list_all rawFree ps"
| "rawFree (Not p) = rawFree p"
| "rawFree (Raw fragment vs) = False"
| "rawFree p = True"

lemma holeVals_simps [simp]:
  "holeVals [] = []"
  "holeVals (TText s # ts) = TText s # holeVals ts"
  "holeVals (THole h # ts) = THole (fst h) # holeVals ts"
  "holeVals (TAnd # ts) = TAnd # holeVals ts"
  "holeVals (TOr # ts) = TOr # holeVals ts"
  "holeVals (TNot # ts) = TNot # holeVals ts"
  "holeVals (TOpen # ts) = TOpen # holeVals ts"
  "holeVals (TClose # ts) = TClose # holeVals ts"
  "holeVals (ts @ us) = holeVals ts @ holeVals us"
  "length (holeVals ts) = length ts"
  by (simp_all add: holeVals_def)

lemma holeVals_sepBy: "holeVals (sepBy sep tss) = sepBy (holeVals sep) (map holeVals tss)"
  unfolding holeVals_def [abs_def] by (rule map_sepBy)

lemma holeVals_tokList: "holeVals (tokList n vs) = holeVals (tokList m vs)"
  by (simp add: tokList_def holeVals_sepBy comp_def)

lemma holeVals_tokPieces: "holeVals (tokPieces n vs ps) = holeVals (tokPieces m vs ps)"
  by (induction n vs ps rule: tokPieces.induct) auto

lemma holeVals_tokPredicate:
  fixes p :: "'v predicate" and ps :: "'v predicate list"
  shows
  "holeVals (tokPredicate d n p) = holeVals (tokPredicate d m p)"
  "holeVals (tokChild d n p) = holeVals (tokChild d m p)"
  "map holeVals (tokChildren d n ps) = map holeVals (tokChildren d m ps)"
proof (induction d n p and d n p and d n ps arbitrary: m and m and m
    rule: tokPredicate_tokChild_tokChildren.induct)
  case (8 d n c vs)
  then show ?case using holeVals_tokList [of n vs m] by simp
next
  case (9 d n c vs)
  then show ?case using holeVals_tokList [of n vs m] by simp
next
  case (19 d n fragment vs)
  then show ?case using holeVals_tokPieces [of n vs "pieces fragment" m] by simp
next
  case (16 d n ps)
  show ?case using "16.IH" [of m] by (simp add: holeVals_sepBy)
next
  case (17 d n ps)
  show ?case using "17.IH" [of m] by (simp add: holeVals_sepBy)
next
  case (18 d n p)
  show ?case using "18.IH" [of m] by simp
next
  case (21 d n p)
  show ?case
    using "21.IH"(1) [of m] "21.IH"(2) [of m] by (cases "isCompound p") simp_all
next
  case (23 d n p ps)
  show ?case
    using "23.IH"(1) [of m] "23.IH"(2) [of "m + length (predArgs p)"] by (simp del: tokChild.simps)
qed (simp_all add: tokCmp_def)

section \<open>Atoms, primaries and chains\<close>

text \<open>Texts that may follow a primary, an \<open>AND\<close> chain, an \<open>OR\<close> chain.\<close>

definition followPrim :: "'h tok list \<Rightarrow> bool" where
  "followPrim r \<longleftrightarrow> (case r of [] \<Rightarrow> True | t # _ \<Rightarrow> \<not> isAtomTok t)"

definition followAnd :: "'h tok list \<Rightarrow> bool" where
  "followAnd r \<longleftrightarrow> followPrim r \<and> (case r of [] \<Rightarrow> True | t # _ \<Rightarrow> t \<noteq> TAnd)"

definition followOr :: "'h tok list \<Rightarrow> bool" where
  "followOr r \<longleftrightarrow> followAnd r \<and> (case r of [] \<Rightarrow> True | t # _ \<Rightarrow> t \<noteq> TOr)"

lemmas follow_defs = followPrim_def followAnd_def followOr_def

lemma follow_simps [simp]:
  "followOr []" "followOr (TClose # r)" "followPrim (TAnd # r)" "followPrim (TOr # r)"
  "followAnd (TOr # r)"
  by (simp_all add: follow_defs)

text \<open>
  \<open>prim env b ts\<close>: with enough fuel the reader takes exactly \<open>ts\<close> as a primary of value
  \<open>b\<close>; \<open>andSeq\<close> and \<open>orSeq\<close> say it of an \<open>AND\<close> chain and of a whole expression.
\<close>

definition prim :: "('h tok list \<Rightarrow> bool) \<Rightarrow> bool \<Rightarrow> 'h tok list \<Rightarrow> bool" where
  "prim env b ts \<longleftrightarrow> ts \<noteq> [] \<and> hd ts \<noteq> TNot \<and>
     (\<forall>f r. 4 * length ts \<le> f + 3 \<longrightarrow> followPrim r \<longrightarrow> evalPrim f env (ts @ r) = Some (b, r))"

definition notSeq :: "('h tok list \<Rightarrow> bool) \<Rightarrow> bool \<Rightarrow> 'h tok list \<Rightarrow> bool" where
  "notSeq env b ts \<longleftrightarrow> ts \<noteq> [] \<and>
     (\<forall>f r. 4 * length ts \<le> f + 2 \<longrightarrow> followPrim r \<longrightarrow> evalNot f env (ts @ r) = Some (b, r))"

definition andSeq :: "('h tok list \<Rightarrow> bool) \<Rightarrow> bool \<Rightarrow> 'h tok list \<Rightarrow> bool" where
  "andSeq env b ts \<longleftrightarrow> ts \<noteq> [] \<and>
     (\<forall>f r. 4 * length ts \<le> f + 1 \<longrightarrow> followAnd r \<longrightarrow> evalAnd f env (ts @ r) = Some (b, r))"

definition orSeq :: "('h tok list \<Rightarrow> bool) \<Rightarrow> bool \<Rightarrow> 'h tok list \<Rightarrow> bool" where
  "orSeq env b ts \<longleftrightarrow> ts \<noteq> [] \<and>
     (\<forall>f r. 4 * length ts \<le> f \<longrightarrow> followOr r \<longrightarrow> evalOr f env (ts @ r) = Some (b, r))"

lemma orSeq_read: "orSeq env b ts \<Longrightarrow> 4 * length ts \<le> fuel \<Longrightarrow> evalOr fuel env ts = Some (b, [])"
  unfolding orSeq_def by (metis append_Nil2 follow_simps(1-3))

lemma takeWhile_follow:
  "list_all isAtomTok ts \<Longrightarrow> followPrim r \<Longrightarrow> takeWhile isAtomTok (ts @ r) = ts"
  by (induction ts) (auto simp: followPrim_def split: list.splits)

lemma dropWhile_follow:
  "list_all isAtomTok ts \<Longrightarrow> followPrim r \<Longrightarrow> dropWhile isAtomTok (ts @ r) = r"
  by (induction ts) (auto simp: followPrim_def split: list.splits)

lemma prim_atom:
  assumes "list_all isAtomTok ts" and "ts \<noteq> []"
  shows "prim env (env ts) ts"
  unfolding prim_def
proof (intro conjI allI impI)
  show "hd ts \<noteq> TNot" using assms by (cases ts) auto
next
  fix f :: nat and r :: "'a tok list"
  assume "4 * length ts \<le> f + 3" and r: "followPrim r"
  with assms(2) obtain g where f: "f = Suc g" by (cases f; cases ts) auto
  obtain t ts' where ts: "ts = t # ts'" "isAtomTok t" using assms by (cases ts) auto
  show "evalPrim f env (ts @ r) = Some (env ts, r)"
    using takeWhile_follow [OF assms(1) r] dropWhile_follow [OF assms(1) r] ts f
    by (cases t) auto
qed (use assms in auto)

lemma prim_parens:
  assumes "orSeq env b ts"
  shows "prim env b (TOpen # ts @ [TClose])"
  unfolding prim_def
proof (intro conjI allI impI)
  fix f :: nat and r :: "'a tok list"
  assume *: "4 * length (TOpen # ts @ [TClose]) \<le> f + 3"
  then obtain g where f: "f = Suc g" "4 * length ts \<le> g" by (cases f) auto
  then have "evalOr g env (ts @ TClose # r) = Some (b, TClose # r)"
    using assms by (simp add: orSeq_def)
  then show "evalPrim f env ((TOpen # ts @ [TClose]) @ r) = Some (b, r)" using f by simp
qed auto

lemma notSeq_prim:
  assumes "prim env b ts"
  shows "notSeq env b ts"
  unfolding notSeq_def
proof (intro conjI allI impI)
  fix f :: nat and r :: "'a tok list"
  assume *: "4 * length ts \<le> f + 2" and r: "followPrim r"
  obtain t ts' where ts: "ts = t # ts'" "t \<noteq> TNot" using assms by (cases ts) (auto simp: prim_def)
  with * obtain g where f: "f = Suc g" "4 * length ts \<le> g + 3" by (cases f) auto
  then have "evalPrim g env (ts @ r) = Some (b, r)" using assms r by (simp add: prim_def)
  then show "evalNot f env (ts @ r) = Some (b, r)" using f ts by (cases t) auto
qed (use assms in \<open>simp add: prim_def\<close>)

lemma notSeq_not:
  assumes "prim env b ts"
  shows "notSeq env (\<not> b) (TNot # ts)"
  unfolding notSeq_def
proof (intro conjI allI impI)
  fix f :: nat and r :: "'a tok list"
  assume *: "4 * length (TNot # ts) \<le> f + 2" and r: "followPrim r"
  then obtain g where f: "f = Suc g" "4 * length ts \<le> g + 2" by (cases f) auto
  then have "evalNot g env (ts @ r) = Some (b, r)"
    using notSeq_prim [OF assms] r by (simp add: notSeq_def)
  then show "evalNot f env ((TNot # ts) @ r) = Some (\<not> b, r)" using f by simp
qed simp

lemma andSeq_one:
  assumes "notSeq env b ts"
  shows "andSeq env b ts"
  unfolding andSeq_def
proof (intro conjI allI impI)
  fix f :: nat and r :: "'a tok list"
  assume *: "4 * length ts \<le> f + 1" and r: "followAnd r"
  have "ts \<noteq> []" using assms by (simp add: notSeq_def)
  with * obtain g where f: "f = Suc g" "4 * length ts \<le> g + 2" by (cases f; cases ts) auto
  then have "evalNot g env (ts @ r) = Some (b, r)" using assms r by (simp add: notSeq_def followAnd_def)
  then show "evalAnd f env (ts @ r) = Some (b, r)"
    using f r by (auto simp: followAnd_def split: list.splits tok.splits)
qed (use assms in \<open>simp add: notSeq_def\<close>)

lemma andSeq_cons:
  assumes "prim env b ts" and "andSeq env c us"
  shows "andSeq env (b \<and> c) (ts @ TAnd # us)"
  unfolding andSeq_def
proof (intro conjI allI impI)
  fix f :: nat and r :: "'a tok list"
  assume *: "4 * length (ts @ TAnd # us) \<le> f + 1" and r: "followAnd r"
  then obtain g where f: "f = Suc g" "4 * length ts \<le> g + 2" "4 * length us \<le> g + 1"
    by (cases f) auto
  have "evalNot g env (ts @ TAnd # us @ r) = Some (b, TAnd # us @ r)"
    using notSeq_prim [OF assms(1)] f by (simp add: notSeq_def)
  moreover have "evalAnd g env (us @ r) = Some (c, r)"
    using assms(2) f r by (simp add: andSeq_def)
  ultimately show "evalAnd f env ((ts @ TAnd # us) @ r) = Some (b \<and> c, r)" using f by simp
qed simp

lemma orSeq_one:
  assumes "andSeq env b ts"
  shows "orSeq env b ts"
  unfolding orSeq_def
proof (intro conjI allI impI)
  fix f :: nat and r :: "'a tok list"
  assume *: "4 * length ts \<le> f" and r: "followOr r"
  have "ts \<noteq> []" using assms by (simp add: andSeq_def)
  with * obtain g where f: "f = Suc g" "4 * length ts \<le> g + 1" by (cases f; cases ts) auto
  then have "evalAnd g env (ts @ r) = Some (b, r)" using assms r by (simp add: andSeq_def followOr_def)
  then show "evalOr f env (ts @ r) = Some (b, r)"
    using f r by (auto simp: followOr_def split: list.splits tok.splits)
qed (use assms in \<open>simp add: andSeq_def\<close>)

lemma orSeq_cons:
  assumes "prim env b ts" and "orSeq env c us"
  shows "orSeq env (b \<or> c) (ts @ TOr # us)"
  unfolding orSeq_def
proof (intro conjI allI impI)
  fix f :: nat and r :: "'a tok list"
  assume *: "4 * length (ts @ TOr # us) \<le> f" and r: "followOr r"
  then obtain g where f: "f = Suc g" "4 * length ts \<le> g + 1" "4 * length us \<le> g"
    by (cases f) auto
  have "evalAnd g env (ts @ TOr # us @ r) = Some (b, TOr # us @ r)"
    using andSeq_one [OF notSeq_prim [OF assms(1)]] f by (simp add: andSeq_def)
  moreover have "evalOr g env (us @ r) = Some (c, r)"
    using assms(2) f r by (simp add: orSeq_def)
  ultimately show "evalOr f env ((ts @ TOr # us) @ r) = Some (b \<or> c, r)" using f by simp
qed simp

lemma andSeq_sepBy:
  "tss \<noteq> [] \<Longrightarrow> list_all2 (prim env) bs tss \<Longrightarrow> andSeq env (list_all (\<lambda>b. b) bs) (sepBy [TAnd] tss)"
proof (induction tss arbitrary: bs)
  case (Cons ts tss)
  then obtain b bs' where bs: "bs = b # bs'" "prim env b ts" "list_all2 (prim env) bs' tss"
    by (auto simp: list_all2_Cons2)
  show ?case
  proof (cases "tss = []")
    case True
    then show ?thesis using bs andSeq_one [OF notSeq_prim] by simp
  next
    case False
    then show ?thesis using andSeq_cons [OF bs(2) Cons.IH [OF False bs(3)]] bs
      by (simp add: sepBy_Cons)
  qed
qed simp

lemma orSeq_sepBy:
  "tss \<noteq> [] \<Longrightarrow> list_all2 (prim env) bs tss \<Longrightarrow> orSeq env (list_ex (\<lambda>b. b) bs) (sepBy [TOr] tss)"
proof (induction tss arbitrary: bs)
  case (Cons ts tss)
  then obtain b bs' where bs: "bs = b # bs'" "prim env b ts" "list_all2 (prim env) bs' tss"
    by (auto simp: list_all2_Cons2)
  show ?case
  proof (cases "tss = []")
    case True
    then show ?thesis using bs orSeq_one [OF andSeq_one [OF notSeq_prim]] by simp
  next
    case False
    then show ?thesis using orSeq_cons [OF bs(2) Cons.IH [OF False bs(3)]] bs
      by (simp add: sepBy_Cons)
  qed
qed simp


section \<open>Rendered predicates read back with their meaning\<close>

text \<open>The reading of one atom's text, the two constants read as themselves.\<close>

definition readsAtoms :: "('v tok list \<Rightarrow> bool) \<Rightarrow> bool" where
  "readsAtoms env \<longleftrightarrow> env [TText ''TRUE''] \<and> \<not> env [TText ''FALSE'']"

lemma atom_toks:
  "\<not> isCompound p \<Longrightarrow> rawFree p \<Longrightarrow>
     list_all isAtomTok (holeVals (tokPredicate d n p)) \<and> holeVals (tokPredicate d n p) \<noteq> []"
proof -
  have "list_all isAtomTok (holeVals (tokList n vs))" for vs :: "'v list" and n
    using set_sepBy_subset [of "[TText '', '']" "map (\<lambda>i. [THole (vs ! i)]) [0..<length vs]"]
    by (auto simp: tokList_def holeVals_sepBy comp_def list_all_iff)
  then show "\<not> isCompound p \<Longrightarrow> rawFree p \<Longrightarrow> ?thesis"
    by (cases p) (auto simp: isCompound_def tokCmp_def)
qed

lemma atom_sem:
  assumes "\<not> isCompound p" and "rawFree p" and "readsAtoms env"
  shows "sem (\<lambda>a. env (atomToks d a)) p = env (holeVals (tokPredicate d n p))"
proof -
  have "holeVals (tokPredicate d n p) = atomToks d p"
    unfolding atomToks_def by (rule holeVals_tokPredicate)
  then show ?thesis using assms
    by (cases p) (auto simp: isCompound_def atomToks_def readsAtoms_def)
qed

lemma atom_prim:
  assumes "\<not> isCompound p" and "rawFree p" and "readsAtoms env"
  shows "prim env (sem (\<lambda>a. env (atomToks d a)) p) (holeVals (tokPredicate d n p))"
  using prim_atom [of "holeVals (tokPredicate d n p)" env] atom_toks [OF assms(1,2), of d n]
    atom_sem [OF assms, of d n]
  by simp

lemma orSeq_prim: "prim env b ts \<Longrightarrow> orSeq env b ts"
  by (intro orSeq_one andSeq_one notSeq_prim)

lemma constants_read:
  assumes "readsAtoms env"
  shows "orSeq env True [TText ''TRUE'']" and "orSeq env False [TText ''FALSE'']"
  using prim_atom [of "[TText ''TRUE'']" env] prim_atom [of "[TText ''FALSE'']" env] assms
  by (auto simp: readsAtoms_def intro: orSeq_prim)

lemma tokPredicate_reads:
  fixes p :: "'v predicate" and ps :: "'v predicate list"
  assumes env: "readsAtoms env"
  shows
  "rawFree p \<Longrightarrow> orSeq env (sem (\<lambda>a. env (atomToks d a)) p) (holeVals (tokPredicate d n p))"
  "rawFree p \<Longrightarrow> prim env (sem (\<lambda>a. env (atomToks d a)) p) (holeVals (tokChild d n p))"
  "list_all rawFree ps \<Longrightarrow>
     list_all2 (prim env) (map (sem (\<lambda>a. env (atomToks d a))) ps)
       (map holeVals (tokChildren d n ps))"
proof (induction d n p and d n p and d n ps rule: tokPredicate_tokChild_tokChildren.induct)
  case (16 d n ps)
  then show ?case
    using andSeq_sepBy [of "map holeVals (tokChildren d n ps)" env
        "map (sem (\<lambda>a. env (atomToks d a))) ps"] constants_read(1) [OF env]
    by (cases "ps = []") (simp_all add: holeVals_sepBy list_all_iff orSeq_one)
next
  case (17 d n ps)
  then show ?case
    using orSeq_sepBy [of "map holeVals (tokChildren d n ps)" env
        "map (sem (\<lambda>a. env (atomToks d a))) ps"] constants_read(2) [OF env]
    by (cases "ps = []") (simp_all add: holeVals_sepBy list_all_iff list_ex_iff)
next
  case (18 d n p)
  then show ?case by (auto intro!: orSeq_one andSeq_one notSeq_not)
next
  case (21 d n p)
  then show ?case
    by (cases "isCompound p") (auto intro: prim_parens atom_prim [OF _ _ env])
qed (auto simp del: tokPredicate.simps tokChild.simps sem.simps
       intro!: orSeq_prim atom_prim [OF _ _ env] simp: isCompound_def)

end
