(* ===== verification/SqlBuilders.thy ===== *)
theory SqlBuilders
  imports SqlBoolean
begin

text \<open>
  The statement builders of \<open>pack/internal/sqlbuild\<close>: \<open>select.go\<close>, \<open>insert.go\<close>,
  \<open>update.go\<close>, \<open>delete.go\<close>. A builder is a record; every clause method returns a changed
  copy (Go: \<open>clone\<close>, then set a field), which a HOL record update is. \<open>*int64\<close> limits are
  optional integers.
\<close>

section \<open>SELECT\<close>

record 'v selectBuilder =
  selTable :: table
  selJoins :: "'v joinSpec list"
  selDistinct :: bool
  selColumns :: "column list"
  selRaw :: "string list"
  selWhere :: "'v predicate"
  selGroupBy :: "column list"
  selHaving :: "'v predicate"
  selOrder :: "orderTerm list"
  selLimit :: "int option"
  selOffset :: "int option"
  selForUpdate :: bool
  selForShare :: bool
  selSkipLocked :: bool

definition Select :: "table \<Rightarrow> 'v selectBuilder" where
  "Select t = \<lparr> selTable = t, selJoins = [], selDistinct = False, selColumns = [], selRaw = [],
     selWhere = PredNone, selGroupBy = [], selHaving = PredNone, selOrder = [], selLimit = None,
     selOffset = None, selForUpdate = False, selForShare = False, selSkipLocked = False \<rparr>"

definition Columns :: "column list \<Rightarrow> 'v selectBuilder \<Rightarrow> 'v selectBuilder" where
  "Columns cols b = b\<lparr>selColumns := selColumns b @ cols\<rparr>"

definition SelectRaw :: "string \<Rightarrow> 'v selectBuilder \<Rightarrow> 'v selectBuilder" where
  "SelectRaw fragment b = b\<lparr>selRaw := selRaw b @ [fragment]\<rparr>"

definition Distinct :: "'v selectBuilder \<Rightarrow> 'v selectBuilder" where
  "Distinct b = b\<lparr>selDistinct := True\<rparr>"

definition Join :: "table \<Rightarrow> 'v predicate \<Rightarrow> 'v selectBuilder \<Rightarrow> 'v selectBuilder" where
  "Join t on b = b\<lparr>selJoins := selJoins b @ [\<lparr>jKind = InnerJoin, jTable = t, jOn = on\<rparr>]\<rparr>"

definition LeftJoinOn :: "table \<Rightarrow> 'v predicate \<Rightarrow> 'v selectBuilder \<Rightarrow> 'v selectBuilder" where
  "LeftJoinOn t on b = b\<lparr>selJoins := selJoins b @ [\<lparr>jKind = LeftJoin, jTable = t, jOn = on\<rparr>]\<rparr>"

definition Where :: "'v predicate \<Rightarrow> 'v selectBuilder \<Rightarrow> 'v selectBuilder" where
  "Where p b = b\<lparr>selWhere := andJoin (selWhere b) p\<rparr>"

definition GroupBy :: "column list \<Rightarrow> 'v selectBuilder \<Rightarrow> 'v selectBuilder" where
  "GroupBy cols b = b\<lparr>selGroupBy := selGroupBy b @ cols\<rparr>"

definition Having :: "'v predicate \<Rightarrow> 'v selectBuilder \<Rightarrow> 'v selectBuilder" where
  "Having p b = b\<lparr>selHaving := andJoin (selHaving b) p\<rparr>"

definition OrderBy :: "orderTerm list \<Rightarrow> 'v selectBuilder \<Rightarrow> 'v selectBuilder" where
  "OrderBy terms b = b\<lparr>selOrder := selOrder b @ terms\<rparr>"

definition Limit :: "int \<Rightarrow> 'v selectBuilder \<Rightarrow> 'v selectBuilder" where
  "Limit n b = b\<lparr>selLimit := Some n\<rparr>"

definition Offset :: "int \<Rightarrow> 'v selectBuilder \<Rightarrow> 'v selectBuilder" where
  "Offset n b = b\<lparr>selOffset := Some n\<rparr>"

definition ForUpdate :: "'v selectBuilder \<Rightarrow> 'v selectBuilder" where
  "ForUpdate b = b\<lparr>selForUpdate := True\<rparr>"

definition ForShare :: "'v selectBuilder \<Rightarrow> 'v selectBuilder" where
  "ForShare b = b\<lparr>selForShare := True\<rparr>"

definition SkipLocked :: "'v selectBuilder \<Rightarrow> 'v selectBuilder" where
  "SkipLocked b = b\<lparr>selSkipLocked := True\<rparr>"

fun renderJoins :: "dialect \<Rightarrow> 'v joinSpec list \<Rightarrow> 'v list \<Rightarrow> sqlError + string \<times> 'v list" where
  "renderJoins d [] args = Inr ([], args)"
| "renderJoins d (j # js) args =
     rbind (renderJoin d j args) (\<lambda>(s, args1).
       rbind (renderJoins d js args1) (\<lambda>(s', args2). Inr (s @ s', args2)))"

text \<open>An optional clause: nothing for the zero predicate.\<close>

definition renderClause ::
    "dialect \<Rightarrow> string \<Rightarrow> 'v predicate \<Rightarrow> 'v list \<Rightarrow> sqlError + string \<times> 'v list" where
  "renderClause d keyword p args =
     (if IsZero p then Inr ([], args)
      else rbind (renderPredicate d p args) (\<lambda>(s, args'). Inr (keyword @ s, args')))"

definition selectHead :: "dialect \<Rightarrow> 'v selectBuilder \<Rightarrow> string" where
  "selectHead d b =
     (let selectList = map (quoteColumn d) (selColumns b) @ selRaw b
      in ''SELECT '' @ (if selDistinct b then ''DISTINCT '' else [])
         @ (if selectList = [] then ''*'' else join '', '' selectList)
         @ '' FROM '' @ quoteTable d (selTable b))"

definition selectGroup :: "dialect \<Rightarrow> 'v selectBuilder \<Rightarrow> string" where
  "selectGroup d b =
     (if selGroupBy b \<noteq> [] then '' GROUP BY '' @ join '', '' (map (quoteColumn d) (selGroupBy b))
      else [])"

definition selectTail :: "dialect \<Rightarrow> 'v selectBuilder \<Rightarrow> string" where
  "selectTail d b =
     (if selOrder b \<noteq> [] then '' ORDER BY '' @ join '', '' (map (renderOrderTerm d) (selOrder b))
      else [])
     @ (case selLimit b of Some n \<Rightarrow> '' LIMIT '' @ formatInt n | None \<Rightarrow> [])
     @ (case selOffset b of Some n \<Rightarrow> '' OFFSET '' @ formatInt n | None \<Rightarrow> [])
     @ (if selForUpdate b then '' FOR UPDATE'' else if selForShare b then '' FOR SHARE'' else [])
     @ (if selSkipLocked b then '' SKIP LOCKED'' else [])"

definition renderSelect :: "dialect \<Rightarrow> 'v selectBuilder \<Rightarrow> sqlError + string \<times> 'v list" where
  "renderSelect d b =
     (if selForUpdate b \<and> selForShare b then Inl ErrConflictingLockClause
      else if selSkipLocked b \<and> \<not> selForUpdate b \<and> \<not> selForShare b
        then Inl ErrSkipLockedRequiresLockClause
      else if (selForUpdate b \<or> selForShare b) \<and> \<not> SupportsRowLocking d
        then Inl (ErrRowLockingUnsupportedByDialect (Name d))
      else
        rbind (renderJoins d (selJoins b) []) (\<lambda>(joinSQL, args1).
        rbind (renderClause d '' WHERE '' (selWhere b) args1) (\<lambda>(whereSQL, args2).
        rbind (renderClause d '' HAVING '' (selHaving b) args2) (\<lambda>(havingSQL, args3).
          Inr (selectHead d b @ joinSQL @ whereSQL @ selectGroup d b @ havingSQL @ selectTail d b,
               args3)))))"

section \<open>INSERT\<close>

record 'v insertBuilder =
  insTable :: table
  insRows :: "'v assignment list list"
  insReturning :: "column list"
  insConflictCols :: "column list"
  insConflictDoNothing :: bool
  insConflictUpdate :: "'v assignment list"

definition Insert :: "table \<Rightarrow> 'v insertBuilder" where
  "Insert t = \<lparr> insTable = t, insRows = [], insReturning = [], insConflictCols = [],
     insConflictDoNothing = False, insConflictUpdate = [] \<rparr>"

definition Values :: "'v assignment list \<Rightarrow> 'v insertBuilder \<Rightarrow> 'v insertBuilder" where
  "Values a b = b\<lparr>insRows := insRows b @ [a]\<rparr>"

definition Returning :: "column list \<Rightarrow> 'v insertBuilder \<Rightarrow> 'v insertBuilder" where
  "Returning cols b = b\<lparr>insReturning := insReturning b @ cols\<rparr>"

definition OnConflictDoNothing :: "column list \<Rightarrow> 'v insertBuilder \<Rightarrow> 'v insertBuilder" where
  "OnConflictDoNothing cols b =
     b\<lparr>insConflictCols := cols, insConflictDoNothing := True, insConflictUpdate := []\<rparr>"

definition OnConflictDoUpdate ::
    "column list \<Rightarrow> 'v assignment list \<Rightarrow> 'v insertBuilder \<Rightarrow> 'v insertBuilder" where
  "OnConflictDoUpdate cols assignments b =
     b\<lparr>insConflictCols := cols, insConflictDoNothing := False, insConflictUpdate := assignments\<rparr>"

text \<open>One value of a row, one row, all rows.\<close>

definition renderValue :: "dialect \<Rightarrow> 'v assignment \<Rightarrow> 'v list \<Rightarrow> sqlError + string \<times> 'v list" where
  "renderValue d a args =
     (case a of
        SetExpr c raw rawArgs \<Rightarrow> renderRawFragment d raw rawArgs args
      | SetVal c v \<Rightarrow> Inr (bindArg d v args))"

text \<open>The loops over a row, over the rows, over assignments: render each, left to right.\<close>

fun renderAll ::
    "('a \<Rightarrow> 'v list \<Rightarrow> sqlError + string \<times> 'v list) \<Rightarrow> 'a list \<Rightarrow> 'v list
       \<Rightarrow> sqlError + string list \<times> 'v list" where
  "renderAll f [] args = Inr ([], args)"
| "renderAll f (x # xs) args =
     rbind (f x args) (\<lambda>(s, args1).
       rbind (renderAll f xs args1) (\<lambda>(ss, args2). Inr (s # ss, args2)))"

definition renderRow :: "dialect \<Rightarrow> 'v assignment list \<Rightarrow> 'v list \<Rightarrow> sqlError + string \<times> 'v list" where
  "renderRow d row args =
     rbind (renderAll (renderValue d) row args)
       (\<lambda>(vals, args'). Inr (''('' @ join '', '' vals @ '')'', args'))"

definition renderRows :: "dialect \<Rightarrow> 'v insertBuilder \<Rightarrow> sqlError + string \<times> 'v list" where
  "renderRows d b =
     (case insRows b of
        [] \<Rightarrow> Inr ([], [])
      | row # _ \<Rightarrow>
          rbind (renderAll (renderRow d) (insRows b) [])
            (\<lambda>(rowStrs, args).
               Inr ('' ('' @ join '', '' (map (\<lambda>a. QuoteIdent d (colName (asgCol a))) row)
                      @ '') VALUES '' @ join '', '' rowStrs, args)))"

definition renderSets :: "dialect \<Rightarrow> 'v assignment list \<Rightarrow> 'v list \<Rightarrow> sqlError + string \<times> 'v list" where
  "renderSets d as args =
     rbind (renderAll (renderAssignment d) as args) (\<lambda>(sets, args'). Inr (join '', '' sets, args'))"

definition mysqlStyleConflict :: "dialect \<Rightarrow> 'v insertBuilder \<Rightarrow> bool" where
  "mysqlStyleConflict d b \<longleftrightarrow> insConflictCols b \<noteq> [] \<and> \<not> SupportsOnConflict d"

definition renderConflict :: "dialect \<Rightarrow> 'v insertBuilder \<Rightarrow> 'v list \<Rightarrow> sqlError + string \<times> 'v list" where
  "renderConflict d b args =
     (if insConflictCols b \<noteq> [] \<and> \<not> mysqlStyleConflict d b then
        (let head = '' ON CONFLICT ('' @ join '', '' (map (\<lambda>c. QuoteIdent d (colName c)) (insConflictCols b)) @ '')''
         in if insConflictDoNothing b then Inr (head @ '' DO NOTHING'', args)
            else rbind (renderSets d (insConflictUpdate b) args)
                   (\<lambda>(s, args'). Inr (head @ '' DO UPDATE SET '' @ s, args')))
      else if mysqlStyleConflict d b \<and> \<not> insConflictDoNothing b then
        rbind (renderSets d (insConflictUpdate b) args)
          (\<lambda>(s, args'). Inr ('' ON DUPLICATE KEY UPDATE '' @ s, args'))
      else Inr ([], args))"

definition renderReturning :: "dialect \<Rightarrow> 'v insertBuilder \<Rightarrow> string" where
  "renderReturning d b =
     (if insReturning b \<noteq> [] then '' RETURNING '' @ join '', '' (map (quoteColumn d) (insReturning b))
      else [])"

definition renderInsert :: "dialect \<Rightarrow> 'v insertBuilder \<Rightarrow> sqlError + string \<times> 'v list" where
  "renderInsert d b =
     (if insReturning b \<noteq> [] \<and> \<not> SupportsReturning d
      then Inl (ErrReturningUnsupportedByDialect (Name d))
      else
        rbind (renderRows d b) (\<lambda>(rowsSQL, args1).
        rbind (renderConflict d b args1) (\<lambda>(conflictSQL, args2).
          Inr ((if mysqlStyleConflict d b \<and> insConflictDoNothing b then ''INSERT IGNORE INTO ''
                else ''INSERT INTO '')
               @ QuoteIdent d (tblName (insTable b)) @ rowsSQL @ conflictSQL @ renderReturning d b,
               args2))))"

section \<open>UPDATE and DELETE\<close>

record 'v updateBuilder =
  updTable :: table
  updAssignments :: "'v assignment list"
  updWhere :: "'v predicate"

definition Update :: "table \<Rightarrow> 'v updateBuilder" where
  "Update t = \<lparr>updTable = t, updAssignments = [], updWhere = PredNone\<rparr>"

definition UpdateSet :: "'v assignment list \<Rightarrow> 'v updateBuilder \<Rightarrow> 'v updateBuilder" where
  "UpdateSet a b = b\<lparr>updAssignments := updAssignments b @ a\<rparr>"

definition UpdateWhere :: "'v predicate \<Rightarrow> 'v updateBuilder \<Rightarrow> 'v updateBuilder" where
  "UpdateWhere p b = b\<lparr>updWhere := andJoin (updWhere b) p\<rparr>"

definition renderUpdate :: "dialect \<Rightarrow> 'v updateBuilder \<Rightarrow> sqlError + string \<times> 'v list" where
  "renderUpdate d b =
     rbind (renderSets d (updAssignments b) []) (\<lambda>(sets, args1).
     rbind (renderClause d '' WHERE '' (updWhere b) args1) (\<lambda>(whereSQL, args2).
       Inr (''UPDATE '' @ quoteTable d (updTable b) @ '' SET '' @ sets @ whereSQL, args2)))"

record 'v deleteBuilder =
  delTable :: table
  delWhere :: "'v predicate"

definition Delete :: "table \<Rightarrow> 'v deleteBuilder" where
  "Delete t = \<lparr>delTable = t, delWhere = PredNone\<rparr>"

definition DeleteWhere :: "'v predicate \<Rightarrow> 'v deleteBuilder \<Rightarrow> 'v deleteBuilder" where
  "DeleteWhere p b = b\<lparr>delWhere := andJoin (delWhere b) p\<rparr>"

definition renderDelete :: "dialect \<Rightarrow> 'v deleteBuilder \<Rightarrow> sqlError + string \<times> 'v list" where
  "renderDelete d b =
     rbind (renderClause d '' WHERE '' (delWhere b) []) (\<lambda>(whereSQL, args).
       Inr (''DELETE FROM '' @ quoteTable d (delTable b) @ whereSQL, args))"

section \<open>Chained conditions\<close>

lemma sem_andJoin: "sem I (andJoin a p) \<longleftrightarrow> sem I a \<and> sem I p"
  by (auto simp: andJoin_def IsZero_def split: predicate.splits)

lemma rawFree_andJoin: "rawFree a \<Longrightarrow> rawFree p \<Longrightarrow> rawFree (andJoin a p)"
  by (simp add: andJoin_def)

lemma sem_fold_Where:
  "sem I (selWhere (fold Where ps b)) \<longleftrightarrow> sem I (selWhere b) \<and> list_all (sem I) ps"
  by (induction ps arbitrary: b) (auto simp: Where_def sem_andJoin)

lemma rawFree_fold_Where:
  "rawFree (selWhere b) \<Longrightarrow> list_all rawFree ps \<Longrightarrow> rawFree (selWhere (fold Where ps b))"
  by (induction ps arbitrary: b) (auto simp: Where_def rawFree_andJoin)

end
