(* ===== verification/SqlStatements.thy ===== *)
theory SqlStatements
  imports SqlBuilders
begin

text \<open>
  Token forms of whole statements, and the guarantees of the renderer carried to them.
  A rendering function \<open>f\<close> from argument list to text and argument list is described by
  \<open>renders d f err tk vs\<close>: it fails with \<open>err\<close>, or writes the tokens \<open>tk n\<close> (\<open>n\<close> arguments
  being bound before) and appends \<open>vs\<close>, and every hole of the tokens is bound to its value.
  \<open>renders\<close> is closed under the ways the statements put clauses together.
\<close>

section \<open>Composing renderers\<close>

definition renders ::
    "dialect \<Rightarrow> ('v list \<Rightarrow> sqlError + string \<times> 'v list) \<Rightarrow> sqlError option
       \<Rightarrow> (nat \<Rightarrow> 'v hole tok list) \<Rightarrow> 'v list \<Rightarrow> bool" where
  "renders d f err tk vs \<longleftrightarrow>
     (\<forall>args. f args = rendered d err (tk (length args)) (args @ vs)) \<and>
     (err = None \<longrightarrow> (\<forall>pre post. holesOk (pre @ vs @ post) (tk (length pre))))"

fun orErr :: "sqlError option \<Rightarrow> sqlError option \<Rightarrow> sqlError option" where
  "orErr (Some e) _ = Some e"
| "orErr None e = e"

lemma orErr_None [simp]: "orErr a b = None \<longleftrightarrow> a = None \<and> b = None"
  by (cases a) auto

lemma renders_apply: "renders d f err tk vs \<Longrightarrow> f args = rendered d err (tk (length args)) (args @ vs)"
  by (simp add: renders_def)

lemma renders_holes:
  "renders d f None tk vs \<Longrightarrow> holesOk (pre @ vs @ post) (tk (length pre))"
  by (simp add: renders_def)

lemma renders_text: "renders d (\<lambda>args. Inr (s, args)) None (\<lambda>n. [TText s]) []"
  by (simp add: renders_def)

lemma renders_predicate:
  "renders d (renderPredicate d p) (predErr d p) (\<lambda>n. tokPredicate d n p) (predArgs p)"
  by (simp add: renders_def render_tokens holesOk_tokPredicate)

lemma renders_raw:
  "renders d (renderRawFragment d fragment vs) (pieceErr fragment (length vs) (pieces fragment))
     (\<lambda>n. tokPieces n vs (pieces fragment)) vs"
  by (simp add: renders_def renderRawFragment_tokens rendered_def holesOk_tokPieces)

lemma renders_bindArg:
  "renders d (\<lambda>args. Inr (bindArg d v args)) None (\<lambda>n. [THole (v, Suc n)]) [v]"
  by (simp add: renders_def bindArg_def)

text \<open>Text added around what a renderer writes, and two renderers one after the other.\<close>

lemma renders_wrap:
  assumes "renders d f err tk vs"
  shows "renders d (\<lambda>args. rbind (f args) (\<lambda>(s, args'). Inr (pre @ s @ post, args')))
           err (\<lambda>n. TText pre # tk n @ [TText post]) vs"
  using assms by (cases err) (auto simp: renders_def)

lemma renders_before:
  assumes "renders d f err tk vs"
  shows "renders d (\<lambda>args. rbind (f args) (\<lambda>(s, args'). Inr (pre @ s, args')))
           err (\<lambda>n. TText pre # tk n) vs"
  using assms by (cases err) (auto simp: renders_def)

lemma renders_seq:
  assumes f: "renders d f e1 t1 v1" and g: "renders d g e2 t2 v2"
  shows "renders d
           (\<lambda>args. rbind (f args) (\<lambda>(s, args1). rbind (g args1) (\<lambda>(s', args2). Inr (s @ s', args2))))
           (orErr e1 e2) (\<lambda>n. t1 n @ t2 (n + length v1)) (v1 @ v2)"
proof (cases "e1 = None \<and> e2 = None")
  case True
  have "holesOk (pre @ (v1 @ v2) @ post) (t2 (length pre + length v1))" for pre post
    using renders_holes [of d g t2 v2 "pre @ v1" post] g True by simp
  then show ?thesis using f g True by (simp add: renders_def)
next
  case False
  then show ?thesis using f g by (cases e1; cases e2) (auto simp: renders_def)
qed

section \<open>Lists of parts\<close>

fun tokAll :: "('a \<Rightarrow> nat \<Rightarrow> 'v hole tok list) \<Rightarrow> ('a \<Rightarrow> 'v list) \<Rightarrow> nat \<Rightarrow> 'a list
    \<Rightarrow> 'v hole tok list list" where
  "tokAll tk vs n [] = []"
| "tokAll tk vs n (x # xs) = tk x n # tokAll tk vs (n + length (vs x)) xs"

lemma renderAll_tokens:
  assumes "\<And>x. renders d (f x) (err x) (tk x) (vs x)"
  shows "renderAll f xs args =
     (case firstErr (map err xs) of
        Some e \<Rightarrow> Inl e
      | None \<Rightarrow> Inr (map (flatten d) (tokAll tk vs (length args) xs), args @ concat (map vs xs)))"
proof (induction xs arbitrary: args)
  case (Cons x xs)
  show ?case
    using Cons renders_apply [OF assms, of x args]
    by (cases "err x") (auto simp del: firstErr_None split: option.splits)
qed simp

lemma holesOk_tokAll:
  assumes "\<And>x. renders d (f x) (err x) (tk x) (vs x)" and "list_all (\<lambda>x. err x = None) xs"
  shows "list_all (holesOk (pre @ concat (map vs xs) @ post)) (tokAll tk vs (length pre) xs)"
  using assms(2)
proof (induction xs arbitrary: pre)
  case (Cons x xs)
  then have "err x = None" by simp
  then have "holesOk (pre @ vs x @ (concat (map vs xs) @ post)) (tk x (length pre))"
    using renders_holes [of d "f x" "tk x" "vs x"] assms(1) [of x] by simp
  moreover have "list_all (holesOk ((pre @ vs x) @ concat (map vs xs) @ post))
      (tokAll tk vs (length (pre @ vs x)) xs)"
    using Cons.prems by (intro Cons.IH) simp
  ultimately show ?case by simp
qed simp

lemma renders_all:
  assumes "\<And>x. renders d (f x) (err x) (tk x) (vs x)"
  shows "renders d
           (\<lambda>args. rbind (renderAll f xs args) (\<lambda>(ss, args'). Inr (join sep ss, args')))
           (firstErr (map err xs)) (\<lambda>n. sepBy [TText sep] (tokAll tk vs n xs))
           (concat (map vs xs))"
proof (cases "firstErr (map err xs)")
  case None
  then have "list_all (\<lambda>x. err x = None) xs" by (simp add: list_all_iff)
  then have "holesOk (pre @ concat (map vs xs) @ post)
      (sepBy [TText sep] (tokAll tk vs (length pre) xs))" for pre post
    using holesOk_tokAll [OF assms] by (simp add: holesOk_sepBy)
  with None show ?thesis
    by (simp add: renders_def flatten_sepBy renderAll_tokens [OF assms] del: firstErr_None)
next
  case (Some e)
  then show ?thesis by (simp add: renders_def renderAll_tokens [OF assms])
qed

section \<open>Assignments, rows, joins and clauses\<close>

fun assignArgs :: "'v assignment \<Rightarrow> 'v list" where
  "assignArgs (SetVal c v) = [v]"
| "assignArgs (SetExpr c raw vs) = vs"

fun assignErr :: "'v assignment \<Rightarrow> sqlError option" where
  "assignErr (SetVal c v) = None"
| "assignErr (SetExpr c raw vs) = pieceErr raw (length vs) (pieces raw)"

fun tokValue :: "'v assignment \<Rightarrow> nat \<Rightarrow> 'v hole tok list" where
  "tokValue (SetVal c v) n = [THole (v, Suc n)]"
| "tokValue (SetExpr c raw vs) n = tokPieces n vs (pieces raw)"

definition tokAssign :: "dialect \<Rightarrow> 'v assignment \<Rightarrow> nat \<Rightarrow> 'v hole tok list" where
  "tokAssign d a n = TText (QuoteIdent d (colName (asgCol a)) @ '' = '') # tokValue a n"

lemma renders_value: "renders d (renderValue d a) (assignErr a) (tokValue a) (assignArgs a)"
proof (cases a)
  case (SetVal c v)
  have "renderValue d a = (\<lambda>args. Inr (bindArg d v args))"
    by (simp add: SetVal renderValue_def fun_eq_iff)
  moreover have "tokValue a = (\<lambda>n. [THole (v, Suc n)])"
    by (simp add: SetVal fun_eq_iff)
  ultimately show ?thesis using SetVal renders_bindArg [of d v] by simp
next
  case (SetExpr c raw vs)
  have "renderValue d a = renderRawFragment d raw vs" "tokValue a = (\<lambda>n. tokPieces n vs (pieces raw))"
    by (simp_all add: SetExpr renderValue_def fun_eq_iff)
  then show ?thesis using SetExpr renders_raw [of d raw vs] by simp
qed

lemma renders_assign: "renders d (renderAssignment d a) (assignErr a) (tokAssign d a) (assignArgs a)"
proof -
  have "renderAssignment d a = (\<lambda>args. rbind (renderValue d a args)
          (\<lambda>(s, args'). Inr ((QuoteIdent d (colName (asgCol a)) @ '' = '') @ s, args')))"
    by (auto simp: fun_eq_iff renderAssignment_def renderValue_def bindArg_def split: assignment.splits)
  moreover have "tokAssign d a = (\<lambda>n. TText (QuoteIdent d (colName (asgCol a)) @ '' = '') # tokValue a n)"
    by (simp add: fun_eq_iff tokAssign_def)
  ultimately show ?thesis
    using renders_before [OF renders_value [of d a], of "QuoteIdent d (colName (asgCol a)) @ '' = ''"]
    by simp
qed

definition tokSets :: "dialect \<Rightarrow> 'v assignment list \<Rightarrow> nat \<Rightarrow> 'v hole tok list" where
  "tokSets d as n = sepBy [TText '', ''] (tokAll (tokAssign d) assignArgs n as)"

definition setsArgs :: "'v assignment list \<Rightarrow> 'v list" where
  "setsArgs as = concat (map assignArgs as)"

definition setsErr :: "'v assignment list \<Rightarrow> sqlError option" where
  "setsErr as = firstErr (map assignErr as)"

lemma renders_sets: "renders d (renderSets d as) (setsErr as) (tokSets d as) (setsArgs as)"
  using renders_all [of d "renderAssignment d" assignErr "tokAssign d" assignArgs as "'', ''",
      OF renders_assign]
  unfolding renderSets_def [abs_def] tokSets_def [abs_def] setsArgs_def setsErr_def .

definition tokRow :: "'v assignment list \<Rightarrow> nat \<Rightarrow> 'v hole tok list" where
  "tokRow row n = TText ''('' # sepBy [TText '', ''] (tokAll tokValue assignArgs n row) @ [TText '')'']"

lemma renders_row: "renders d (renderRow d row) (setsErr row) (tokRow row) (setsArgs row)"
proof -
  have "renderRow d row = (\<lambda>args. rbind (rbind (renderAll (renderValue d) row args)
          (\<lambda>(ss, args'). Inr (join '', '' ss, args'))) (\<lambda>(s, args'). Inr (''('' @ s @ '')'', args')))"
    by (auto simp: fun_eq_iff renderRow_def rbind_def split: sum.splits)
  moreover have "tokRow row = (\<lambda>n. TText ''('' #
      sepBy [TText '', ''] (tokAll tokValue assignArgs n row) @ [TText '')''])"
    by (simp add: fun_eq_iff tokRow_def)
  ultimately show ?thesis
    using renders_wrap [OF renders_all [of d "renderValue d" assignErr tokValue assignArgs row "'', ''",
        OF renders_value], of "''(''" "'')''"]
    unfolding setsErr_def setsArgs_def by simp
qed

definition tokClause :: "dialect \<Rightarrow> string \<Rightarrow> 'v predicate \<Rightarrow> nat \<Rightarrow> 'v hole tok list" where
  "tokClause d keyword p n = (if IsZero p then [] else TText keyword # tokPredicate d n p)"

lemma renders_clause:
  "renders d (renderClause d keyword p) (predErr d p) (tokClause d keyword p) (predArgs p)"
proof (cases "IsZero p")
  case True
  then have "p = PredNone" by (simp add: IsZero_def split: predicate.splits)
  then show ?thesis by (simp add: renders_def renderClause_def tokClause_def IsZero_def)
next
  case False
  then show ?thesis
    using renders_before [OF renders_predicate [of d p], of keyword]
    by (simp add: renderClause_def [abs_def] tokClause_def [abs_def])
qed

definition tokJoin :: "dialect \<Rightarrow> 'v joinSpec \<Rightarrow> nat \<Rightarrow> 'v hole tok list" where
  "tokJoin d j n =
     TText ((if jKind j = LeftJoin then '' LEFT JOIN '' else '' JOIN '') @ quoteTable d (jTable j) @ '' ON '')
       # tokPredicate d n (jOn j)"

lemma renders_join: "renders d (renderJoin d j) (predErr d (jOn j)) (tokJoin d j) (predArgs (jOn j))"
  using renders_before [OF renders_predicate [of d "jOn j"],
      of "(if jKind j = LeftJoin then '' LEFT JOIN '' else '' JOIN '') @ quoteTable d (jTable j) @ '' ON ''"]
  unfolding renderJoin_def [abs_def] tokJoin_def [abs_def] append_assoc .

fun tokJoins :: "dialect \<Rightarrow> 'v joinSpec list \<Rightarrow> nat \<Rightarrow> 'v hole tok list" where
  "tokJoins d [] n = []"
| "tokJoins d (j # js) n = tokJoin d j n @ tokJoins d js (n + length (predArgs (jOn j)))"

fun joinsErr :: "dialect \<Rightarrow> 'v joinSpec list \<Rightarrow> sqlError option" where
  "joinsErr d [] = None"
| "joinsErr d (j # js) = orErr (predErr d (jOn j)) (joinsErr d js)"

definition joinsArgs :: "'v joinSpec list \<Rightarrow> 'v list" where
  "joinsArgs js = concat (map (\<lambda>j. predArgs (jOn j)) js)"

lemma renders_joins: "renders d (renderJoins d js) (joinsErr d js) (tokJoins d js) (joinsArgs js)"
proof (induction js)
  case Nil
  then show ?case by (simp add: renders_def joinsArgs_def)
next
  case (Cons j js)
  have "renderJoins d (j # js) = (\<lambda>args. rbind (renderJoin d j args) (\<lambda>(s, args1).
          rbind (renderJoins d js args1) (\<lambda>(s', args2). Inr (s @ s', args2))))"
    "tokJoins d (j # js) = (\<lambda>n. tokJoin d j n @ tokJoins d js (n + length (predArgs (jOn j))))"
    by (simp_all add: fun_eq_iff)
  then show ?case using renders_seq [OF renders_join [of d j] Cons]
    by (simp add: joinsArgs_def)
qed

section \<open>Consecutive placeholders\<close>

text \<open>The holes of a part are numbered consecutively from the number of bound arguments on.\<close>

definition inOrder :: "(nat \<Rightarrow> 'v hole tok list) \<Rightarrow> 'v list \<Rightarrow> bool" where
  "inOrder tk vs \<longleftrightarrow> (\<forall>n. map snd (holesOf (tk n)) = [Suc n..<Suc (n + length vs)])"

lemma inOrder_apply: "inOrder tk vs \<Longrightarrow> map snd (holesOf (tk n)) = [Suc n..<Suc (n + length vs)]"
  by (simp add: inOrder_def)

lemma inOrder_seq:
  assumes "inOrder t1 v1" and "inOrder t2 v2"
  shows "inOrder (\<lambda>n. t1 n @ t2 (n + length v1)) (v1 @ v2)"
  unfolding inOrder_def
proof
  fix n
  show "map snd (holesOf (t1 n @ t2 (n + length v1))) = [Suc n..<Suc (n + length (v1 @ v2))]"
    using assms upt_add_eq_append [of "Suc n" "Suc (n + length v1)" "length v2"]
    by (simp add: inOrder_def add.assoc del: upt_Suc)
qed

lemma inOrder_all:
  assumes "\<And>x. x \<in> set xs \<Longrightarrow> inOrder (tk x) (vs x)" and "holesOf sep = []"
  shows "inOrder (\<lambda>n. sepBy sep (tokAll tk vs n xs)) (concat (map vs xs))"
proof -
  have "map snd (concat (map holesOf (tokAll tk vs n xs))) = [Suc n..<Suc (n + length (concat (map vs xs)))]"
    if "\<forall>x \<in> set xs. inOrder (tk x) (vs x)" for n using that
  proof (induction xs arbitrary: n)
    case (Cons x xs)
    then show ?case
      using upt_add_eq_append [of "Suc n" "Suc (n + length (vs x))" "length (concat (map vs xs))"]
      by (simp add: inOrder_def add.assoc del: upt_Suc)
  qed simp
  then show ?thesis using assms by (simp add: inOrder_def holesOf_sepBy)
qed

lemma inOrder_clause: "rawInOrder p \<Longrightarrow> inOrder (tokClause d keyword p) (predArgs p)"
proof -
  assume "rawInOrder p"
  moreover have "IsZero p \<Longrightarrow> predArgs p = []"
    by (auto simp: IsZero_def split: predicate.splits)
  ultimately show ?thesis
    by (simp add: inOrder_def tokClause_def holes_tokPredicate(1) del: upt_Suc)
qed

fun assignInOrder :: "'v assignment \<Rightarrow> bool" where
  "assignInOrder (SetVal c v) = True"
| "assignInOrder (SetExpr c raw vs) = fragInOrder raw vs"

lemma inOrder_value: "assignInOrder a \<Longrightarrow> inOrder (tokValue a) (assignArgs a)"
proof (cases a)
  case (SetExpr c raw vs)
  moreover assume "assignInOrder a"
  ultimately show ?thesis
    by (simp add: inOrder_def holes_tokPieces fragInOrder_def map_add_upt_Suc del: upt_Suc)
qed (simp add: inOrder_def upt_short del: upt_Suc)

lemma inOrder_assign: "assignInOrder a \<Longrightarrow> inOrder (tokAssign d a) (assignArgs a)"
  using inOrder_value [of a] by (simp add: inOrder_def tokAssign_def)

lemma inOrder_joins:
  "list_all (\<lambda>j. rawInOrder (jOn j)) js \<Longrightarrow> inOrder (tokJoins d js) (joinsArgs js)"
proof (induction js)
  case (Cons j js)
  have "inOrder (tokJoin d j) (predArgs (jOn j))"
    using Cons.prems by (simp add: inOrder_def tokJoin_def holes_tokPredicate(1) del: upt_Suc)
  moreover have "tokJoins d (j # js) = (\<lambda>n. tokJoin d j n @ tokJoins d js (n + length (predArgs (jOn j))))"
    by (simp add: fun_eq_iff)
  ultimately show ?case using Cons inOrder_seq [of "tokJoin d j" "predArgs (jOn j)" "tokJoins d js"]
    by (simp add: joinsArgs_def)
qed (simp add: inOrder_def joinsArgs_def)

section \<open>Whole statements\<close>

definition selectArgs :: "'v selectBuilder \<Rightarrow> 'v list" where
  "selectArgs b = joinsArgs (selJoins b) @ predArgs (selWhere b) @ predArgs (selHaving b)"

definition tokSelect :: "dialect \<Rightarrow> 'v selectBuilder \<Rightarrow> 'v hole tok list" where
  "tokSelect d b =
     (let n1 = length (joinsArgs (selJoins b)); n2 = n1 + length (predArgs (selWhere b))
      in [TText (selectHead d b)] @ tokJoins d (selJoins b) 0
         @ tokClause d '' WHERE '' (selWhere b) n1 @ [TText (selectGroup d b)]
         @ tokClause d '' HAVING '' (selHaving b) n2 @ [TText (selectTail d b)])"

definition lockErr :: "dialect \<Rightarrow> 'v selectBuilder \<Rightarrow> sqlError option" where
  "lockErr d b =
     (if selForUpdate b \<and> selForShare b then Some ErrConflictingLockClause
      else if selSkipLocked b \<and> \<not> selForUpdate b \<and> \<not> selForShare b
        then Some ErrSkipLockedRequiresLockClause
      else if (selForUpdate b \<or> selForShare b) \<and> \<not> SupportsRowLocking d
        then Some (ErrRowLockingUnsupportedByDialect (Name d))
      else None)"

definition selectErr :: "dialect \<Rightarrow> 'v selectBuilder \<Rightarrow> sqlError option" where
  "selectErr d b = orErr (lockErr d b) (orErr (joinsErr d (selJoins b))
     (orErr (predErr d (selWhere b)) (predErr d (selHaving b))))"

lemma renderSelect_tokens:
  "renderSelect d b = rendered d (selectErr d b) (tokSelect d b) (selectArgs b)"
proof (cases "lockErr d b")
  case None
  let ?ej = "joinsErr d (selJoins b)" and ?ew = "predErr d (selWhere b)"
  have "renderSelect d b =
    rbind (renderJoins d (selJoins b) []) (\<lambda>(joinSQL, args1).
    rbind (renderClause d '' WHERE '' (selWhere b) args1) (\<lambda>(whereSQL, args2).
    rbind (renderClause d '' HAVING '' (selHaving b) args2) (\<lambda>(havingSQL, args3).
      Inr (selectHead d b @ joinSQL @ whereSQL @ selectGroup d b @ havingSQL @ selectTail d b, args3))))"
    using None by (auto simp: renderSelect_def lockErr_def split: if_splits)
  with None show ?thesis
    by (cases ?ej; cases ?ew; cases "predErr d (selHaving b)")
       (simp_all add: selectErr_def tokSelect_def selectArgs_def Let_def
         renders_apply [OF renders_joins] renders_apply [OF renders_clause])
qed (auto simp: renderSelect_def lockErr_def selectErr_def split: if_splits)

lemma holesOk_select: "selectErr d b = None \<Longrightarrow> holesOk (selectArgs b) (tokSelect d b)"
proof -
  assume "selectErr d b = None"
  then have e: "joinsErr d (selJoins b) = None" "predErr d (selWhere b) = None"
      "predErr d (selHaving b) = None"
    by (simp_all add: selectErr_def)
  let ?j = "joinsArgs (selJoins b)" and ?w = "predArgs (selWhere b)" and ?h = "predArgs (selHaving b)"
  have "holesOk (?j @ ?w @ ?h) (tokJoins d (selJoins b) 0)"
    using renders_holes [of d _ _ ?j "[]"] renders_joins [of d "selJoins b"] e(1) by fastforce
  moreover have "holesOk (?j @ ?w @ ?h) (tokClause d '' WHERE '' (selWhere b) (length ?j))"
    using renders_holes [of d _ _ ?w ?j ?h] renders_clause [of d "'' WHERE ''" "selWhere b"] e(2) by fastforce
  moreover have "holesOk ((?j @ ?w) @ ?h @ [])
      (tokClause d '' HAVING '' (selHaving b) (length (?j @ ?w)))"
    using renders_holes [of d _ _ ?h "?j @ ?w" "[]"] renders_clause [of d "'' HAVING ''" "selHaving b"] e(3)
    by fastforce
  ultimately show ?thesis by (simp add: tokSelect_def selectArgs_def Let_def)
qed

definition selectInOrder :: "'v selectBuilder \<Rightarrow> bool" where
  "selectInOrder b \<longleftrightarrow> list_all (\<lambda>j. rawInOrder (jOn j)) (selJoins b)
     \<and> rawInOrder (selWhere b) \<and> rawInOrder (selHaving b)"

lemma inOrder_select:
  assumes "selectInOrder b"
  shows "map snd (holesOf (tokSelect d b)) = [1..<Suc (length (selectArgs b))]"
proof -
  let ?j = "joinsArgs (selJoins b)" and ?w = "predArgs (selWhere b)" and ?h = "predArgs (selHaving b)"
  have "inOrder (\<lambda>n. tokJoins d (selJoins b) n @
      (\<lambda>n. tokClause d '' WHERE '' (selWhere b) n @ tokClause d '' HAVING '' (selHaving b) (n + length ?w))
        (n + length ?j)) (?j @ ?w @ ?h)"
    using assms unfolding selectInOrder_def
    by (intro inOrder_seq inOrder_joins inOrder_clause) simp_all
  then show ?thesis
    using inOrder_apply [of _ "?j @ ?w @ ?h" 0] by (fastforce simp: tokSelect_def selectArgs_def Let_def)
qed

definition updateArgs :: "'v updateBuilder \<Rightarrow> 'v list" where
  "updateArgs b = setsArgs (updAssignments b) @ predArgs (updWhere b)"

definition tokUpdate :: "dialect \<Rightarrow> 'v updateBuilder \<Rightarrow> 'v hole tok list" where
  "tokUpdate d b = [TText (''UPDATE '' @ quoteTable d (updTable b) @ '' SET '')]
     @ tokSets d (updAssignments b) 0
     @ tokClause d '' WHERE '' (updWhere b) (length (setsArgs (updAssignments b)))"

definition updateErr :: "dialect \<Rightarrow> 'v updateBuilder \<Rightarrow> sqlError option" where
  "updateErr d b = orErr (setsErr (updAssignments b)) (predErr d (updWhere b))"

lemma renderUpdate_tokens:
  "renderUpdate d b = rendered d (updateErr d b) (tokUpdate d b) (updateArgs b)"
  by (cases "setsErr (updAssignments b)"; cases "predErr d (updWhere b)")
     (simp_all add: renderUpdate_def updateErr_def tokUpdate_def updateArgs_def
       renders_apply [OF renders_sets] renders_apply [OF renders_clause])

lemma holesOk_update: "updateErr d b = None \<Longrightarrow> holesOk (updateArgs b) (tokUpdate d b)"
proof -
  assume "updateErr d b = None"
  then have e: "setsErr (updAssignments b) = None" "predErr d (updWhere b) = None"
    by (simp_all add: updateErr_def)
  let ?s = "setsArgs (updAssignments b)" and ?w = "predArgs (updWhere b)"
  have "holesOk (?s @ ?w) (tokSets d (updAssignments b) 0)"
    using renders_holes [of d _ _ ?s "[]"] renders_sets [of d "updAssignments b"] e(1) by fastforce
  moreover have "holesOk (?s @ ?w @ []) (tokClause d '' WHERE '' (updWhere b) (length ?s))"
    using renders_holes [of d _ _ ?w ?s "[]"] renders_clause [of d "'' WHERE ''" "updWhere b"] e(2)
    by fastforce
  ultimately show ?thesis by (simp add: tokUpdate_def updateArgs_def)
qed

lemma inOrder_update:
  assumes "list_all assignInOrder (updAssignments b)" and "rawInOrder (updWhere b)"
  shows "map snd (holesOf (tokUpdate d b)) = [1..<Suc (length (updateArgs b))]"
proof -
  let ?s = "setsArgs (updAssignments b)" and ?w = "predArgs (updWhere b)"
  have "inOrder (tokSets d (updAssignments b)) ?s"
    unfolding tokSets_def [abs_def] setsArgs_def
    using assms(1) by (intro inOrder_all inOrder_assign) (auto simp: list_all_iff)
  then have "inOrder (\<lambda>n. tokSets d (updAssignments b) n @
      tokClause d '' WHERE '' (updWhere b) (n + length ?s)) (?s @ ?w)"
    by (intro inOrder_seq inOrder_clause assms(2))
  then show ?thesis
    using inOrder_apply [of _ "?s @ ?w" 0] by (fastforce simp: tokUpdate_def updateArgs_def)
qed

text \<open>INSERT: the rows, then the conflict clause.\<close>

definition rowsArgs :: "'v insertBuilder \<Rightarrow> 'v list" where
  "rowsArgs b = concat (map setsArgs (insRows b))"

definition rowsErr :: "'v insertBuilder \<Rightarrow> sqlError option" where
  "rowsErr b = firstErr (map setsErr (insRows b))"

definition tokRows :: "dialect \<Rightarrow> 'v insertBuilder \<Rightarrow> 'v hole tok list" where
  "tokRows d b =
     (case insRows b of
        [] \<Rightarrow> []
      | row # _ \<Rightarrow>
          TText ('' ('' @ join '', '' (map (\<lambda>a. QuoteIdent d (colName (asgCol a))) row) @ '') VALUES '')
            # sepBy [TText '', ''] (tokAll tokRow setsArgs 0 (insRows b)))"

lemma renderRows_tokens:
  "renderRows d b = rendered d (rowsErr b) (tokRows d b) (rowsArgs b)"
proof (cases "insRows b")
  case Nil
  then show ?thesis by (simp add: renderRows_def rowsErr_def tokRows_def rowsArgs_def)
next
  case (Cons row rows)
  then show ?thesis
    by (cases "rowsErr b")
       (simp_all add: renderRows_def tokRows_def rowsArgs_def flatten_sepBy rowsErr_def
         renderAll_tokens [OF renders_row] del: firstErr_None list.map concat.simps)
qed

lemma holesOk_rows:
  fixes b :: "'v insertBuilder"
  shows "rowsErr b = None \<Longrightarrow> holesOk (rowsArgs b @ post) (tokRows d b)"
proof -
  assume "rowsErr b = None"
  then have "list_all (\<lambda>r. setsErr r = None) (insRows b)"
    by (simp add: rowsErr_def list_all_iff)
  then have "list_all (holesOk ([] @ concat (map setsArgs (insRows b)) @ post))
      (tokAll tokRow setsArgs (length ([] :: 'v list)) (insRows b))"
    by (rule holesOk_tokAll [OF renders_row])
  then show ?thesis
    by (auto simp: tokRows_def rowsArgs_def holesOk_sepBy split: list.splits)
qed

definition conflictUpdates :: "dialect \<Rightarrow> 'v insertBuilder \<Rightarrow> 'v assignment list" where
  "conflictUpdates d b =
     (if insConflictCols b = [] \<or> insConflictDoNothing b then [] else insConflictUpdate b)"

definition conflictHead :: "dialect \<Rightarrow> 'v insertBuilder \<Rightarrow> string" where
  "conflictHead d b =
     (if insConflictCols b = [] then []
      else if SupportsOnConflict d then
        '' ON CONFLICT ('' @ join '', '' (map (\<lambda>c. QuoteIdent d (colName c)) (insConflictCols b)) @ '')''
          @ (if insConflictDoNothing b then '' DO NOTHING'' else '' DO UPDATE SET '')
      else if insConflictDoNothing b then [] else '' ON DUPLICATE KEY UPDATE '')"

lemma renders_conflict:
  "renders d (renderConflict d b) (setsErr (conflictUpdates d b))
     (\<lambda>n. TText (conflictHead d b) # tokSets d (conflictUpdates d b) n)
     (setsArgs (conflictUpdates d b))"
proof -
  have "renderConflict d b = (\<lambda>args. rbind (renderSets d (conflictUpdates d b) args)
          (\<lambda>(s, args'). Inr (conflictHead d b @ s, args')))"
    by (auto simp: fun_eq_iff renderConflict_def conflictUpdates_def conflictHead_def
        mysqlStyleConflict_def renderSets_def Let_def)
  then show ?thesis
    using renders_before [OF renders_sets [of d "conflictUpdates d b"], of "conflictHead d b"] by simp
qed

definition insertArgs :: "dialect \<Rightarrow> 'v insertBuilder \<Rightarrow> 'v list" where
  "insertArgs d b = rowsArgs b @ setsArgs (conflictUpdates d b)"

definition insertErr :: "dialect \<Rightarrow> 'v insertBuilder \<Rightarrow> sqlError option" where
  "insertErr d b =
     orErr (if insReturning b \<noteq> [] \<and> \<not> SupportsReturning d
            then Some (ErrReturningUnsupportedByDialect (Name d)) else None)
       (orErr (rowsErr b) (setsErr (conflictUpdates d b)))"

definition tokInsert :: "dialect \<Rightarrow> 'v insertBuilder \<Rightarrow> 'v hole tok list" where
  "tokInsert d b =
     TText ((if mysqlStyleConflict d b \<and> insConflictDoNothing b then ''INSERT IGNORE INTO ''
             else ''INSERT INTO '') @ QuoteIdent d (tblName (insTable b)))
       # tokRows d b @ TText (conflictHead d b)
       # tokSets d (conflictUpdates d b) (length (rowsArgs b)) @ [TText (renderReturning d b)]"

lemma renderInsert_tokens:
  "renderInsert d b = rendered d (insertErr d b) (tokInsert d b) (insertArgs d b)"
proof (cases "insReturning b \<noteq> [] \<and> \<not> SupportsReturning d")
  case True
  then show ?thesis by (simp add: renderInsert_def insertErr_def)
next
  case False
  then show ?thesis
    by (cases "rowsErr b"; cases "setsErr (conflictUpdates d b)")
       (auto simp: renderInsert_def insertErr_def tokInsert_def insertArgs_def renderRows_tokens
         renders_apply [OF renders_conflict])
qed

lemma holesOk_insert: "insertErr d b = None \<Longrightarrow> holesOk (insertArgs d b) (tokInsert d b)"
proof -
  assume "insertErr d b = None"
  then have e: "rowsErr b = None" "setsErr (conflictUpdates d b) = None"
    by (simp_all add: insertErr_def)
  let ?r = "rowsArgs b" and ?s = "setsArgs (conflictUpdates d b)"
  have "holesOk (?r @ ?s @ []) (TText (conflictHead d b) # tokSets d (conflictUpdates d b) (length ?r))"
    using renders_holes [of d _ _ ?s ?r "[]"] renders_conflict [of d b] e(2) by fastforce
  then show ?thesis
    using holesOk_rows [OF e(1), of ?s d] by (simp add: tokInsert_def insertArgs_def)
qed

end
