(* ===== verification/SqlClaims.thy ===== *)
theory SqlClaims
  imports SqlStatements
begin

text \<open>
  The properties of the SQL builder: arguments are bound to the values the caller supplied,
  predicates mean what their constructors say, identifiers cannot escape their quotes, and
  the places where raw fragments break the first two.
\<close>

section \<open>Arguments\<close>

text \<open>C1: A rendered SELECT is the statement's tokens written in the dialect's syntax, its
  argument list is the values of the joins, WHERE and HAVING in this order, and every
  numbered placeholder of the text points at the value supplied for its place.\<close>

theorem select_binds:
  assumes "renderSelect d b = Inr (s, args)"
  shows "s = flatten d (tokSelect d b) \<and> args = selectArgs b \<and> holesOk args (tokSelect d b)"
  using assms holesOk_select [of d b]
  by (cases "selectErr d b") (auto simp: renderSelect_tokens)

theorem select_binds_witness:
  "holesOk [1, 7, 8, 9] (tokSelect Postgres
     (Having (Raw ''count(*) > $1'' [9]) (Where (Or [Eq (Col ''a'') 7, Raw ''b = $1'' [8]])
        (Join \<lparr>tblName = ''u'', tblAlias = []\<rparr> (Gt (Col ''c'') (1::nat))
           (Select \<lparr>tblName = ''t'', tblAlias = []\<rparr>)))))"
proof -
  let ?b = "Having (Raw ''count(*) > $1'' [9]) (Where (Or [Eq (Col ''a'') 7, Raw ''b = $1'' [8]])
        (Join \<lparr>tblName = ''u'', tblAlias = []\<rparr> (Gt (Col ''c'') (1::nat))
           (Select \<lparr>tblName = ''t'', tblAlias = []\<rparr>)))"
  have e: "selectErr Postgres ?b = None" by code_simp
  have "renderSelect Postgres ?b = Inr (flatten Postgres (tokSelect Postgres ?b), selectArgs ?b)"
    unfolding renderSelect_tokens e by simp
  from select_binds [OF this] have "holesOk (selectArgs ?b) (tokSelect Postgres ?b)" by blast
  moreover have "selectArgs ?b = [1, 7, 8, 9]" by code_simp
  ultimately show ?thesis by (simp only:)
qed

text \<open>The same for INSERT: the values of all rows, then those of the conflict clause's
  assignments (none for DO NOTHING), every placeholder bound to its value.\<close>

theorem insert_binds:
  assumes "renderInsert d b = Inr (s, args)"
  shows "s = flatten d (tokInsert d b)
    \<and> args = rowsArgs b @ setsArgs (conflictUpdates d b) \<and> holesOk args (tokInsert d b)"
  using assms holesOk_insert [of d b]
  by (cases "insertErr d b") (auto simp: renderInsert_tokens insertArgs_def)

theorem insert_binds_witness:
  "holesOk [1, 2, 3, 4, 5] (tokInsert MySQL
     (OnConflictDoUpdate [Col ''id''] [SetExpr (Col ''n'') ''n + $1'' [5]]
        (Values [SetVal (Col ''id'') 3, SetVal (Col ''n'') 4]
           (Values [SetVal (Col ''id'') 1, SetVal (Col ''n'') (2::nat)]
              (Insert \<lparr>tblName = ''t'', tblAlias = []\<rparr>)))))"
proof -
  let ?b = "OnConflictDoUpdate [Col ''id''] [SetExpr (Col ''n'') ''n + $1'' [5]]
        (Values [SetVal (Col ''id'') 3, SetVal (Col ''n'') 4]
           (Values [SetVal (Col ''id'') 1, SetVal (Col ''n'') (2::nat)]
              (Insert \<lparr>tblName = ''t'', tblAlias = []\<rparr>)))"
  have e: "insertErr MySQL ?b = None" by code_simp
  have "renderInsert MySQL ?b = Inr (flatten MySQL (tokInsert MySQL ?b), insertArgs MySQL ?b)"
    unfolding renderInsert_tokens e by simp
  from insert_binds [OF this] have "holesOk (insertArgs MySQL ?b) (tokInsert MySQL ?b)" by blast
  moreover have "insertArgs MySQL ?b = [1, 2, 3, 4, 5]" by code_simp
  ultimately show ?thesis by (simp only:)
qed

text \<open>The same for UPDATE: the values of the assignments, then those of the WHERE clause.\<close>

theorem update_binds:
  assumes "renderUpdate d b = Inr (s, args)"
  shows "s = flatten d (tokUpdate d b)
    \<and> args = setsArgs (updAssignments b) @ predArgs (updWhere b) \<and> holesOk args (tokUpdate d b)"
  using assms holesOk_update [of d b]
  by (cases "updateErr d b") (auto simp: renderUpdate_tokens updateArgs_def)

theorem update_binds_witness:
  "holesOk [5, 1, 6] (tokUpdate SQLite
     (UpdateWhere (Eq (Col ''a'') 6) (UpdateSet [SetVal (Col ''n'') 5, SetExpr (Col ''m'') ''m + $1'' [1::nat]]
        (Update \<lparr>tblName = ''t'', tblAlias = []\<rparr>))))"
proof -
  let ?b = "UpdateWhere (Eq (Col ''a'') 6) (UpdateSet [SetVal (Col ''n'') 5, SetExpr (Col ''m'') ''m + $1'' [1::nat]]
        (Update \<lparr>tblName = ''t'', tblAlias = []\<rparr>))"
  have e: "updateErr SQLite ?b = None" by code_simp
  have "renderUpdate SQLite ?b = Inr (flatten SQLite (tokUpdate SQLite ?b), updateArgs ?b)"
    unfolding renderUpdate_tokens e by simp
  from update_binds [OF this] have "holesOk (updateArgs ?b) (tokUpdate SQLite ?b)"
    by blast
  moreover have "updateArgs ?b = [5, 1, 6]" by code_simp
  ultimately show ?thesis by (simp only:)
qed

text \<open>When every raw fragment of a SELECT uses its placeholders in order, each once, the
  holes of the text are numbered 1, 2, 3 and so on in text order, so that a positional
  dialect (MySQL, whose placeholder is always a question mark) binds the same values.\<close>

theorem select_positional:
  assumes "selectInOrder b"
  shows "map snd (holesOf (tokSelect d b)) = [1..<Suc (length (selectArgs b))]"
  using assms by (rule inOrder_select)

theorem select_positional_witness:
  "map snd (holesOf (tokSelect MySQL
     (Where (Raw ''x = $1 OR y = $2'' [3, 4]) (Where (In (Col ''a'') [1, 2::nat])
        (Select \<lparr>tblName = ''t'', tblAlias = []\<rparr>))))) = [1, 2, 3, 4]"
proof -
  let ?b = "Where (Raw ''x = $1 OR y = $2'' [3, 4]) (Where (In (Col ''a'') [1, 2::nat])
        (Select \<lparr>tblName = ''t'', tblAlias = []\<rparr>))"
  have "selectInOrder ?b" by code_simp
  then have "map snd (holesOf (tokSelect MySQL ?b)) = [1..<Suc (length (selectArgs ?b))]"
    by (rule select_positional)
  also have "[1..<Suc (length (selectArgs ?b))] = [1, 2, 3, 4]" by code_simp
  finally show ?thesis .
qed

text \<open>MySQL's placeholders carry no number, so a raw fragment that uses its arguments in
  another order renders to the same text and arguments as one that uses them in order: the
  engine binds the first value to the place the caller numbered second.\<close>

theorem mysql_raw_order_lost:
  "renderRawFragment MySQL ''a = $2 AND b = $1'' [x, y] args
     = renderRawFragment MySQL ''a = $1 AND b = $2'' [x, y] args"
proof -
  have "pieces ''a = $2 AND b = $1'' = map PieceChar ''a = '' @ PieceRef ''2'' # map PieceChar '' AND b = '' @ [PieceRef ''1'']"
    "pieces ''a = $1 AND b = $2'' = map PieceChar ''a = '' @ PieceRef ''1'' # map PieceChar '' AND b = '' @ [PieceRef ''2'']"
    by code_simp+
  moreover have "atoiDigits ''1'' = Some 1" "atoiDigits ''2'' = Some 2" by code_simp+
  ultimately show ?thesis by (simp add: renderRawFragment_def MySQL_def del: pieces.simps)
qed

section \<open>Meaning\<close>



text \<open>A chain of Where calls selects by the conjunction of their predicates: the WHERE text
  reads back as all of them, also when one of them is a disjunction.\<close>

theorem where_chain_reads:
  assumes "list_all rawFree ps" and "readsAtoms env"
    and "4 * length (tokPredicate d n (selWhere (fold Where ps (Select t)))) \<le> fuel"
  shows "evalOr fuel env (holeVals (tokPredicate d n (selWhere (fold Where ps (Select t)))))
    = Some (list_all (sem (\<lambda>a. env (atomToks d a))) ps, [])"
proof -
  let ?w = "selWhere (fold Where ps (Select t))"
  have "rawFree ?w" using assms(1) rawFree_fold_Where [of "Select t" ps] by (simp add: Select_def)
  then have "orSeq env (sem (\<lambda>a. env (atomToks d a)) ?w) (holeVals (tokPredicate d n ?w))"
    by (intro tokPredicate_reads(1) assms(2))
  then have "evalOr fuel env (holeVals (tokPredicate d n ?w)) = Some (sem (\<lambda>a. env (atomToks d a)) ?w, [])"
    by (rule orSeq_read) (use assms(3) in \<open>simp add: holeVals_def\<close>)
  then show ?thesis by (simp add: sem_fold_Where Select_def)
qed

theorem where_chain_reads_witness:
  "evalOr 80 (\<lambda>ts. ts = [TText ''TRUE''] \<or> ts = atomToks Postgres (Eq (Col ''b'') 2))
     (holeVals (tokPredicate Postgres 0 (selWhere (fold Where
        [Or [Eq (Col ''a'') 1, Eq (Col ''b'') (2::nat)], Eq (Col ''c'') 3]
        (Select \<lparr>tblName = ''t'', tblAlias = []\<rparr>)))))
   = Some (False, [])"
proof -
  let ?ps = "[Or [Eq (Col ''a'') 1, Eq (Col ''b'') (2::nat)], Eq (Col ''c'') 3]"
  let ?t = "\<lparr>tblName = ''t'', tblAlias = []\<rparr>"
  let ?env = "\<lambda>ts. ts = [TText ''TRUE''] \<or> ts = atomToks Postgres (Eq (Col ''b'') (2::nat))"
  have "readsAtoms ?env"
    unfolding readsAtoms_def by (simp add: atomToks_def tokCmp_def)
  moreover have "list_all rawFree ?ps" by simp
  moreover have "4 * length (tokPredicate Postgres 0 (selWhere (fold Where ?ps (Select ?t)))) \<le> 80"
    by (simp add: isCompound_def tokCmp_def Where_def Select_def andJoin_def IsZero_def)
  ultimately have "evalOr 80 ?env (holeVals (tokPredicate Postgres 0 (selWhere (fold Where ?ps (Select ?t)))))
      = Some (list_all (sem (\<lambda>a. ?env (atomToks Postgres a))) ?ps, [])"
    by (intro where_chain_reads)
  moreover have "\<not> list_all (sem (\<lambda>a. ?env (atomToks Postgres a))) ?ps"
    by (simp add: atomToks_def tokCmp_def quoteColumn_def Postgres_def Col_def)
  ultimately show ?thesis by simp
qed

text \<open>A raw fragment is not parenthesised. Chained with another condition, a fragment
  that has a top-level OR renders, as one text, to an OR whose second operand alone carries
  the other condition: rows that match the first operand are selected whatever the other
  condition says.\<close>

theorem raw_or_not_parenthesised:
  assumes "CHR ''$'' \<notin> set f" and "CHR ''$'' \<notin> set g" and "pieceErr h (length vs) (pieces h) = None"
  shows "renderPredicate d (selWhere (Where (Raw h vs) (Where (Raw (f @ '' OR '' @ g) []) (Select t)))) args
       = renderPredicate d (Raw (f @ '' OR '' @ g @ '' AND '' @ h) vs) args"
proof -
  let ?pre = "f @ '' OR '' @ g"
  have no: "CHR ''$'' \<notin> set ?pre" "CHR ''$'' \<notin> set (f @ '' OR '' @ g @ '' AND '')"
    using assms by simp_all
  have frag: "replaceRefs d n frag (length vs) (pieces h) = Inr (flatten d (tokPieces n vs (pieces h)))"
    for n frag
    using assms(3) pieceErr_fragment [of h "length vs" "pieces h" frag]
    by (simp add: replaceRefs_tokens)
  have "pieces ?pre = map PieceChar ?pre"
    using pieces_no_ref [OF no(1), of "[]"] by simp
  then have "renderRawFragment d ?pre [] args = Inr (?pre, args)"
    using replaceRefs_chars [of d _ _ 0 ?pre "[]"] by (simp add: renderRawFragment_def)
  moreover have "pieces (?pre @ '' AND '' @ h) = map PieceChar (f @ '' OR '' @ g @ '' AND '') @ pieces h"
    using pieces_no_ref [OF no(2), of h] by simp
  ultimately show ?thesis
    using replaceRefs_chars [of d _ _ "length vs" "f @ '' OR '' @ g @ '' AND ''" "pieces h"] frag
    by (simp add: Where_def Select_def andJoin_def IsZero_def isCompound_def renderRawFragment_def
        del: pieces.simps map_append)
qed

theorem raw_or_not_parenthesised_witness:
  "renderPredicate Postgres (selWhere (Where (Raw ''tenant = $1'' [7::int])
       (Where (Raw ''a OR b'' []) (Select \<lparr>tblName = ''t'', tblAlias = []\<rparr>)))) []
     = renderPredicate Postgres (Raw ''a OR b AND tenant = $1'' [7]) []"
proof -
  have "pieceErr ''tenant = $1'' (length [7::int]) (pieces ''tenant = $1'') = None" by code_simp
  from raw_or_not_parenthesised [of "''a''" "''b''", OF _ _ this, where d = Postgres and args = "[]"
      and t = "\<lparr>tblName = ''t'', tblAlias = []\<rparr>"]
  show ?thesis by (simp del: pieces.simps renderPredicate.simps)
qed

section \<open>Identifiers\<close>

definition quoteChar :: "dialect \<Rightarrow> char" where
  "quoteChar d = (if Name d = ''mysql'' then backtick else dquote)"

text \<open>Identifiers cannot escape their quotes: reading the column list of a rendered INSERT
  the way the engine reads quoted identifiers gives back exactly the column names of the
  first row, whatever characters they contain, and stops at the end of the list.\<close>

theorem insert_columns_read_back:
  assumes "d \<in> {MySQL, Postgres, SQLite}" and "insRows b = row # rows" and "row \<noteq> []"
    and "renderRows d b = Inr (s, args)"
  shows "\<exists>vals. readIdents (readIdent (quoteChar d)) (length row) (drop 2 s)
    = Some (map (\<lambda>a. colName (asgCol a)) row, '') VALUES '' @ vals)"
proof -
  obtain vals where "drop 2 s = join '', '' (map (QuoteIdent d) (map (\<lambda>a. colName (asgCol a)) row))
      @ ('') VALUES '' @ vals)"
    using assms(2,4) by (auto simp: renderRows_def res_simps comp_def)
  moreover have "quoteChar MySQL = backtick" "quoteChar Postgres = dquote" "quoteChar SQLite = dquote"
    by (simp_all add: quoteChar_def dialect_defs)
  moreover have "stopsAt backtick ('') VALUES '' @ vals)" "stopsAt dquote ('') VALUES '' @ vals)"
      "\<not> hasPrefix ('') VALUES '' @ vals) '', ''"
    by (simp_all add: hasPrefix_def)
  ultimately show ?thesis
    using assms(1,3)
      mysql.read_list [of "map (\<lambda>a. colName (asgCol a)) row" "length row" "'') VALUES '' @ vals"]
      pg.read_list [of "map (\<lambda>a. colName (asgCol a)) row" "length row" "'') VALUES '' @ vals"]
      sqlite.read_list [of "map (\<lambda>a. colName (asgCol a)) row" "length row" "'') VALUES '' @ vals"]
    by (auto simp del: map_map)
qed

theorem insert_columns_read_back_witness:
  "\<exists>s args vals. renderRows Postgres (Values [SetVal (Col [CHR ''a'', dquote, CHR ''b'']) (1::nat), SetVal (Col '') --'') 2]
       (Insert \<lparr>tblName = ''t'', tblAlias = []\<rparr>)) = Inr (s, args)
     \<and> readIdents (readIdent (quoteChar Postgres)) 2 (drop 2 s)
         = Some ([[CHR ''a'', dquote, CHR ''b''], '') --''], '') VALUES '' @ vals)"
proof -
  let ?row = "[SetVal (Col [CHR ''a'', dquote, CHR ''b'']) (1::nat), SetVal (Col '') --'') 2]"
  let ?b = "Values ?row (Insert \<lparr>tblName = ''t'', tblAlias = []\<rparr>)"
  have rows: "insRows ?b = ?row # []" by (simp add: Values_def Insert_def)
  then have "rowsErr ?b = None" unfolding rowsErr_def by (simp add: setsErr_def)
  then have r: "renderRows Postgres ?b = Inr (flatten Postgres (tokRows Postgres ?b), rowsArgs ?b)"
    unfolding renderRows_tokens by simp
  have "\<exists>vals. readIdents (readIdent (quoteChar Postgres)) (length ?row)
      (drop 2 (flatten Postgres (tokRows Postgres ?b)))
    = Some (map (\<lambda>a. colName (asgCol a)) ?row, '') VALUES '' @ vals)"
    by (rule insert_columns_read_back [OF _ rows _ r]) simp_all
  with r show ?thesis by (auto simp: Col_def numeral_2_eq_2)
qed

end
