(* ===== verification/SqlDdl.thy ===== *)
theory SqlDdl
  imports SqlBuilders
begin

text \<open>
  Schema statements: the DDL half of the dialects (\<open>pack/dialect/ddl.go\<close> and the
  \<open>ddl.go\<close> of each dialect) and the builders of \<open>pack/internal/sqlbuild\<close> that use it
  (\<open>create_table.go\<close>, \<open>column.go\<close>, \<open>index.go\<close>, \<open>constraint.go\<close>, \<open>table.go\<close>). The Go
  interface \<open>dialect.DDL\<close> is a record of its methods; the type assertion
  \<open>d.(dialect.DDL)\<close> of the builders is an optional record.
\<close>

section \<open>Go types and column specifications\<close>

text \<open>What the dialects ask of a \<open>reflect.Type\<close>: its kind, the element of a slice, and
  whether it is \<open>time.Time\<close>. \<open>GoOther\<close> is any other type, with the text \<open>%s\<close> prints.\<close>

datatype goType =
    GoBool | GoInt | GoInt8 | GoInt16 | GoInt32 | GoInt64
  | GoUint | GoUint8 | GoUint16 | GoUint32 | GoUint64
  | GoString | GoFloat32 | GoFloat64 | GoSlice goType | GoTime | GoOther string

record columnSpec =
  csPrimaryKey :: bool
  csAutoIncrement :: bool
  csNotNull :: bool
  csUnique :: bool
  csHasDefault :: bool
  csDefault :: string
  csSQLType :: string

datatype ddlError =
    NoTypeMapping string goType
  | AutoIncrementNotInteger goType
  | ErrRequiresTableRebuild
  | ErrRenameIndexUnsupported
  | ErrDDLUnsupported string
  | ErrConstraintsUnsupported string

record ddl =
  ColumnDefinition :: "goType \<Rightarrow> columnSpec \<Rightarrow> ddlError + string"
  InlinesPrimaryKey :: "columnSpec \<Rightarrow> bool"
  AlterColumnSQL :: "string \<Rightarrow> string \<Rightarrow> goType \<Rightarrow> columnSpec \<Rightarrow> ddlError + string"
  DropIndexSQL :: "string \<Rightarrow> string \<Rightarrow> string"
  RenameIndexSQL :: "string \<Rightarrow> string \<Rightarrow> string \<Rightarrow> ddlError + string"
  HasTableSQL :: "string \<Rightarrow> string \<times> string list"
  HasColumnSQL :: "string \<Rightarrow> string \<Rightarrow> string \<times> string list"
  HasIndexSQL :: "string \<Rightarrow> string \<Rightarrow> string \<times> string list"
  HasConstraintSQL :: "string \<Rightarrow> string \<Rightarrow> string \<times> string list"
  GetTablesSQL :: "string \<times> string list"
  ColumnTypesSQL :: "string \<Rightarrow> string \<times> string list"
  CurrentDatabaseSQL :: string

definition wideInteger :: "goType \<Rightarrow> bool" where
  "wideInteger t \<longleftrightarrow> t \<in> {GoInt, GoInt64, GoUint, GoUint64}"

definition narrowInteger :: "goType \<Rightarrow> bool" where
  "narrowInteger t \<longleftrightarrow> t \<in> {GoInt8, GoInt16, GoInt32, GoUint8, GoUint16, GoUint32}"

text \<open>The optional parts of a column definition, in the order all three dialects use.\<close>

definition specSuffix :: "string \<Rightarrow> columnSpec \<Rightarrow> string" where
  "specSuffix autoInc spec =
     (if csNotNull spec then '' NOT NULL'' else [])
     @ (if csAutoIncrement spec then autoInc else [])
     @ (if csUnique spec then '' UNIQUE'' else [])
     @ (if csHasDefault spec then '' DEFAULT '' @ csDefault spec else [])"

definition columnType :: "(goType \<Rightarrow> ddlError + string) \<Rightarrow> goType \<Rightarrow> columnSpec \<Rightarrow> ddlError + string" where
  "columnType base t spec = (if csSQLType spec = [] then base t else Inr (csSQLType spec))"

text \<open>A newline and two tabs, as in the multi-line query literals.\<close>

definition nl :: "nat \<Rightarrow> string" where
  "nl tabs = CHR 0x0A # replicate tabs (CHR 0x09)"

section \<open>Postgres\<close>

definition pgBaseType :: "goType \<Rightarrow> bool \<Rightarrow> ddlError + string" where
  "pgBaseType t autoIncrement =
     (if t = GoBool then Inr ''BOOLEAN''
      else if narrowInteger t then Inr (if autoIncrement then ''SERIAL'' else ''INTEGER'')
      else if wideInteger t then Inr (if autoIncrement then ''BIGSERIAL'' else ''BIGINT'')
      else case t of
          GoString \<Rightarrow> Inr ''TEXT''
        | GoFloat32 \<Rightarrow> Inr ''REAL''
        | GoFloat64 \<Rightarrow> Inr ''DOUBLE PRECISION''
        | GoSlice e \<Rightarrow> if e = GoUint8 then Inr ''BYTEA'' else Inl (NoTypeMapping ''pgdialect'' t)
        | GoTime \<Rightarrow> Inr ''TIMESTAMPTZ''
        | _ \<Rightarrow> Inl (NoTypeMapping ''pgdialect'' t))"

definition pgColumnDefinition :: "goType \<Rightarrow> columnSpec \<Rightarrow> ddlError + string" where
  "pgColumnDefinition t spec =
     rbind (columnType (\<lambda>t. pgBaseType t (csAutoIncrement spec)) t spec)
       (\<lambda>sqlType. Inr (sqlType @ specSuffix [] spec))"

definition pgAlterColumnSQL :: "string \<Rightarrow> string \<Rightarrow> goType \<Rightarrow> columnSpec \<Rightarrow> ddlError + string" where
  "pgAlterColumnSQL tableName column t spec =
     rbind (columnType (\<lambda>t. pgBaseType t (csAutoIncrement spec)) t spec)
       (\<lambda>sqlType.
          let alter = ''ALTER COLUMN '' @ QuoteIdent Postgres column in
          Inr (''ALTER TABLE '' @ QuoteIdent Postgres tableName @ '' '' @ join '', ''
            [alter @ '' TYPE '' @ sqlType,
             alter @ (if csNotNull spec then '' SET NOT NULL'' else '' DROP NOT NULL''),
             alter @ (if csHasDefault spec then '' SET DEFAULT '' @ csDefault spec else '' DROP DEFAULT'')]))"

definition pgDropIndexSQL :: "string \<Rightarrow> string \<Rightarrow> string" where
  "pgDropIndexSQL tableName index = ''DROP INDEX '' @ QuoteIdent Postgres index"

definition pgRenameIndexSQL :: "string \<Rightarrow> string \<Rightarrow> string \<Rightarrow> ddlError + string" where
  "pgRenameIndexSQL tableName oldName newName =
     Inr (''ALTER INDEX '' @ QuoteIdent Postgres oldName @ '' RENAME TO '' @ QuoteIdent Postgres newName)"

definition pgColumnTypesSQL :: "string \<Rightarrow> string \<times> string list" where
  "pgColumnTypesSQL tableName =
     (''SELECT c.column_name, c.data_type, (c.is_nullable = 'YES') AS nullable,'' @ nl 2
      @ ''EXISTS ('' @ nl 3
      @ ''SELECT 1 FROM information_schema.table_constraints tc'' @ nl 3
      @ ''JOIN information_schema.key_column_usage kcu'' @ nl 4
      @ ''ON tc.constraint_name = kcu.constraint_name AND tc.table_schema = kcu.table_schema'' @ nl 3
      @ ''WHERE tc.table_schema = current_schema() AND tc.table_name = c.table_name'' @ nl 4
      @ ''AND tc.constraint_type = 'PRIMARY KEY' AND kcu.column_name = c.column_name'' @ nl 2
      @ '') AS is_primary_key'' @ nl 2
      @ ''FROM information_schema.columns c'' @ nl 2
      @ ''WHERE c.table_schema = current_schema() AND c.table_name = $1'' @ nl 2
      @ ''ORDER BY c.ordinal_position'', [tableName])"

definition PostgresDDL :: ddl where
  "PostgresDDL = \<lparr> ColumnDefinition = pgColumnDefinition, InlinesPrimaryKey = (\<lambda>spec. False),
     AlterColumnSQL = pgAlterColumnSQL, DropIndexSQL = pgDropIndexSQL, RenameIndexSQL = pgRenameIndexSQL,
     HasTableSQL = (\<lambda>t. (''SELECT EXISTS (SELECT 1 FROM information_schema.tables WHERE table_schema = current_schema() AND table_name = $1)'', [t])),
     HasColumnSQL = (\<lambda>t c. (''SELECT EXISTS (SELECT 1 FROM information_schema.columns WHERE table_schema = current_schema() AND table_name = $1 AND column_name = $2)'', [t, c])),
     HasIndexSQL = (\<lambda>t i. (''SELECT EXISTS (SELECT 1 FROM pg_indexes WHERE schemaname = current_schema() AND tablename = $1 AND indexname = $2)'', [t, i])),
     HasConstraintSQL = (\<lambda>t n. (''SELECT EXISTS (SELECT 1 FROM information_schema.table_constraints WHERE table_schema = current_schema() AND table_name = $1 AND constraint_name = $2)'', [t, n])),
     GetTablesSQL = (''SELECT table_name FROM information_schema.tables WHERE table_schema = current_schema() ORDER BY table_name'', []),
     ColumnTypesSQL = pgColumnTypesSQL,
     CurrentDatabaseSQL = ''SELECT current_database()'' \<rparr>"

section \<open>MySQL\<close>

definition mysqlBaseType :: "goType \<Rightarrow> ddlError + string" where
  "mysqlBaseType t =
     (if t = GoBool then Inr ''TINYINT(1)''
      else if narrowInteger t then Inr ''INT''
      else if wideInteger t then Inr ''BIGINT''
      else case t of
          GoString \<Rightarrow> Inr ''VARCHAR(255)''
        | GoFloat32 \<Rightarrow> Inr ''FLOAT''
        | GoFloat64 \<Rightarrow> Inr ''DOUBLE''
        | GoSlice e \<Rightarrow> if e = GoUint8 then Inr ''BLOB'' else Inl (NoTypeMapping ''mysqldialect'' t)
        | GoTime \<Rightarrow> Inr ''DATETIME''
        | _ \<Rightarrow> Inl (NoTypeMapping ''mysqldialect'' t))"

definition mysqlColumnDefinition :: "goType \<Rightarrow> columnSpec \<Rightarrow> ddlError + string" where
  "mysqlColumnDefinition t spec =
     rbind (columnType mysqlBaseType t spec)
       (\<lambda>sqlType. Inr (sqlType @ specSuffix '' AUTO_INCREMENT'' spec))"

definition mysqlAlterColumnSQL :: "string \<Rightarrow> string \<Rightarrow> goType \<Rightarrow> columnSpec \<Rightarrow> ddlError + string" where
  "mysqlAlterColumnSQL tableName column t spec =
     rbind (mysqlColumnDefinition t spec)
       (\<lambda>def. Inr (''ALTER TABLE '' @ QuoteIdent MySQL tableName @ '' MODIFY COLUMN ''
                     @ QuoteIdent MySQL column @ '' '' @ def))"

definition mysqlDropIndexSQL :: "string \<Rightarrow> string \<Rightarrow> string" where
  "mysqlDropIndexSQL tableName index =
     ''DROP INDEX '' @ QuoteIdent MySQL index @ '' ON '' @ QuoteIdent MySQL tableName"

definition mysqlRenameIndexSQL :: "string \<Rightarrow> string \<Rightarrow> string \<Rightarrow> ddlError + string" where
  "mysqlRenameIndexSQL tableName oldName newName =
     Inr (''ALTER TABLE '' @ QuoteIdent MySQL tableName @ '' RENAME INDEX '' @ QuoteIdent MySQL oldName
            @ '' TO '' @ QuoteIdent MySQL newName)"

definition mysqlColumnTypesSQL :: "string \<Rightarrow> string \<times> string list" where
  "mysqlColumnTypesSQL tableName =
     (''SELECT column_name, data_type, (is_nullable = 'YES') AS nullable, (column_key = 'PRI') AS is_primary_key'' @ nl 2
      @ ''FROM information_schema.columns'' @ nl 2
      @ ''WHERE table_schema = DATABASE() AND table_name = ?'' @ nl 2
      @ ''ORDER BY ordinal_position'', [tableName])"

definition MySQLDDL :: ddl where
  "MySQLDDL = \<lparr> ColumnDefinition = mysqlColumnDefinition, InlinesPrimaryKey = (\<lambda>spec. False),
     AlterColumnSQL = mysqlAlterColumnSQL, DropIndexSQL = mysqlDropIndexSQL, RenameIndexSQL = mysqlRenameIndexSQL,
     HasTableSQL = (\<lambda>t. (''SELECT EXISTS (SELECT 1 FROM information_schema.tables WHERE table_schema = DATABASE() AND table_name = ?)'', [t])),
     HasColumnSQL = (\<lambda>t c. (''SELECT EXISTS (SELECT 1 FROM information_schema.columns WHERE table_schema = DATABASE() AND table_name = ? AND column_name = ?)'', [t, c])),
     HasIndexSQL = (\<lambda>t i. (''SELECT EXISTS (SELECT 1 FROM information_schema.statistics WHERE table_schema = DATABASE() AND table_name = ? AND index_name = ?)'', [t, i])),
     HasConstraintSQL = (\<lambda>t n. (''SELECT EXISTS (SELECT 1 FROM information_schema.table_constraints WHERE table_schema = DATABASE() AND table_name = ? AND constraint_name = ?)'', [t, n])),
     GetTablesSQL = (''SELECT table_name FROM information_schema.tables WHERE table_schema = DATABASE() ORDER BY table_name'', []),
     ColumnTypesSQL = mysqlColumnTypesSQL,
     CurrentDatabaseSQL = ''SELECT DATABASE()'' \<rparr>"

section \<open>SQLite\<close>

definition isIntegerKind :: "goType \<Rightarrow> bool" where
  "isIntegerKind t \<longleftrightarrow> wideInteger t \<or> narrowInteger t"

definition sqliteBaseType :: "goType \<Rightarrow> ddlError + string" where
  "sqliteBaseType t =
     (if t = GoBool \<or> isIntegerKind t then Inr ''INTEGER''
      else case t of
          GoString \<Rightarrow> Inr ''TEXT''
        | GoFloat32 \<Rightarrow> Inr ''REAL''
        | GoFloat64 \<Rightarrow> Inr ''REAL''
        | GoSlice e \<Rightarrow> if e = GoUint8 then Inr ''BLOB'' else Inl (NoTypeMapping ''sqlitedialect'' t)
        | GoTime \<Rightarrow> Inr ''TEXT''
        | _ \<Rightarrow> Inl (NoTypeMapping ''sqlitedialect'' t))"

definition sqliteColumnDefinition :: "goType \<Rightarrow> columnSpec \<Rightarrow> ddlError + string" where
  "sqliteColumnDefinition t spec =
     (if csPrimaryKey spec \<and> csAutoIncrement spec then
        (if \<not> isIntegerKind t then Inl (AutoIncrementNotInteger t)
         else Inr ''INTEGER PRIMARY KEY AUTOINCREMENT'')
      else rbind (columnType sqliteBaseType t spec)
             (\<lambda>sqlType. Inr (sqlType @ specSuffix [] spec)))"

definition sqliteDropIndexSQL :: "string \<Rightarrow> string \<Rightarrow> string" where
  "sqliteDropIndexSQL tableName index = ''DROP INDEX '' @ QuoteIdent SQLite index"

definition sqliteHasConstraintSQL :: "string \<Rightarrow> string \<Rightarrow> string \<times> string list" where
  "sqliteHasConstraintSQL t n =
     (''SELECT EXISTS (SELECT 1 FROM pragma_foreign_key_list('' @ Placeholder SQLite 1 @ '') WHERE ''
      @ Placeholder SQLite 2 @ '' = 'fk_' || '' @ Placeholder SQLite 3 @ '' || '_' || '' @ [dquote]
      @ ''from'' @ [dquote] @ '')'', [t, n, t])"

definition sqliteColumnTypesSQL :: "string \<Rightarrow> string \<times> string list" where
  "sqliteColumnTypesSQL t =
     (''SELECT name, type, ('' @ [dquote] @ ''notnull'' @ [dquote] @ '' = 0) AS nullable, (pk > 0) AS is_primary_key FROM pragma_table_info(''
      @ Placeholder SQLite 1 @ '') ORDER BY cid'', [t])"

definition SQLiteDDL :: ddl where
  "SQLiteDDL = \<lparr> ColumnDefinition = sqliteColumnDefinition,
     InlinesPrimaryKey = (\<lambda>spec. csPrimaryKey spec \<and> csAutoIncrement spec),
     AlterColumnSQL = (\<lambda>tableName column t spec. Inl ErrRequiresTableRebuild),
     DropIndexSQL = sqliteDropIndexSQL,
     RenameIndexSQL = (\<lambda>tableName oldName newName. Inl ErrRenameIndexUnsupported),
     HasTableSQL = (\<lambda>t. (''SELECT EXISTS (SELECT 1 FROM sqlite_master WHERE type = 'table' AND name = '' @ Placeholder SQLite 1 @ '')'', [t])),
     HasColumnSQL = (\<lambda>t c. (''SELECT EXISTS (SELECT 1 FROM pragma_table_info('' @ Placeholder SQLite 1 @ '') WHERE name = '' @ Placeholder SQLite 2 @ '')'', [t, c])),
     HasIndexSQL = (\<lambda>t i. (''SELECT EXISTS (SELECT 1 FROM sqlite_master WHERE type = 'index' AND name = '' @ Placeholder SQLite 1 @ '')'', [i])),
     HasConstraintSQL = sqliteHasConstraintSQL,
     GetTablesSQL = (''SELECT name FROM sqlite_master WHERE type = 'table' AND name NOT LIKE 'sqlite_%' ORDER BY name'', []),
     ColumnTypesSQL = sqliteColumnTypesSQL,
     CurrentDatabaseSQL = ''SELECT file FROM pragma_database_list WHERE name = 'main'' @ [CHR 0x27] \<rparr>"

section \<open>The builders\<close>

definition quoteIdentList :: "dialect \<Rightarrow> string list \<Rightarrow> string" where
  "quoteIdentList d names = join '', '' (map (QuoteIdent d) names)"

record ddlColumn =
  dcName :: string
  dcType :: goType
  dcSpec :: columnSpec

record createTableBuilder =
  ctTable :: table
  ctIfNotExists :: bool
  ctColumns :: "ddlColumn list"

definition CreateTable :: "table \<Rightarrow> createTableBuilder" where
  "CreateTable t = \<lparr>ctTable = t, ctIfNotExists = False, ctColumns = []\<rparr>"

definition IfNotExists :: "createTableBuilder \<Rightarrow> createTableBuilder" where
  "IfNotExists b = b\<lparr>ctIfNotExists := True\<rparr>"

definition ColumnDef :: "string \<Rightarrow> goType \<Rightarrow> columnSpec \<Rightarrow> createTableBuilder \<Rightarrow> createTableBuilder" where
  "ColumnDef name t spec b =
     b\<lparr>ctColumns := ctColumns b @ [\<lparr>dcName = name, dcType = t, dcSpec = spec\<rparr>]\<rparr>"

text \<open>The loop over the columns: the parts and the primary-key columns that are not inlined.\<close>

fun renderColumns ::
    "dialect \<Rightarrow> ddl \<Rightarrow> ddlColumn list \<Rightarrow> string list \<Rightarrow> string list \<Rightarrow> ddlError + string list \<times> string list" where
  "renderColumns d g [] parts pkCols = Inr (parts, pkCols)"
| "renderColumns d g (c # cs) parts pkCols =
     (case ColumnDefinition g (dcType c) (dcSpec c) of
        Inl e \<Rightarrow> Inl e
      | Inr def \<Rightarrow>
          renderColumns d g cs (parts @ [QuoteIdent d (dcName c) @ '' '' @ def])
            (if csPrimaryKey (dcSpec c) \<and> \<not> InlinesPrimaryKey g (dcSpec c)
             then pkCols @ [dcName c] else pkCols))"

text \<open>The type assertion \<open>d.(dialect.DDL)\<close>.\<close>

definition asDDL :: "dialect \<Rightarrow> ddl option \<Rightarrow> ddlError + ddl" where
  "asDDL d g = (case g of None \<Rightarrow> Inl (ErrDDLUnsupported (Name d)) | Some g \<Rightarrow> Inr g)"

definition renderCreateTable :: "dialect \<Rightarrow> ddl option \<Rightarrow> createTableBuilder \<Rightarrow> ddlError + string" where
  "renderCreateTable d dd b =
     rbind (asDDL d dd) (\<lambda>g.
     rbind (renderColumns d g (ctColumns b) [] []) (\<lambda>(parts, pkCols).
       let parts = (if pkCols \<noteq> [] then parts @ [''PRIMARY KEY ('' @ quoteIdentList d pkCols @ '')''] else parts)
       in Inr (''CREATE TABLE '' @ (if ctIfNotExists b then ''IF NOT EXISTS '' else [])
               @ QuoteIdent d (tblName (ctTable b)) @ '' ('' @ join '', '' parts @ '')'')))"

definition renderDropTable :: "dialect \<Rightarrow> table \<Rightarrow> string" where
  "renderDropTable d t = ''DROP TABLE '' @ QuoteIdent d (tblName t)"

definition renderRenameTable :: "dialect \<Rightarrow> table \<Rightarrow> string \<Rightarrow> string" where
  "renderRenameTable d t newName =
     ''ALTER TABLE '' @ QuoteIdent d (tblName t) @ '' RENAME TO '' @ QuoteIdent d newName"

definition renderAddColumn ::
    "dialect \<Rightarrow> ddl option \<Rightarrow> table \<Rightarrow> string \<Rightarrow> goType \<Rightarrow> columnSpec \<Rightarrow> ddlError + string" where
  "renderAddColumn d dd t col ty spec =
     rbind (asDDL d dd) (\<lambda>g.
     rbind (ColumnDefinition g ty spec) (\<lambda>def.
       Inr (''ALTER TABLE '' @ QuoteIdent d (tblName t) @ '' ADD COLUMN '' @ QuoteIdent d col @ '' '' @ def)))"

definition renderDropColumn :: "dialect \<Rightarrow> table \<Rightarrow> string \<Rightarrow> string" where
  "renderDropColumn d t col =
     ''ALTER TABLE '' @ QuoteIdent d (tblName t) @ '' DROP COLUMN '' @ QuoteIdent d col"

definition renderRenameColumn :: "dialect \<Rightarrow> table \<Rightarrow> string \<Rightarrow> string \<Rightarrow> string" where
  "renderRenameColumn d t oldName newName =
     ''ALTER TABLE '' @ QuoteIdent d (tblName t) @ '' RENAME COLUMN '' @ QuoteIdent d oldName
       @ '' TO '' @ QuoteIdent d newName"

definition renderAlterColumn ::
    "dialect \<Rightarrow> ddl option \<Rightarrow> table \<Rightarrow> string \<Rightarrow> goType \<Rightarrow> columnSpec \<Rightarrow> ddlError + string" where
  "renderAlterColumn d dd t col ty spec =
     rbind (asDDL d dd) (\<lambda>g. AlterColumnSQL g (tblName t) col ty spec)"

record createIndexBuilder =
  ciTable :: table
  ciName :: string
  ciColumns :: "string list"
  ciUnique :: bool

definition CreateIndex :: "table \<Rightarrow> string \<Rightarrow> string list \<Rightarrow> createIndexBuilder" where
  "CreateIndex t name cols = \<lparr>ciTable = t, ciName = name, ciColumns = cols, ciUnique = False\<rparr>"

definition Unique :: "createIndexBuilder \<Rightarrow> createIndexBuilder" where
  "Unique b = b\<lparr>ciUnique := True\<rparr>"

definition renderCreateIndex :: "dialect \<Rightarrow> createIndexBuilder \<Rightarrow> string" where
  "renderCreateIndex d b =
     ''CREATE '' @ (if ciUnique b then ''UNIQUE '' else []) @ ''INDEX '' @ QuoteIdent d (ciName b)
       @ '' ON '' @ QuoteIdent d (tblName (ciTable b)) @ '' ('' @ quoteIdentList d (ciColumns b) @ '')''"

definition renderDropIndex :: "dialect \<Rightarrow> ddl option \<Rightarrow> table \<Rightarrow> string \<Rightarrow> ddlError + string" where
  "renderDropIndex d dd t index = rbind (asDDL d dd) (\<lambda>g. Inr (DropIndexSQL g (tblName t) index))"

definition renderRenameIndex ::
    "dialect \<Rightarrow> ddl option \<Rightarrow> table \<Rightarrow> string \<Rightarrow> string \<Rightarrow> ddlError + string" where
  "renderRenameIndex d dd t oldName newName =
     rbind (asDDL d dd) (\<lambda>g. RenameIndexSQL g (tblName t) oldName newName)"

record createConstraintBuilder =
  ccTable :: table
  ccName :: string
  ccLocalCols :: "string list"
  ccRefTable :: string
  ccRefCols :: "string list"

definition renderCreateConstraint :: "dialect \<Rightarrow> createConstraintBuilder \<Rightarrow> ddlError + string" where
  "renderCreateConstraint d b =
     (if Name d = ''sqlite'' then Inl (ErrConstraintsUnsupported (Name d))
      else Inr (''ALTER TABLE '' @ QuoteIdent d (tblName (ccTable b)) @ '' ADD CONSTRAINT ''
             @ QuoteIdent d (ccName b) @ '' FOREIGN KEY ('' @ quoteIdentList d (ccLocalCols b)
             @ '') REFERENCES '' @ QuoteIdent d (ccRefTable b) @ '' ('' @ quoteIdentList d (ccRefCols b) @ '')''))"

definition renderDropConstraint :: "dialect \<Rightarrow> table \<Rightarrow> string \<Rightarrow> ddlError + string" where
  "renderDropConstraint d t name =
     (if Name d = ''sqlite'' then Inl (ErrConstraintsUnsupported (Name d))
      else Inr (''ALTER TABLE '' @ QuoteIdent d (tblName t) @ '' ''
             @ (if Name d = ''mysql'' then ''DROP FOREIGN KEY'' else ''DROP CONSTRAINT'')
             @ '' '' @ QuoteIdent d name))"

section \<open>What CREATE TABLE says of the columns and the primary key\<close>

definition trailingPK :: "ddl \<Rightarrow> ddlColumn list \<Rightarrow> string list" where
  "trailingPK g cs = map dcName (filter (\<lambda>c. csPrimaryKey (dcSpec c) \<and> \<not> InlinesPrimaryKey g (dcSpec c)) cs)"

lemma renderColumns_ok:
  "\<forall>c\<in>set cs. \<not> isl (ColumnDefinition g (dcType c) (dcSpec c)) \<Longrightarrow>
   renderColumns d g cs parts pks =
     Inr (parts @ map (\<lambda>c. QuoteIdent d (dcName c) @ '' '' @ projr (ColumnDefinition g (dcType c) (dcSpec c))) cs,
          pks @ trailingPK g cs)"
  by (induction cs arbitrary: parts pks)
     (auto simp: trailingPK_def split: sum.splits)

lemma renderColumns_error:
  "c \<in> set cs \<Longrightarrow> isl (ColumnDefinition g (dcType c) (dcSpec c)) \<Longrightarrow>
     \<exists>e. renderColumns d g cs parts pks = Inl e"
  by (induction cs arbitrary: parts pks) (auto split: sum.splits)

lemmas ddl_defs = PostgresDDL_def MySQLDDL_def SQLiteDDL_def

lemma renderCreateTable_ok:
  assumes "renderCreateTable d (Some g) b = Inr s"
  shows "(\<forall>c\<in>set (ctColumns b). \<not> isl (ColumnDefinition g (dcType c) (dcSpec c)))
    \<and> s = ''CREATE TABLE '' @ (if ctIfNotExists b then ''IF NOT EXISTS '' else [])
         @ QuoteIdent d (tblName (ctTable b)) @ '' (''
         @ join '', '' (map (\<lambda>c. QuoteIdent d (dcName c) @ '' '' @ projr (ColumnDefinition g (dcType c) (dcSpec c))) (ctColumns b)
             @ (if trailingPK g (ctColumns b) = [] then []
                else [''PRIMARY KEY ('' @ quoteIdentList d (trailingPK g (ctColumns b)) @ '')'']))
         @ '')''"
proof -
  have all: "\<forall>c\<in>set (ctColumns b). \<not> isl (ColumnDefinition g (dcType c) (dcSpec c))"
  proof (rule ccontr)
    assume "\<not> ?thesis"
    then obtain c where "c \<in> set (ctColumns b)" "isl (ColumnDefinition g (dcType c) (dcSpec c))" by blast
    then have "\<exists>e. renderColumns d g (ctColumns b) [] [] = Inl e"
      by (rule renderColumns_error)
    then show False using assms by (auto simp: renderCreateTable_def asDDL_def)
  qed
  with assms show ?thesis
    by (auto simp: renderCreateTable_def asDDL_def renderColumns_ok Let_def)
qed

text \<open>A CREATE TABLE statement that renders lists all columns in order, each with its
  definition, and makes every primary-key column a key exactly once: by its own definition
  (the inlined SQLite form), or in the one trailing PRIMARY KEY clause, which lists exactly
  the other primary-key columns.\<close>

theorem create_table_primary_key:
  assumes "(d, g) \<in> {(Postgres, PostgresDDL), (MySQL, MySQLDDL), (SQLite, SQLiteDDL)}"
    and "renderCreateTable d (Some g) b = Inr s"
  shows "\<exists>def. s = ''CREATE TABLE '' @ (if ctIfNotExists b then ''IF NOT EXISTS '' else [])
         @ QuoteIdent d (tblName (ctTable b)) @ '' (''
         @ join '', '' (map (\<lambda>c. QuoteIdent d (dcName c) @ '' '' @ def c) (ctColumns b)
             @ (if trailingPK g (ctColumns b) = [] then []
                else [''PRIMARY KEY ('' @ quoteIdentList d (trailingPK g (ctColumns b)) @ '')'']))
         @ '')''
     \<and> (\<forall>c\<in>set (ctColumns b). ColumnDefinition g (dcType c) (dcSpec c) = Inr (def c)
          \<and> (csPrimaryKey (dcSpec c) \<longrightarrow>
               (if InlinesPrimaryKey g (dcSpec c) then def c = ''INTEGER PRIMARY KEY AUTOINCREMENT''
                else dcName c \<in> set (trailingPK g (ctColumns b)))))"
proof (intro exI conjI)
  let ?def = "\<lambda>c. projr (ColumnDefinition g (dcType c) (dcSpec c))"
  note ok = renderCreateTable_ok [OF assms(2)]
  show "s = ''CREATE TABLE '' @ (if ctIfNotExists b then ''IF NOT EXISTS '' else [])
         @ QuoteIdent d (tblName (ctTable b)) @ '' (''
         @ join '', '' (map (\<lambda>c. QuoteIdent d (dcName c) @ '' '' @ ?def c) (ctColumns b)
             @ (if trailingPK g (ctColumns b) = [] then []
                else [''PRIMARY KEY ('' @ quoteIdentList d (trailingPK g (ctColumns b)) @ '')'']))
         @ '')''"
    using ok by (rule conjunct2)
  show "\<forall>c\<in>set (ctColumns b). ColumnDefinition g (dcType c) (dcSpec c) = Inr (?def c)
          \<and> (csPrimaryKey (dcSpec c) \<longrightarrow>
               (if InlinesPrimaryKey g (dcSpec c) then ?def c = ''INTEGER PRIMARY KEY AUTOINCREMENT''
                else dcName c \<in> set (trailingPK g (ctColumns b))))"
  proof
    fix c assume c: "c \<in> set (ctColumns b)"
    with ok have r: "\<not> isl (ColumnDefinition g (dcType c) (dcSpec c))" by blast
    then obtain x where x: "ColumnDefinition g (dcType c) (dcSpec c) = Inr x"
      by (cases "ColumnDefinition g (dcType c) (dcSpec c)") auto
    then have "InlinesPrimaryKey g (dcSpec c) \<Longrightarrow> x = ''INTEGER PRIMARY KEY AUTOINCREMENT''"
      using assms(1) by (auto simp: ddl_defs sqliteColumnDefinition_def split: if_splits)
    with x c show "ColumnDefinition g (dcType c) (dcSpec c) = Inr (?def c)
          \<and> (csPrimaryKey (dcSpec c) \<longrightarrow>
               (if InlinesPrimaryKey g (dcSpec c) then ?def c = ''INTEGER PRIMARY KEY AUTOINCREMENT''
                else dcName c \<in> set (trailingPK g (ctColumns b))))"
      by (auto simp: trailingPK_def)
  qed
qed

theorem create_table_primary_key_witness:
  "\<exists>s. renderCreateTable SQLite (Some SQLiteDDL)
     (ColumnDef ''id'' GoInt64 \<lparr>csPrimaryKey = True, csAutoIncrement = True, csNotNull = False,
        csUnique = False, csHasDefault = False, csDefault = [], csSQLType = []\<rparr>
        (CreateTable \<lparr>tblName = ''t'', tblAlias = []\<rparr>)) = Inr s
   \<and> (\<exists>def. def = ''INTEGER PRIMARY KEY AUTOINCREMENT''
        \<and> s = ''CREATE TABLE '' @ QuoteIdent SQLite ''t'' @ '' ('' @ QuoteIdent SQLite ''id'' @ '' '' @ def @ '')'')"
proof -
  let ?spec = "\<lparr>csPrimaryKey = True, csAutoIncrement = True, csNotNull = False,
        csUnique = False, csHasDefault = False, csDefault = [], csSQLType = []\<rparr>"
  let ?b = "ColumnDef ''id'' GoInt64 ?spec (CreateTable \<lparr>tblName = ''t'', tblAlias = []\<rparr>)"
  obtain s where s: "renderCreateTable SQLite (Some SQLiteDDL) ?b = Inr s"
    by (simp add: renderCreateTable_def asDDL_def ColumnDef_def CreateTable_def SQLiteDDL_def
        sqliteColumnDefinition_def isIntegerKind_def wideInteger_def)
  have "(SQLite, SQLiteDDL) \<in> {(Postgres, PostgresDDL), (MySQL, MySQLDDL), (SQLite, SQLiteDDL)}" by simp
  from create_table_primary_key [OF this s] s show ?thesis
    by (auto simp: ColumnDef_def CreateTable_def SQLiteDDL_def trailingPK_def)
qed

end
