(* ===== verification/SchemaTags.thy ===== *)
theory SchemaTags
  imports Prelude
begin

text \<open>
  The \<open>db:\<close> struct tags of \<open>pack/internal/schema\<close>: \<open>tags.go\<close> (the two tag grammars and
  their errors) and \<open>snakecase.go\<close> (default names). A parser returns the parsed tag or the
  first error. The inverse printers at the end are the specification of the grammar.
\<close>

datatype relationKind = BelongsTo | HasOne | HasMany

record columnOptions =
  coPK :: bool
  coAutoIncrement :: bool
  coNullZero :: bool
  coUnique :: bool
  coNotNull :: bool
  coDefault :: string
  coHasDefault :: bool
  coSQLType :: string
  coSkip :: bool

definition noOptions :: columnOptions where
  "noOptions = \<lparr> coPK = False, coAutoIncrement = False, coNullZero = False, coUnique = False,
     coNotNull = False, coDefault = [], coHasDefault = False, coSQLType = [], coSkip = False \<rparr>"

record relationOptions =
  roKind :: relationKind
  roFK :: string
  roRef :: string

text \<open>\<open>ParsedTag\<close>: a column (options, name slot, leading comma) or a relation.\<close>

datatype parsedTag =
    ColumnTag columnOptions string bool
  | RelationTag relationOptions

record structOptions =
  soTable :: string
  soHasTable :: bool
  soAlias :: string
  soHasAlias :: bool

definition noStructOptions :: structOptions where
  "noStructOptions = \<lparr>soTable = [], soHasTable = False, soAlias = [], soHasAlias = False\<rparr>"

datatype schemaError =
    ErrAmbiguousColumnSlot string string string
  | ErrMisplacedRelPrefix string string string nat
  | ErrUnknownRelationKind string string string
  | ErrOptionWrongGrammar string string string string
  | ErrUnknownOption string string string
  | ErrFieldOptionOnStructTag string string
  | ErrStructOptionOnFieldTag string string string
  | ErrMissingTableName string
  | ErrPointerEmbed string string
  | ErrCompositeKeyShape string string string
  | ErrRelationFieldShape string string relationKind string
  | ErrValueReceiverHook string string

definition bareColumnOptions :: "string list" where
  "bareColumnOptions = [''pk'', ''auto_increment'', ''null_zero'', ''unique'', ''not_null'']"

definition prefixColumnOptions :: "string list" where
  "prefixColumnOptions = [''default:'', ''type:'', ''fk:'', ''ref:'']"

definition isOptionLike :: "string \<Rightarrow> bool" where
  "isOptionLike elem \<longleftrightarrow>
     elem \<in> set bareColumnOptions \<or> list_ex (hasPrefix elem) prefixColumnOptions"

text \<open>One option of a column tag.\<close>

definition columnOption :: "string \<Rightarrow> string \<Rightarrow> string \<Rightarrow> columnOptions \<Rightarrow> schemaError + columnOptions" where
  "columnOption s f opt co =
     (if opt = [] then Inr co
      else if opt = ''pk'' then Inr (co\<lparr>coPK := True\<rparr>)
      else if opt = ''auto_increment'' then Inr (co\<lparr>coAutoIncrement := True\<rparr>)
      else if opt = ''null_zero'' then Inr (co\<lparr>coNullZero := True\<rparr>)
      else if opt = ''unique'' then Inr (co\<lparr>coUnique := True\<rparr>)
      else if opt = ''not_null'' then Inr (co\<lparr>coNotNull := True\<rparr>)
      else if hasPrefix opt ''default:'' then
        Inr (co\<lparr>coDefault := trimPrefix opt ''default:'', coHasDefault := True\<rparr>)
      else if hasPrefix opt ''type:'' then Inr (co\<lparr>coSQLType := trimPrefix opt ''type:''\<rparr>)
      else if hasPrefix opt ''fk:'' \<or> hasPrefix opt ''ref:'' then
        Inl (ErrOptionWrongGrammar s f opt ''column'')
      else if hasPrefix opt ''table:'' \<or> hasPrefix opt ''alias:'' then
        Inl (ErrStructOptionOnFieldTag s f opt)
      else Inl (ErrUnknownOption s f opt))"

definition relationOption :: "string \<Rightarrow> string \<Rightarrow> string \<Rightarrow> relationOptions \<Rightarrow> schemaError + relationOptions" where
  "relationOption s f opt r =
     (if opt = [] then Inr r
      else if hasPrefix opt ''fk:'' then Inr (r\<lparr>roFK := trimPrefix opt ''fk:''\<rparr>)
      else if hasPrefix opt ''ref:'' then Inr (r\<lparr>roRef := trimPrefix opt ''ref:''\<rparr>)
      else if opt \<in> set bareColumnOptions \<or> hasPrefix opt ''default:'' \<or> hasPrefix opt ''type:'' then
        Inl (ErrOptionWrongGrammar s f opt ''relation'')
      else if hasPrefix opt ''table:'' \<or> hasPrefix opt ''alias:'' then
        Inl (ErrStructOptionOnFieldTag s f opt)
      else Inl (ErrUnknownOption s f opt))"

definition structOption :: "string \<Rightarrow> string \<Rightarrow> structOptions \<Rightarrow> schemaError + structOptions" where
  "structOption s elem co =
     (if elem = [] then Inr co
      else if hasPrefix elem ''table:'' then
        Inr (co\<lparr>soTable := trimPrefix elem ''table:'', soHasTable := True\<rparr>)
      else if hasPrefix elem ''alias:'' then
        Inr (co\<lparr>soAlias := trimPrefix elem ''alias:'', soHasAlias := True\<rparr>)
      else if elem \<in> set bareColumnOptions \<or> elem = ''-'' \<or> hasPrefix elem ''default:''
          \<or> hasPrefix elem ''type:'' \<or> hasPrefix elem ''fk:'' \<or> hasPrefix elem ''ref:''
          \<or> hasPrefix elem ''rel:'' then Inl (ErrFieldOptionOnStructTag s elem)
      else Inl (ErrUnknownOption s [] elem))"

text \<open>The option loops: left to right, the first error ends them.\<close>

fun foldRes :: "('x \<Rightarrow> 'a \<Rightarrow> 'e + 'a) \<Rightarrow> 'x list \<Rightarrow> 'a \<Rightarrow> 'e + 'a" where
  "foldRes f [] a = Inr a"
| "foldRes f (x # xs) a = rbind (f x a) (foldRes f xs)"

lemma foldRes_append: "foldRes f (xs @ ys) a = rbind (foldRes f xs a) (foldRes f ys)"
  by (induction xs arbitrary: a) (auto simp: rbind_def split: sum.splits)

definition parseRelationTag :: "string \<Rightarrow> string \<Rightarrow> string list \<Rightarrow> schemaError + parsedTag" where
  "parseRelationTag s f elems =
     (let kindStr = trimPrefix (hd elems) ''rel:'';
          go = (\<lambda>k. rbind (foldRes (relationOption s f) (tl elems) \<lparr>roKind = k, roFK = [], roRef = []\<rparr>)
                      (\<lambda>r. Inr (RelationTag r)))
      in if kindStr = ''belongs_to'' then go BelongsTo
         else if kindStr = ''has_one'' then go HasOne
         else if kindStr = ''has_many'' then go HasMany
         else Inl (ErrUnknownRelationKind s f kindStr))"

definition parseColumnTag :: "string \<Rightarrow> string \<Rightarrow> string \<Rightarrow> string list \<Rightarrow> schemaError + parsedTag" where
  "parseColumnTag s f raw elems =
     (if raw = [] then Inr (ColumnTag noOptions [] False)
      else
        let slot = hd elems; hasLeadingComma = (slot = []);
            isDeliberateEscape = (length elems = 2 \<and> elems ! 1 = [])
        in if isOptionLike slot \<and> \<not> isDeliberateEscape then Inl (ErrAmbiguousColumnSlot s f slot)
           else rbind (foldRes (columnOption s f) (if isDeliberateEscape then [] else tl elems) noOptions)
                  (\<lambda>co. Inr (ColumnTag co slot hasLeadingComma)))"

text \<open>The first element after position 0 that starts with \<open>rel:\<close>.\<close>

fun misplacedRel :: "nat \<Rightarrow> string list \<Rightarrow> (string \<times> nat) option" where
  "misplacedRel i [] = None"
| "misplacedRel i (e # es) =
     (if hasPrefix e ''rel:'' \<and> i \<noteq> 0 then Some (e, i) else misplacedRel (Suc i) es)"

definition ParseFieldTag :: "string \<Rightarrow> string \<Rightarrow> string \<Rightarrow> schemaError + parsedTag" where
  "ParseFieldTag s f raw =
     (if raw = ''-'' then Inr (ColumnTag (noOptions\<lparr>coSkip := True\<rparr>) [] False)
      else
        let elems = splitOn (CHR '','') raw
        in case misplacedRel 0 elems of
             Some (e, i) \<Rightarrow> Inl (ErrMisplacedRelPrefix s f e i)
           | None \<Rightarrow> if hasPrefix (hd elems) ''rel:'' then parseRelationTag s f elems
                     else parseColumnTag s f raw elems)"

definition ParseStructTag :: "string \<Rightarrow> string \<Rightarrow> schemaError + structOptions" where
  "ParseStructTag s raw =
     (if raw = [] then Inr noStructOptions
      else foldRes (structOption s) (splitOn (CHR '','') raw) noStructOptions)"

section \<open>Snake case\<close>

definition isUpper :: "char \<Rightarrow> bool" where
  "isUpper c \<longleftrightarrow> 65 \<le> (of_char c :: nat) \<and> (of_char c :: nat) \<le> 90"

definition isLower :: "char \<Rightarrow> bool" where
  "isLower c \<longleftrightarrow> 97 \<le> (of_char c :: nat) \<and> (of_char c :: nat) \<le> 122"

text \<open>The rune loop of \<open>toSnakeCase\<close>, after the rune \<open>prev\<close> (none before the first). Go
  identifiers of models are taken as ASCII.\<close>

fun snakeFrom :: "char option \<Rightarrow> string \<Rightarrow> string" where
  "snakeFrom prev [] = []"
| "snakeFrom prev (r # rs) =
     (case prev of
        None \<Rightarrow> []
      | Some p \<Rightarrow>
          if isUpper r \<and> (isLower p \<or> isDigit p \<or>
               isUpper p \<and> (case rs of [] \<Rightarrow> False | n # _ \<Rightarrow> isLower n))
          then ''_'' else [])
     @ toLowerChar r # snakeFrom (Some r) rs"

definition toSnakeCase :: "string \<Rightarrow> string" where
  "toSnakeCase s = snakeFrom None s"

lemma toLowerChar_not_upper [simp]: "\<not> isUpper (toLowerChar c)"
  by (auto simp: toLowerChar_def isUpper_def Let_def)

lemma underscore_not_upper [simp]: "\<not> isUpper (CHR ''_'')"
  by (simp add: isUpper_def)

lemma snakeFrom_no_upper: "c \<in> set (snakeFrom prev s) \<Longrightarrow> \<not> isUpper c"
proof (induction prev s rule: snakeFrom.induct)
  case (2 prev r rs)
  then consider "c = CHR ''_''" | "c = toLowerChar r" | "c \<in> set (snakeFrom (Some r) rs)"
    by (auto split: option.splits if_splits)
  then show ?case by cases (use 2 in simp_all)
qed simp

lemma snakeFrom_letters: "filter (\<lambda>c. c \<noteq> CHR ''_'') (snakeFrom prev s)
    = filter (\<lambda>c. c \<noteq> CHR ''_'') (toLower s)"
  by (induction prev s rule: snakeFrom.induct) (auto simp: toLower_def split: option.splits)

lemma not_upper_lower: "\<not> isUpper c \<Longrightarrow> toLowerChar c = c"
  by (auto simp: toLowerChar_def isUpper_def Let_def)

lemma snakeFrom_id: "list_all (\<lambda>c. \<not> isUpper c) s \<Longrightarrow> snakeFrom prev s = s"
  by (induction prev s rule: snakeFrom.induct) (auto simp: not_upper_lower split: option.splits)

lemma toSnakeCase_idem: "toSnakeCase (toSnakeCase s) = toSnakeCase s"
  unfolding toSnakeCase_def
  by (rule snakeFrom_id) (auto simp: list_all_iff dest: snakeFrom_no_upper)

section \<open>Printing tags\<close>

text \<open>
  The tag that states given column options. A column whose name is also an option is
  written with a trailing comma, and then takes no options: the grammar cannot state both.
\<close>

definition columnOptionList :: "columnOptions \<Rightarrow> string list" where
  "columnOptionList co =
     (if coPK co then [''pk''] else []) @ (if coAutoIncrement co then [''auto_increment''] else [])
     @ (if coNullZero co then [''null_zero''] else []) @ (if coUnique co then [''unique''] else [])
     @ (if coNotNull co then [''not_null''] else [])
     @ (if coHasDefault co then [''default:'' @ coDefault co] else [])
     @ (if coSQLType co \<noteq> [] then [''type:'' @ coSQLType co] else [])"

definition printColumnTag :: "string \<Rightarrow> columnOptions \<Rightarrow> string" where
  "printColumnTag name co =
     (if isOptionLike name then name @ '',''
      else join '','' (name # columnOptionList co))"

definition plainText :: "string \<Rightarrow> bool" where
  "plainText t \<longleftrightarrow> CHR '','' \<notin> set t"

text \<open>The options a column tag can state together with a name.\<close>

definition statable :: "string \<Rightarrow> columnOptions \<Rightarrow> bool" where
  "statable name co \<longleftrightarrow> plainText name \<and> name \<noteq> ''-'' \<and> \<not> hasPrefix name ''rel:''
     \<and> plainText (coDefault co) \<and> plainText (coSQLType co) \<and> \<not> coSkip co
     \<and> (\<not> coHasDefault co \<longrightarrow> coDefault co = []) \<and> (isOptionLike name \<longrightarrow> co = noOptions)"

lemma splitOn_plain: "c \<notin> set s \<Longrightarrow> splitOn c s = [s]"
  by (induction s) auto

lemma splitOn_sep: "c \<notin> set s \<Longrightarrow> splitOn c (s @ c # t) = s # splitOn c t"
  by (induction s) auto

lemma splitOn_join:
  "xs \<noteq> [] \<Longrightarrow> \<forall>x\<in>set xs. c \<notin> set x \<Longrightarrow> splitOn c (join [c] xs) = xs"
  by (induction "[c]" xs rule: join.induct) (auto simp: splitOn_plain splitOn_sep)

lemma columnOptionList_parse:
  assumes "\<not> coSkip co" and "\<not> coHasDefault co \<longrightarrow> coDefault co = []"
  shows "foldRes (columnOption s f) (columnOptionList co) noOptions = Inr co"
proof -
  have d: "columnOption s f (''default:'' @ v) x = Inr (x\<lparr>coDefault := v, coHasDefault := True\<rparr>)" for v x
    by (simp add: columnOption_def hasPrefix_def trimPrefix_def)
  have t: "columnOption s f (''type:'' @ v) x = Inr (x\<lparr>coSQLType := v\<rparr>)" for v x
    by (simp add: columnOption_def hasPrefix_def trimPrefix_def)
  have b: "columnOption s f ''pk'' x = Inr (x\<lparr>coPK := True\<rparr>)"
    "columnOption s f ''auto_increment'' x = Inr (x\<lparr>coAutoIncrement := True\<rparr>)"
    "columnOption s f ''null_zero'' x = Inr (x\<lparr>coNullZero := True\<rparr>)"
    "columnOption s f ''unique'' x = Inr (x\<lparr>coUnique := True\<rparr>)"
    "columnOption s f ''not_null'' x = Inr (x\<lparr>coNotNull := True\<rparr>)" for x
    by (simp_all add: columnOption_def)
  show ?thesis
    using assms unfolding columnOptionList_def
    by (cases co) (simp add: foldRes_append d [simplified] t [simplified] b noOptions_def)
qed

lemma columnOptionList_elems:
  "e \<in> set (columnOptionList co) \<Longrightarrow> e \<noteq> [] \<and> \<not> hasPrefix e ''rel:''"
  by (auto simp: columnOptionList_def hasPrefix_def split: if_splits)

lemma columnOptionList_plain:
  "plainText (coDefault co) \<Longrightarrow> plainText (coSQLType co) \<Longrightarrow> e \<in> set (columnOptionList co) \<Longrightarrow>
     CHR '','' \<notin> set e"
  by (auto simp: columnOptionList_def plainText_def split: if_splits)

lemma misplacedRel_none: "\<forall>e\<in>set es. \<not> hasPrefix e ''rel:'' \<Longrightarrow> misplacedRel i es = None"
  by (induction i es rule: misplacedRel.induct) auto

text \<open>A column tag that states given options parses back to exactly these options and this
  name; a name that is itself an option is read as a name when written with a trailing comma.\<close>

theorem column_tag_roundtrip:
  assumes "statable name co"
  shows "ParseFieldTag s f (printColumnTag name co)
    = Inr (ColumnTag co name (name = [] \<and> columnOptionList co \<noteq> []))"
proof (cases "isOptionLike name")
  case True
  then have "name \<noteq> []" by (auto simp: isOptionLike_def bareColumnOptions_def prefixColumnOptions_def hasPrefix_def)
  moreover have "splitOn (CHR '','') (name @ '','') = [name, []]"
    using assms splitOn_sep [of "CHR '',''" name "[]"] by (simp add: statable_def plainText_def)
  moreover have "co = noOptions" using assms True by (simp add: statable_def)
  ultimately show ?thesis
    using assms True
    by (auto simp: ParseFieldTag_def parseColumnTag_def printColumnTag_def statable_def hasPrefix_def
        Let_def append_eq_Cons_conv)
next
  case False
  let ?es = "name # columnOptionList co"
  have split: "splitOn (CHR '','') (join '','' ?es) = ?es"
    using assms columnOptionList_plain [of co]
    by (intro splitOn_join) (auto simp: statable_def plainText_def)
  have none: "misplacedRel 0 ?es = None"
    using assms columnOptionList_elems by (intro misplacedRel_none) (auto simp: statable_def)
  have "\<not> (length ?es = 2 \<and> ?es ! 1 = [])"
    using columnOptionList_elems [of "[]" co] by (cases "columnOptionList co") auto
  moreover have "join '','' ?es \<noteq> ''-''" "join '','' ?es = [] \<longleftrightarrow> name = [] \<and> columnOptionList co = []"
    using split assms by (auto simp: statable_def join_Cons split: if_splits)
  moreover have "foldRes (columnOption s f) (columnOptionList co) noOptions = Inr co"
    using assms by (intro columnOptionList_parse) (auto simp: statable_def)
  ultimately show ?thesis
    using assms False split none
    by (auto simp: ParseFieldTag_def parseColumnTag_def printColumnTag_def statable_def Let_def)
qed

theorem column_tag_roundtrip_witness:
  "ParseFieldTag ''User'' ''Email'' '',unique,default:a:b'' =
     Inr (ColumnTag (noOptions\<lparr>coUnique := True, coDefault := ''a:b'', coHasDefault := True\<rparr>) [] True)
   \<and> ParseFieldTag ''User'' ''PK'' ''pk,'' = Inr (ColumnTag noOptions ''pk'' False)"
proof -
  let ?co = "noOptions\<lparr>coUnique := True, coDefault := ''a:b'', coHasDefault := True\<rparr>"
  have "statable [] ?co" "statable ''pk'' noOptions"
    by (simp_all add: statable_def plainText_def hasPrefix_def noOptions_def isOptionLike_def
        bareColumnOptions_def prefixColumnOptions_def)
  note rt = this [THEN column_tag_roundtrip]
  have "printColumnTag [] ?co = '',unique,default:a:b''" "printColumnTag ''pk'' noOptions = ''pk,''"
    by (simp_all add: printColumnTag_def columnOptionList_def noOptions_def hasPrefix_def isOptionLike_def
        bareColumnOptions_def prefixColumnOptions_def)
  then show ?thesis
    using rt(1) [of "''User''" "''Email''"] rt(2) [of "''User''" "''PK''"]
    by (simp add: columnOptionList_def noOptions_def)
qed

end
