(* ===== verification/Schema.thy ===== *)
theory Schema
  imports SchemaTags
begin

text \<open>
  Building a model's table from its struct type (\<open>pack/internal/schema/schema.go\<close>):
  \<open>build\<close> and the passes it runs. A Go struct type is a tree of fields; pointers and slices
  name the types they lead to. What reflection says of method sets (a \<open>TableName\<close> method and
  its result, \<open>driver.Valuer\<close> and \<open>sql.Scanner\<close>, lifecycle hooks) is the record \<open>methods\<close>.
  Errors are accumulated, as in \<open>buildCtx\<close>. The registry cache of \<open>For\<close> is not modelled.
\<close>

section \<open>Reflected types\<close>

datatype tyRef = RStruct string | RPointer string | ROther string

text \<open>\<open>RPointer n\<close> is a pointer to the struct \<open>n\<close>; \<open>ROther\<close> any other type, with its kind.\<close>

datatype goTy =
    TScalar string
  | TPointer tyRef
  | TSlice tyRef
  | TStruct string "goField list"
and goField = GoField (gfName: string) (gfAnon: bool) (gfExported: bool) (gfTag: "string option") (gfType: goTy)

record methods =
  meTableName :: "string option"
  meScalarStruct :: "goTy \<Rightarrow> bool"
  meValueHook :: "string \<Rightarrow> bool"
  mePointerHook :: "string \<Rightarrow> bool"

fun structName :: "goTy \<Rightarrow> string" where
  "structName (TStruct n fs) = n"
| "structName (TScalar n) = n"
| "structName _ = []"

fun structFields :: "goTy \<Rightarrow> goField list" where
  "structFields (TStruct n fs) = fs"
| "structFields _ = []"

text \<open>\<open>reflect.Type.FieldByIndex\<close>.\<close>

fun fieldByIndex :: "goField list \<Rightarrow> nat list \<Rightarrow> goField option" where
  "fieldByIndex fs [] = None"
| "fieldByIndex fs [i] = (if i < length fs then Some (fs ! i) else None)"
| "fieldByIndex fs (i # j # is) =
     (if i < length fs then fieldByIndex (structFields (gfType (fs ! i))) (j # is) else None)"

record field =
  fdGoName :: string
  fdColumn :: string
  fdIndex :: "nat list"
  fdType :: goTy
  fdOptions :: columnOptions

record relation =
  rlGoName :: string
  rlIndex :: "nat list"
  rlKind :: relationKind
  rlTarget :: string
  rlSlice :: bool
  rlFK :: string
  rlRef :: string

record hooks =
  hkBeforeInsert :: bool
  hkAfterInsert :: bool
  hkBeforeUpdate :: bool
  hkAfterUpdate :: bool
  hkBeforeDelete :: bool
  hkAfterDelete :: bool
  hkAfterScan :: bool

record schemaTable =
  stName :: string
  stAlias :: string
  stFields :: "field list"
  stByColumn :: "string \<rightharpoonup> field"
  stPK :: "field list"
  stPKIsComposite :: bool
  stRelations :: "relation list"
  stHooks :: hooks

section \<open>Walking the fields\<close>

text \<open>What \<open>walkFields\<close> writes to: the errors of the context, the fields and relations of
  the table, and the struct options once seen (\<open>haveStructOpts\<close>).\<close>

record walk =
  wkErrs :: "schemaError list"
  wkFields :: "field list"
  wkRelations :: "relation list"
  wkStructOpts :: "structOptions option"

definition walk0 :: walk where
  "walk0 = \<lparr>wkErrs = [], wkFields = [], wkRelations = [], wkStructOpts = None\<rparr>"

definition failWith :: "schemaError \<Rightarrow> walk \<Rightarrow> walk" where
  "failWith e w = w\<lparr>wkErrs := wkErrs w @ [e]\<rparr>"

definition buildRelation :: "string \<Rightarrow> goField \<Rightarrow> nat list \<Rightarrow> relationOptions \<Rightarrow> schemaError + relation" where
  "buildRelation s sf index r =
     (let rel = (\<lambda>target slice. \<lparr>rlGoName = gfName sf, rlIndex = index, rlKind = roKind r,
                   rlTarget = target, rlSlice = slice, rlFK = roFK r, rlRef = roRef r\<rparr>)
      in if roKind r = HasMany then
           (case gfType sf of
              TSlice (RPointer n) \<Rightarrow> Inr (rel n True)
            | _ \<Rightarrow> Inl (ErrRelationFieldShape s (gfName sf) (roKind r) ''expected a slice of pointer to struct''))
         else
           (case gfType sf of
              TPointer (RStruct n) \<Rightarrow> Inr (rel n False)
            | _ \<Rightarrow> Inl (ErrRelationFieldShape s (gfName sf) (roKind r) ''expected a pointer to struct'')))"

definition columnName :: "string \<Rightarrow> goField \<Rightarrow> string" where
  "columnName slot sf = (if slot = [] then toSnakeCase (gfName sf) else slot)"

text \<open>A field that is neither embedded nor unexported.\<close>

definition walkField :: "string \<Rightarrow> goField \<Rightarrow> nat list \<Rightarrow> walk \<Rightarrow> walk" where
  "walkField s sf index w =
     (case ParseFieldTag s (gfName sf) (case gfTag sf of None \<Rightarrow> [] | Some raw \<Rightarrow> raw) of
        Inl e \<Rightarrow> failWith e w
      | Inr (RelationTag r) \<Rightarrow>
          (case buildRelation s sf index r of
             Inl e \<Rightarrow> failWith e w
           | Inr rel \<Rightarrow> w\<lparr>wkRelations := wkRelations w @ [rel]\<rparr>)
      | Inr (ColumnTag co slot lc) \<Rightarrow>
          if coSkip co then w
          else w\<lparr>wkFields := wkFields w @ [\<lparr>fdGoName = gfName sf, fdColumn = columnName slot sf,
                   fdIndex = index, fdType = gfType sf, fdOptions = co\<rparr>]\<rparr>)"

definition walkStructTag :: "string \<Rightarrow> goField \<Rightarrow> walk \<Rightarrow> walk" where
  "walkStructTag s sf w =
     (case gfTag sf of
        None \<Rightarrow> w
      | Some raw \<Rightarrow>
          (case ParseStructTag s raw of
             Inl e \<Rightarrow> failWith e w
           | Inr opts \<Rightarrow> if wkStructOpts w = None then w\<lparr>wkStructOpts := Some opts\<rparr> else w))"

fun walkFields :: "string \<Rightarrow> nat list \<Rightarrow> nat \<Rightarrow> goField list \<Rightarrow> walk \<Rightarrow> walk" where
  "walkFields s pre i [] w = w"
| "walkFields s pre i (GoField n anon exported tag ty # fs) w =
     walkFields s pre (Suc i) fs
       (let sf = GoField n anon exported tag ty; index = pre @ [i] in
        if anon then
          (case ty of
             TPointer r \<Rightarrow> failWith (ErrPointerEmbed s n) w
           | TStruct m gs \<Rightarrow> walkFields s index 0 gs (walkStructTag s sf w)
           | _ \<Rightarrow> walkStructTag s sf w)
        else if \<not> exported then w
        else walkField s sf index w)"

section \<open>Table name, composite keys, foreign keys, hooks\<close>

definition resolveTableName :: "string \<Rightarrow> methods \<Rightarrow> structOptions \<Rightarrow> schemaError + string" where
  "resolveTableName s me so =
     (case meTableName me of
        Some name \<Rightarrow> Inr name
      | None \<Rightarrow> if soHasTable so then Inr (soTable so) else Inl (ErrMissingTableName s))"

definition isCompositeKeyCandidate :: "methods \<Rightarrow> goTy \<Rightarrow> bool" where
  "isCompositeKeyCandidate me ty \<longleftrightarrow>
     (case ty of TStruct n fs \<Rightarrow> \<not> meScalarStruct me ty | _ \<Rightarrow> False)"

fun notFlat :: "goTy \<Rightarrow> string option" where
  "notFlat (TScalar n) = None"
| "notFlat (TStruct n fs) = Some ''struct''"
| "notFlat (TPointer r) = Some ''ptr''"
| "notFlat (TSlice r) = Some ''slice''"

text \<open>The subfields of a composite key: errors and expanded fields.\<close>

fun expandKey :: "string \<Rightarrow> field \<Rightarrow> string \<Rightarrow> nat \<Rightarrow> goField list \<Rightarrow> schemaError list \<times> field list" where
  "expandKey s f keyName i [] = ([], [])"
| "expandKey s f keyName i (sf # sfs) =
     (let (errs, fds) = expandKey s f keyName (Suc i) sfs in
      if \<not> gfExported sf then (errs, fds)
      else (case notFlat (gfType sf) of
        Some kind \<Rightarrow>
          (ErrCompositeKeyShape s (fdGoName f)
             (''composite key fields must be flat scalars; found '' @ kind @ '' field '' @ gfName sf) # errs, fds)
      | None \<Rightarrow>
        (case ParseFieldTag keyName (gfName sf) (case gfTag sf of None \<Rightarrow> [] | Some raw \<Rightarrow> raw) of
           Inl e \<Rightarrow> (e # errs, fds)
         | Inr tag \<Rightarrow>
             (errs, \<lparr>fdGoName = gfName sf,
                     fdColumn = columnName (case tag of ColumnTag co slot lc \<Rightarrow> slot | RelationTag r \<Rightarrow> []) sf,
                     fdIndex = fdIndex f @ [i], fdType = gfType sf,
                     fdOptions = noOptions\<lparr>coPK := True\<rparr>\<rparr> # fds))))"

fun expandCompositeKeys :: "string \<Rightarrow> methods \<Rightarrow> field list \<Rightarrow> schemaError list \<times> field list \<times> bool" where
  "expandCompositeKeys s me [] = ([], [], False)"
| "expandCompositeKeys s me (f # fs) =
     (let (errs, fds, composite) = expandCompositeKeys s me fs in
      if coPK (fdOptions f) \<and> isCompositeKeyCandidate me (fdType f) then
        (let (e1, f1) = expandKey s f (structName (fdType f)) 0 (structFields (fdType f))
         in (e1 @ errs, f1 @ fds, True))
      else (errs, f # fds, composite))"

definition resolveRelationFK :: "string \<Rightarrow> relation \<Rightarrow> relation" where
  "resolveRelationFK s rel =
     (if rlFK rel \<noteq> [] then rel
      else rel\<lparr>rlFK := toSnakeCase (if rlKind rel = BelongsTo then rlTarget rel else s) @ ''_id''\<rparr>)"

definition detectHook :: "string \<Rightarrow> methods \<Rightarrow> string \<Rightarrow> schemaError list \<times> bool" where
  "detectHook s me m =
     (if meValueHook me m then ([ErrValueReceiverHook s m], False) else ([], mePointerHook me m))"

definition detectHooks :: "string \<Rightarrow> methods \<Rightarrow> schemaError list \<times> hooks" where
  "detectHooks s me =
     (let d = detectHook s me in
      (concat (map (fst \<circ> d) [''BeforeInsert'', ''AfterInsert'', ''BeforeUpdate'', ''AfterUpdate'',
          ''BeforeDelete'', ''AfterDelete'', ''AfterScan'']),
       \<lparr>hkBeforeInsert = snd (d ''BeforeInsert''), hkAfterInsert = snd (d ''AfterInsert''),
        hkBeforeUpdate = snd (d ''BeforeUpdate''), hkAfterUpdate = snd (d ''AfterUpdate''),
        hkBeforeDelete = snd (d ''BeforeDelete''), hkAfterDelete = snd (d ''AfterDelete''),
        hkAfterScan = snd (d ''AfterScan'')\<rparr>))"

section \<open>build\<close>

text \<open>The whole of \<open>build\<close>: all errors when there is one, else the table. A later field of
  the same column replaces an earlier one in the column index.\<close>

definition build :: "methods \<Rightarrow> goTy \<Rightarrow> schemaError list + schemaTable" where
  "build me t =
     (let s = structName t;
          w = walkFields s [] 0 (structFields t) walk0;
          so = (case wkStructOpts w of None \<Rightarrow> noStructOptions | Some opts \<Rightarrow> opts);
          (e1, name) = (case resolveTableName s me so of Inl e \<Rightarrow> ([e], []) | Inr n \<Rightarrow> ([], n));
          (e2, fds, composite) = expandCompositeKeys s me (wkFields w);
          (e3, hks) = detectHooks s me;
          errs = wkErrs w @ e1 @ e2 @ e3
      in if errs \<noteq> [] then Inl errs
         else Inr \<lparr> stName = name, stAlias = (if soHasAlias so then soAlias so else name),
                stFields = fds,
                stByColumn = fold (\<lambda>f m. m(fdColumn f \<mapsto> f)) fds Map.empty,
                stPK = filter (\<lambda>f. coPK (fdOptions f)) fds,
                stPKIsComposite = composite,
                stRelations = map (resolveRelationFK s) (wkRelations w),
                stHooks = hks \<rparr>)"

section \<open>Index paths lead to the fields\<close>

definition located :: "goField list \<Rightarrow> field \<Rightarrow> bool" where
  "located root f \<longleftrightarrow> (\<exists>gf. fieldByIndex root (fdIndex f) = Some gf
     \<and> gfName gf = fdGoName f \<and> gfType gf = fdType f \<and> gfExported gf)"

lemma locatedI:
  "fieldByIndex root (fdIndex f) = Some gf \<Longrightarrow> gfName gf = fdGoName f \<Longrightarrow> gfType gf = fdType f \<Longrightarrow>
     gfExported gf \<Longrightarrow> located root f"
  by (auto simp: located_def)

definition relLocated :: "goField list \<Rightarrow> relation \<Rightarrow> bool" where
  "relLocated root r \<longleftrightarrow> (\<exists>gf. fieldByIndex root (rlIndex r) = Some gf \<and> gfName gf = rlGoName r
     \<and> gfType gf = (if rlSlice r then TSlice (RPointer (rlTarget r)) else TPointer (RStruct (rlTarget r)))
     \<and> (rlSlice r \<longleftrightarrow> rlKind r = HasMany))"

definition walkLocated :: "goField list \<Rightarrow> walk \<Rightarrow> bool" where
  "walkLocated root w \<longleftrightarrow> list_all (located root) (wkFields w) \<and> list_all (relLocated root) (wkRelations w)"

text \<open>Below the path \<open>pre\<close>, the root's fields are those of \<open>fs0\<close>.\<close>

definition subtree :: "goField list \<Rightarrow> nat list \<Rightarrow> goField list \<Rightarrow> bool" where
  "subtree root pre fs0 \<longleftrightarrow> (\<forall>idx. idx \<noteq> [] \<longrightarrow> fieldByIndex root (pre @ idx) = fieldByIndex fs0 idx)"

lemma subtree_field: "subtree root pre fs0 \<Longrightarrow> i < length fs0 \<Longrightarrow>
    fieldByIndex root (pre @ [i]) = Some (fs0 ! i)"
  by (simp add: subtree_def)

lemma subtree_down:
  assumes "subtree root pre fs0" and "i < length fs0" and "gfType (fs0 ! i) = TStruct m gs"
  shows "subtree root (pre @ [i]) gs"
  unfolding subtree_def
proof (intro allI impI)
  fix idx :: "nat list" assume "idx \<noteq> []"
  then obtain j js where "idx = j # js" by (cases idx) auto
  then show "fieldByIndex root ((pre @ [i]) @ idx) = fieldByIndex gs idx"
    using assms by (simp add: subtree_def)
qed

lemma walkLocated_fail [simp]: "walkLocated root (failWith e w) \<longleftrightarrow> walkLocated root w"
  by (simp add: walkLocated_def failWith_def)

lemma walkLocated_structTag [simp]: "walkLocated root (walkStructTag s sf w) \<longleftrightarrow> walkLocated root w"
  by (auto simp: walkStructTag_def split: option.splits sum.splits) (simp_all add: walkLocated_def)

lemma buildRelation_located:
  "buildRelation s sf index r = Inr rel \<Longrightarrow> fieldByIndex root index = Some sf \<Longrightarrow> relLocated root rel"
  by (auto simp: buildRelation_def relLocated_def Let_def split: if_splits goTy.splits tyRef.splits)

lemma walkLocated_field:
  "fieldByIndex root index = Some sf \<Longrightarrow> gfExported sf \<Longrightarrow> walkLocated root w \<Longrightarrow>
     walkLocated root (walkField s sf index w)"
  by (auto simp: walkField_def walkLocated_def located_def failWith_def split: sum.splits parsedTag.splits
      intro: buildRelation_located)

lemma walkFields_located:
  "subtree root pre fs0 \<Longrightarrow> drop i fs0 = fs \<Longrightarrow> walkLocated root w \<Longrightarrow>
     walkLocated root (walkFields s pre i fs w)"
proof (induction s pre i fs w arbitrary: fs0 rule: walkFields.induct)
  case (2 s pre i n anon exported tag ty fs w)
  let ?sf = "GoField n anon exported tag ty"
  have i: "i < length fs0" "fs0 ! i = ?sf" "drop (Suc i) fs0 = fs"
    using 2(4) by (metis drop_all list.distinct(1) not_le, metis nth_via_drop, metis drop_Suc drop_tl list.sel(3))
  have at: "fieldByIndex root (pre @ [i]) = Some ?sf"
    using subtree_field [OF 2(3) i(1)] i(2) by simp
  have "walkLocated root (if anon then
          (case ty of
             TPointer r \<Rightarrow> failWith (ErrPointerEmbed s n) w
           | TStruct m gs \<Rightarrow> walkFields s (pre @ [i]) 0 gs (walkStructTag s ?sf w)
           | _ \<Rightarrow> walkStructTag s ?sf w)
        else if \<not> exported then w else walkField s ?sf (pre @ [i]) w)"
    using 2(1) [OF refl refl] 2(3,5) subtree_down [OF 2(3) i(1)] i(2) at
    by (auto split: goTy.splits intro: walkLocated_field)
  then show ?case
    using 2(2) [OF 2(3) i(3)] by (simp add: Let_def)
qed simp

lemma fieldByIndex_snoc:
  "fieldByIndex fs idx = Some gf \<Longrightarrow> fieldByIndex fs (idx @ [i]) =
     (if i < length (structFields (gfType gf)) then Some (structFields (gfType gf) ! i) else None)"
  by (induction fs idx rule: fieldByIndex.induct) (auto split: if_splits)

lemma expandKey_located:
  "fieldByIndex root (fdIndex f) = Some gf \<Longrightarrow> structFields (gfType gf) = gs \<Longrightarrow> drop i gs = sfs \<Longrightarrow>
     list_all (located root) (snd (expandKey s f kn i sfs))"
proof (induction s f kn i sfs rule: expandKey.induct)
  case (2 s f kn i sf sfs)
  have i: "i < length gs" "gs ! i = sf" "drop (Suc i) gs = sfs"
    using 2(4) by (metis drop_all list.distinct(1) not_le, metis nth_via_drop, metis drop_Suc drop_tl list.sel(3))
  have "fieldByIndex root (fdIndex f @ [i]) = Some sf"
    using fieldByIndex_snoc [OF 2(2)] 2(3) i by simp
  moreover have "list_all (located root) (snd (expandKey s f kn (Suc i) sfs))"
    using 2(1) [OF 2(2,3) i(3)] .
  ultimately show ?case
    by (auto split: prod.splits option.splits sum.splits intro: locatedI)
qed simp

lemma expandCompositeKeys_located:
  "list_all (located root) fs \<Longrightarrow> expandCompositeKeys s me fs = (errs, fds, composite) \<Longrightarrow>
     list_all (located root) fds"
proof (induction s me fs arbitrary: errs fds composite rule: expandCompositeKeys.induct)
  case (2 s me f fs)
  obtain e0 f0 c0 where rest: "expandCompositeKeys s me fs = (e0, f0, c0)"
    using prod_cases3 by blast
  have "list_all (located root) f0" using 2(1) [OF _ rest] 2(2) by simp
  moreover obtain gf where "fieldByIndex root (fdIndex f) = Some gf" "gfType gf = fdType f"
    using 2(2) by (auto simp: located_def)
  then have "list_all (located root) (snd (expandKey s f (structName (fdType f)) 0 (structFields (fdType f))))"
    by (intro expandKey_located [of root f gf "structFields (fdType f)"]) auto
  ultimately show ?case
    using 2(2,3) rest by (auto split: if_splits prod.splits)
qed simp

lemma resolveRelationFK_simps [simp]:
  "relLocated root (resolveRelationFK s rel) \<longleftrightarrow> relLocated root rel"
  "rlKind (resolveRelationFK s rel) = rlKind rel"
  by (simp_all add: resolveRelationFK_def relLocated_def)

text \<open>In a table that \<open>build\<close> returns, the index path of every mapped field and relation
  leads through the struct type to the Go field of that name and type; a relation is a slice
  of pointers exactly when it is a has-many one. The scanner addresses struct memory by these
  paths, also through embedded structs and expanded composite keys.\<close>

theorem build_index_paths:
  assumes "build me t = Inr tbl"
  shows "list_all (located (structFields t)) (stFields tbl)
    \<and> list_all (relLocated (structFields t)) (stRelations tbl)"
proof -
  let ?w = "walkFields (structName t) [] 0 (structFields t) walk0"
  have w: "walkLocated (structFields t) ?w"
    by (rule walkFields_located [of _ _ "structFields t"])
       (simp_all add: subtree_def walkLocated_def walk0_def)
  obtain e2 fds composite where x: "expandCompositeKeys (structName t) me (wkFields ?w) = (e2, fds, composite)"
    using prod_cases3 by blast
  have "list_all (located (structFields t)) fds"
    using expandCompositeKeys_located [OF _ x] w by (simp add: walkLocated_def)
  moreover have "stFields tbl = fds" "stRelations tbl = map (resolveRelationFK (structName t)) (wkRelations ?w)"
    using assms x by (auto simp: build_def Let_def split: prod.splits if_splits)
  ultimately show ?thesis using w
    by (simp add: walkLocated_def list.pred_map comp_def)
qed

lemma fold_update_lookup:
  "fold (\<lambda>f m. m(fdColumn f \<mapsto> f)) fs m c =
     (case filter (\<lambda>f. fdColumn f = c) fs of [] \<Rightarrow> m c | _ \<Rightarrow> Some (last (filter (\<lambda>f. fdColumn f = c) fs)))"
  by (induction fs arbitrary: m) (auto split: list.splits)

text \<open>A table's columns and keys are consistent: the column index finds for each column a
  field of that column, the primary key is the fields flagged so, and every relation has a
  foreign key, the conventional one when its tag names none.\<close>

theorem build_consistent:
  assumes "build me t = Inr tbl"
  shows "(\<forall>f\<in>set (stFields tbl). \<exists>g\<in>set (stFields tbl). stByColumn tbl (fdColumn f) = Some g \<and> fdColumn g = fdColumn f)
    \<and> (\<forall>c g. stByColumn tbl c = Some g \<longrightarrow> g \<in> set (stFields tbl) \<and> fdColumn g = c)
    \<and> stPK tbl = filter (\<lambda>f. coPK (fdOptions f)) (stFields tbl)
    \<and> (\<forall>r\<in>set (stRelations tbl). rlFK r \<noteq> [])"
proof -
  have bycol: "stByColumn tbl = fold (\<lambda>f m. m(fdColumn f \<mapsto> f)) (stFields tbl) Map.empty"
    and pk: "stPK tbl = filter (\<lambda>f. coPK (fdOptions f)) (stFields tbl)"
    and rel: "stRelations tbl = map (resolveRelationFK (structName t))
      (wkRelations (walkFields (structName t) [] 0 (structFields t) walk0))"
    using assms by (auto simp: build_def Let_def split: prod.splits if_splits)
  have at: "stByColumn tbl c = Some g \<Longrightarrow> g \<in> set (stFields tbl) \<and> fdColumn g = c" for c g
    unfolding bycol fold_update_lookup
    by (auto split: list.splits if_splits dest!: arg_cong [of "filter _ _" _ set])
  moreover have "\<exists>g\<in>set (stFields tbl). stByColumn tbl (fdColumn f) = Some g \<and> fdColumn g = fdColumn f"
    if "f \<in> set (stFields tbl)" for f
  proof -
    have "filter (\<lambda>g. fdColumn g = fdColumn f) (stFields tbl) \<noteq> []"
      using that by (auto simp: filter_empty_conv)
    then have "\<exists>g. stByColumn tbl (fdColumn f) = Some g"
      unfolding bycol fold_update_lookup
      by (cases "filter (\<lambda>g. fdColumn g = fdColumn f) (stFields tbl)") simp_all
    with at show ?thesis by blast
  qed
  ultimately show ?thesis using pk by (auto simp: rel resolveRelationFK_def)
qed

text \<open>A model with an embedded tagged struct, a relation and a composite key.\<close>

definition exampleType :: goTy where
  "exampleType = TStruct ''LineItem''
     [GoField ''Model'' True True (Some ''table:line_items,alias:li'') (TStruct ''Model'' []),
      GoField ''ID'' False True (Some '',pk'')
        (TStruct ''Key'' [GoField ''OrderID'' False True None (TScalar ''int64''),
                          GoField ''Note'' False True (Some ''-'') (TScalar ''string'')]),
      GoField ''Order'' False True (Some ''rel:belongs_to'') (TPointer (RStruct ''Order''))]"

definition noMethods :: methods where
  "noMethods = \<lparr>meTableName = None, meScalarStruct = (\<lambda>t. False), meValueHook = (\<lambda>m. False),
     mePointerHook = (\<lambda>m. False)\<rparr>"

lemma build_example: "\<exists>tbl. build noMethods exampleType = Inr tbl
    \<and> map fdColumn (stFields tbl) = [''order_id'', ''note''] \<and> map fdIndex (stFields tbl) = [[1, 0], [1, 1]]
    \<and> map rlFK (stRelations tbl) = [''order_id'']"
  by (simp add: build_def exampleType_def noMethods_def walk0_def walkField_def walkStructTag_def ParseFieldTag_def
      ParseStructTag_def structOption_def parseColumnTag_def parseRelationTag_def columnOption_def columnName_def
      resolveTableName_def isCompositeKeyCandidate_def detectHooks_def detectHook_def buildRelation_def
      isOptionLike_def bareColumnOptions_def prefixColumnOptions_def hasPrefix_def trimPrefix_def
      noStructOptions_def noOptions_def toSnakeCase_def isUpper_def isLower_def isDigit_def toLowerChar_def
      resolveRelationFK_def) code_simp

theorem build_index_paths_witness:
  "\<exists>tbl. build noMethods exampleType = Inr tbl \<and> map fdIndex (stFields tbl) = [[1, 0], [1, 1]]
     \<and> list_all (located (structFields exampleType)) (stFields tbl)"
proof -
  from build_example obtain tbl
    where t: "build noMethods exampleType = Inr tbl" "map fdIndex (stFields tbl) = [[1, 0], [1, 1]]"
    by (elim exE conjE)
  show ?thesis
    by (intro exI [of _ tbl] conjI t conjunct1 [OF build_index_paths [OF t(1)]])
qed

theorem build_consistent_witness:
  "\<exists>tbl. build noMethods exampleType = Inr tbl \<and> map rlFK (stRelations tbl) = [''order_id'']
     \<and> stPK tbl = filter (\<lambda>f. coPK (fdOptions f)) (stFields tbl)"
proof -
  from build_example obtain tbl
    where t: "build noMethods exampleType = Inr tbl" "map rlFK (stRelations tbl) = [''order_id'']"
    by (elim exE conjE)
  show ?thesis
    by (intro exI [of _ tbl] conjI t build_consistent [OF t(1), THEN conjunct2, THEN conjunct2, THEN conjunct1])
qed

text \<open>Inside a composite key the tag that excludes a field is not obeyed: an exported scalar
  subfield tagged with a dash still becomes a column, and part of the primary key.\<close>

theorem composite_key_dash_ignored:
  "\<exists>fds. expandKey s f keyName 0 [GoField name False True (Some ''-'') (TScalar k)] = ([], fds)
     \<and> map fdColumn fds = [toSnakeCase name] \<and> list_all (\<lambda>g. coPK (fdOptions g)) fds"
  by (simp add: ParseFieldTag_def columnName_def)

end
