(* ===== verification/CacheStore.thy ===== *)
theory CacheStore
  imports Prelude
begin

text \<open>
  The contract of \<open>cache.Store\<close> (\<open>cache/store.go\<close>) and what its clients get from it. A
  store is seen through its live view: at an instant, the entries that have not expired,
  each with its value and its expiry. Instants are nanoseconds since the epoch; \<open>None\<close> as
  an expiry is Go's zero \<open>time.Time\<close> (never). The contract leaves open whether an entry is
  live at the very instant it expires (the two backends differ there) and which instants a
  backend can represent.
\<close>

definition expiry :: "int \<Rightarrow> int \<Rightarrow> int option" where
  "expiry now ttl = (if ttl > 0 then Some (now + ttl) else None)"

lemma expiry_simps [simp]: "ttl > 0 \<Longrightarrow> expiry now ttl = Some (now + ttl)"
  "ttl \<le> 0 \<Longrightarrow> expiry now ttl = None"
  by (simp_all add: expiry_def)

datatype cacheError = ErrNotCounter | ErrBackend string

type_synonym live = "string \<Rightarrow> (bytes \<times> int option) option"

text \<open>The view after a key has been set.\<close>

definition putLive :: "(int \<Rightarrow> int \<Rightarrow> bool) \<Rightarrow> int \<Rightarrow> string \<Rightarrow> bytes \<Rightarrow> int option \<Rightarrow> live \<Rightarrow> live" where
  "putLive dead t k v e m = m(k := if (case e of None \<Rightarrow> False | Some x \<Rightarrow> dead x t) then None else Some (v, e))"

lemma putLive_same [simp]: "putLive dead t k v None m k = Some (v, None)"
  "putLive dead t k v (Some x) m k = (if dead x t then None else Some (v, Some x))"
  by (simp_all add: putLive_def)

lemma putLive_other [simp]: "j \<noteq> k \<Longrightarrow> putLive dead t k v e m j = m j"
  by (simp add: putLive_def)

locale cache_store =
  fixes valid :: "'s \<Rightarrow> bool"
    and timeOk :: "int \<Rightarrow> bool"
    and dead :: "int \<Rightarrow> int \<Rightarrow> bool"
    and view :: "'s \<Rightarrow> int \<Rightarrow> live"
    and rd :: "string \<Rightarrow> int \<Rightarrow> 's \<Rightarrow> bytes option \<times> 's"
    and ex :: "string \<Rightarrow> int \<Rightarrow> 's \<Rightarrow> bool \<times> 's"
    and wr :: "string \<Rightarrow> bytes \<Rightarrow> int \<Rightarrow> int \<Rightarrow> 's \<Rightarrow> 's"
    and dl :: "string \<Rightarrow> 's \<Rightarrow> 's"
    and incr :: "string \<Rightarrow> i64 \<Rightarrow> int \<Rightarrow> int \<Rightarrow> 's \<Rightarrow> (cacheError + i64 \<times> int option) \<times> 's"
  assumes dead_past: "x < t \<Longrightarrow> dead x t" and dead_future: "t < x \<Longrightarrow> \<not> dead x t"
    and view_live: "view s t k = Some (v, Some x) \<Longrightarrow> timeOk t \<Longrightarrow> \<not> dead x t"
    and view_later: "view s t k = Some (v, e) \<Longrightarrow> timeOk t \<Longrightarrow> timeOk t' \<Longrightarrow> t \<le> t' \<Longrightarrow>
      (case e of None \<Rightarrow> True | Some x \<Rightarrow> \<not> dead x t') \<Longrightarrow> view s t' k = Some (v, e)"
    and view_never_back: "view s t k = None \<Longrightarrow> timeOk t \<Longrightarrow> timeOk t' \<Longrightarrow> t \<le> t' \<Longrightarrow> view s t' k = None"
    and read_value: "valid s \<Longrightarrow> timeOk now \<Longrightarrow> fst (rd k now s) = map_option fst (view s now k)"
    and read_keeps: "valid s \<Longrightarrow> timeOk now \<Longrightarrow> timeOk t \<Longrightarrow> now \<le> t \<Longrightarrow>
      valid (snd (rd k now s)) \<and> view (snd (rd k now s)) t = view s t"
    and exist_value: "valid s \<Longrightarrow> timeOk now \<Longrightarrow> fst (ex k now s) \<longleftrightarrow> view s now k \<noteq> None"
    and exist_keeps: "valid s \<Longrightarrow> timeOk now \<Longrightarrow> timeOk t \<Longrightarrow> now \<le> t \<Longrightarrow>
      valid (snd (ex k now s)) \<and> view (snd (ex k now s)) t = view s t"
    and write_view: "valid s \<Longrightarrow> timeOk now \<Longrightarrow> timeOk t \<Longrightarrow> (0 < ttl \<longrightarrow> timeOk (now + ttl)) \<Longrightarrow>
      valid (wr k v ttl now s) \<and>
      view (wr k v ttl now s) t = putLive dead t k v (expiry now ttl) (view s t)"
    and delete_view: "valid s \<Longrightarrow> timeOk t \<Longrightarrow> valid (dl k s) \<and> view (dl k s) t = (view s t)(k := None)"
    and incr_fresh: "valid s \<Longrightarrow> timeOk now \<Longrightarrow> timeOk t \<Longrightarrow> now \<le> t \<Longrightarrow>
      (0 < ttl \<longrightarrow> timeOk (now + ttl)) \<Longrightarrow> view s now k = None \<Longrightarrow>
      fst (incr k delta ttl now s) = Inr (delta, expiry now ttl) \<and> valid (snd (incr k delta ttl now s)) \<and>
      view (snd (incr k delta ttl now s)) t
        = putLive dead t k (formatInt (sint delta)) (expiry now ttl) (view s t)"
    and incr_count: "valid s \<Longrightarrow> timeOk now \<Longrightarrow> timeOk t \<Longrightarrow> now \<le> t \<Longrightarrow>
      (0 < ttl \<longrightarrow> timeOk (now + ttl)) \<Longrightarrow> view s now k = Some (v, e) \<Longrightarrow> parseInt64 v = Some n \<Longrightarrow>
      fst (incr k delta ttl now s) = Inr (n + delta, e) \<and> valid (snd (incr k delta ttl now s)) \<and>
      view (snd (incr k delta ttl now s)) t
        = putLive dead t k (formatInt (sint (n + delta))) e (view s t)"
    and incr_text: "valid s \<Longrightarrow> timeOk now \<Longrightarrow> timeOk t \<Longrightarrow> now \<le> t \<Longrightarrow>
      (0 < ttl \<longrightarrow> timeOk (now + ttl)) \<Longrightarrow> view s now k = Some (v, e) \<Longrightarrow> parseInt64 v = None \<Longrightarrow>
      fst (incr k delta ttl now s) = Inl ErrNotCounter \<and> valid (snd (incr k delta ttl now s)) \<and>
      view (snd (incr k delta ttl now s)) t = view s t"
begin

lemma write_read:
  assumes "valid s" and "timeOk now" and "timeOk t" and "0 < ttl \<longrightarrow> timeOk (now + ttl)"
    and "0 < ttl \<longrightarrow> t < now + ttl"
  shows "fst (rd k t (wr k v ttl now s)) = Some v"
proof -
  have w: "valid (wr k v ttl now s)" "view (wr k v ttl now s) t = putLive dead t k v (expiry now ttl) (view s t)"
    using write_view [OF assms(1,2,3,4)] by simp_all
  then show ?thesis
    using read_value [OF w(1) assms(3)] assms(5) dead_future
    by (cases "0 < ttl") simp_all
qed

lemma write_read_other:
  assumes "valid s" and "timeOk now" and "timeOk t" and "0 < ttl \<longrightarrow> timeOk (now + ttl)" and "j \<noteq> k"
  shows "fst (rd j t (wr k v ttl now s)) = fst (rd j t s)"
  using write_view [OF assms(1,2,3,4), of k v] read_value [of _ t j] assms by simp

lemma write_expires:
  assumes "valid s" and "timeOk now" and "timeOk t" and "0 < ttl" and "timeOk (now + ttl)" and "now + ttl < t"
  shows "fst (rd k t (wr k v ttl now s)) = None"
  using write_view [OF assms(1,2,3), of ttl k v] read_value [of _ t k] assms dead_past [of "now + ttl" t]
  by simp

text \<open>
  Counting: after \<open>n\<close> increments of a window, the view holds the counter of value \<open>n\<close> and
  the expiry of the window's first increment.
\<close>

definition counting :: "'s \<Rightarrow> int \<Rightarrow> string \<Rightarrow> nat \<Rightarrow> int option \<Rightarrow> bool" where
  "counting s t k n e \<longleftrightarrow> valid s \<and> view s t k = Some (formatInt (int n), e)"

lemma incr_start:
  assumes "valid s" "timeOk now" "0 < ttl" "timeOk (now + ttl)" "view s now k = None"
  shows "fst (incr k 1 ttl now s) = Inr (1, Some (now + ttl)) \<and> counting (snd (incr k 1 ttl now s)) now k 1 (Some (now + ttl))"
  using incr_fresh [OF assms(1,2,2) _ _ assms(5), where delta = 1 and ttl = ttl] assms(3,4) dead_future [of now "now + ttl"]
  by (simp add: counting_def)

lemma counting_later:
  assumes "counting s t k n (Some x)" and "timeOk t" and "timeOk t'" and "t \<le> t'" and "\<not> dead x t'"
  shows "counting s t' k n (Some x)"
  using assms view_later [of s t k "formatInt (int n)" "Some x" t'] by (simp add: counting_def)

lemma incr_next:
  assumes "counting s now k n (Some x)" and "timeOk now" and "0 < ttl" "timeOk (now + ttl)"
    and "int n + 1 < 2 ^ 63"
  shows "fst (incr k 1 ttl now s) = Inr (word_of_int (int (Suc n)), Some x)
    \<and> counting (snd (incr k 1 ttl now s)) now k (Suc n) (Some x)"
proof -
  have p: "parseInt64 (formatInt (int n)) = Some (word_of_int (int n))"
    using assms(5) by (intro parseInt64_formatInt) simp_all
  have "sint (word_of_int (int n + 1) :: i64) = int n + 1"
    using assms(5) by (intro sint_word_of_int_small) simp_all
  then have i: "sint (word_of_int (int n) + 1 :: i64) = int (Suc n)"
    by (simp add: wi_hom_syms algebra_simps)
  have v: "view s now k = Some (formatInt (int n), Some x)" "valid s"
    using assms(1) by (simp_all add: counting_def)
  note c = incr_count [OF v(2) assms(2,2) order_refl _ v(1) p, where delta = 1 and ttl = ttl]
  have "\<not> dead x now" using view_live [OF v(1) assms(2)] .
  then show ?thesis
    using c assms(3,4) i by (simp add: counting_def wi_hom_syms algebra_simps)
qed

lemma incr_other_view:
  assumes "valid s" "timeOk now" "timeOk t" "now \<le> t" "0 < ttl" "timeOk (now + ttl)" "j \<noteq> k"
  shows "valid (snd (incr k d ttl now s)) \<and> view (snd (incr k d ttl now s)) t j = view s t j"
proof (cases "view s now k")
  case None
  then show ?thesis using incr_fresh [OF assms(1-4) _ None, where delta = d and ttl = ttl] assms by simp
next
  case (Some p)
  then obtain v e where v: "view s now k = Some (v, e)" by (cases p) auto
  show ?thesis
  proof (cases "parseInt64 v")
    case None
    then show ?thesis using incr_text [OF assms(1-4) _ v None, where delta = d and ttl = ttl] assms by simp
  next
    case (Some n)
    then show ?thesis using incr_count [OF assms(1-4) _ v Some, where delta = d and ttl = ttl] assms by simp
  qed
qed

end

end
