(* ===== verification/CacheMemory.thy ===== *)
theory CacheMemory
  imports CacheStore
begin

text \<open>
  The in-process cache backend (\<open>cache/backend/memory/memory.go\<close>): a map from keys to
  entries. Each operation runs under the backend's mutex, so an operation is one step from
  state to state, at the instant \<open>now\<close> that it reads from the clock. The mutex itself and the
  ticker loop of \<open>Run\<close> (which calls \<open>sweep\<close> until its context is cancelled) are not modelled.
\<close>

record entry =
  enValue :: bytes
  enExpiresAt :: "int option"

type_synonym memory = "string \<rightharpoonup> entry"

definition expired :: "entry \<Rightarrow> int \<Rightarrow> bool" where
  "expired e now \<longleftrightarrow> (case enExpiresAt e of None \<Rightarrow> False | Some x \<Rightarrow> x < now)"

definition memNew :: memory where
  "memNew = Map.empty"

definition memRead :: "string \<Rightarrow> int \<Rightarrow> memory \<Rightarrow> bytes option \<times> memory" where
  "memRead key now m =
     (case m key of
        None \<Rightarrow> (None, m)
      | Some e \<Rightarrow> if expired e now then (None, m(key := None)) else (Some (enValue e), m))"

definition memWrite :: "string \<Rightarrow> bytes \<Rightarrow> int \<Rightarrow> int \<Rightarrow> memory \<Rightarrow> memory" where
  "memWrite key value ttl now m = m(key \<mapsto> \<lparr>enValue = value, enExpiresAt = expiry now ttl\<rparr>)"

definition memDelete :: "string \<Rightarrow> memory \<Rightarrow> memory" where
  "memDelete key m = m(key := None)"

definition memExist :: "string \<Rightarrow> int \<Rightarrow> memory \<Rightarrow> bool \<times> memory" where
  "memExist key now m =
     (case m key of
        None \<Rightarrow> (False, m)
      | Some e \<Rightarrow> if expired e now then (False, m(key := None)) else (True, m))"

definition memIncrement ::
    "string \<Rightarrow> i64 \<Rightarrow> int \<Rightarrow> int \<Rightarrow> memory \<Rightarrow> (cacheError + i64 \<times> int option) \<times> memory" where
  "memIncrement key delta ttl now m =
     (let fresh = (Inr (delta, expiry now ttl),
                   m(key \<mapsto> \<lparr>enValue = formatInt (sint delta), enExpiresAt = expiry now ttl\<rparr>))
      in case m key of
           None \<Rightarrow> fresh
         | Some e \<Rightarrow>
             if expired e now then fresh
             else (case parseInt64 (enValue e) of
                     None \<Rightarrow> (Inl ErrNotCounter, m)
                   | Some cur \<Rightarrow>
                       (Inr (cur + delta, enExpiresAt e),
                        m(key \<mapsto> \<lparr>enValue = formatInt (sint (cur + delta)), enExpiresAt = enExpiresAt e\<rparr>))))"

definition memClear :: "memory \<Rightarrow> memory" where
  "memClear m = Map.empty"

definition memSweep :: "int \<Rightarrow> memory \<Rightarrow> memory" where
  "memSweep now m = (\<lambda>k. case m k of None \<Rightarrow> None | Some e \<Rightarrow> if expired e now then None else Some e)"

section \<open>The live view\<close>

definition memView :: "memory \<Rightarrow> int \<Rightarrow> live" where
  "memView m t k =
     (case m k of None \<Rightarrow> None | Some e \<Rightarrow> if expired e t then None else Some (enValue e, enExpiresAt e))"

lemma expired_mono: "expired e now \<Longrightarrow> now \<le> t \<Longrightarrow> expired e t"
  by (auto simp: expired_def split: option.splits)

lemma memView_upd: "memView (m(k \<mapsto> e)) t = putLive (<) t k (enValue e) (enExpiresAt e) (memView m t)"
  by (auto simp: fun_eq_iff memView_def putLive_def expired_def split: option.splits)

lemma memView_del: "memView (m(k := None)) t = (memView m t)(k := None)"
  by (auto simp: fun_eq_iff memView_def)

lemma memView_evict: "m k = Some e \<Longrightarrow> expired e now \<Longrightarrow> now \<le> t \<Longrightarrow> memView (m(k := None)) t = memView m t"
  by (auto simp: fun_eq_iff memView_def dest: expired_mono)

lemma memView_None: "memView m t k = None \<longleftrightarrow> (\<forall>e. m k = Some e \<longrightarrow> expired e t)"
  by (auto simp: memView_def split: option.splits)

lemma memView_Some: "memView m t k = Some (v, x) \<longleftrightarrow>
    (\<exists>e. m k = Some e \<and> \<not> expired e t \<and> enValue e = v \<and> enExpiresAt e = x)"
  by (auto simp: memView_def split: option.splits)

interpretation mem: cache_store "\<lambda>m. True" "\<lambda>t. True" "\<lambda>x t. x < t" memView memRead memExist
    memWrite memDelete memIncrement
proof unfold_locales
  fix s :: memory and t t' now ttl x :: int and k v delta n e
  show "x < t \<Longrightarrow> x < t" "t < x \<Longrightarrow> \<not> x < t" by simp_all
  show "memView s t k = Some (v, Some x) \<Longrightarrow> \<not> x < t"
    by (auto simp: memView_Some expired_def)
  show "memView s t k = Some (v, e) \<Longrightarrow> t \<le> t' \<Longrightarrow> (case e of None \<Rightarrow> True | Some x \<Rightarrow> \<not> x < t') \<Longrightarrow>
      memView s t' k = Some (v, e)"
    by (auto simp: memView_Some expired_def split: option.splits)
  show "memView s t k = None \<Longrightarrow> t \<le> t' \<Longrightarrow> memView s t' k = None"
    by (auto simp: memView_None dest: expired_mono)
  show "fst (memRead k now s) = map_option fst (memView s now k)"
    by (auto simp: memRead_def memView_def split: option.splits)
  show "now \<le> t \<Longrightarrow> True \<and> memView (snd (memRead k now s)) t = memView s t"
    by (auto simp: memRead_def memView_evict split: option.splits)
  show "fst (memExist k now s) \<longleftrightarrow> memView s now k \<noteq> None"
    by (auto simp: memExist_def memView_def split: option.splits)
  show "now \<le> t \<Longrightarrow> True \<and> memView (snd (memExist k now s)) t = memView s t"
    by (auto simp: memExist_def memView_evict split: option.splits)
  show "True \<and> memView (memWrite k v ttl now s) t = putLive (<) t k v (expiry now ttl) (memView s t)"
    by (simp add: memWrite_def memView_upd)
  show "True \<and> memView (memDelete k s) t = (memView s t)(k := None)"
    by (simp add: memDelete_def memView_del)
  show "now \<le> t \<Longrightarrow> memView s now k = None \<Longrightarrow>
      fst (memIncrement k delta ttl now s) = Inr (delta, expiry now ttl) \<and> True \<and>
      memView (snd (memIncrement k delta ttl now s)) t
        = putLive (<) t k (formatInt (sint delta)) (expiry now ttl) (memView s t)"
    by (auto simp: memIncrement_def memView_None memView_upd Let_def split: option.splits)
  show "now \<le> t \<Longrightarrow> memView s now k = Some (v, e) \<Longrightarrow> parseInt64 v = Some n \<Longrightarrow>
      fst (memIncrement k delta ttl now s) = Inr (n + delta, e) \<and> True \<and>
      memView (snd (memIncrement k delta ttl now s)) t
        = putLive (<) t k (formatInt (sint (n + delta))) e (memView s t)"
    by (auto simp: memIncrement_def memView_Some memView_upd Let_def)
  show "now \<le> t \<Longrightarrow> memView s now k = Some (v, e) \<Longrightarrow> parseInt64 v = None \<Longrightarrow>
      fst (memIncrement k delta ttl now s) = Inl ErrNotCounter \<and> True \<and>
      memView (snd (memIncrement k delta ttl now s)) t = memView s t"
    by (auto simp: memIncrement_def memView_Some Let_def)
qed

lemma memSweep_view: "now \<le> t \<Longrightarrow> memView (memSweep now m) t = memView m t"
  by (auto simp: fun_eq_iff memView_def memSweep_def split: option.splits dest: expired_mono)

lemma memSweep_dom: "dom (memSweep now m) = {k. memView m now k \<noteq> None}"
  by (auto simp: memSweep_def memView_def split: option.splits if_splits)

end
