(* ===== verification/CacheDatabase.thy ===== *)
theory CacheDatabase
  imports CacheStore
begin

text \<open>
  The SQL cache backend (\<open>cache/backend/database\<close>: \<open>database.go\<close>, \<open>run.go\<close>, \<open>row.go\<close>). The
  table \<open>cache_entries\<close> is a list of rows; a statement or transaction is one step on it, and
  the statements are read with their SQL meaning (the key column is unique). Expiries are
  signed 64-bit nanoseconds as stored, 0 for never. The outcome of a transaction that the
  engine may abort is an input: \<open>Some fault\<close> leaves the table as it was.
\<close>

record entryRow =
  rowID :: nat
  rowKey :: string
  rowValue :: bytes
  rowExpiresAt :: i64
  rowCreatedAt :: i64

record entryTable =
  tabRows :: "entryRow list"
  tabNextID :: nat

definition unixNano :: "int \<Rightarrow> i64" where
  "unixNano t = word_of_int t"

definition expiresAtNano :: "int \<Rightarrow> int \<Rightarrow> i64" where
  "expiresAtNano now ttl = (if ttl > 0 then unixNano (now + ttl) else 0)"

definition rowExpired :: "entryRow \<Rightarrow> int \<Rightarrow> bool" where
  "rowExpired r now \<longleftrightarrow> rowExpiresAt r \<noteq> 0 \<and> sint (rowExpiresAt r) \<le> sint (unixNano now)"

text \<open>\<open>time.Unix(0, n)\<close>, and the zero time for 0.\<close>

definition timeOfNano :: "i64 \<Rightarrow> int option" where
  "timeOfNano n = (if n = 0 then None else Some (sint n))"

text \<open>The statements: select by key, delete by key, insert, update by key, upsert.\<close>

definition findRow :: "string \<Rightarrow> entryTable \<Rightarrow> entryRow option" where
  "findRow key s = List.find (\<lambda>r. rowKey r = key) (tabRows s)"

definition deleteKey :: "string \<Rightarrow> entryTable \<Rightarrow> entryTable" where
  "deleteKey key s = s\<lparr>tabRows := filter (\<lambda>r. rowKey r \<noteq> key) (tabRows s)\<rparr>"

definition insertRow :: "string \<Rightarrow> bytes \<Rightarrow> i64 \<Rightarrow> i64 \<Rightarrow> entryTable \<Rightarrow> entryTable" where
  "insertRow key value expiresAt createdAt s =
     s\<lparr>tabRows := tabRows s @ [\<lparr>rowID = tabNextID s, rowKey = key, rowValue = value,
          rowExpiresAt = expiresAt, rowCreatedAt = createdAt\<rparr>],
       tabNextID := Suc (tabNextID s)\<rparr>"

definition updateKey :: "string \<Rightarrow> bytes \<Rightarrow> i64 \<Rightarrow> entryTable \<Rightarrow> entryTable" where
  "updateKey key value expiresAt s =
     s\<lparr>tabRows := map (\<lambda>r. if rowKey r = key then r\<lparr>rowValue := value, rowExpiresAt := expiresAt\<rparr> else r)
        (tabRows s)\<rparr>"

definition upsertKey :: "string \<Rightarrow> bytes \<Rightarrow> i64 \<Rightarrow> i64 \<Rightarrow> entryTable \<Rightarrow> entryTable" where
  "upsertKey key value expiresAt createdAt s =
     (case findRow key s of
        None \<Rightarrow> insertRow key value expiresAt createdAt s
      | Some r \<Rightarrow> updateKey key value expiresAt s)"

section \<open>Operations\<close>

definition dbLookup :: "string \<Rightarrow> int \<Rightarrow> entryTable \<Rightarrow> entryRow option \<times> entryTable" where
  "dbLookup key now s =
     (case findRow key s of
        None \<Rightarrow> (None, s)
      | Some row \<Rightarrow> if rowExpired row now then (None, deleteKey key s) else (Some row, s))"

definition dbRead :: "string \<Rightarrow> int \<Rightarrow> entryTable \<Rightarrow> bytes option \<times> entryTable" where
  "dbRead key now s = (let (row, s') = dbLookup key now s in (map_option rowValue row, s'))"

definition dbExist :: "string \<Rightarrow> int \<Rightarrow> entryTable \<Rightarrow> bool \<times> entryTable" where
  "dbExist key now s = (let (row, s') = dbLookup key now s in (row \<noteq> None, s'))"

definition dbWrite :: "string \<Rightarrow> bytes \<Rightarrow> int \<Rightarrow> int \<Rightarrow> entryTable \<Rightarrow> entryTable" where
  "dbWrite key value ttl now s = upsertKey key value (expiresAtNano now ttl) (unixNano now) s"

definition dbDelete :: "string \<Rightarrow> entryTable \<Rightarrow> entryTable" where
  "dbDelete key s = deleteKey key s"

definition dbClear :: "entryTable \<Rightarrow> entryTable" where
  "dbClear s = s\<lparr>tabRows := []\<rparr>"

datatype dbFault = SerializationFailure | UniqueViolation | OtherFault string

datatype incrError = FaultErr dbFault | NotCounter

text \<open>The transaction of \<open>incrementOnce\<close>, without a fault.\<close>

definition incrementTx ::
    "string \<Rightarrow> i64 \<Rightarrow> int \<Rightarrow> int \<Rightarrow> entryTable \<Rightarrow> (incrError + i64 \<times> i64) \<times> entryTable" where
  "incrementTx key delta ttl now s =
     (let fresh = expiresAtNano now ttl in
      case findRow key s of
        None \<Rightarrow> (Inr (delta, fresh), insertRow key (formatInt (sint delta)) fresh (unixNano now) s)
      | Some row \<Rightarrow>
          if rowExpired row now then
            (Inr (delta, fresh), updateKey key (formatInt (sint delta)) fresh s)
          else (case parseInt64 (rowValue row) of
                  None \<Rightarrow> (Inl NotCounter, s)
                | Some cur \<Rightarrow>
                    (Inr (cur + delta, rowExpiresAt row),
                     updateKey key (formatInt (sint (cur + delta))) (rowExpiresAt row) s)))"

definition incrementOnce ::
    "string \<Rightarrow> i64 \<Rightarrow> int \<Rightarrow> int \<Rightarrow> dbFault option \<Rightarrow> entryTable \<Rightarrow> (incrError + i64 \<times> int option) \<times> entryTable" where
  "incrementOnce key delta ttl now fault s =
     (case fault of
        Some f \<Rightarrow> (Inl (FaultErr f), s)
      | None \<Rightarrow>
          (case incrementTx key delta ttl now s of
             (Inl e, s') \<Rightarrow> (Inl e, s)
           | (Inr (n, x), s') \<Rightarrow> (Inr (n, timeOfNano x), s')))"

definition retryable :: "incrError \<Rightarrow> bool" where
  "retryable e \<longleftrightarrow> e = FaultErr SerializationFailure \<or> e = FaultErr UniqueViolation"

definition maxIncrementAttempts :: nat where
  "maxIncrementAttempts = 50"

text \<open>
  The retry loop. What attempt \<open>a\<close> meets is given by the environment: the instant, the table
  as other transactions left it, and the engine's fault.
\<close>

record attempt =
  atNow :: int
  atTable :: entryTable
  atFault :: "dbFault option"

fun incrementFrom ::
    "nat \<Rightarrow> nat \<Rightarrow> (nat \<Rightarrow> attempt) \<Rightarrow> string \<Rightarrow> i64 \<Rightarrow> int
       \<Rightarrow> (incrError + i64 \<times> int option) \<times> entryTable \<Rightarrow> (incrError + i64 \<times> int option) \<times> entryTable" where
  "incrementFrom 0 a env key delta ttl prev = prev"
| "incrementFrom (Suc left) a env key delta ttl prev =
     (case incrementOnce key delta ttl (atNow (env a)) (atFault (env a)) (atTable (env a)) of
        (Inl e, s) \<Rightarrow>
          if retryable e then incrementFrom left (Suc a) env key delta ttl (Inl e, s) else (Inl e, s)
      | (Inr r, s) \<Rightarrow> (Inr r, s))"

definition incrementLoop ::
    "(nat \<Rightarrow> attempt) \<Rightarrow> string \<Rightarrow> i64 \<Rightarrow> int \<Rightarrow> (incrError + i64 \<times> int option) \<times> entryTable" where
  "incrementLoop env key delta ttl =
     incrementFrom maxIncrementAttempts 0 env key delta ttl (Inr (0, None), atTable (env 0))"

text \<open>\<open>incrementRetryBackoff\<close>, in nanoseconds; \<open>r\<close> is the result of \<open>rand.IntN(4)\<close>.\<close>

definition incrementRetryBackoff :: "nat \<Rightarrow> nat \<Rightarrow> int" where
  "incrementRetryBackoff r attempt = int (1 + r) * 1000000 * int attempt"

text \<open>Without contention: one attempt, no fault.\<close>

definition dbIncrement ::
    "string \<Rightarrow> i64 \<Rightarrow> int \<Rightarrow> int \<Rightarrow> entryTable \<Rightarrow> (cacheError + i64 \<times> int option) \<times> entryTable" where
  "dbIncrement key delta ttl now s =
     (case incrementLoop (\<lambda>a. \<lparr>atNow = now, atTable = s, atFault = None\<rparr>) key delta ttl of
        (Inl e, s') \<Rightarrow> (Inl ErrNotCounter, s')
      | (Inr r, s') \<Rightarrow> (Inr r, s'))"

text \<open>The batches of \<open>sweep\<close>.\<close>

definition sweepable :: "i64 \<Rightarrow> entryRow \<Rightarrow> bool" where
  "sweepable now r \<longleftrightarrow> 0 < sint (rowExpiresAt r) \<and> sint (rowExpiresAt r) \<le> sint now"

function sweepRows :: "nat \<Rightarrow> i64 \<Rightarrow> entryRow list \<Rightarrow> entryRow list" where
  "sweepRows batch now rows =
     (let stale = take batch (sort_key rowID (filter (sweepable now) rows)) in
      if stale = [] then rows
      else
        let rows' = filter (\<lambda>r. rowID r \<notin> rowID ` set stale) rows in
        if length stale < batch then rows' else sweepRows batch now rows')"
  by pat_completeness auto
termination
proof (relation "measure (\<lambda>(batch, now, rows). length rows)")
  fix batch now rows stale and rows' :: "entryRow list"
  assume stale: "stale = take batch (sort_key rowID (filter (sweepable now) rows))" "stale \<noteq> []"
    and rows': "rows' = filter (\<lambda>r. rowID r \<notin> rowID ` set stale) rows"
  from stale obtain r where "r \<in> set stale" by (meson list.set_sel(1))
  moreover have "set stale \<subseteq> set rows"
    using stale set_take_subset by fastforce
  ultimately have "\<exists>r\<in>set rows. \<not> rowID r \<notin> rowID ` set stale" by auto
  then have "length rows' < length rows"
    unfolding rows' by (auto intro: length_filter_less)
  then show "((batch, now, rows'), batch, now, rows) \<in> measure (\<lambda>(batch, now, rows). length rows)" by simp
qed simp

declare sweepRows.simps [simp del]

definition dbSweep :: "nat \<Rightarrow> int \<Rightarrow> entryTable \<Rightarrow> entryTable" where
  "dbSweep batch now s = s\<lparr>tabRows := sweepRows batch (unixNano now) (tabRows s)\<rparr>"

section \<open>The live view\<close>

definition dbTimeOk :: "int \<Rightarrow> bool" where
  "dbTimeOk t \<longleftrightarrow> 0 < t \<and> t < 2 ^ 63"

definition dbValid :: "entryTable \<Rightarrow> bool" where
  "dbValid s \<longleftrightarrow> distinct (map rowKey (tabRows s))"

definition dbView :: "entryTable \<Rightarrow> int \<Rightarrow> live" where
  "dbView s t k =
     (case findRow k s of
        None \<Rightarrow> None
      | Some r \<Rightarrow> if rowExpired r t then None else Some (rowValue r, timeOfNano (rowExpiresAt r)))"

lemma sint_unixNano [simp]: "dbTimeOk t \<Longrightarrow> sint (unixNano t) = t"
  by (simp add: dbTimeOk_def unixNano_def sint_word_of_int_small)

lemma unixNano_nonzero [simp]: "dbTimeOk t \<Longrightarrow> unixNano t \<noteq> 0"
proof
  assume "dbTimeOk t" and "unixNano t = 0"
  then have "t = 0" using sint_unixNano [of t] by simp
  with \<open>dbTimeOk t\<close> show False by (simp add: dbTimeOk_def)
qed

lemma timeOfNano_fresh:
  "(0 < ttl \<longrightarrow> dbTimeOk (now + ttl)) \<Longrightarrow> timeOfNano (expiresAtNano now ttl) = expiry now ttl"
  by (cases "0 < ttl") (simp_all add: timeOfNano_def expiresAtNano_def)

lemma findRow_delete: "findRow k (deleteKey j s) = (if k = j then None else findRow k s)"
proof -
  have "List.find (\<lambda>r. rowKey r = k) (filter (\<lambda>r. rowKey r \<noteq> j) rs)
      = (if k = j then None else List.find (\<lambda>r. rowKey r = k) rs)" for rs
    by (induction rs) auto
  from this [of "tabRows s"] show ?thesis by (cases "k = j") (simp_all add: findRow_def deleteKey_def)
qed

lemma find_append: "List.find P (xs @ ys) = (case List.find P xs of None \<Rightarrow> List.find P ys | Some x \<Rightarrow> Some x)"
  by (induction xs) auto

lemma findRow_insert:
  "findRow j s = None \<Longrightarrow> findRow k (insertRow j v x c s) =
     (if k = j then Some \<lparr>rowID = tabNextID s, rowKey = j, rowValue = v, rowExpiresAt = x, rowCreatedAt = c\<rparr>
      else findRow k s)"
  by (auto simp: findRow_def insertRow_def find_append split: option.splits)

lemma findRow_update:
  "findRow k (updateKey j v x s) =
     (if k = j then map_option (\<lambda>r. r\<lparr>rowValue := v, rowExpiresAt := x\<rparr>) (findRow k s) else findRow k s)"
proof -
  have "List.find (\<lambda>r. rowKey r = k) (map (\<lambda>r. if rowKey r = j then r\<lparr>rowValue := v, rowExpiresAt := x\<rparr> else r) rs)
      = (if k = j then map_option (\<lambda>r. r\<lparr>rowValue := v, rowExpiresAt := x\<rparr>) (List.find (\<lambda>r. rowKey r = k) rs)
         else List.find (\<lambda>r. rowKey r = k) rs)" for rs
    by (induction rs) auto
  from this [of "tabRows s"] show ?thesis by (cases "k = j") (simp_all add: findRow_def updateKey_def)
qed

lemma findRow_None: "findRow k s = None \<longleftrightarrow> k \<notin> rowKey ` set (tabRows s)"
  by (auto simp: findRow_def find_None_iff)

lemma valid_delete: "dbValid s \<Longrightarrow> dbValid (deleteKey k s)"
  by (simp add: dbValid_def deleteKey_def distinct_map_filter)

lemma valid_insert: "dbValid s \<Longrightarrow> findRow k s = None \<Longrightarrow> dbValid (insertRow k v x c s)"
  by (simp add: dbValid_def insertRow_def findRow_None)

lemma valid_update: "dbValid s \<Longrightarrow> dbValid (updateKey k v x s)"
proof -
  have "map rowKey (tabRows (updateKey k v x s)) = map rowKey (tabRows s)"
    by (simp add: updateKey_def)
  then show "dbValid s \<Longrightarrow> ?thesis" by (simp add: dbValid_def)
qed

lemma valid_upsert: "dbValid s \<Longrightarrow> dbValid (upsertKey k v x c s)"
  by (simp add: upsertKey_def valid_insert valid_update split: option.splits)

lemma rowExpired_time: "rowExpired r t \<longleftrightarrow>
    (case timeOfNano (rowExpiresAt r) of None \<Rightarrow> False | Some x \<Rightarrow> x \<le> sint (unixNano t))"
  by (simp add: rowExpired_def timeOfNano_def)

lemma view_set:
  assumes "\<And>j. findRow j s' = (if j = k then Some r else findRow j s)" and "dbTimeOk t"
  shows "dbView s' t = putLive (\<le>) t k (rowValue r) (timeOfNano (rowExpiresAt r)) (dbView s t)"
  using assms(2) by (auto simp: fun_eq_iff dbView_def assms(1) putLive_def rowExpired_time split: option.splits)

lemma view_insert:
  "findRow k s = None \<Longrightarrow> dbTimeOk t \<Longrightarrow>
     dbView (insertRow k v x c s) t = putLive (\<le>) t k v (timeOfNano x) (dbView s t)"
  using view_set [of "insertRow k v x c s" k _ s t, OF findRow_insert] by simp

lemma view_update:
  "findRow k s = Some r \<Longrightarrow> dbTimeOk t \<Longrightarrow>
     dbView (updateKey k v x s) t = putLive (\<le>) t k v (timeOfNano x) (dbView s t)"
  using view_set [of "updateKey k v x s" k "r\<lparr>rowValue := v, rowExpiresAt := x\<rparr>" s t]
  by (simp add: findRow_update)

lemma view_upsert:
  "dbTimeOk t \<Longrightarrow> dbView (upsertKey k v x c s) t = putLive (\<le>) t k v (timeOfNano x) (dbView s t)"
  by (auto simp: upsertKey_def view_insert view_update split: option.splits)

lemma view_delete: "dbView (deleteKey k s) t = (dbView s t)(k := None)"
  by (auto simp: fun_eq_iff dbView_def findRow_delete)

lemma rowExpired_mono: "rowExpired r now \<Longrightarrow> dbTimeOk now \<Longrightarrow> dbTimeOk t \<Longrightarrow> now \<le> t \<Longrightarrow> rowExpired r t"
  by (simp add: rowExpired_def)

lemma view_evict:
  "findRow k s = Some r \<Longrightarrow> rowExpired r now \<Longrightarrow> dbTimeOk now \<Longrightarrow> dbTimeOk t \<Longrightarrow> now \<le> t \<Longrightarrow>
     dbView (deleteKey k s) t = dbView s t"
  using rowExpired_mono [of r now t] by (auto simp: view_delete fun_eq_iff) (simp add: dbView_def)

lemma view_None: "dbView s t k = None \<longleftrightarrow> (\<forall>r. findRow k s = Some r \<longrightarrow> rowExpired r t)"
  by (auto simp: dbView_def split: option.splits)

lemma view_Some: "dbView s t k = Some (v, e) \<longleftrightarrow>
    (\<exists>r. findRow k s = Some r \<and> \<not> rowExpired r t \<and> rowValue r = v \<and> timeOfNano (rowExpiresAt r) = e)"
  by (auto simp: dbView_def split: option.splits)

lemma dbLookup_keeps:
  "dbValid s \<Longrightarrow> dbTimeOk now \<Longrightarrow> dbTimeOk t \<Longrightarrow> now \<le> t \<Longrightarrow>
     dbValid (snd (dbLookup k now s)) \<and> dbView (snd (dbLookup k now s)) t = dbView s t"
  by (auto simp: dbLookup_def view_evict valid_delete split: option.splits)

lemma dbIncrement_once:
  "dbIncrement k delta ttl now s =
     (case incrementTx k delta ttl now s of
        (Inl e, s') \<Rightarrow> (Inl ErrNotCounter, s)
      | (Inr (n, x), s') \<Rightarrow> (Inr (n, timeOfNano x), s'))"
proof -
  have "\<not> retryable NotCounter" by (simp add: retryable_def)
  moreover have "incrementTx k delta ttl now s = (Inl e, s') \<Longrightarrow> e = NotCounter" for e s'
    by (auto simp: incrementTx_def Let_def split: option.splits if_splits)
  ultimately show ?thesis
    by (auto simp: dbIncrement_def incrementLoop_def maxIncrementAttempts_def eval_nat_numeral
        incrementOnce_def split: prod.splits sum.splits)
qed

interpretation db: cache_store dbValid dbTimeOk "\<lambda>x t. x \<le> t" dbView dbRead dbExist
    dbWrite dbDelete dbIncrement
proof unfold_locales
  fix s :: entryTable and t t' now ttl x :: int and k v delta n e
  show "x < t \<Longrightarrow> x \<le> t" "t < x \<Longrightarrow> \<not> x \<le> t" by simp_all
  show "dbView s t k = Some (v, Some x) \<Longrightarrow> dbTimeOk t \<Longrightarrow> \<not> x \<le> t"
    by (auto simp: view_Some rowExpired_time)
  show "dbView s t k = Some (v, e) \<Longrightarrow> dbTimeOk t \<Longrightarrow> dbTimeOk t' \<Longrightarrow> t \<le> t' \<Longrightarrow>
      (case e of None \<Rightarrow> True | Some x \<Rightarrow> \<not> x \<le> t') \<Longrightarrow> dbView s t' k = Some (v, e)"
    by (auto simp: view_Some rowExpired_time split: option.splits)
  show "dbView s t k = None \<Longrightarrow> dbTimeOk t \<Longrightarrow> dbTimeOk t' \<Longrightarrow> t \<le> t' \<Longrightarrow> dbView s t' k = None"
    by (auto simp: view_None dest: rowExpired_mono)
  show "dbValid s \<Longrightarrow> dbTimeOk now \<Longrightarrow> fst (dbRead k now s) = map_option fst (dbView s now k)"
    by (auto simp: dbRead_def dbLookup_def dbView_def split: option.splits)
  show "dbValid s \<Longrightarrow> dbTimeOk now \<Longrightarrow> dbTimeOk t \<Longrightarrow> now \<le> t \<Longrightarrow>
      dbValid (snd (dbRead k now s)) \<and> dbView (snd (dbRead k now s)) t = dbView s t"
    using dbLookup_keeps [of s now t k] by (cases "dbLookup k now s") (simp add: dbRead_def)
  show "dbValid s \<Longrightarrow> dbTimeOk now \<Longrightarrow> fst (dbExist k now s) \<longleftrightarrow> dbView s now k \<noteq> None"
    by (auto simp: dbExist_def dbLookup_def dbView_def split: option.splits)
  show "dbValid s \<Longrightarrow> dbTimeOk now \<Longrightarrow> dbTimeOk t \<Longrightarrow> now \<le> t \<Longrightarrow>
      dbValid (snd (dbExist k now s)) \<and> dbView (snd (dbExist k now s)) t = dbView s t"
    using dbLookup_keeps [of s now t k] by (cases "dbLookup k now s") (simp add: dbExist_def)
  show "dbValid s \<Longrightarrow> dbTimeOk now \<Longrightarrow> dbTimeOk t \<Longrightarrow> 0 < ttl \<longrightarrow> dbTimeOk (now + ttl) \<Longrightarrow>
      dbValid (dbWrite k v ttl now s) \<and>
      dbView (dbWrite k v ttl now s) t = putLive (\<le>) t k v (expiry now ttl) (dbView s t)"
    by (simp add: dbWrite_def valid_upsert view_upsert timeOfNano_fresh)
  show "dbValid s \<Longrightarrow> dbTimeOk t \<Longrightarrow> dbValid (dbDelete k s) \<and> dbView (dbDelete k s) t = (dbView s t)(k := None)"
    by (simp add: dbDelete_def valid_delete view_delete)
  show "dbValid s \<Longrightarrow> dbTimeOk now \<Longrightarrow> dbTimeOk t \<Longrightarrow> now \<le> t \<Longrightarrow> 0 < ttl \<longrightarrow> dbTimeOk (now + ttl) \<Longrightarrow>
      dbView s now k = None \<Longrightarrow>
      fst (dbIncrement k delta ttl now s) = Inr (delta, expiry now ttl) \<and> dbValid (snd (dbIncrement k delta ttl now s)) \<and>
      dbView (snd (dbIncrement k delta ttl now s)) t
        = putLive (\<le>) t k (formatInt (sint delta)) (expiry now ttl) (dbView s t)"
    by (auto simp: dbIncrement_once incrementTx_def view_None view_insert view_update timeOfNano_fresh
        valid_insert valid_update Let_def split: option.splits)
  show "dbValid s \<Longrightarrow> dbTimeOk now \<Longrightarrow> dbTimeOk t \<Longrightarrow> now \<le> t \<Longrightarrow> 0 < ttl \<longrightarrow> dbTimeOk (now + ttl) \<Longrightarrow>
      dbView s now k = Some (v, e) \<Longrightarrow> parseInt64 v = Some n \<Longrightarrow>
      fst (dbIncrement k delta ttl now s) = Inr (n + delta, e) \<and> dbValid (snd (dbIncrement k delta ttl now s)) \<and>
      dbView (snd (dbIncrement k delta ttl now s)) t
        = putLive (\<le>) t k (formatInt (sint (n + delta))) e (dbView s t)"
    by (auto simp: dbIncrement_once incrementTx_def view_Some view_update valid_update Let_def)
  show "dbValid s \<Longrightarrow> dbTimeOk now \<Longrightarrow> dbTimeOk t \<Longrightarrow> now \<le> t \<Longrightarrow> 0 < ttl \<longrightarrow> dbTimeOk (now + ttl) \<Longrightarrow>
      dbView s now k = Some (v, e) \<Longrightarrow> parseInt64 v = None \<Longrightarrow>
      fst (dbIncrement k delta ttl now s) = Inl ErrNotCounter \<and> dbValid (snd (dbIncrement k delta ttl now s)) \<and>
      dbView (snd (dbIncrement k delta ttl now s)) t = dbView s t"
    by (auto simp: dbIncrement_once incrementTx_def view_Some Let_def)
qed

section \<open>Sweeping and retrying\<close>

lemma sweep_batch_subset: "r \<in> set (take batch (sort_key rowID (filter P rows))) \<Longrightarrow> r \<in> set rows \<and> P r"
  using set_take_subset [of batch "sort_key rowID (filter P rows)"] by auto

lemma filter_swept:
  assumes "distinct (map rowID rows)"
    and "stale = take batch (sort_key rowID (filter (sweepable now) rows))"
  shows "filter (\<lambda>r. rowID r \<notin> rowID ` set stale) rows = filter (\<lambda>r. r \<notin> set stale) rows"
proof (rule filter_cong [OF refl])
  fix r assume r: "r \<in> set rows"
  have "inj_on rowID (set rows)" using assms(1) by (simp add: distinct_map)
  moreover have "set stale \<subseteq> set rows" using sweep_batch_subset assms(2) by blast
  ultimately show "rowID r \<notin> rowID ` set stale \<longleftrightarrow> r \<notin> set stale"
    using r inj_on_image_mem_iff by metis
qed

lemma sweepRows_filter:
  assumes "0 < batch" and "distinct (map rowID rows)"
  shows "sweepRows batch now rows = filter (\<lambda>r. \<not> sweepable now r) rows"
  using assms
proof (induction batch now rows rule: sweepRows.induct)
  case (1 batch now rows)
  define stale where "stale = take batch (sort_key rowID (filter (sweepable now) rows))"
  define rows' where "rows' = filter (\<lambda>r. rowID r \<notin> rowID ` set stale) rows"
  have rows': "rows' = filter (\<lambda>r. r \<notin> set stale) rows"
    unfolding rows'_def using filter_swept [OF 1(3) stale_def] .
  have sw: "r \<in> set stale \<Longrightarrow> sweepable now r" for r
    using sweep_batch_subset unfolding stale_def by blast
  have keep: "filter (\<lambda>r. \<not> sweepable now r) rows' = filter (\<lambda>r. \<not> sweepable now r) rows"
    unfolding rows' filter_filter using sw by (metis (mono_tags, lifting))
  have unfold: "sweepRows batch now rows = (if stale = [] then rows
      else if length stale < batch then rows' else sweepRows batch now rows')"
    by (subst sweepRows.simps) (simp add: stale_def rows'_def Let_def)
  consider "stale = []" | "stale \<noteq> []" "length stale < batch" | "stale \<noteq> []" "\<not> length stale < batch"
    by blast
  then show ?case
  proof cases
    case 1
    then have "filter (sweepable now) rows = []"
      using \<open>0 < batch\<close> by (simp add: stale_def flip: length_0_conv)
    then show ?thesis using 1 unfold by (auto simp: filter_empty_conv filter_id_conv)
  next
    case 2
    then have "length stale = length (filter (sweepable now) rows)" by (simp add: stale_def min_def split: if_splits)
    then have "stale = sort_key rowID (filter (sweepable now) rows)" using 2 by (simp add: stale_def)
    then have "set stale = {r \<in> set rows. sweepable now r}" by simp
    then have "rows' = filter (\<lambda>r. \<not> sweepable now r) rows" unfolding rows' by (intro filter_cong) auto
    then show ?thesis using 2 unfold by simp
  next
    case 3
    have "distinct (map rowID rows')" unfolding rows'_def using "1.prems"(2) by (simp add: distinct_map_filter)
    then have "sweepRows batch now rows' = filter (\<lambda>r. \<not> sweepable now r) rows'"
      using "1.IH" [OF stale_def _ rows'_def] 3 "1.prems"(1) by simp
    then show ?thesis using 3 unfold keep by simp
  qed
qed

lemma dbSweep_view:
  assumes "distinct (map rowID (tabRows s))" and "dbValid s" and "dbTimeOk now" and "dbTimeOk t" and "now \<le> t" and "0 < batch"
  shows "dbView (dbSweep batch now s) t = dbView s t"
proof
  fix k
  have sw: "sweepable (unixNano now) r \<Longrightarrow> rowExpired r t" for r
    using assms(3-5) by (auto simp: sweepable_def rowExpired_def)
  have "List.find (\<lambda>r. rowKey r = k) (filter (\<lambda>r. \<not> sweepable (unixNano now) r) rs)
      = (case List.find (\<lambda>r. rowKey r = k) rs of None \<Rightarrow> None
         | Some r \<Rightarrow> if sweepable (unixNano now) r then None else Some r)" if "distinct (map rowKey rs)" for rs
  proof -
    have "k \<notin> rowKey ` set rs \<Longrightarrow> List.find (\<lambda>r. rowKey r = k) rs = None" for rs
      by (auto simp: find_None_iff)
    then show ?thesis using that by (induction rs) (auto simp: find_None_iff split: option.splits)
  qed
  then have "findRow k (dbSweep batch now s) = (case findRow k s of None \<Rightarrow> None
         | Some r \<Rightarrow> if sweepable (unixNano now) r then None else Some r)"
    using assms by (simp add: findRow_def dbSweep_def sweepRows_filter dbValid_def)
  then show "dbView (dbSweep batch now s) t k = dbView s t k"
    using sw by (auto simp: dbView_def split: option.splits)
qed



lemma incrementFrom_retries:
  assumes "\<forall>i<n. atFault (env (a + i)) \<in> {Some SerializationFailure, Some UniqueViolation}"
    and "n < left"
  shows "incrementFrom left a env key delta ttl prev
    = incrementFrom (left - n) (a + n) env key delta ttl
        (if n = 0 then prev else (Inl (FaultErr (the (atFault (env (a + n - 1))))), atTable (env (a + n - 1))))"
  using assms
proof (induction n arbitrary: left a prev)
  case (Suc n)
  obtain l where l: "left = Suc l" using Suc.prems(2) by (cases left) auto
  have f: "atFault (env a) \<in> {Some SerializationFailure, Some UniqueViolation}" using Suc.prems(1) by force
  have "incrementFrom left a env key delta ttl prev = incrementFrom l (Suc a) env key delta ttl
      (Inl (FaultErr (the (atFault (env a)))), atTable (env a))"
    using f by (auto simp: l incrementOnce_def retryable_def)
  also have "\<dots> = incrementFrom (l - n) (Suc a + n) env key delta ttl
      (if n = 0 then (Inl (FaultErr (the (atFault (env a)))), atTable (env a))
       else (Inl (FaultErr (the (atFault (env (Suc a + n - 1))))), atTable (env (Suc a + n - 1))))"
    using Suc.prems l by (intro Suc.IH) (auto simp: Suc_less_eq2 dest: spec [of _ "Suc _"])
  finally show ?case by (cases n) (auto simp: l)
qed simp

text \<open>The retry loop of Increment. If some attempt within the fifty meets no fault, and all
  before it meet only serialization failures and lost insert races, Increment returns what
  that attempt's transaction computed on the table it met, and leaves that table with this
  one transaction applied: retries never count twice.\<close>

theorem increment_retry_once:
  assumes "\<forall>i<n. atFault (env i) \<in> {Some SerializationFailure, Some UniqueViolation}"
    and "n < maxIncrementAttempts" and "atFault (env n) = None"
    and "incrementTx key delta ttl (atNow (env n)) (atTable (env n)) = (Inr (count, x), s)"
  shows "incrementLoop env key delta ttl = (Inr (count, timeOfNano x), s)"
proof -
  obtain l where l: "maxIncrementAttempts - n = Suc l" using assms(2) by (metis Suc_diff_Suc)
  show ?thesis
    unfolding incrementLoop_def
    by (subst incrementFrom_retries [of n env 0, simplified]) (use assms in \<open>simp_all add: l incrementOnce_def\<close>)
qed

text \<open>Attempt 0 loses an insert race; attempt 1 meets the row that the winner created.\<close>

definition raceEnv :: "nat \<Rightarrow> attempt" where
  "raceEnv a =
     (if a = 0 then \<lparr>atNow = 5, atTable = \<lparr>tabRows = [], tabNextID = 1\<rparr>, atFault = Some UniqueViolation\<rparr>
      else \<lparr>atNow = 6, atTable = \<lparr>tabRows = [\<lparr>rowID = 1, rowKey = ''k'', rowValue = ''1'', rowExpiresAt = 90,
              rowCreatedAt = 5\<rparr>], tabNextID = 2\<rparr>, atFault = None\<rparr>)"

theorem increment_retry_once_witness:
  "incrementLoop raceEnv ''k'' 1 85 = (Inr (2, Some 90), \<lparr>tabRows = [\<lparr>rowID = 1, rowKey = ''k'',
     rowValue = ''2'', rowExpiresAt = 90, rowCreatedAt = 5\<rparr>], tabNextID = 2\<rparr>)"
proof -
  have "incrementTx ''k'' 1 85 (atNow (raceEnv 1)) (atTable (raceEnv 1)) = (Inr (2, 90),
      \<lparr>tabRows = [\<lparr>rowID = 1, rowKey = ''k'', rowValue = ''2'', rowExpiresAt = 90, rowCreatedAt = 5\<rparr>], tabNextID = 2\<rparr>)"
    by code_simp
  moreover have "\<forall>i<1. atFault (raceEnv i) \<in> {Some SerializationFailure, Some UniqueViolation}"
      "1 < maxIncrementAttempts" "atFault (raceEnv 1) = None"
    by (simp_all add: raceEnv_def maxIncrementAttempts_def)
  moreover have "timeOfNano 90 = Some 90" by code_simp
  ultimately show ?thesis using increment_retry_once [of 1 raceEnv] by metis
qed

end
