(* ===== verification/RateLimit.thy ===== *)
theory RateLimit
  imports CacheMemory CacheDatabase
begin

text \<open>
  The rate limiter (\<open>ratelimit/ratelimit.go\<close>): a client of the cache contract that uses
  only \<open>Increment\<close>. What it asks of the request context is the record \<open>rlRequest\<close>: method,
  path, the client address \<open>trustedproxy.ClientIP\<close> reports (empty if that middleware did
  not run) and the peer address. The middleware is a function of the store, with its
  \<open>Increment\<close> as a parameter; running a sequence of requests threads the store.
\<close>

record rlRequest =
  rqMethod :: string
  rqPath :: string
  rqClientIP :: string
  rqRemoteAddr :: string

definition peerHost :: "string \<Rightarrow> string" where
  "peerHost remoteAddr = (case splitHostPort remoteAddr of None \<Rightarrow> remoteAddr | Some (host, _) \<Rightarrow> host)"

definition identity :: "rlRequest \<Rightarrow> string" where
  "identity r = (if rqClientIP r \<noteq> [] then rqClientIP r else peerHost (rqRemoteAddr r))"

definition defaultKeyFunc :: "rlRequest \<Rightarrow> string" where
  "defaultKeyFunc r = rqMethod r @ '' '' @ rqPath r @ '' '' @ identity r"

record rlConfig =
  rlPeriod :: int
  rlKeyFunc :: "rlRequest \<Rightarrow> string"
  rlName :: string
  rlOnLimited :: bool

definition newConfig :: rlConfig where
  "newConfig = \<lparr>rlPeriod = 60000000000, rlKeyFunc = defaultKeyFunc, rlName = [], rlOnLimited = False\<rparr>"

definition buildKey :: "rlConfig \<Rightarrow> rlRequest \<Rightarrow> string" where
  "buildKey cfg r = (if rlName cfg \<noteq> [] then rlName cfg @ '' '' @ rlKeyFunc cfg r else rlKeyFunc cfg r)"

text \<open>
  What the middleware does with a request: call the next handler, call \<open>onLimited\<close> with the
  remaining nanoseconds, answer 429 with a \<open>Retry-After\<close> of whole seconds, or return the
  store's error.
\<close>

datatype rlOutcome = Next | OnLimited int | TooMany int | StoreErr cacheError

type_synonym 's incr = "string \<Rightarrow> i64 \<Rightarrow> int \<Rightarrow> int \<Rightarrow> 's \<Rightarrow> (cacheError + i64 \<times> int option) \<times> 's"

text \<open>\<open>now\<close> is the instant of the increment, \<open>later\<close> the one \<open>time.Until\<close> reads; the zero
  expiry lies in the past. Seconds are whole ones, \<open>int(d.Seconds())\<close>.\<close>

definition retryAfter :: "int option \<Rightarrow> int \<Rightarrow> int" where
  "retryAfter e later = (case e of None \<Rightarrow> 0 | Some x \<Rightarrow> max 0 (x - later))"

definition rateLimit ::
    "'s incr \<Rightarrow> i64 \<Rightarrow> rlConfig \<Rightarrow> rlRequest \<Rightarrow> int \<Rightarrow> int \<Rightarrow> 's \<Rightarrow> rlOutcome \<times> 's" where
  "rateLimit inc limit cfg r now later s =
     (case inc (buildKey cfg r) 1 (rlPeriod cfg) now s of
        (Inl e, s') \<Rightarrow> (StoreErr e, s')
      | (Inr (count, expiresAt), s') \<Rightarrow>
          (if sint count \<le> sint limit then Next
           else if rlOnLimited cfg then OnLimited (retryAfter expiresAt later)
           else TooMany (retryAfter expiresAt later div 1000000000), s'))"

text \<open>A sequence of requests with their instants.\<close>

fun serveAll ::
    "'s incr \<Rightarrow> i64 \<Rightarrow> rlConfig \<Rightarrow> (rlRequest \<times> int \<times> int) list \<Rightarrow> 's \<Rightarrow> rlOutcome list \<times> 's" where
  "serveAll inc limit cfg [] s = ([], s)"
| "serveAll inc limit cfg ((r, now, later) # es) s =
     (let (out, s1) = rateLimit inc limit cfg r now later s;
          (outs, s2) = serveAll inc limit cfg es s1
      in (out # outs, s2))"

lemma serveAll_Cons:
  "serveAll inc limit cfg ((r, now, later) # es) s =
     (fst (rateLimit inc limit cfg r now later s)
        # fst (serveAll inc limit cfg es (snd (rateLimit inc limit cfg r now later s))),
      snd (serveAll inc limit cfg es (snd (rateLimit inc limit cfg r now later s))))"
  by (simp split: prod.splits)

text \<open>The outcomes of the requests that count against the bucket \<open>k\<close>.\<close>

definition bucket :: "rlConfig \<Rightarrow> string \<Rightarrow> (rlRequest \<times> int \<times> int) list \<Rightarrow> rlOutcome list \<Rightarrow> rlOutcome list" where
  "bucket cfg k es outs = map snd (filter (\<lambda>((r, _), _). buildKey cfg r = k) (zip es outs))"

definition bucketSize :: "rlConfig \<Rightarrow> string \<Rightarrow> (rlRequest \<times> int \<times> int) list \<Rightarrow> nat" where
  "bucketSize cfg k es = length (filter (\<lambda>(r, _). buildKey cfg r = k) es)"

lemma bucket_simps [simp]:
  "bucket cfg k [] outs = []"
  "bucket cfg k ((r, p) # es) (out # outs) =
     (if buildKey cfg r = k then out # bucket cfg k es outs else bucket cfg k es outs)"
  by (simp_all add: bucket_def split: prod.splits)

lemma bucketSize_simps [simp]:
  "bucketSize cfg k [] = 0"
  "bucketSize cfg k ((r, p) # es) = (if buildKey cfg r = k then Suc (bucketSize cfg k es) else bucketSize cfg k es)"
  by (simp_all add: bucketSize_def)

text \<open>Instants that do not go back, at which the store can work, up to the end of a window.\<close>

fun timesFrom :: "(int \<Rightarrow> bool) \<Rightarrow> (int \<Rightarrow> bool) \<Rightarrow> rlConfig \<Rightarrow> int \<Rightarrow> (rlRequest \<times> int \<times> int) list \<Rightarrow> bool" where
  "timesFrom ok op cfg t [] = True"
| "timesFrom ok op cfg t ((r, now, later) # es) \<longleftrightarrow>
     t \<le> now \<and> ok now \<and> ok (now + rlPeriod cfg) \<and> op now \<and> timesFrom ok op cfg now es"

context cache_store
begin

lemma serve_counting:
  assumes "counting s t k n (Some x)" and "timeOk t" and "timesFrom timeOk (\<lambda>u. \<not> dead x u) cfg t es"
    and "0 < rlPeriod cfg" and "int n + int (bucketSize cfg k es) < 2 ^ 63"
  shows "map (\<lambda>p. p = Next) (bucket cfg k es (fst (serveAll incr limit cfg es s)))
    = map (\<lambda>i. int (n + Suc i) \<le> sint limit) [0..<bucketSize cfg k es]"
  using assms
proof (induction es arbitrary: s t n)
  case (Cons e es)
  obtain r now later where e: "e = (r, now, later)" by (cases e)
  let ?k = "buildKey cfg r" and ?s = "snd (incr (buildKey cfg r) 1 (rlPeriod cfg) now s)"
  have times: "t \<le> now" "timeOk now" "timeOk (now + rlPeriod cfg)" "\<not> dead x now"
    "timesFrom timeOk (\<lambda>u. \<not> dead x u) cfg now es"
    using Cons.prems(3) e by simp_all
  have c: "counting s now k n (Some x)"
    by (rule counting_later [OF Cons.prems(1,2) times(2,1,4)])
  have st: "snd (rateLimit incr limit cfg r now later s) = ?s"
    by (simp add: rateLimit_def split: prod.splits sum.splits)
  show ?case
  proof (cases "?k = k")
    case True
    have i: "fst (incr k 1 (rlPeriod cfg) now s) = Inr (word_of_int (int (Suc n)), Some x)"
      "counting ?s now k (Suc n) (Some x)"
      using incr_next [OF c times(2) Cons.prems(4) times(3)] Cons.prems(5) True e by simp_all
    have "sint (word_of_int (int (Suc n)) :: i64) = int (Suc n)"
      using Cons.prems(5) True e by (intro sint_word_of_int_small) simp_all
    with i(1) have "fst (rateLimit incr limit cfg r now later s) = Next \<longleftrightarrow> int (Suc n) \<le> sint limit"
      using True by (auto simp: rateLimit_def split: prod.splits if_splits)
    moreover have "map (\<lambda>p. p = Next) (bucket cfg k es (fst (serveAll incr limit cfg es ?s)))
        = map (\<lambda>i. int (Suc n + Suc i) \<le> sint limit) [0..<bucketSize cfg k es]"
      using Cons.IH [OF i(2) times(2,5) Cons.prems(4)] Cons.prems(5) True e by simp
    moreover have "map (\<lambda>i. int (n + Suc i) \<le> sint limit) [0..<Suc (bucketSize cfg k es)]
        = (int (Suc n) \<le> sint limit) # map (\<lambda>i. int (Suc n + Suc i) \<le> sint limit) [0..<bucketSize cfg k es]"
      by (simp add: map_upt_Suc del: upt_Suc)
    ultimately show ?thesis
      using st True by (simp add: e serveAll_Cons del: upt_Suc serveAll.simps)
  next
    case False
    have v: "view s now k = Some (formatInt (int n), Some x)" "valid s"
      using c by (simp_all add: counting_def)
    have "counting ?s now k n (Some x)"
      using incr_other_view [OF v(2) times(2,2) order_refl Cons.prems(4) times(3), of k ?k 1] False v(1)
      by (simp add: counting_def)
    then have "map (\<lambda>p. p = Next) (bucket cfg k es (fst (serveAll incr limit cfg es ?s)))
        = map (\<lambda>i. int (n + Suc i) \<le> sint limit) [0..<bucketSize cfg k es]"
      using Cons.IH [OF _ times(2,5) Cons.prems(4)] Cons.prems(5) False e by simp
    then show ?thesis
      using st False by (simp add: e serveAll_Cons del: serveAll.simps)
  qed
qed simp

lemma timesFrom_mono:
  "timesFrom ok P cfg t es \<Longrightarrow> (\<And>u. t \<le> u \<Longrightarrow> P u \<Longrightarrow> Q u) \<Longrightarrow> timesFrom ok Q cfg t es"
  by (induction ok P cfg t es rule: timesFrom.induct) auto

lemma serve_window:
  assumes "valid s" and "view s t k = None" and "timeOk t" and "t0 \<le> t"
    and "timesFrom timeOk (\<lambda>u. u < t0 + rlPeriod cfg) cfg t es"
    and "0 < rlPeriod cfg" and "int (bucketSize cfg k es) < 2 ^ 63"
  shows "map (\<lambda>p. p = Next) (bucket cfg k es (fst (serveAll incr limit cfg es s)))
    = map (\<lambda>i. int (Suc i) \<le> sint limit) [0..<bucketSize cfg k es]"
  using assms
proof (induction es arbitrary: s t)
  case (Cons e es)
  obtain r now later where e: "e = (r, now, later)" by (cases e)
  let ?k = "buildKey cfg r" and ?s = "snd (incr (buildKey cfg r) 1 (rlPeriod cfg) now s)"
  have times: "t \<le> now" "timeOk now" "timeOk (now + rlPeriod cfg)"
    "timesFrom timeOk (\<lambda>u. u < t0 + rlPeriod cfg) cfg now es"
    using Cons.prems(5) e by simp_all
  have none: "view s now k = None" by (rule view_never_back [OF Cons.prems(2,3) times(2,1)])
  have st: "snd (rateLimit incr limit cfg r now later s) = ?s"
    by (simp add: rateLimit_def split: prod.splits sum.splits)
  show ?case
  proof (cases "?k = k")
    case True
    note i = incr_start [OF Cons.prems(1) times(2) Cons.prems(6) times(3) none]
    have "timesFrom timeOk (\<lambda>u. \<not> dead (now + rlPeriod cfg) u) cfg now es"
      by (rule timesFrom_mono [OF times(4)]) (use times(1) Cons.prems(4) dead_future in force)
    then have "map (\<lambda>p. p = Next) (bucket cfg k es (fst (serveAll incr limit cfg es ?s)))
        = map (\<lambda>i. int (1 + Suc i) \<le> sint limit) [0..<bucketSize cfg k es]"
      using i True Cons.prems(6,7) e
      by (intro serve_counting [OF _ times(2), where x = "now + rlPeriod cfg"]) simp_all
    moreover have "fst (rateLimit incr limit cfg r now later s) = Next \<longleftrightarrow> 1 \<le> sint limit"
      using i True by (auto simp: rateLimit_def split: prod.splits if_splits)
    moreover have "map (\<lambda>i. int (Suc i) \<le> sint limit) [0..<Suc (bucketSize cfg k es)]
        = (1 \<le> sint limit) # map (\<lambda>i. int (1 + Suc i) \<le> sint limit) [0..<bucketSize cfg k es]"
      by (simp add: map_upt_Suc del: upt_Suc)
    ultimately show ?thesis
      using st True by (simp add: e serveAll_Cons del: upt_Suc serveAll.simps)
  next
    case False
    have "valid ?s \<and> view ?s now k = None"
      using incr_other_view [OF Cons.prems(1) times(2,2) order_refl Cons.prems(6) times(3), of k ?k 1] False none
      by simp
    then have "map (\<lambda>p. p = Next) (bucket cfg k es (fst (serveAll incr limit cfg es ?s)))
        = map (\<lambda>i. int (Suc i) \<le> sint limit) [0..<bucketSize cfg k es]"
      using Cons.IH [OF _ _ times(2) _ times(4)] Cons.prems(4,6,7) times(1) False e by simp
    then show ?thesis
      using st False by (simp add: e serveAll_Cons del: serveAll.simps)
  qed
qed simp

end

lemma threshold_split:
  "0 \<le> l \<Longrightarrow> map (\<lambda>i. int (Suc i) \<le> l) [0..<n] = replicate (min n (nat l)) True @ replicate (n - nat l) False"
  by (rule nth_equalityI) (auto simp: nth_append)

text \<open>C3: With the in-memory store, of the requests of one client that fall into one window,
  however they interleave with requests of other clients, exactly the first \<open>limit\<close> pass and
  every later one is limited.\<close>

theorem memory_limit_enforced:
  assumes "memView m t0 k = None" and "0 < rlPeriod cfg" and "0 \<le> sint limit"
    and "timesFrom (\<lambda>t. True) (\<lambda>u. u < t0 + rlPeriod cfg) cfg t0 es" and "length es < 2 ^ 63"
  shows "map (\<lambda>p. p = Next) (bucket cfg k es (fst (serveAll memIncrement limit cfg es m)))
    = replicate (min (bucketSize cfg k es) (nat (sint limit))) True
      @ replicate (bucketSize cfg k es - nat (sint limit)) False"
proof -
  have "bucketSize cfg k es \<le> length es" by (simp add: bucketSize_def)
  then have "map (\<lambda>p. p = Next) (bucket cfg k es (fst (serveAll memIncrement limit cfg es m)))
      = map (\<lambda>i. int (Suc i) \<le> sint limit) [0..<bucketSize cfg k es]"
    using assms by (intro mem.serve_window [where t = t0 and ?t0.0 = t0]) auto
  then show ?thesis by (simp only: threshold_split [OF assms(3)])
qed

text \<open>The same with the database store, at instants that nanosecond timestamps represent.\<close>

theorem database_limit_enforced:
  assumes "dbValid s" and "dbView s t0 k = None" and "dbTimeOk t0" and "0 < rlPeriod cfg" and "0 \<le> sint limit"
    and "timesFrom dbTimeOk (\<lambda>u. u < t0 + rlPeriod cfg) cfg t0 es" and "length es < 2 ^ 63"
  shows "map (\<lambda>p. p = Next) (bucket cfg k es (fst (serveAll dbIncrement limit cfg es s)))
    = replicate (min (bucketSize cfg k es) (nat (sint limit))) True
      @ replicate (bucketSize cfg k es - nat (sint limit)) False"
proof -
  have "bucketSize cfg k es \<le> length es" by (simp add: bucketSize_def)
  then have "map (\<lambda>p. p = Next) (bucket cfg k es (fst (serveAll dbIncrement limit cfg es s)))
      = map (\<lambda>i. int (Suc i) \<le> sint limit) [0..<bucketSize cfg k es]"
    using assms by (intro db.serve_window [where t = t0 and ?t0.0 = t0]) auto
  then show ?thesis by (simp only: threshold_split [OF assms(5)])
qed

text \<open>Two clients, four requests, limit two.\<close>

definition clientA :: rlRequest where
  "clientA = \<lparr>rqMethod = ''GET'', rqPath = ''/'', rqClientIP = ''10.0.0.1'', rqRemoteAddr = []\<rparr>"

definition clientB :: rlRequest where
  "clientB = clientA\<lparr>rqClientIP := ''10.0.0.2''\<rparr>"

definition exampleRequests :: "(rlRequest \<times> int \<times> int) list" where
  "exampleRequests = [(clientA, 10, 10), (clientB, 20, 20), (clientA, 30, 30), (clientA, 40, 40)]"

lemma exampleRequests_facts:
  "bucketSize newConfig (buildKey newConfig clientA) exampleRequests = 3"
  "timesFrom (\<lambda>t. True) (\<lambda>u. u < 10 + rlPeriod newConfig) newConfig 10 exampleRequests"
  "timesFrom dbTimeOk (\<lambda>u. u < 10 + rlPeriod newConfig) newConfig 10 exampleRequests"
  "length exampleRequests < 2 ^ 63" "rlPeriod newConfig = 60000000000"
  by (simp_all add: exampleRequests_def newConfig_def buildKey_def defaultKeyFunc_def identity_def
      clientA_def clientB_def dbTimeOk_def)

theorem memory_limit_enforced_witness:
  "map (\<lambda>p. p = Next) (bucket newConfig (buildKey newConfig clientA) exampleRequests
      (fst (serveAll memIncrement 2 newConfig exampleRequests memNew))) = [True, True, False]"
proof -
  have "map (\<lambda>p. p = Next) (bucket newConfig (buildKey newConfig clientA) exampleRequests
      (fst (serveAll memIncrement 2 newConfig exampleRequests memNew)))
    = replicate (min (bucketSize newConfig (buildKey newConfig clientA) exampleRequests) (nat (sint (2 :: i64)))) True
      @ replicate (bucketSize newConfig (buildKey newConfig clientA) exampleRequests - nat (sint (2 :: i64))) False"
    by (rule memory_limit_enforced [where ?t0.0 = 10])
       (use exampleRequests_facts in \<open>simp_all add: memView_def memNew_def\<close>)
  then show ?thesis unfolding exampleRequests_facts by (simp add: eval_nat_numeral)
qed

theorem database_limit_enforced_witness:
  "map (\<lambda>p. p = Next) (bucket newConfig (buildKey newConfig clientA) exampleRequests
      (fst (serveAll dbIncrement 2 newConfig exampleRequests \<lparr>tabRows = [], tabNextID = 1\<rparr>)))
   = [True, True, False]"
proof -
  let ?s = "\<lparr>tabRows = [], tabNextID = 1\<rparr>"
  have "map (\<lambda>p. p = Next) (bucket newConfig (buildKey newConfig clientA) exampleRequests
      (fst (serveAll dbIncrement 2 newConfig exampleRequests ?s)))
    = replicate (min (bucketSize newConfig (buildKey newConfig clientA) exampleRequests) (nat (sint (2 :: i64)))) True
      @ replicate (bucketSize newConfig (buildKey newConfig clientA) exampleRequests - nat (sint (2 :: i64))) False"
    by (rule database_limit_enforced [where ?t0.0 = 10])
       (use exampleRequests_facts in \<open>simp_all add: dbView_def dbValid_def dbTimeOk_def findRow_def\<close>)
  then show ?thesis unfolding exampleRequests_facts by (simp add: eval_nat_numeral)
qed

end
