(* ===== verification/CacheApi.thy ===== *)
theory CacheApi
  imports CacheMemory CacheDatabase
begin

text \<open>
  The generic layer over a store (\<open>cache/cache.go\<close>, \<open>cache/fragment.go\<close>). \<open>encoding/json\<close> is a
  pair of functions \<open>encode\<close> (\<open>None\<close>: Marshal failed) and \<open>decode\<close> (\<open>None\<close>: Unmarshal failed);
  a store operation returns an error or its result, and a new store. The generator \<open>fn\<close> is its
  result, and the results say whether it was called.
\<close>

datatype 'e fetchErr =
    ReadingErr string cacheError
  | DecodingErr string
  | EncodingErr string
  | WritingErr string cacheError
  | GenErr 'e

type_synonym 's reader = "string \<Rightarrow> 's \<Rightarrow> (cacheError + bytes option) \<times> 's"
type_synonym 's storeWriter = "string \<Rightarrow> bytes \<Rightarrow> int \<Rightarrow> 's \<Rightarrow> cacheError option \<times> 's"

definition Write ::
    "'s storeWriter \<Rightarrow> ('v \<Rightarrow> bytes option) \<Rightarrow> string \<Rightarrow> 'v \<Rightarrow> int \<Rightarrow> 's \<Rightarrow> 'e fetchErr option \<times> 's" where
  "Write wr encode key val ttl s =
     (case encode val of
        None \<Rightarrow> (Some (EncodingErr key), s)
      | Some raw \<Rightarrow>
          (case wr key raw ttl s of
             (Some e, s') \<Rightarrow> (Some (WritingErr key e), s')
           | (None, s') \<Rightarrow> (None, s')))"

definition Read ::
    "'s reader \<Rightarrow> (bytes \<Rightarrow> 'v option) \<Rightarrow> string \<Rightarrow> 's \<Rightarrow> ('e fetchErr + 'v option) \<times> 's" where
  "Read rd decode key s =
     (case rd key s of
        (Inl e, s') \<Rightarrow> (Inl (ReadingErr key e), s')
      | (Inr None, s') \<Rightarrow> (Inr None, s')
      | (Inr (Some raw), s') \<Rightarrow>
          (case decode raw of
             None \<Rightarrow> (Inl (DecodingErr key), s')
           | Some v \<Rightarrow> (Inr (Some v), s')))"

text \<open>The part of \<open>Fetch\<close> after a miss.\<close>

definition generate ::
    "'s storeWriter \<Rightarrow> ('v \<Rightarrow> bytes option) \<Rightarrow> string \<Rightarrow> int \<Rightarrow> ('e + 'v) \<Rightarrow> 's \<Rightarrow> ('e fetchErr + 'v) \<times> bool \<times> 's" where
  "generate wr encode key ttl fn s =
     (case fn of
        Inl e \<Rightarrow> (Inl (GenErr e), True, s)
      | Inr v \<Rightarrow>
          (case Write wr encode key v ttl s of
             (Some e, s') \<Rightarrow> (Inl e, True, s')
           | (None, s') \<Rightarrow> (Inr v, True, s')))"

definition Fetch ::
    "'s reader \<Rightarrow> 's storeWriter \<Rightarrow> ('v \<Rightarrow> bytes option) \<Rightarrow> (bytes \<Rightarrow> 'v option) \<Rightarrow> string \<Rightarrow> int \<Rightarrow> ('e + 'v) \<Rightarrow> 's
       \<Rightarrow> ('e fetchErr + 'v) \<times> bool \<times> 's" where
  "Fetch rd wr encode decode key ttl fn s =
     (case rd key s of
        (Inl e, s') \<Rightarrow> (Inl (ReadingErr key e), False, s')
      | (Inr None, s') \<Rightarrow> generate wr encode key ttl fn s'
      | (Inr (Some raw), s') \<Rightarrow>
          (case decode raw of
             Some v \<Rightarrow> (Inr v, False, s')
           | None \<Rightarrow> generate wr encode key ttl fn s'))"

text \<open>\<open>FetchFragment\<close>: the bytes are the fragment, there is no decoding.\<close>

definition FetchFragment ::
    "'s reader \<Rightarrow> 's storeWriter \<Rightarrow> string \<Rightarrow> int \<Rightarrow> ('e + bytes) \<Rightarrow> 's \<Rightarrow> ('e fetchErr + bytes) \<times> bool \<times> 's" where
  "FetchFragment rd wr key ttl render s =
     (case rd key s of
        (Inl e, s') \<Rightarrow> (Inl (ReadingErr key e), False, s')
      | (Inr (Some raw), s') \<Rightarrow> (Inr raw, False, s')
      | (Inr None, s') \<Rightarrow>
          (case render of
             Inl e \<Rightarrow> (Inl (GenErr e), True, s')
           | Inr html \<Rightarrow>
               (case wr key html ttl s' of
                  (Some e, s'') \<Rightarrow> (Inl (WritingErr key e), True, s'')
                | (None, s'') \<Rightarrow> (Inr html, True, s''))))"

text \<open>A store operation that cannot fail, at an instant.\<close>

definition okRead :: "(string \<Rightarrow> int \<Rightarrow> 's \<Rightarrow> bytes option \<times> 's) \<Rightarrow> int \<Rightarrow> 's reader" where
  "okRead rd now key s = (case rd key now s of (v, s') \<Rightarrow> (Inr v, s'))"

definition okWrite :: "(string \<Rightarrow> bytes \<Rightarrow> int \<Rightarrow> int \<Rightarrow> 's \<Rightarrow> 's) \<Rightarrow> int \<Rightarrow> 's storeWriter" where
  "okWrite wr now key v ttl s = (None, wr key v ttl now s)"

context cache_store
begin

text \<open>One \<open>Fetch\<close> at an instant: its result, whether it generated, and the view it leaves.\<close>

lemma fetch_step:
  assumes "valid s" "timeOk now" "0 < ttl \<longrightarrow> timeOk (now + ttl)" "timeOk t" "now \<le> t" "encode v = Some raw"
    and "Fetch (okRead rd now) (okWrite wr now) encode decode key ttl (Inr v) s = (res, called, s')"
  shows "valid s' \<and>
    (case view s now key of
       Some (old, e) \<Rightarrow>
         (case decode old of
            Some u \<Rightarrow> res = Inr u \<and> \<not> called \<and> view s' t = view s t
          | None \<Rightarrow> res = Inr v \<and> called \<and> view s' t = putLive dead t key raw (expiry now ttl) (view s t))
     | None \<Rightarrow> res = Inr v \<and> called \<and> view s' t = putLive dead t key raw (expiry now ttl) (view s t))"
proof -
  obtain r s1 where r: "rd key now s = (r, s1)" by (cases "rd key now s")
  then have s1: "r = map_option fst (view s now key)" "valid s1" "view s1 t = view s t"
    using read_value [OF assms(1,2), of key] read_keeps [OF assms(1,2,4,5), of key] by simp_all
  have w: "valid (wr key raw ttl now s1)"
    "view (wr key raw ttl now s1) t = putLive dead t key raw (expiry now ttl) (view s t)"
    using write_view [OF s1(2) assms(2,4,3)] s1(3) by simp_all
  show ?thesis
    using assms(7) r s1 w assms(6)
    by (auto simp: Fetch_def generate_def Write_def okRead_def okWrite_def split: option.splits prod.splits)
qed

lemma fetch_twice:
  assumes "valid s" "timeOk now" "timeOk later" "now \<le> later"
    and "0 < ttl \<longrightarrow> timeOk (now + ttl) \<and> later < now + ttl" and "0 < ttl' \<longrightarrow> timeOk (later + ttl')"
    and "encode v = Some raw" and "decode raw = Some v" and "encode u = Some raw'"
    and "Fetch (okRead rd now) (okWrite wr now) encode decode key ttl (Inr v) s = (res, True, s')"
    and "Fetch (okRead rd later) (okWrite wr later) encode decode key ttl' (Inr u) s' = (res', called, s'')"
  shows "res = Inr v \<and> res' = Inr v \<and> \<not> called"
proof -
  have "valid s'" "res = Inr v" "view s' later = putLive dead later key raw (expiry now ttl) (view s later)"
    using fetch_step [OF assms(1,2) _ assms(3,4,7,10)] assms(5)
    by (auto split: option.splits prod.splits)
  moreover from this have "view s' later key = Some (raw, expiry now ttl)"
    using assms(5) dead_future by (cases "0 < ttl") auto
  ultimately show ?thesis
    using fetch_step [OF _ assms(3,6,3) order_refl assms(9,11)] assms(8) by auto
qed

end



text \<open>The two backends disagree on a lifetime that reaches beyond the range of nanosecond
  timestamps (the year 2262): the in-memory store keeps the value, while the database store
  writes a wrapped, negative expiry and the value is gone at once.\<close>

theorem ttl_overflow:
  assumes "dbTimeOk now" and "0 < ttl" and "ttl < 2 ^ 63" and "2 ^ 63 \<le> now + ttl"
  shows "fst (memRead k now (memWrite k v ttl now m)) = Some v
    \<and> fst (dbRead k now (dbWrite k v ttl now s)) = None"
proof
  show "fst (memRead k now (memWrite k v ttl now m)) = Some v"
    using assms(2) by (simp add: memRead_def memWrite_def expired_def)
  let ?x = "expiresAtNano now ttl"
  have "?x = word_of_int (now + ttl - 2 ^ 64)"
    using assms(2) by (simp add: expiresAtNano_def unixNano_def word_eq_iff_unsigned unsigned_of_int take_bit_eq_mod)
  moreover have "sint (word_of_int (now + ttl - 2 ^ 64) :: i64) = now + ttl - 2 ^ 64"
    using assms by (intro sint_word_of_int_small) (simp_all add: dbTimeOk_def)
  ultimately have x: "sint ?x = now + ttl - 2 ^ 64" by simp
  then have neg: "sint ?x < 0" using assms(1,3) by (simp add: dbTimeOk_def)
  then have nz: "?x \<noteq> 0" by auto
  have "\<exists>r. findRow k (dbWrite k v ttl now s) = Some r \<and> rowExpiresAt r = ?x"
    by (auto simp: dbWrite_def upsertKey_def findRow_insert findRow_update split: option.splits)
  then obtain r where "findRow k (dbWrite k v ttl now s) = Some r" "rowExpiresAt r = ?x" by blast
  moreover have "sint ?x \<le> now" using neg assms(1) by (simp add: dbTimeOk_def)
  ultimately show "fst (dbRead k now (dbWrite k v ttl now s)) = None"
    using nz assms(1) by (simp add: dbRead_def dbLookup_def rowExpired_def)
qed

theorem ttl_overflow_witness:
  "fst (dbRead ''k'' 1700000000000000000 (dbWrite ''k'' ''v'' 9223372036854775807 1700000000000000000
     \<lparr>tabRows = [], tabNextID = 1\<rparr>)) = None"
  using ttl_overflow [of 1700000000000000000 9223372036854775807 "''k''" "''v''"]
  by (simp add: dbTimeOk_def)

end
