(* ===== verification/Jobs.thy ===== *)
theory Jobs
  imports Prelude
begin

text \<open>
  The backend-independent part of background jobs (\<open>jobs\<close>): the envelope and \<open>Enqueue\<close>, the
  registry with \<open>Dispatch\<close>, and the scheduler. A job's JSON, its \<open>Perform\<close> and the backend are
  parameters. Instants and durations are integers of nanoseconds; \<open>None\<close> is the zero time.
\<close>

section \<open>The envelope\<close>

record enqueued =
  eqKind :: string
  eqArgs :: bytes
  eqQueue :: string
  eqScheduledAt :: "int option"
  eqMaxAttempts :: int
  eqConcurrencyKey :: string
  eqConcurrencyLimit :: int
  eqConcurrencyDuration :: int

definition DefaultMaxAttempts :: int where
  "DefaultMaxAttempts = 25"

type_synonym enqueueOption = "enqueued \<Rightarrow> enqueued"

definition WithQueue :: "string \<Rightarrow> enqueueOption" where
  "WithQueue name e = e\<lparr>eqQueue := name\<rparr>"

definition WithDelay :: "int \<Rightarrow> int \<Rightarrow> enqueueOption" where
  "WithDelay now d e = e\<lparr>eqScheduledAt := Some (now + d)\<rparr>"

definition WithMaxAttempts :: "int \<Rightarrow> enqueueOption" where
  "WithMaxAttempts n e = e\<lparr>eqMaxAttempts := n\<rparr>"

text \<open>A job as \<open>Enqueue\<close> sees it: kind, its JSON (\<open>None\<close>: Marshal fails), and the concurrency
  key, limit and duration if it implements \<open>ConcurrencyLimited\<close>.\<close>

record job =
  jbKind :: string
  jbJSON :: "bytes option"
  jbLimited :: "(string \<times> int \<times> int) option"

datatype jobError = ErrMarshal string | ErrUnknownKind string | ErrUnmarshal string | ErrPerform string | ErrBackend string

definition envelope :: "job \<Rightarrow> bytes \<Rightarrow> enqueueOption list \<Rightarrow> enqueued" where
  "envelope j args opts =
     (let e0 = \<lparr>eqKind = jbKind j, eqArgs = args, eqQueue = [], eqScheduledAt = None, eqMaxAttempts = 0,
                eqConcurrencyKey = [], eqConcurrencyLimit = 0, eqConcurrencyDuration = 0\<rparr>;
          e1 = (case jbLimited j of
                  None \<Rightarrow> e0
                | Some (k, l, d) \<Rightarrow>
                    e0\<lparr>eqConcurrencyKey := k, eqConcurrencyLimit := l, eqConcurrencyDuration := d\<rparr>);
          e2 = fold (\<lambda>opt e. opt e) opts e1
      in if eqMaxAttempts e2 = 0 then e2\<lparr>eqMaxAttempts := DefaultMaxAttempts\<rparr> else e2)"

definition Enqueue ::
    "(enqueued \<Rightarrow> 'b \<Rightarrow> jobError option \<times> 'b) \<Rightarrow> job \<Rightarrow> enqueueOption list \<Rightarrow> 'b \<Rightarrow> jobError option \<times> 'b" where
  "Enqueue backend j opts b =
     (case jbJSON j of
        None \<Rightarrow> (Some (ErrMarshal (jbKind j)), b)
      | Some args \<Rightarrow> backend (envelope j args opts) b)"

section \<open>The registry\<close>

record 'f schedule =
  scName :: string
  scInterval :: int
  scFactory :: 'f
  scOptions :: "enqueueOption list"

record 'f registry =
  rgFactories :: "string \<rightharpoonup> 'f"
  rgSchedules :: "'f schedule list"

definition NewRegistry :: "'f registry" where
  "NewRegistry = \<lparr>rgFactories = Map.empty, rgSchedules = []\<rparr>"

text \<open>\<open>None\<close> is a panic.\<close>

definition Register :: "string \<Rightarrow> 'f \<Rightarrow> 'f registry \<Rightarrow> 'f registry option" where
  "Register kind factory r =
     (if rgFactories r kind \<noteq> None then None else Some (r\<lparr>rgFactories := (rgFactories r)(kind \<mapsto> factory)\<rparr>))"

definition RegisterSchedule ::
    "string \<Rightarrow> int \<Rightarrow> 'f \<Rightarrow> enqueueOption list \<Rightarrow> 'f registry \<Rightarrow> 'f registry option" where
  "RegisterSchedule name interval factory opts r =
     (if list_ex (\<lambda>s. scName s = name) (rgSchedules r) then None
      else Some (r\<lparr>rgSchedules := rgSchedules r @
             [\<lparr>scName = name, scInterval = interval, scFactory = factory, scOptions = opts\<rparr>]\<rparr>))"

text \<open>\<open>mk\<close> builds a job by a factory; \<open>unmarshal\<close> fills it from JSON; \<open>perform\<close> is its error.\<close>

definition Dispatch ::
    "('f \<Rightarrow> 'j) \<Rightarrow> (bytes \<Rightarrow> 'j \<Rightarrow> 'j option) \<Rightarrow> ('j \<Rightarrow> string option) \<Rightarrow> 'f registry \<Rightarrow> enqueued \<Rightarrow> jobError option" where
  "Dispatch mk unmarshal perform r e =
     (case rgFactories r (eqKind e) of
        None \<Rightarrow> Some (ErrUnknownKind (eqKind e))
      | Some f \<Rightarrow>
          (case (if eqArgs e = [] then Some (mk f) else unmarshal (eqArgs e) (mk f)) of
             None \<Rightarrow> Some (ErrUnmarshal (eqKind e))
           | Some j \<Rightarrow> map_option ErrPerform (perform j)))"

definition distinctSchedules :: "'f registry \<Rightarrow> bool" where
  "distinctSchedules r \<longleftrightarrow> distinct (map scName (rgSchedules r))"

lemma RegisterSchedule_distinct:
  "distinctSchedules r \<Longrightarrow> RegisterSchedule name i f opts r = Some r' \<Longrightarrow> distinctSchedules r'"
  by (auto simp: RegisterSchedule_def distinctSchedules_def list_ex_iff split: if_splits)

section \<open>The scheduler\<close>

type_synonym nextRun = "string \<rightharpoonup> int"

definition due :: "'f schedule \<Rightarrow> int \<Rightarrow> nextRun \<Rightarrow> bool \<times> nextRun" where
  "due sched now nr =
     (case nr (scName sched) of
        Some nxt \<Rightarrow> if now < nxt then (False, nr) else (True, nr(scName sched \<mapsto> now + scInterval sched))
      | None \<Rightarrow> (True, nr(scName sched \<mapsto> now + scInterval sched)))"

text \<open>One tick: the schedules enqueued, in order. (A failed enqueue is only logged.)\<close>

fun tick :: "'f schedule list \<Rightarrow> int \<Rightarrow> nextRun \<Rightarrow> 'f schedule list \<times> nextRun" where
  "tick [] now nr = ([], nr)"
| "tick (s # ss) now nr =
     (let (d, nr1) = due s now nr; (fired, nr2) = tick ss now nr1
      in (if d then s # fired else fired, nr2))"

fun ticks :: "'f schedule list \<Rightarrow> int list \<Rightarrow> nextRun \<Rightarrow> 'f schedule list list" where
  "ticks ss [] nr = []"
| "ticks ss (t # ts) nr = (let (fired, nr1) = tick ss t nr in fired # ticks ss ts nr1)"

text \<open>What one schedule's ticks should be: fire at the first tick, then at each tick that is at
  least an interval after the last firing.\<close>

fun firesFrom :: "int option \<Rightarrow> int \<Rightarrow> int list \<Rightarrow> bool list" where
  "firesFrom last_run i [] = []"
| "firesFrom last_run i (t # ts) =
     (let f = (case last_run of None \<Rightarrow> True | Some l \<Rightarrow> l + i \<le> t)
      in f # firesFrom (if f then Some t else last_run) i ts)"

lemma due_other: "scName s \<noteq> n \<Longrightarrow> snd (due s now nr) n = nr n"
  by (auto simp: due_def split: option.splits)

lemma tick_Cons [simp]:
  "fst (tick (s # ss) now nr) = (if fst (due s now nr) then [s] else []) @ fst (tick ss now (snd (due s now nr)))"
  "snd (tick (s # ss) now nr) = snd (tick ss now (snd (due s now nr)))"
  by (simp_all add: Let_def split: prod.splits)

declare tick.simps(2) [simp del]

lemma tick_other:
  "n \<notin> scName ` set ss \<Longrightarrow> snd (tick ss now nr) n = nr n \<and> (\<forall>y\<in>set (fst (tick ss now nr)). scName y \<noteq> n)"
  by (induction ss arbitrary: nr) (auto simp: due_other)

lemma tick_next:
  assumes "distinct (map scName ss)" and "s \<in> set ss"
  shows "snd (tick ss now nr) (scName s) = snd (due s now nr) (scName s)
    \<and> (s \<in> set (fst (tick ss now nr)) \<longleftrightarrow> fst (due s now nr))"
  using assms
proof (induction ss arbitrary: nr)
  case (Cons x ss)
  show ?case
  proof (cases "s = x")
    case True
    then have "scName s \<notin> scName ` set ss" using Cons.prems(1) by simp
    from tick_other [OF this, of now "snd (due s now nr)"] show ?thesis
      using True by auto
  next
    case False
    then have "scName x \<noteq> scName s" "s \<in> set ss" using Cons.prems by auto
    then have "snd (due x now nr) (scName s) = nr (scName s)" by (simp add: due_other)
    then have "fst (due s now (snd (due x now nr))) = fst (due s now nr)
        \<and> snd (due s now (snd (due x now nr))) (scName s) = snd (due s now nr) (scName s)"
      by (auto simp: due_def split: option.splits)
    then show ?thesis
      using Cons.IH [of "snd (due x now nr)"] Cons.prems(1) \<open>s \<in> set ss\<close> False
      by auto
  qed
qed simp

lemma ticks_fire:
  assumes "distinct (map scName ss)" and "s \<in> set ss"
    and "nr (scName s) = map_option (\<lambda>l. l + scInterval s) last_run"
  shows "map (\<lambda>fired. s \<in> set fired) (ticks ss ts nr) = firesFrom last_run (scInterval s) ts"
  using assms(3)
proof (induction ts arbitrary: nr last_run)
  case (Cons t ts)
  note t = tick_next [OF assms(1,2), of t nr]
  have "fst (due s t nr) \<longleftrightarrow> (case last_run of None \<Rightarrow> True | Some l \<Rightarrow> l + scInterval s \<le> t)"
    using Cons.prems by (auto simp: due_def split: option.splits)
  moreover have "snd (due s t nr) (scName s)
      = map_option (\<lambda>l. l + scInterval s) (if fst (due s t nr) then Some t else last_run)"
    using Cons.prems by (auto simp: due_def split: option.splits)
  ultimately show ?case
    using t Cons.IH [of "snd (tick ss t nr)" "if fst (due s t nr) then Some t else last_run"]
    by (auto simp: Let_def split: prod.splits)
qed simp

text \<open>Whatever other schedules a registry has, the scheduler enqueues each of its schedules
  at its first tick and then exactly at the ticks that come an interval or more after the
  schedule's last enqueue.\<close>

theorem schedule_spacing:
  assumes "distinctSchedules r" and "s \<in> set (rgSchedules r)"
  shows "map (\<lambda>fired. s \<in> set fired) (ticks (rgSchedules r) ts Map.empty) = firesFrom None (scInterval s) ts"
  using assms by (intro ticks_fire) (simp_all add: distinctSchedules_def)

definition exampleSchedules :: "unit registry" where
  "exampleSchedules = \<lparr>rgFactories = Map.empty, rgSchedules =
     [\<lparr>scName = ''a'', scInterval = 2, scFactory = (), scOptions = []\<rparr>,
      \<lparr>scName = ''b'', scInterval = 3, scFactory = (), scOptions = []\<rparr>]\<rparr>"

theorem schedule_spacing_witness:
  "map (\<lambda>fired. \<lparr>scName = ''b'', scInterval = 3, scFactory = (), scOptions = []\<rparr> \<in> set fired)
     (ticks (rgSchedules exampleSchedules) [1, 2, 3, 4, 5, 8] Map.empty) = [True, False, False, True, False, True]"
proof -
  let ?s = "\<lparr>scName = ''b'', scInterval = 3, scFactory = (), scOptions = []\<rparr> :: unit schedule"
  have "distinctSchedules exampleSchedules" "?s \<in> set (rgSchedules exampleSchedules)"
    by (simp_all add: distinctSchedules_def exampleSchedules_def)
  from schedule_spacing [OF this, of "[1, 2, 3, 4, 5, 8]"] show ?thesis by simp
qed

end
