(* ===== verification/DbQueue.thy ===== *)
theory DbQueue
  imports Jobs
begin

text \<open>
  The SQL job queue (\<open>jobs/backend/dbqueue\<close>: \<open>row.go\<close>, \<open>dbqueue.go\<close>, \<open>claim.go\<close>, \<open>run.go\<close>). The
  table \<open>dbqueue_jobs\<close> is a list of rows; each transaction or statement is one step on it.
  Timestamps are integers of nanoseconds; only \<open>computeBackoff\<close>, whose shift can overflow, is
  on 64-bit words. Rows that other transactions hold locked are an input of a claim
  (\<open>SKIP LOCKED\<close>); on SQLite there are none. After the operations come the transition system
  of a database with any number of workers, and its invariants.
\<close>

section \<open>Rows\<close>

datatype jobState = Available | Executing | Finished | Failed

record jobRow =
  jrID :: nat
  jrKind :: string
  jrArgs :: bytes
  jrQueue :: string
  jrState :: jobState
  jrScheduledAt :: int
  jrAttempts :: int
  jrMaxAttempts :: int
  jrConcurrencyKey :: string
  jrConcurrencyLimit :: int
  jrConcurrencyDuration :: int
  jrLockedAt :: int
  jrLockedBy :: string
  jrLastError :: string
  jrFinishedAt :: int
  jrCreatedAt :: int

text \<open>\<open>Backend.Enqueue\<close>: the new row; its ID is given by the table.\<close>

definition newRow :: "nat \<Rightarrow> int \<Rightarrow> enqueued \<Rightarrow> jobRow" where
  "newRow i now e =
     \<lparr> jrID = i, jrKind = eqKind e, jrArgs = eqArgs e,
       jrQueue = (if eqQueue e = [] then ''default'' else eqQueue e),
       jrState = Available,
       jrScheduledAt = (case eqScheduledAt e of None \<Rightarrow> now | Some t \<Rightarrow> t),
       jrAttempts = 0,
       jrMaxAttempts = (if eqMaxAttempts e = 0 then DefaultMaxAttempts else eqMaxAttempts e),
       jrConcurrencyKey = eqConcurrencyKey e, jrConcurrencyLimit = eqConcurrencyLimit e,
       jrConcurrencyDuration = eqConcurrencyDuration e,
       jrLockedAt = 0, jrLockedBy = [], jrLastError = [], jrFinishedAt = 0, jrCreatedAt = now \<rparr>"

section \<open>Claiming\<close>

text \<open>The SQL of \<open>concurrencyGuard\<close> for a candidate row.\<close>

definition activeCount :: "int \<Rightarrow> jobRow \<Rightarrow> jobRow list \<Rightarrow> nat" where
  "activeCount now r rows =
     length (filter (\<lambda>cc. jrConcurrencyKey cc = jrConcurrencyKey r \<and> jrState cc = Executing
                        \<and> jrLockedAt cc > now - jrConcurrencyDuration r) rows)"

definition concurrencyGuard :: "int \<Rightarrow> jobRow \<Rightarrow> jobRow list \<Rightarrow> bool" where
  "concurrencyGuard now r rows \<longleftrightarrow>
     jrConcurrencyKey r = [] \<or> int (activeCount now r rows) < jrConcurrencyLimit r"

definition claimable :: "string list \<Rightarrow> int \<Rightarrow> jobRow list \<Rightarrow> jobRow \<Rightarrow> bool" where
  "claimable queues now rows r \<longleftrightarrow>
     jrState r = Available \<and> jrScheduledAt r \<le> now \<and> jrQueue r \<in> set queues \<and> concurrencyGuard now r rows"

text \<open>
  One claim: the claimable unlocked row of least \<open>scheduled_at\<close> (of equals, the engine takes
  any; here the first of the table) becomes executing.
\<close>

definition claimMark :: "string \<Rightarrow> int \<Rightarrow> jobRow \<Rightarrow> jobRow" where
  "claimMark worker now r = r\<lparr>jrState := Executing, jrLockedAt := now, jrLockedBy := worker\<rparr>"

definition updateRow :: "nat \<Rightarrow> (jobRow \<Rightarrow> jobRow) \<Rightarrow> jobRow list \<Rightarrow> jobRow list" where
  "updateRow i f rows = map (\<lambda>r. if jrID r = i then f r else r) rows"

definition claimCandidate :: "nat set \<Rightarrow> string list \<Rightarrow> int \<Rightarrow> jobRow list \<Rightarrow> jobRow option" where
  "claimCandidate locked queues now rows =
     (case sort_key jrScheduledAt (filter (\<lambda>r. claimable queues now rows r \<and> jrID r \<notin> locked) rows) of
        [] \<Rightarrow> None | r # _ \<Rightarrow> Some r)"

definition claimOne ::
    "nat set \<Rightarrow> string \<Rightarrow> string list \<Rightarrow> int \<Rightarrow> jobRow list \<Rightarrow> jobRow option \<times> jobRow list" where
  "claimOne locked worker queues now rows =
     (case claimCandidate locked queues now rows of
        None \<Rightarrow> (None, rows)
      | Some r \<Rightarrow> (Some (claimMark worker now r), updateRow (jrID r) (claimMark worker now) rows))"

text \<open>
  The claim loop: up to \<open>batchSize\<close> rows, ended by a miss or by an error. Claim number \<open>j\<close> meets
  the locks \<open>locked j\<close> and an engine error when \<open>fault j\<close>. The result tells whether there was
  an error.
\<close>

fun claimFrom ::
    "nat \<Rightarrow> nat \<Rightarrow> (nat \<Rightarrow> nat set) \<Rightarrow> (nat \<Rightarrow> bool) \<Rightarrow> string \<Rightarrow> string list \<Rightarrow> int \<Rightarrow> jobRow list
       \<Rightarrow> jobRow list \<times> bool \<times> jobRow list" where
  "claimFrom 0 j locked fault worker queues now rows = ([], False, rows)"
| "claimFrom (Suc n) j locked fault worker queues now rows =
     (if fault j then ([], True, rows)
      else case claimOne (locked j) worker queues now rows of
             (None, rows1) \<Rightarrow> ([], False, rows1)
           | (Some r, rows1) \<Rightarrow>
               (case claimFrom n (Suc j) locked fault worker queues now rows1 of
                  (rs, err, rows2) \<Rightarrow> (r # rs, err, rows2)))"

text \<open>\<open>poll\<close>: the rows it dispatches. After an error it dispatches none, also not those that
  were claimed before the error.\<close>

definition poll ::
    "nat \<Rightarrow> (nat \<Rightarrow> nat set) \<Rightarrow> (nat \<Rightarrow> bool) \<Rightarrow> string \<Rightarrow> string list \<Rightarrow> int \<Rightarrow> jobRow list
       \<Rightarrow> jobRow list \<times> jobRow list" where
  "poll batchSize locked fault worker queues now rows =
     (case claimFrom batchSize 0 locked fault worker queues now rows of
        (claimed, err, rows') \<Rightarrow> (if err then [] else claimed, rows'))"

section \<open>Finishing, failing, backoff\<close>

definition finish :: "jobRow \<Rightarrow> int \<Rightarrow> jobRow list \<Rightarrow> jobRow list" where
  "finish row now rows = updateRow (jrID row) (\<lambda>r. r\<lparr>jrState := Finished, jrFinishedAt := now\<rparr>) rows"

definition fail :: "(int \<Rightarrow> int) \<Rightarrow> jobRow \<Rightarrow> string \<Rightarrow> int \<Rightarrow> jobRow list \<Rightarrow> jobRow list" where
  "fail backoff row jobErr now rows =
     (let attempts = jrAttempts row + 1 in
      updateRow (jrID row)
        (\<lambda>r. let r1 = r\<lparr>jrAttempts := attempts, jrLastError := jobErr\<rparr> in
             if attempts \<ge> jrMaxAttempts row then r1\<lparr>jrState := Failed\<rparr>
             else r1\<lparr>jrState := Available, jrScheduledAt := now + backoff attempts\<rparr>) rows)"

text \<open>
  \<open>computeBackoff\<close>: the shift wraps, the comparisons are signed, \<open>/\<close> truncates. \<open>rnd n\<close> is
  \<open>rand.Int64N(n)\<close>, which panics (\<open>None\<close>) for \<open>n \<le> 0\<close>; so does a shift by a negative count.
\<close>

definition computeBackoff :: "i64 \<Rightarrow> i64 \<Rightarrow> (int \<Rightarrow> int) \<Rightarrow> int \<Rightarrow> i64 option" where
  "computeBackoff backoffBase backoffMax rnd attempts =
     (let e = (if attempts > 10 then 10 else attempts);
          d0 = push_bit (nat e) backoffBase;
          d = (if sint d0 \<le> 0 \<or> sint d0 > sint backoffMax then backoffMax else d0);
          half = word_of_int (sgn (sint d) * (\<bar>sint d\<bar> div 2)) :: i64
      in if e < 0 \<or> sint (half + 1) \<le> 0 then None
         else Some (half + word_of_int (rnd (sint (half + 1)))))"

section \<open>Cleanup\<close>

definition cleanup :: "int \<Rightarrow> nat \<Rightarrow> int \<Rightarrow> jobRow list \<Rightarrow> jobRow list" where
  "cleanup retention batch now rows =
     (let cutoff = now - retention;
          stale = take batch (sort_key jrFinishedAt
                    (filter (\<lambda>r. jrState r = Finished \<and> jrFinishedAt r \<le> cutoff) rows))
      in filter (\<lambda>r. jrID r \<notin> jrID ` set stale) rows)"

section \<open>Bounds of the backoff\<close>

lemma sint_push_bit_small:
  assumes "0 \<le> sint (b :: i64)" and "sint b * 2 ^ n < 2 ^ 63"
  shows "sint (push_bit n b) = sint b * 2 ^ n"
proof -
  have "push_bit n b = word_of_int (sint b * 2 ^ n)"
    by (simp add: push_bit_eq_mult wi_hom_syms)
  moreover have "sint (word_of_int (sint b * 2 ^ n) :: i64) = sint b * 2 ^ n"
    using assms by (intro sint_word_of_int_small) (simp_all add: order_trans [of _ 0])
  ultimately show ?thesis by (simp only:)
qed

text \<open>C7: With a positive base and cap and a shift that stays in range, a retry waits between
  half the capped exponential delay and (at most) the delay itself: never longer than
  \<open>backoffMax\<close>, and it never panics.\<close>

theorem backoff_bounds:
  assumes "1 \<le> attempts" and "0 < sint base" and "0 < sint maxDelay" and "sint base < 2 ^ 53"
    and "\<And>n. 0 < n \<Longrightarrow> 0 \<le> rnd n \<and> rnd n < n"
  shows "\<exists>w. computeBackoff base maxDelay rnd attempts = Some w
    \<and> (let d = min (sint base * 2 ^ nat (min attempts 10)) (sint maxDelay) in d div 2 \<le> sint w \<and> sint w \<le> d)"
proof -
  define e where "e = nat (min attempts 10)"
  define sh where "sh = push_bit e base"
  define d where "d = (if sint sh \<le> 0 \<or> sint sh > sint maxDelay then maxDelay else sh)"
  define half :: i64 where "half = word_of_int (sgn (sint d) * (\<bar>sint d\<bar> div 2))"
  have "(2 :: int) ^ e \<le> 2 ^ 10" by (intro power_increasing) (simp_all add: e_def)
  then have "sint base * 2 ^ e \<le> (2 ^ 53 - 1) * 2 ^ 10" using assms(2,4) by (intro mult_mono) simp_all
  then have sh: "sint sh = sint base * 2 ^ e"
    unfolding sh_def using assms(2) by (intro sint_push_bit_small) simp_all
  have d: "sint d = min (sint base * 2 ^ e) (sint maxDelay)" and pos: "0 < sint d"
    using sh assms(2,3) by (auto simp: d_def min_def not_le mult_le_0_iff)
  have max: "sint d < 2 ^ 63" using sint_lt [of d] by simp
  have dv: "sgn (sint d) * (\<bar>sint d\<bar> div 2) = sint d div 2" using pos by simp
  have bound: "0 \<le> sint d div 2" "sint d div 2 + 1 < 2 ^ 63" using pos max by linarith+
  have half: "half = word_of_int (sint d div 2)" by (simp only: half_def dv)
  have half1: "sint (half + 1) = sint d div 2 + 1"
  proof -
    have "half + 1 = word_of_int (sint d div 2 + 1)" by (simp add: half wi_hom_syms)
    then show ?thesis using bound sint_word_of_int_small [of "sint d div 2 + 1"] by simp
  qed
  let ?r = "rnd (sint d div 2 + 1)"
  have r: "0 \<le> ?r" "?r < sint d div 2 + 1" using assms(5) [of "sint d div 2 + 1"] bound(1) by simp_all
  have "half + word_of_int ?r = word_of_int (sint d div 2 + ?r)" by (simp only: half wi_hom_syms)
  moreover have "sint d div 2 + ?r \<le> sint d" using r by linarith
  ultimately have w: "sint (half + word_of_int ?r) = sint d div 2 + ?r"
    using r bound(1) max sint_word_of_int_small [of "sint d div 2 + ?r"] by simp
  have e: "(if attempts > 10 then 10 else attempts) = int e" using assms(1) by (simp add: e_def)
  have "computeBackoff base maxDelay rnd attempts = Some (half + word_of_int ?r)"
    unfolding computeBackoff_def Let_def e nat_int sh_def [symmetric] d_def [symmetric]
      half_def [symmetric] half1
    using bound(1) by simp
  moreover have "sint d div 2 \<le> sint (half + word_of_int ?r) \<and> sint (half + word_of_int ?r) \<le> sint d"
    using r w by linarith
  ultimately show ?thesis using d unfolding e_def Let_def by metis
qed

section \<open>The queue as a transition system\<close>

text \<open>
  A database with its workers: the table, the ID sequence, the dispatches in progress (each
  with its copy of the row), and, as a ghost, how often each job was started. Steps are
  enqueues, polls, ends of dispatches (with the update of the row, or with the update lost
  to a database error), the loss of a worker, and cleanups.
\<close>

record dq =
  dqRows :: "jobRow list"
  dqNextID :: nat
  dqRunning :: "jobRow list"
  dqStarts :: "nat \<Rightarrow> nat"

definition dqInit :: dq where
  "dqInit = \<lparr>dqRows = [], dqNextID = 1, dqRunning = [], dqStarts = (\<lambda>i. 0)\<rparr>"

definition started :: "jobRow list \<Rightarrow> (nat \<Rightarrow> nat) \<Rightarrow> nat \<Rightarrow> nat" where
  "started rs st i = st i + length (filter (\<lambda>r. jrID r = i) rs)"

definition without :: "nat \<Rightarrow> jobRow list \<Rightarrow> jobRow list" where
  "without i rs = filter (\<lambda>r. jrID r \<noteq> i) rs"

inductive dqStep :: "dq \<Rightarrow> dq \<Rightarrow> bool" where
  Enqueue: "dqStep s (s\<lparr>dqRows := dqRows s @ [newRow (dqNextID s) now e], dqNextID := Suc (dqNextID s)\<rparr>)"
| Poll: "poll batchSize locked fault worker queues now (dqRows s) = (rs, rows') \<Longrightarrow>
    dqStep s (s\<lparr>dqRows := rows', dqRunning := dqRunning s @ rs, dqStarts := started rs (dqStarts s)\<rparr>)"
| Succeed: "q \<in> set (dqRunning s) \<Longrightarrow>
    dqStep s (s\<lparr>dqRows := finish q now (dqRows s), dqRunning := without (jrID q) (dqRunning s)\<rparr>)"
| Fail: "q \<in> set (dqRunning s) \<Longrightarrow>
    dqStep s (s\<lparr>dqRows := fail backoff q err now (dqRows s), dqRunning := without (jrID q) (dqRunning s)\<rparr>)"
| Lost: "q \<in> set (dqRunning s) \<Longrightarrow> dqStep s (s\<lparr>dqRunning := without (jrID q) (dqRunning s)\<rparr>)"
| Crash: "dqStep s (s\<lparr>dqRunning := filter (\<lambda>q. jrLockedBy q \<noteq> worker) (dqRunning s)\<rparr>)"
| Cleanup: "dqStep s (s\<lparr>dqRows := cleanup retention batch now (dqRows s)\<rparr>)"

inductive_cases dqStepE: "dqStep s s'"

inductive dqReach :: "dq \<Rightarrow> bool" where
  Init: "dqReach dqInit"
| Step: "dqReach s \<Longrightarrow> dqStep s s' \<Longrightarrow> dqReach s'"

text \<open>What holds of a row started \<open>n\<close> times.\<close>

definition rowOk :: "nat \<Rightarrow> jobRow \<Rightarrow> bool" where
  "rowOk n r \<longleftrightarrow> 0 \<le> jrAttempts r
     \<and> int n \<le> jrAttempts r + (if jrState r = Executing \<or> jrState r = Finished then 1 else 0)
     \<and> (if jrState r = Failed then jrAttempts r \<le> max 1 (jrMaxAttempts r)
        else jrAttempts r = 0 \<or> jrAttempts r < jrMaxAttempts r)"

definition core :: "nat \<Rightarrow> jobRow list \<Rightarrow> jobRow list \<Rightarrow> (nat \<Rightarrow> nat) \<Rightarrow> bool" where
  "core nid rows run st \<longleftrightarrow>
     distinct (map jrID rows) \<and> (\<forall>r\<in>set rows. jrID r < nid \<and> rowOk (st (jrID r)) r)
     \<and> distinct (map jrID run) \<and> (\<forall>q\<in>set run. q \<in> set rows \<and> jrState q = Executing)
     \<and> (\<forall>i\<ge>nid. st i = 0)"

definition dqInv :: "dq \<Rightarrow> bool" where
  "dqInv s \<longleftrightarrow> core (dqNextID s) (dqRows s) (dqRunning s) (dqStarts s)"

lemma rowOk_less: "rowOk n r \<Longrightarrow> m \<le> n \<Longrightarrow> rowOk m r"
  by (auto simp: rowOk_def)

lemma core_weaken:
  assumes "core nid rows run st" and "set run' \<subseteq> set run" and "distinct (map jrID run')" and "\<And>i. st' i \<le> st i"
  shows "core nid rows run' st'"
proof -
  have "rowOk (st' i) r" if "rowOk (st i) r" for i r using that assms(4) [of i] by (rule rowOk_less)
  moreover have "st' i = 0" if "st i = 0" for i using assms(4) [of i] that by simp
  ultimately show ?thesis using assms by (auto simp: core_def)
qed

lemma without_distinct: "distinct (map jrID rs) \<Longrightarrow> distinct (map jrID (without i rs))"
  by (simp add: without_def distinct_map_filter)

lemma updateRow_ids: "(\<And>r. jrID (f r) = jrID r) \<Longrightarrow> map jrID (updateRow i f rows) = map jrID rows"
  by (auto simp: updateRow_def)

lemma updateRow_set: "r \<in> set (updateRow i f rows) \<longleftrightarrow>
    (r \<in> set rows \<and> jrID r \<noteq> i) \<or> (\<exists>r0\<in>set rows. jrID r0 = i \<and> r = f r0)"
  by (auto simp: updateRow_def image_iff)

lemma core_update:
  assumes "core nid rows run st" and "\<And>r. jrID (f r) = jrID r"
    and "\<And>r. r \<in> set rows \<Longrightarrow> jrID r = i \<Longrightarrow> rowOk (st' i) (f r)" and "\<And>j. j \<noteq> i \<Longrightarrow> st' j = st j"
    and "i < nid"
  shows "core nid (updateRow i f rows) (without i run) st'"
  unfolding core_def
proof (intro conjI ballI allI impI)
  note c = assms(1) [unfolded core_def]
  show "distinct (map jrID (updateRow i f rows))" using c by (simp add: updateRow_ids assms(2))
  show "distinct (map jrID (without i run))" using c by (simp add: without_distinct)
  fix r assume "r \<in> set (updateRow i f rows)"
  then show "jrID r < nid" "rowOk (st' (jrID r)) r"
    using c assms(2-4) by (auto simp: updateRow_set)
next
  note c = assms(1) [unfolded core_def]
  fix q assume "q \<in> set (without i run)"
  then show "q \<in> set (updateRow i f rows)" "jrState q = Executing"
    using c by (auto simp: updateRow_set without_def)
next
  fix j assume "nid \<le> j"
  then show "st' j = 0" using assms(1,4,5) by (auto simp: core_def)
qed

lemma claimCandidate_Some:
  "claimCandidate locked queues now rows = Some r \<Longrightarrow>
     r \<in> set rows \<and> claimable queues now rows r \<and> jrID r \<notin> locked"
  unfolding claimCandidate_def
  by (auto split: list.splits) (metis (mono_tags, lifting) list.set_intros(1) mem_Collect_eq set_filter set_sort)+

lemma claimOne_Some:
  "claimOne locked worker queues now rows = (Some q, rows1) \<Longrightarrow>
     \<exists>r\<in>set rows. claimable queues now rows r \<and> jrID r \<notin> locked \<and> q = claimMark worker now r
       \<and> rows1 = updateRow (jrID r) (claimMark worker now) rows"
  by (auto simp: claimOne_def split: option.splits dest!: claimCandidate_Some)

lemma claimOne_None: "claimOne locked worker queues now rows = (None, rows1) \<Longrightarrow> rows1 = rows"
  by (auto simp: claimOne_def split: option.splits)

lemma claimMark_id [simp]: "jrID (claimMark worker now r) = jrID r" "jrState (claimMark worker now r) = Executing"
  by (simp_all add: claimMark_def)

lemma core_claimOne:
  assumes "core nid rows run st" and "claimOne locked worker queues now rows = (Some q, rows1)"
  shows "core nid rows1 (run @ [q]) (started [q] st)"
proof -
  obtain r where r: "r \<in> set rows" "claimable queues now rows r" "q = claimMark worker now r"
    "rows1 = updateRow (jrID r) (claimMark worker now) rows"
    using claimOne_Some [OF assms(2)] by blast
  have av: "jrState r = Available" using r(2) by (simp add: claimable_def)
  note c = assms(1) [unfolded core_def]
  have uniq: "r' = r" if "r' \<in> set rows" "jrID r' = jrID r" for r'
    using c r(1) that by (metis (no_types, lifting) distinct_map inj_on_def)
  have "jrID r \<notin> jrID ` set run" using c uniq av by force
  then have w: "without (jrID r) run = run" "jrID q \<notin> jrID ` set run"
    using r(3) unfolding without_def filter_id_conv by (metis image_eqI, simp)
  have "core nid rows1 (without (jrID r) run) (started [q] st)"
    unfolding r(4)
  proof (rule core_update [OF assms(1)])
    show "rowOk (started [q] st (jrID r)) (claimMark worker now r')" if "r' \<in> set rows" "jrID r' = jrID r" for r'
      using c uniq [OF that] that av r(3) by (auto simp: rowOk_def started_def claimMark_def)
  qed (use r c in \<open>auto simp: started_def\<close>)
  moreover have "q \<in> set rows1" unfolding r(4) updateRow_set using r(1,3) by blast
  ultimately show ?thesis using w r(3) by (auto simp: core_def)
qed

lemma started_nil [simp]: "started [] st = st"
  by (simp add: started_def fun_eq_iff)

lemma core_claimFrom:
  "core nid rows run st \<Longrightarrow> claimFrom n j locked fault worker queues now rows = (rs, err, rows') \<Longrightarrow>
     core nid rows' (run @ rs) (started rs st)"
proof (induction n j locked fault worker queues now rows arbitrary: run st rs err rows' rule: claimFrom.induct)
  case (2 n j locked fault worker queues now rows)
  show ?case
  proof (cases "fault j")
    case True
    then show ?thesis using 2 started_nil by simp
  next
    case False
    obtain c rows1 where c: "claimOne (locked j) worker queues now rows = (c, rows1)"
      by (cases "claimOne (locked j) worker queues now rows")
    show ?thesis
    proof (cases c)
      case None
      then show ?thesis using 2 False c started_nil claimOne_None by fastforce
    next
      case (Some q)
      obtain rs1 err1 rows2 where f: "claimFrom n (Suc j) locked fault worker queues now rows1 = (rs1, err1, rows2)"
        using prod_cases3 by blast
      have q: "core nid rows1 (run @ [q]) (started [q] st)"
        using core_claimOne 2(2) c Some by blast
      have "core nid rows2 ((run @ [q]) @ rs1) (started rs1 (started [q] st))"
        by (rule 2(1) [OF False c [symmetric] Some q f])
      moreover have "started rs1 (started [q] st) = started (q # rs1) st"
        by (auto simp: started_def fun_eq_iff)
      ultimately show ?thesis using 2(3) False c Some f by simp
    qed
  qed
qed (simp add: started_nil)

lemma core_poll:
  assumes "core nid rows run st" and "poll n locked fault worker queues now rows = (rs, rows')"
  shows "core nid rows' (run @ rs) (started rs st)"
proof -
  obtain cl err rows1 where f: "claimFrom n 0 locked fault worker queues now rows = (cl, err, rows1)"
    using prod_cases3 by blast
  note c = core_claimFrom [OF assms(1) f]
  have rows': "rows' = rows1" "rs = (if err then [] else cl)" using assms(2) f by (simp_all add: poll_def)
  show ?thesis
  proof (cases err)
    case True
    have "core nid rows1 run st"
    proof (rule core_weaken [OF c])
      show "distinct (map jrID run)" using assms(1) by (simp add: core_def)
    qed (auto simp: started_def)
    then show ?thesis using True rows' by simp
  qed (use c rows' in simp)
qed

lemma core_filter_rows:
  assumes "core nid rows run st" and "\<And>r. r \<in> set rows \<Longrightarrow> jrState r = Executing \<Longrightarrow> P r"
  shows "core nid (filter P rows) run st"
  using assms by (auto simp: core_def distinct_map_filter)

lemma cleanup_keeps:
  assumes "distinct (map jrID rows)" and "r \<in> set rows" and "jrState r \<noteq> Finished"
  shows "r \<in> set (cleanup retention batch now rows)"
proof -
  let ?old = "filter (\<lambda>r. jrState r = Finished \<and> jrFinishedAt r \<le> now - retention) rows"
  have "set (take batch (sort_key jrFinishedAt ?old)) \<subseteq> {q \<in> set rows. jrState q = Finished}"
    using set_take_subset [of batch "sort_key jrFinishedAt ?old"] by auto
  then have "jrID r \<notin> jrID ` set (take batch (sort_key jrFinishedAt ?old))"
    using assms by (auto simp: distinct_map dest!: inj_onD)
  with assms(2) show ?thesis by (simp add: cleanup_def Let_def)
qed

lemma core_cleanup:
  assumes "core nid rows run st"
  shows "core nid (cleanup retention batch now rows) run st"
proof -
  have d: "distinct (map jrID rows)" using assms by (simp add: core_def)
  obtain P where P: "cleanup retention batch now rows = filter P rows"
    by (simp add: cleanup_def Let_def)
  show ?thesis
    unfolding P
  proof (rule core_filter_rows [OF assms])
    show "P r" if "r \<in> set rows" "jrState r = Executing" for r
      using cleanup_keeps [OF d that(1), of retention batch now] that(2) by (simp add: P)
  qed
qed

lemma core_end:
  assumes "core nid rows run st" and "q \<in> set run" and "\<And>r. jrID (f r) = jrID r"
    and "\<And>n. rowOk n q \<Longrightarrow> rowOk n (f q)"
  shows "core nid (updateRow (jrID q) f rows) (without (jrID q) run) st"
proof (rule core_update [OF assms(1,3)])
  note c = assms(1) [unfolded core_def]
  have q: "q \<in> set rows" using c assms(2) by blast
  show "rowOk (st (jrID q)) (f r)" if "r \<in> set rows" "jrID r = jrID q" for r
  proof -
    have "r = q" using c q that by (metis (no_types, lifting) distinct_map inj_on_def)
    then show ?thesis using assms(4) c q by blast
  qed
  show "jrID q < nid" using c q by blast
qed simp

lemma dqInv_step:
  assumes "dqInv s" and "dqStep s s'"
  shows "dqInv s'"
  using assms(2)
proof cases
  case (Enqueue now e)
  then show ?thesis using assms(1)
    by (auto simp: dqInv_def core_def newRow_def rowOk_def DefaultMaxAttempts_def less_Suc_eq)
next
  case (Poll batchSize locked fault worker queues now rs rows')
  then show ?thesis using assms(1) core_poll by (simp add: dqInv_def)
next
  case (Succeed q now)
  have "jrState q = Executing" using assms(1) Succeed(2) by (auto simp: dqInv_def core_def)
  then have "core (dqNextID s) (finish q now (dqRows s)) (without (jrID q) (dqRunning s)) (dqStarts s)"
    unfolding finish_def using assms(1) Succeed(2)
    by (intro core_end) (auto simp: dqInv_def rowOk_def)
  then show ?thesis using Succeed(1) by (simp add: dqInv_def)
next
  case (Fail q backoff err now)
  have "jrState q = Executing" using assms(1) Fail(2) by (auto simp: dqInv_def core_def)
  then have "core (dqNextID s) (fail backoff q err now (dqRows s)) (without (jrID q) (dqRunning s)) (dqStarts s)"
    unfolding fail_def Let_def using assms(1) Fail(2)
    by (intro core_end) (auto simp: dqInv_def rowOk_def)
  then show ?thesis using Fail(1) by (simp add: dqInv_def)
next
  case (Lost q)
  then show ?thesis using assms(1)
    by (auto simp: dqInv_def without_def distinct_map_filter core_def)
next
  case (Crash worker)
  then show ?thesis using assms(1)
    by (auto simp: dqInv_def distinct_map_filter core_def)
next
  case (Cleanup retention batch now)
  then show ?thesis using assms(1) core_cleanup by (simp add: dqInv_def)
qed

lemma dqReach_inv: "dqReach s \<Longrightarrow> dqInv s"
proof (induction rule: dqReach.induct)
  case Init
  then show ?case by (simp add: dqInv_def core_def dqInit_def)
next
  case (Step s s')
  then show ?case using dqInv_step by blast
qed

text \<open>C6: In every reachable state of a queue, with any number of workers, engine faults, lost
  updates and crashes: no row is being dispatched twice at a time, every dispatch in progress
  holds its row's current contents in state executing, and no job still in the table has been
  started more often than its MaxAttempts (at least once).\<close>

theorem dispatch_exclusive:
  assumes "dqReach s"
  shows "distinct (map jrID (dqRunning s))
    \<and> (\<forall>q\<in>set (dqRunning s). q \<in> set (dqRows s) \<and> jrState q = Executing)
    \<and> (\<forall>r\<in>set (dqRows s). int (dqStarts s (jrID r)) \<le> max 1 (jrMaxAttempts r))"
proof (intro conjI ballI)
  note c = dqReach_inv [OF assms, unfolded dqInv_def core_def]
  show "distinct (map jrID (dqRunning s))" using c by blast
  fix q assume "q \<in> set (dqRunning s)"
  then show "q \<in> set (dqRows s)" "jrState q = Executing" using c by blast+
next
  note c = dqReach_inv [OF assms, unfolded dqInv_def core_def]
  fix r assume "r \<in> set (dqRows s)"
  then have "rowOk (dqStarts s (jrID r)) r" using c by blast
  then show "int (dqStarts s (jrID r)) \<le> max 1 (jrMaxAttempts r)"
    by (auto simp: rowOk_def split: if_splits)
qed

definition orphan :: "jobRow \<Rightarrow> dq \<Rightarrow> bool" where
  "orphan r s \<longleftrightarrow> r \<in> set (dqRows s) \<and> jrState r = Executing \<and> jrID r \<notin> jrID ` set (dqRunning s)"

lemma claimFrom_other:
  "claimFrom n j locked fault worker queues now rows = (rs, err, rows') \<Longrightarrow> r \<in> set rows \<Longrightarrow>
     jrState r = Executing \<Longrightarrow> distinct (map jrID rows) \<Longrightarrow> r \<in> set rows' \<and> jrID r \<notin> jrID ` set rs"
proof (induction n j locked fault worker queues now rows arbitrary: rs err rows' rule: claimFrom.induct)
  case (2 n j locked fault worker queues now rows)
  obtain c rows1 where c: "claimOne (locked j) worker queues now rows = (c, rows1)"
    by (cases "claimOne (locked j) worker queues now rows")
  show ?case
  proof (cases "fault j \<or> c = None")
    case True
    then have "rs = [] \<and> rows' = rows" using 2(2) c by (cases "fault j") (auto dest: claimOne_None)
    then show ?thesis using 2(3) by simp
  next
    case False
    then obtain q where q: "c = Some q" by blast
    obtain rs1 err1 rows2 where f: "claimFrom n (Suc j) locked fault worker queues now rows1 = (rs1, err1, rows2)"
      using prod_cases3 by blast
    obtain r0 where r0: "r0 \<in> set rows" "claimable queues now rows r0" "q = claimMark worker now r0"
      "rows1 = updateRow (jrID r0) (claimMark worker now) rows"
      using claimOne_Some c q by blast
    then have "r \<noteq> r0" using 2(4) by (auto simp: claimable_def)
    then have ne: "jrID r \<noteq> jrID r0"
      using 2(3,5) r0(1) by (metis (no_types, lifting) distinct_map inj_on_def)
    then have "r \<in> set rows1" "distinct (map jrID rows1)"
      using 2(3,5) r0(4) by (simp_all add: updateRow_set updateRow_ids)
    then have "r \<in> set rows2 \<and> jrID r \<notin> jrID ` set rs1"
      using 2(1) [OF _ c [symmetric] q f _ 2(4)] False by blast
    then show ?thesis using 2(2) False c q f ne r0(3) by auto
  qed
qed auto

lemma orphan_step:
  assumes "dqInv s" and "orphan r s" and "dqStep s s'"
  shows "orphan r s'"
  using assms(3)
proof cases
  case (Poll batchSize locked fault worker queues now rs rows')
  obtain cl err rows1 where f: "claimFrom batchSize 0 locked fault worker queues now (dqRows s) = (cl, err, rows1)"
    using prod_cases3 by blast
  have "r \<in> set rows1 \<and> jrID r \<notin> jrID ` set cl"
    using claimFrom_other [OF f] assms(1,2) by (simp add: orphan_def dqInv_def core_def)
  then show ?thesis using Poll f assms(2) by (cases err) (auto simp: poll_def orphan_def)
next
  case (Cleanup retention batch now)
  then show ?thesis
    using assms(1,2) cleanup_keeps [of "dqRows s" r retention batch now]
    by (simp add: orphan_def dqInv_def core_def)
qed (use assms(2) in \<open>auto simp: orphan_def without_def finish_def fail_def updateRow_set Let_def\<close>)

text \<open>Nothing recovers a row that is executing without being dispatched (its worker
  crashed, its final update failed, or its poll hit an error after claiming it): no step of
  any worker ever changes it, so the job is neither retried nor finished, and its row is
  never cleaned up.\<close>

theorem orphan_never_recovered:
  assumes "dqReach s" and "orphan r s" and "dqStep\<^sup>*\<^sup>* s s'"
  shows "orphan r s'"
proof -
  have "dqInv s' \<and> orphan r s'"
    using assms(3)
  proof (induction rule: rtranclp_induct)
    case base
    then show ?case using dqReach_inv assms by blast
  next
    case (step y z)
    then show ?case using dqInv_step orphan_step by blast
  qed
  then show ?thesis by blast
qed

section \<open>The concurrency limit\<close>

text \<open>Rows of one key agree on its limit and duration, as rows of one kind do.\<close>

definition uniformKeys :: "jobRow list \<Rightarrow> bool" where
  "uniformKeys rows \<longleftrightarrow> (\<forall>r\<in>set rows. \<forall>q\<in>set rows. jrConcurrencyKey r = jrConcurrencyKey q \<longrightarrow>
     jrConcurrencyLimit r = jrConcurrencyLimit q \<and> jrConcurrencyDuration r = jrConcurrencyDuration q)"

definition underLimit :: "int \<Rightarrow> jobRow list \<Rightarrow> jobRow list \<Rightarrow> jobRow \<Rightarrow> bool" where
  "underLimit now before after r \<longleftrightarrow>
     int (activeCount now r after) \<le> max (int (activeCount now r before)) (jrConcurrencyLimit r)"

lemma updateRow_count:
  assumes "distinct (map jrID rows)" and "r0 \<in> set rows" and "\<not> P r0"
  shows "length (filter P (updateRow (jrID r0) f rows)) =
    length (filter P rows) + (if P (f r0) then 1 else 0)"
proof -
  obtain xs ys where rows: "rows = xs @ r0 # ys" using assms(2) by (meson split_list)
  have "map (\<lambda>r. if jrID r = jrID r0 then f r else r) zs = zs" if "jrID r0 \<notin> jrID ` set zs" for zs
    using that by (intro map_idI) (metis image_eqI)
  then show ?thesis using assms(1,3) by (simp add: rows updateRow_def)
qed

lemma activeCount_cong:
  "jrConcurrencyKey r = jrConcurrencyKey q \<Longrightarrow> jrConcurrencyDuration r = jrConcurrencyDuration q \<Longrightarrow>
     activeCount now r rows = activeCount now q rows"
  by (simp add: activeCount_def)

lemma activeCount_claim:
  assumes "distinct (map jrID rows)" and "r0 \<in> set rows" and "jrState r0 = Available"
  shows "activeCount now r (updateRow (jrID r0) (claimMark worker now) rows) \<le>
    activeCount now r rows + (if jrConcurrencyKey r0 = jrConcurrencyKey r then 1 else 0)"
  unfolding activeCount_def using assms by (subst updateRow_count) (simp_all add: claimMark_def)

lemma underLimit_claimOne:
  assumes "distinct (map jrID rows)" and "uniformKeys rows"
    and "claimOne locked worker queues now rows = (Some q, rows1)"
    and "r \<in> set rows" and "jrConcurrencyKey r \<noteq> []"
  shows "underLimit now rows rows1 r"
proof -
  obtain r0 where r0: "r0 \<in> set rows" "claimable queues now rows r0"
    "rows1 = updateRow (jrID r0) (claimMark worker now) rows"
    using claimOne_Some [OF assms(3)] by blast
  note le = activeCount_claim [OF assms(1) r0(1), of now r worker]
  show ?thesis
  proof (cases "jrConcurrencyKey r0 = jrConcurrencyKey r")
    case True
    then have same: "jrConcurrencyLimit r0 = jrConcurrencyLimit r \<and> jrConcurrencyDuration r0 = jrConcurrencyDuration r"
      using assms(2,4) r0(1) unfolding uniformKeys_def by blast
    then have "activeCount now r0 rows = activeCount now r rows" using True by (intro activeCount_cong) simp_all
    with same show ?thesis
      using le r0(2,3) True assms(5) by (simp add: underLimit_def claimable_def concurrencyGuard_def)
  next
    case False
    then show ?thesis using le r0(2,3) by (simp add: underLimit_def claimable_def)
  qed
qed

lemma underLimit_trans: "underLimit now a b r \<Longrightarrow> underLimit now b c r \<Longrightarrow> underLimit now a c r"
  by (simp add: underLimit_def max_def split: if_splits)

text \<open>A claim changes none of the columns the guard compares.\<close>

lemma claimOne_columns:
  assumes "claimOne locked worker queues now rows = (Some q, rows1)" and "r1 \<in> set rows1"
  obtains r where "r \<in> set rows" and "jrConcurrencyKey r1 = jrConcurrencyKey r"
    and "jrConcurrencyLimit r1 = jrConcurrencyLimit r" and "jrConcurrencyDuration r1 = jrConcurrencyDuration r"
  using claimOne_Some [OF assms(1)] assms(2) that by (auto simp: updateRow_set claimMark_def)

lemma claimOne_uniform:
  assumes "claimOne locked worker queues now rows = (Some q, rows1)" and "uniformKeys rows"
  shows "uniformKeys rows1"
  unfolding uniformKeys_def
proof (intro ballI impI)
  fix r1 q1 assume r1: "r1 \<in> set rows1" and q1: "q1 \<in> set rows1"
    and k: "jrConcurrencyKey r1 = jrConcurrencyKey q1"
  obtain r where "r \<in> set rows" "jrConcurrencyKey r1 = jrConcurrencyKey r"
    "jrConcurrencyLimit r1 = jrConcurrencyLimit r" "jrConcurrencyDuration r1 = jrConcurrencyDuration r"
    using claimOne_columns [OF assms(1) r1] .
  moreover obtain q where "q \<in> set rows" "jrConcurrencyKey q1 = jrConcurrencyKey q"
    "jrConcurrencyLimit q1 = jrConcurrencyLimit q" "jrConcurrencyDuration q1 = jrConcurrencyDuration q"
    using claimOne_columns [OF assms(1) q1] .
  ultimately show "jrConcurrencyLimit r1 = jrConcurrencyLimit q1 \<and>
      jrConcurrencyDuration r1 = jrConcurrencyDuration q1"
    using assms(2) k unfolding uniformKeys_def by metis
qed

lemma underLimit_cong:
  "jrConcurrencyKey r = jrConcurrencyKey q \<Longrightarrow> jrConcurrencyLimit r = jrConcurrencyLimit q \<Longrightarrow>
     jrConcurrencyDuration r = jrConcurrencyDuration q \<Longrightarrow> underLimit now a b r \<longleftrightarrow> underLimit now a b q"
  by (simp add: underLimit_def activeCount_cong [of r q])

lemma claimOne_keeps_columns:
  assumes "claimOne locked worker queues now rows = (Some q, rows1)" and "r \<in> set rows"
  obtains r1 where "r1 \<in> set rows1" and "jrConcurrencyKey r1 = jrConcurrencyKey r"
    and "jrConcurrencyLimit r1 = jrConcurrencyLimit r" and "jrConcurrencyDuration r1 = jrConcurrencyDuration r"
proof -
  obtain r0 :: jobRow where "rows1 = updateRow (jrID r0) (claimMark worker now) rows"
    using claimOne_Some [OF assms(1)] by blast
  then have "(if jrID r = jrID r0 then claimMark worker now r else r) \<in> set rows1"
    using assms(2) by (auto simp: updateRow_def)
  then show thesis by (rule that) (simp_all add: claimMark_def)
qed

lemma underLimit_claimFrom:
  "claimFrom n j locked fault worker queues now rows = (rs, err, rows') \<Longrightarrow> distinct (map jrID rows) \<Longrightarrow>
     uniformKeys rows \<Longrightarrow> r \<in> set rows \<Longrightarrow> jrConcurrencyKey r \<noteq> [] \<Longrightarrow> underLimit now rows rows' r"
proof (induction n j locked fault worker queues now rows arbitrary: r rs err rows' rule: claimFrom.induct)
  case (2 n j locked fault worker queues now rows)
  obtain c rows1 where c: "claimOne (locked j) worker queues now rows = (c, rows1)"
    by (cases "claimOne (locked j) worker queues now rows")
  show ?case
  proof (cases "fault j \<or> c = None")
    case True
    then have "rows' = rows" using 2(2) c by (cases "fault j") (auto dest: claimOne_None)
    then show ?thesis by (simp add: underLimit_def)
  next
    case False
    then obtain q where q: "c = Some q" by blast
    obtain rs1 err1 rows2 where f: "claimFrom n (Suc j) locked fault worker queues now rows1 = (rs1, err1, rows2)"
      using prod_cases3 by blast
    have rows': "rows' = rows2" using 2(2) False c q f by simp
    note one = c [unfolded q]
    have first: "underLimit now rows rows1 r" using underLimit_claimOne [OF 2(3,4) one 2(5,6)] .
    obtain r1 where r1: "r1 \<in> set rows1" "jrConcurrencyKey r1 = jrConcurrencyKey r"
      "jrConcurrencyLimit r1 = jrConcurrencyLimit r" "jrConcurrencyDuration r1 = jrConcurrencyDuration r"
      using claimOne_keeps_columns [OF one 2(5)] .
    have "distinct (map jrID rows1)"
      using claimOne_Some [OF one] 2(3) by (auto simp: updateRow_ids)
    then have "underLimit now rows1 rows2 r1"
      using 2(1) [OF _ c [symmetric] q f _ claimOne_uniform [OF one 2(4)] r1(1)] False 2(6) r1(2) by simp
    then show ?thesis using first underLimit_trans underLimit_cong [OF r1(2-4)] rows' by blast
  qed
qed (simp add: underLimit_def)

text \<open>A poll never takes a concurrency key over its limit, however many rows it claims: of every
  key, at most as many rows are executing (and locked within the key's duration) after it as
  the limit allows, or as already were before.\<close>

theorem poll_respects_limit:
  assumes "distinct (map jrID rows)" and "uniformKeys rows"
    and "poll batchSize locked fault worker queues now rows = (rs, rows')"
    and "r \<in> set rows" and "jrConcurrencyKey r \<noteq> []"
  shows "int (activeCount now r rows') \<le> max (int (activeCount now r rows)) (jrConcurrencyLimit r)"
  using underLimit_claimFrom assms unfolding poll_def underLimit_def
  by (auto split: prod.splits)

section \<open>The guard between transactions\<close>

text \<open>
  \<open>claimOneLocking\<close> selects its candidate and marks it in one transaction, but under the isolation
  level the code asks for (the engine's default) the count in the guard does not see the
  uncommitted claims of others. Two workers that both select before either commits:
\<close>

definition claimTwice ::
    "string \<Rightarrow> string \<Rightarrow> string list \<Rightarrow> int \<Rightarrow> jobRow list \<Rightarrow> jobRow list" where
  "claimTwice worker1 worker2 queues now rows =
     (case claimCandidate {} queues now rows of
        None \<Rightarrow> rows
      | Some r1 \<Rightarrow>
          (let rows1 = updateRow (jrID r1) (claimMark worker1 now) rows in
           case claimCandidate {jrID r1} queues now rows of
             None \<Rightarrow> rows1
           | Some r2 \<Rightarrow> updateRow (jrID r2) (claimMark worker2 now) rows1))"

definition sampleEnqueued :: enqueued where
  "sampleEnqueued =
     \<lparr> eqKind = ''send_receipt'', eqArgs = ''{}'', eqQueue = [], eqScheduledAt = None, eqMaxAttempts = 3,
       eqConcurrencyKey = ''account-1'', eqConcurrencyLimit = 1, eqConcurrencyDuration = 60000000000 \<rparr>"

definition sampleRow :: jobRow where
  "sampleRow = newRow 1 1000 sampleEnqueued"

text \<open>The row lock does not serialise the concurrency guard: two jobs of one key with limit 1
  are both taken by workers whose claims overlap, while claims one after the other take only
  one.\<close>

theorem guard_race:
  "let rows = [newRow 1 1000 sampleEnqueued, newRow 2 1001 sampleEnqueued] in
     activeCount 2000 sampleRow (claimTwice ''a:1'' ''b:1'' [''default''] 2000 rows) = 2
     \<and> jrConcurrencyLimit sampleRow = 1
     \<and> activeCount 2000 sampleRow
         (snd (claimOne {} ''b:1'' [''default''] 2000
           (snd (claimOne {} ''a:1'' [''default''] 2000 rows)))) = 1"
  by code_simp

section \<open>Instances\<close>

text \<open>One job, claimed by a worker whose poll then meets an engine error.\<close>

definition sampleQueued :: dq where
  "sampleQueued = \<lparr>dqRows = [sampleRow], dqNextID = 2, dqRunning = [], dqStarts = (\<lambda>i. 0)\<rparr>"

definition sampleRunning :: dq where
  "sampleRunning = \<lparr>dqRows = [claimMark ''a:1'' 2000 sampleRow], dqNextID = 2,
     dqRunning = [claimMark ''a:1'' 2000 sampleRow], dqStarts = started [claimMark ''a:1'' 2000 sampleRow] (\<lambda>i. 0)\<rparr>"

definition sampleOrphaned :: dq where
  "sampleOrphaned = \<lparr>dqRows = [claimMark ''a:1'' 2000 sampleRow], dqNextID = 2, dqRunning = [], dqStarts = (\<lambda>i. 0)\<rparr>"

lemma sample_polls:
  "poll 1 (\<lambda>j. {}) (\<lambda>j. False) ''a:1'' [''default''] 2000 [sampleRow] =
     ([claimMark ''a:1'' 2000 sampleRow], [claimMark ''a:1'' 2000 sampleRow])"
  "poll 2 (\<lambda>j. {}) (\<lambda>j. j = 1) ''a:1'' [''default''] 2000 [sampleRow] = ([], [claimMark ''a:1'' 2000 sampleRow])"
  by code_simp+

lemma sampleQueued_rows: "dqRows sampleQueued = [sampleRow]"
  by (simp add: sampleQueued_def)

lemma sampleQueued_reach: "dqReach sampleQueued"
  using dqReach.Step [OF Init dqStep.Enqueue [of dqInit 1000 sampleEnqueued]]
  by (simp add: sampleQueued_def dqInit_def sampleRow_def numeral_2_eq_2)

lemma sampleRunning_reach: "dqReach sampleRunning"
  using dqReach.Step [OF sampleQueued_reach
      dqStep.Poll [OF sample_polls(1) [folded sampleQueued_rows]]]
  by (simp add: sampleQueued_def sampleRunning_def)

lemma sampleOrphaned_reach: "dqReach sampleOrphaned"
  using dqReach.Step [OF sampleQueued_reach dqStep.Poll [OF sample_polls(2) [folded sampleQueued_rows]]]
  by (simp add: sampleQueued_def sampleOrphaned_def)

lemma dispatch_exclusive_witness:
  "distinct (map jrID (dqRunning sampleRunning))
    \<and> list_all (\<lambda>q. q \<in> set (dqRows sampleRunning) \<and> jrState q = Executing) (dqRunning sampleRunning)
    \<and> list_all (\<lambda>r. int (dqStarts sampleRunning (jrID r)) \<le> max 1 (jrMaxAttempts r)) (dqRows sampleRunning)"
  unfolding list_all_iff by (rule dispatch_exclusive [OF sampleRunning_reach])

lemma orphan_never_recovered_witness:
  "orphan (claimMark ''a:1'' 2000 sampleRow)
     (sampleOrphaned\<lparr>dqRows := cleanup 0 500 9000 [claimMark ''a:1'' 2000 sampleRow]\<rparr>)"
proof (rule orphan_never_recovered [OF sampleOrphaned_reach])
  show "orphan (claimMark ''a:1'' 2000 sampleRow) sampleOrphaned"
    by (simp add: orphan_def sampleOrphaned_def)
  show "dqStep\<^sup>*\<^sup>* sampleOrphaned
      (sampleOrphaned\<lparr>dqRows := cleanup 0 500 9000 [claimMark ''a:1'' 2000 sampleRow]\<rparr>)"
    using dqStep.Cleanup [of sampleOrphaned 0 500 9000] by (auto simp: sampleOrphaned_def)
qed

lemma backoff_bounds_witness:
  "\<exists>w. computeBackoff 5000000000 1800000000000 (\<lambda>n. n - 1) 3 = Some w
    \<and> (let d = min (sint (5000000000 :: i64) * 2 ^ nat (min 3 10)) (sint (1800000000000 :: i64))
       in d div 2 \<le> sint w \<and> sint w \<le> d)"
  by (rule backoff_bounds) simp_all

lemma poll_respects_limit_witness:
  "int (activeCount 2000 sampleRow [claimMark ''a:1'' 2000 sampleRow])
    \<le> max (int (activeCount 2000 sampleRow [sampleRow])) (jrConcurrencyLimit sampleRow)"
  by (rule poll_respects_limit [OF _ _ sample_polls(1)])
    (simp_all add: uniformKeys_def sampleRow_def newRow_def sampleEnqueued_def)

end
