(* ===== verification/Http.thy ===== *)
theory Http
  imports Prelude "HOL-Library.AList"
begin

text \<open>
  The request context and the router (\<open>context.go\<close>, \<open>router.go\<close>, \<open>group.go\<close>, \<open>errors.go\<close>), with what
  they use of \<open>net/http\<close>: header maps, the response writer that sends its header once, and the
  wrappers other middleware puts around it. A handler is a function on the context that
  returns an error or none; a panic is a third result.
\<close>

section \<open>Headers\<close>

definition isTokenChar :: "char \<Rightarrow> bool" where
  "isTokenChar c \<longleftrightarrow> isDigit c \<or> c \<in> set ''!#$%&*+-.^_`|~'' \<or> of_char c = (39 :: nat)
     \<or> (let n = of_char c :: nat in 65 \<le> n \<and> n \<le> 90 \<or> 97 \<le> n \<and> n \<le> 122)"

definition toUpperChar :: "char \<Rightarrow> char" where
  "toUpperChar c = (let n = (of_char c :: nat) in if 97 \<le> n \<and> n \<le> 122 then char_of (n - 32) else c)"

fun canonicalFrom :: "bool \<Rightarrow> string \<Rightarrow> string" where
  "canonicalFrom up [] = []"
| "canonicalFrom up (c # s) = (if up then toUpperChar c else toLowerChar c) # canonicalFrom (c = CHR ''-'') s"

text \<open>\<open>http.CanonicalHeaderKey\<close>.\<close>

definition canonicalHeaderKey :: "string \<Rightarrow> string" where
  "canonicalHeaderKey k = (if list_all isTokenChar k then canonicalFrom True k else k)"

text \<open>A header map: the values of each canonical key; no values and an absent key are one.\<close>

type_synonym header = "string \<Rightarrow> string list"

definition noHeader :: header where
  "noHeader k = []"

definition headerGet :: "string \<Rightarrow> header \<Rightarrow> string" where
  "headerGet k h = (case h (canonicalHeaderKey k) of [] \<Rightarrow> [] | v # _ \<Rightarrow> v)"

definition headerSet :: "string \<Rightarrow> string \<Rightarrow> header \<Rightarrow> header" where
  "headerSet k v h = h(canonicalHeaderKey k := [v])"

definition headerAdd :: "string \<Rightarrow> string \<Rightarrow> header \<Rightarrow> header" where
  "headerAdd k v h = h(canonicalHeaderKey k := h (canonicalHeaderKey k) @ [v])"

lemma headerGet_Set: "headerGet k (headerSet k' v h) =
    (if canonicalHeaderKey k = canonicalHeaderKey k' then v else headerGet k h)"
  by (simp add: headerGet_def headerSet_def)

lemma headerGet_noHeader [simp]: "headerGet k noHeader = []"
  by (simp add: headerGet_def noHeader_def)

section \<open>Response writers\<close>

text \<open>
  The server's writer keeps the header it sends with the first \<open>WriteHeader\<close> (or \<open>Write\<close>, with
  status 200). Statuses 1xx, which may be sent before the final one, are not used by the
  modelled code. \<open>heap\<close> holds the sessions (see \<open>Session\<close>), which writers and contexts share.
\<close>

record response =
  rsHeader :: header
  rsStatus :: "nat option"
  rsSent :: header
  rsBody :: bytes

definition newResponse :: response where
  "newResponse = \<lparr>rsHeader = noHeader, rsStatus = None, rsSent = noHeader, rsBody = []\<rparr>"

definition respWriteHeader :: "nat \<Rightarrow> response \<Rightarrow> response" where
  "respWriteHeader code r =
     (if rsStatus r = None then r\<lparr>rsStatus := Some code, rsSent := rsHeader r\<rparr> else r)"

definition respWrite :: "bytes \<Rightarrow> response \<Rightarrow> response" where
  "respWrite b r =
     (let r1 = respWriteHeader 200 r in
      if rsStatus r1 = Some 204 \<or> rsStatus r1 = Some 304 then r1 else r1\<lparr>rsBody := rsBody r1 @ b\<rparr>)"

text \<open>What the client gets once the handler has returned.\<close>

definition respFinish :: "response \<Rightarrow> response" where
  "respFinish r = respWriteHeader 200 r"

text \<open>
  The writer of a context: the server's, the buffer of the HTTP cache, or the session
  middleware's wrapper, which runs its \<open>commit\<close> closure on the wrapped writer's header once,
  before the first write.
\<close>

datatype 'heap writer =
    Net response
  | Recorder response
  | CommitWriter bool "'heap \<Rightarrow> header \<Rightarrow> header" "'heap writer"

fun wrHeader :: "'heap writer \<Rightarrow> header" where
  "wrHeader (Net r) = rsHeader r"
| "wrHeader (Recorder r) = rsHeader r"
| "wrHeader (CommitWriter committed commit w) = wrHeader w"

fun wrMapHeader :: "(header \<Rightarrow> header) \<Rightarrow> 'heap writer \<Rightarrow> 'heap writer" where
  "wrMapHeader f (Net r) = Net (r\<lparr>rsHeader := f (rsHeader r)\<rparr>)"
| "wrMapHeader f (Recorder r) = Recorder (r\<lparr>rsHeader := f (rsHeader r)\<rparr>)"
| "wrMapHeader f (CommitWriter committed commit w) = CommitWriter committed commit (wrMapHeader f w)"

definition commitOnce :: "'heap \<Rightarrow> bool \<Rightarrow> ('heap \<Rightarrow> header \<Rightarrow> header) \<Rightarrow> 'heap writer \<Rightarrow> 'heap writer" where
  "commitOnce heap committed commit w = (if committed then w else wrMapHeader (commit heap) w)"

lemma size_wrMapHeader [simp]: "size (wrMapHeader f w) = size w"
  by (induction w) simp_all

lemma size_commitOnce [simp]: "size (commitOnce heap committed commit w) = size w"
  by (simp add: commitOnce_def)

fun wrWriteHeader :: "'heap \<Rightarrow> nat \<Rightarrow> 'heap writer \<Rightarrow> 'heap writer" where
  "wrWriteHeader heap code (Net r) = Net (respWriteHeader code r)"
| "wrWriteHeader heap code (Recorder r) = Recorder (respWriteHeader code r)"
| "wrWriteHeader heap code (CommitWriter committed commit w) =
     CommitWriter True commit (wrWriteHeader heap code (commitOnce heap committed commit w))"

text \<open>The recorder also buffers a body for 204 and 304.\<close>

fun wrWrite :: "'heap \<Rightarrow> bytes \<Rightarrow> 'heap writer \<Rightarrow> 'heap writer" where
  "wrWrite heap b (Net r) = Net (respWrite b r)"
| "wrWrite heap b (Recorder r) =
     Recorder (let r1 = respWriteHeader 200 r in r1\<lparr>rsBody := rsBody r1 @ b\<rparr>)"
| "wrWrite heap b (CommitWriter committed commit w) =
     CommitWriter True commit (wrWrite heap b (commitOnce heap committed commit w))"

fun wrBase :: "'heap writer \<Rightarrow> response" where
  "wrBase (Net r) = r"
| "wrBase (Recorder r) = r"
| "wrBase (CommitWriter committed commit w) = wrBase w"

lemma wrBase_mapHeader [simp]:
  "wrBase (wrMapHeader f w) = (wrBase w)\<lparr>rsHeader := f (rsHeader (wrBase w))\<rparr>"
  by (induction w) simp_all

lemma wrHeader_base: "wrHeader w = rsHeader (wrBase w)"
  by (induction w) simp_all

section \<open>Contexts and handlers\<close>

record request =
  hrMethod :: string
  hrHost :: string
  hrPath :: string
  hrRawQuery :: string
  hrHeader :: header
  hrForm :: "string \<Rightarrow> string"
  hrCookies :: "(string \<times> string) list"
  hrRemoteAddr :: string
  hrTLS :: bool

text \<open>\<open>Request.Cookie\<close>: the first of the name.\<close>

definition requestCookie :: "string \<Rightarrow> request \<Rightarrow> string option" where
  "requestCookie name r = map_of (hrCookies r) name"

text \<open>What middleware keeps in the request-scoped store: strings and session pointers.\<close>

datatype storeVal = StringVal string | SessionVal nat

record 'heap requestContext =
  cxRequest :: request
  cxWriter :: "'heap writer"
  cxStore :: "string \<rightharpoonup> storeVal"
  cxAction :: string
  cxHeap :: 'heap

definition newContext :: "'heap \<Rightarrow> request \<Rightarrow> 'heap requestContext" where
  "newContext heap r = \<lparr>cxRequest = r, cxWriter = Net newResponse, cxStore = Map.empty, cxAction = [], cxHeap = heap\<rparr>"

text \<open>\<open>Reset\<close> of a pooled context.\<close>

definition contextReset :: "'heap writer \<Rightarrow> request \<Rightarrow> 'heap requestContext \<Rightarrow> 'heap requestContext" where
  "contextReset w r c = c\<lparr>cxRequest := r, cxWriter := w, cxAction := [], cxStore := Map.empty\<rparr>"

definition setString :: "string \<Rightarrow> string \<Rightarrow> 'heap requestContext \<Rightarrow> 'heap requestContext" where
  "setString k v c = c\<lparr>cxStore := (cxStore c)(k \<mapsto> StringVal v)\<rparr>"

definition getString :: "string \<Rightarrow> 'heap requestContext \<Rightarrow> string" where
  "getString k c = (case cxStore c k of Some (StringVal v) \<Rightarrow> v | _ \<Rightarrow> [])"

definition setHeader :: "string \<Rightarrow> string \<Rightarrow> 'heap requestContext \<Rightarrow> 'heap requestContext" where
  "setHeader k v c = c\<lparr>cxWriter := wrMapHeader (headerSet k v) (cxWriter c)\<rparr>"

definition addHeader :: "string \<Rightarrow> string \<Rightarrow> 'heap requestContext \<Rightarrow> 'heap requestContext" where
  "addHeader k v c = c\<lparr>cxWriter := wrMapHeader (headerAdd k v) (cxWriter c)\<rparr>"

definition writeHeader :: "nat \<Rightarrow> 'heap requestContext \<Rightarrow> 'heap requestContext" where
  "writeHeader code c = c\<lparr>cxWriter := wrWriteHeader (cxHeap c) code (cxWriter c)\<rparr>"

definition writeBody :: "bytes \<Rightarrow> 'heap requestContext \<Rightarrow> 'heap requestContext" where
  "writeBody b c = c\<lparr>cxWriter := wrWrite (cxHeap c) b (cxWriter c)\<rparr>"

definition ctxHeader :: "'heap requestContext \<Rightarrow> header" where
  "ctxHeader c = wrHeader (cxWriter c)"

lemma wrHeader_map [simp]: "wrHeader (wrMapHeader f w) = f (wrHeader w)"
  by (induction w) simp_all

lemma ctxHeader_simps [simp]:
  "ctxHeader (setHeader k v c) = headerSet k v (ctxHeader c)"
  "ctxHeader (addHeader k v c) = headerAdd k v (ctxHeader c)"
  "cxRequest (setHeader k v c) = cxRequest c" "cxRequest (addHeader k v c) = cxRequest c"
  by (simp_all add: ctxHeader_def setHeader_def addHeader_def)

text \<open>An error: the status of an \<open>HTTPError\<close> in its chain, if there is one, and its text.\<close>

datatype herror = HError "nat option" string

datatype result = Done | Failed herror | Panicked string

type_synonym 'heap handler = "'heap requestContext \<Rightarrow> result \<times> 'heap requestContext"
type_synonym 'heap middleware = "'heap handler \<Rightarrow> 'heap handler"

definition NewHTTPError :: "nat \<Rightarrow> string \<Rightarrow> result" where
  "NewHTTPError code msg = Failed (HError (Some code) msg)"

section \<open>Writing responses\<close>

definition writeContentType :: "string \<Rightarrow> 'heap requestContext \<Rightarrow> 'heap requestContext" where
  "writeContentType t c =
     (if headerGet ''Content-Type'' (wrHeader (cxWriter c)) = [] then setHeader ''Content-Type'' t c else c)"

definition Blob :: "nat \<Rightarrow> string \<Rightarrow> bytes \<Rightarrow> 'heap handler" where
  "Blob code contentType b c = (Done, writeBody b (writeHeader code (writeContentType contentType c)))"

definition String :: "nat \<Rightarrow> string \<Rightarrow> 'heap handler" where
  "String code s = Blob code ''text/plain; charset=UTF-8'' s"

definition HTML :: "nat \<Rightarrow> string \<Rightarrow> 'heap handler" where
  "HTML code s = Blob code ''text/html; charset=UTF-8'' s"

text \<open>\<open>enc\<close> is the JSON encoding (or its error).\<close>

definition JSON :: "nat \<Rightarrow> string + bytes \<Rightarrow> 'heap handler" where
  "JSON code enc c =
     (let c1 = writeContentType ''application/json'' c in
      case enc of
        Inl e \<Rightarrow> (Failed (HError None e), c1)
      | Inr b \<Rightarrow> (Done, writeBody b (writeHeader code c1)))"

text \<open>\<open>Render\<close> and \<open>RenderBlock\<close>; the template renderer is a parameter.\<close>

definition Render :: "('heap requestContext \<Rightarrow> string \<Rightarrow> string + bytes) \<Rightarrow> nat \<Rightarrow> string \<Rightarrow> 'heap handler" where
  "Render render code name c =
     (let c1 = c\<lparr>cxAction := name\<rparr> in
      case render c1 name of
        Inl e \<Rightarrow> (Failed (HError None (''context: render template '' @ name @ '': '' @ e)), c1)
      | Inr html \<Rightarrow> HTML code html c1)"

definition RenderBlock :: "(string \<Rightarrow> string \<Rightarrow> string + bytes) \<Rightarrow> string \<Rightarrow> 'heap requestContext \<Rightarrow> string + bytes" where
  "RenderBlock renderNamed block c =
     (if cxAction c = [] then Inl (''context: RenderBlock '' @ block @ '': no action rendered yet'')
      else case renderNamed (cxAction c) block of
             Inl e \<Rightarrow> Inl (''context: render block '' @ block @ '': '' @ e)
           | Inr html \<Rightarrow> Inr html)"

text \<open>\<open>http.Error\<close>, as the default error handler calls it.\<close>

definition httpError :: "string \<Rightarrow> nat \<Rightarrow> 'heap requestContext \<Rightarrow> 'heap requestContext" where
  "httpError msg code c =
     writeBody (msg @ [CHR 0x0A]) (writeHeader code
       (setHeader ''X-Content-Type-Options'' ''nosniff''
         (setHeader ''Content-Type'' ''text/plain; charset=utf-8''
           (c\<lparr>cxWriter := wrMapHeader (\<lambda>h. h(''Content-Length'' := [])) (cxWriter c)\<rparr>))))"

definition defaultErrorHandler :: "nat \<Rightarrow> string \<Rightarrow> 'heap requestContext \<Rightarrow> 'heap requestContext" where
  "defaultErrorHandler code msg c = httpError msg code c"

section \<open>Middleware chains and the shim\<close>

definition chain :: "'heap handler \<Rightarrow> 'heap middleware list \<Rightarrow> 'heap handler" where
  "chain h mws = foldr (\<lambda>mw h. mw h) mws h"

text \<open>
  \<open>shim\<close>: a pooled context is reset, the handler runs, an error goes to the error handler with
  the status of its \<open>HTTPError\<close>, or 500. A panic leaves the response as it is.
\<close>

definition handleError :: "(nat \<Rightarrow> string \<Rightarrow> 'heap requestContext \<Rightarrow> 'heap requestContext) \<Rightarrow> result \<times> 'heap requestContext \<Rightarrow> 'heap requestContext" where
  "handleError errorHandler p =
     (case p of
        (Failed (HError code msg), c) \<Rightarrow> errorHandler (case code of None \<Rightarrow> 500 | Some n \<Rightarrow> n) msg c
      | (_, c) \<Rightarrow> c)"

definition shim ::
    "(nat \<Rightarrow> string \<Rightarrow> 'heap requestContext \<Rightarrow> 'heap requestContext) \<Rightarrow> 'heap handler \<Rightarrow> request \<Rightarrow> 'heap requestContext \<Rightarrow> 'heap requestContext" where
  "shim errorHandler h r pooled = handleError errorHandler (h (contextReset (Net newResponse) r pooled))"

text \<open>\<open>methodOverride\<close>.\<close>

definition methodOverride :: "request \<Rightarrow> request" where
  "methodOverride r =
     (let f = hrForm r ''_method'';
          m = (if f = [] then headerGet ''X-Http-Method-Override'' (hrHeader r) else f)
      in if m \<in> set [''GET'', ''POST'', ''PUT'', ''PATCH'', ''DELETE''] then r\<lparr>hrMethod := m\<rparr> else r)"

lemma chain_append: "chain h (xs @ ys) = chain (chain h ys) xs"
  by (simp add: chain_def)

lemma chain_simps [simp]: "chain h [] = h" "chain h (mw # mws) = mw (chain h mws)"
  by (simp_all add: chain_def)

end
