(* ===== verification/Router.thy ===== *)
theory Router
  imports Http
begin

text \<open>
  Route registration (\<open>router.go\<close>, \<open>group.go\<close>). Middleware lists are Go slices: a length and an
  array that other slices may share, extended in place by \<open>append\<close> while the capacity lasts.
  The registrar keeps the arrays in a store. A reference model, with lists for slices, says what
  registration is meant to do; it is refined as long as no two slices share an array. The
  matching of patterns is \<open>http.ServeMux\<close>'s and a parameter.
\<close>

section \<open>Slices\<close>

type_synonym 'a arrays = "'a option list list"

record slice =
  slArray :: nat
  slLen :: nat

definition slCap :: "'a arrays \<Rightarrow> slice \<Rightarrow> nat" where
  "slCap arrs s = length (arrs ! slArray s)"

definition slRead :: "'a arrays \<Rightarrow> slice \<Rightarrow> 'a list" where
  "slRead arrs s = map the (take (slLen s) (arrs ! slArray s))"

text \<open>A new array with \<open>spare\<close> unused places.\<close>

definition slAlloc :: "nat \<Rightarrow> 'a list \<Rightarrow> 'a arrays \<Rightarrow> slice \<times> 'a arrays" where
  "slAlloc spare xs arrs =
     (\<lparr>slArray = length arrs, slLen = length xs\<rparr>, arrs @ [map Some xs @ replicate spare None])"

text \<open>\<open>append(s, xs...)\<close>; \<open>grow n\<close> is the runtime's choice of spare capacity for \<open>n\<close> elements.\<close>

definition slAppend :: "(nat \<Rightarrow> nat) \<Rightarrow> slice \<Rightarrow> 'a list \<Rightarrow> 'a arrays \<Rightarrow> slice \<times> 'a arrays" where
  "slAppend grow s xs arrs =
     (let n = slLen s + length xs in
      if n \<le> slCap arrs s then
        (s\<lparr>slLen := n\<rparr>,
         arrs[slArray s := take (slLen s) (arrs ! slArray s) @ map Some xs @ drop n (arrs ! slArray s)])
      else slAlloc (grow n) (slRead arrs s @ xs) arrs)"

section \<open>Registration\<close>

record group =
  gpPrefix :: string
  gpMiddleware :: slice

record 'heap registrar =
  rgArrays :: "'heap middleware arrays"
  rgMiddleware :: slice
  rgGroups :: "group list"
  rgRoutes :: "(string \<times> string \<times> 'heap handler) list"

definition newRegistrar :: "'heap registrar" where
  "newRegistrar = \<lparr>rgArrays = [[]], rgMiddleware = \<lparr>slArray = 0, slLen = 0\<rparr>, rgGroups = [], rgRoutes = []\<rparr>"

definition routerHandleFunc :: "string \<Rightarrow> string \<Rightarrow> 'heap handler \<Rightarrow> 'heap registrar \<Rightarrow> 'heap registrar" where
  "routerHandleFunc m pattern h r =
     r\<lparr>rgRoutes := rgRoutes r @ [(m, pattern, chain h (slRead (rgArrays r) (rgMiddleware r)))]\<rparr>"

definition routerUse :: "(nat \<Rightarrow> nat) \<Rightarrow> 'heap middleware list \<Rightarrow> 'heap registrar \<Rightarrow> 'heap registrar" where
  "routerUse grow mws r =
     (let (s, arrs) = slAppend grow (rgMiddleware r) mws (rgArrays r) in r\<lparr>rgMiddleware := s, rgArrays := arrs\<rparr>)"

text \<open>\<open>Router.NewGroup(prefix, mws...)\<close> with a slice of the caller: the group keeps the slice.\<close>

definition routerNewGroupSlice :: "string \<Rightarrow> slice \<Rightarrow> 'heap registrar \<Rightarrow> 'heap registrar" where
  "routerNewGroupSlice prfx s r = r\<lparr>rgGroups := rgGroups r @ [\<lparr>gpPrefix = prfx, gpMiddleware = s\<rparr>]\<rparr>"

text \<open>With the middleware written out, the call makes a new slice.\<close>

definition routerNewGroup :: "string \<Rightarrow> 'heap middleware list \<Rightarrow> 'heap registrar \<Rightarrow> 'heap registrar" where
  "routerNewGroup prfx mws r =
     (let (s, arrs) = slAlloc 0 mws (rgArrays r) in routerNewGroupSlice prfx s (r\<lparr>rgArrays := arrs\<rparr>))"

definition groupHandleFunc ::
    "nat \<Rightarrow> string \<Rightarrow> string \<Rightarrow> 'heap handler \<Rightarrow> 'heap registrar \<Rightarrow> 'heap registrar" where
  "groupHandleFunc g m pattern h r =
     (let gp = rgGroups r ! g in
      routerHandleFunc m (gpPrefix gp @ pattern) (chain h (slRead (rgArrays r) (gpMiddleware gp))) r)"

text \<open>\<open>Group.NewGroup\<close> copies the middleware of \<open>g\<close> into a new array before it appends.\<close>

definition groupNewGroup ::
    "(nat \<Rightarrow> nat) \<Rightarrow> nat \<Rightarrow> string \<Rightarrow> 'heap middleware list \<Rightarrow> 'heap registrar \<Rightarrow> 'heap registrar" where
  "groupNewGroup grow g prfx mws r =
     (let gp = rgGroups r ! g; old = slRead (rgArrays r) (gpMiddleware gp);
          (s0, arrs0) = slAlloc (grow (length old)) old (rgArrays r);
          (s1, arrs1) = slAppend grow s0 mws arrs0
      in r\<lparr>rgArrays := arrs1, rgGroups := rgGroups r @ [\<lparr>gpPrefix = gpPrefix gp @ prfx, gpMiddleware = s1\<rparr>]\<rparr>)"

definition groupUse ::
    "(nat \<Rightarrow> nat) \<Rightarrow> nat \<Rightarrow> 'heap middleware list \<Rightarrow> 'heap registrar \<Rightarrow> 'heap registrar" where
  "groupUse grow g mws r =
     (let gp = rgGroups r ! g; (s, arrs) = slAppend grow (gpMiddleware gp) mws (rgArrays r) in
      r\<lparr>rgArrays := arrs, rgGroups := (rgGroups r)[g := gp\<lparr>gpMiddleware := s\<rparr>]\<rparr>)"

text \<open>\<open>Resource\<close> and \<open>Resources\<close> register these routes on the group made for the prefix.\<close>

record 'heap resource =
  rcNew :: "'heap handler"
  rcCreate :: "'heap handler"
  rcShow :: "'heap handler"
  rcEdit :: "'heap handler"
  rcUpdate :: "'heap handler"
  rcDestroy :: "'heap handler"
  rcIndex :: "'heap handler"

definition resourceRoutes :: "'heap resource \<Rightarrow> (string \<times> string \<times> 'heap handler) list" where
  "resourceRoutes c =
     [(''GET'', ''/new'', rcNew c), (''POST'', [], rcCreate c), (''GET'', [], rcShow c),
      (''PUT'', ''/edit'', rcEdit c), (''DELETE'', [], rcDestroy c)]"

definition resourcesRoutes :: "'heap resource \<Rightarrow> (string \<times> string \<times> 'heap handler) list" where
  "resourcesRoutes c =
     [(''GET'', [], rcIndex c), (''GET'', ''/new'', rcNew c), (''POST'', [], rcCreate c),
      (''GET'', ''/{id}'', rcShow c), (''GET'', ''/{id}/edit'', rcEdit c), (''PUT'', ''/{id}'', rcUpdate c),
      (''DELETE'', ''/{id}'', rcDestroy c)]"

definition registerAll ::
    "nat \<Rightarrow> (string \<times> string \<times> 'heap handler) list \<Rightarrow> 'heap registrar \<Rightarrow> 'heap registrar" where
  "registerAll g rs r = fold (\<lambda>(m, pattern, h). groupHandleFunc g m pattern h) rs r"

definition routerResources :: "string \<Rightarrow> 'heap resource \<Rightarrow> 'heap middleware list \<Rightarrow> 'heap registrar \<Rightarrow> 'heap registrar" where
  "routerResources prfx c mws r = registerAll (length (rgGroups r)) (resourcesRoutes c) (routerNewGroup prfx mws r)"

definition routerResource :: "string \<Rightarrow> 'heap resource \<Rightarrow> 'heap middleware list \<Rightarrow> 'heap registrar \<Rightarrow> 'heap registrar" where
  "routerResource prfx c mws r = registerAll (length (rgGroups r)) (resourceRoutes c) (routerNewGroup prfx mws r)"

definition groupResources ::
    "(nat \<Rightarrow> nat) \<Rightarrow> nat \<Rightarrow> string \<Rightarrow> 'heap resource \<Rightarrow> 'heap middleware list \<Rightarrow> 'heap registrar \<Rightarrow> 'heap registrar" where
  "groupResources grow g prfx c mws r =
     registerAll (length (rgGroups r)) (resourcesRoutes c) (groupNewGroup grow g prfx mws r)"

definition groupResource ::
    "(nat \<Rightarrow> nat) \<Rightarrow> nat \<Rightarrow> string \<Rightarrow> 'heap resource \<Rightarrow> 'heap middleware list \<Rightarrow> 'heap registrar \<Rightarrow> 'heap registrar" where
  "groupResource grow g prfx c mws r =
     registerAll (length (rgGroups r)) (resourceRoutes c) (groupNewGroup grow g prfx mws r)"

section \<open>The reference model\<close>

datatype 'heap regOp =
    Use "'heap middleware list"
  | Handle string string "'heap handler"
  | NewGroup string "'heap middleware list"
  | GroupNewGroup nat string "'heap middleware list"
  | GroupUse nat "'heap middleware list"
  | GroupHandle nat string string "'heap handler"
  | Resources string "'heap resource" "'heap middleware list"
  | Resource string "'heap resource" "'heap middleware list"
  | GroupResources nat string "'heap resource" "'heap middleware list"
  | GroupResource nat string "'heap resource" "'heap middleware list"

fun regStep :: "(nat \<Rightarrow> nat) \<Rightarrow> 'heap regOp \<Rightarrow> 'heap registrar \<Rightarrow> 'heap registrar" where
  "regStep grow (Use mws) r = routerUse grow mws r"
| "regStep grow (Handle m p h) r = routerHandleFunc m p h r"
| "regStep grow (NewGroup p mws) r = routerNewGroup p mws r"
| "regStep grow (GroupNewGroup g p mws) r = groupNewGroup grow g p mws r"
| "regStep grow (GroupUse g mws) r = groupUse grow g mws r"
| "regStep grow (GroupHandle g m p h) r = groupHandleFunc g m p h r"
| "regStep grow (Resources p c mws) r = routerResources p c mws r"
| "regStep grow (Resource p c mws) r = routerResource p c mws r"
| "regStep grow (GroupResources g p c mws) r = groupResources grow g p c mws r"
| "regStep grow (GroupResource g p c mws) r = groupResource grow g p c mws r"

text \<open>Routes as they are meant: a handler inside the router's and then the group's middleware.\<close>

record 'heap refRegistrar =
  rfMiddleware :: "'heap middleware list"
  rfGroups :: "(string \<times> 'heap middleware list) list"
  rfRoutes :: "(string \<times> string \<times> 'heap handler) list"

definition refRoutes ::
    "string \<times> 'heap middleware list \<Rightarrow> (string \<times> string \<times> 'heap handler) list \<Rightarrow> 'heap refRegistrar \<Rightarrow> 'heap refRegistrar" where
  "refRoutes g rs r = r\<lparr>rfRoutes := rfRoutes r @
     map (\<lambda>(m, p, h). (m, fst g @ p, chain h (rfMiddleware r @ snd g))) rs\<rparr>"

definition refGroup :: "string \<times> 'heap middleware list \<Rightarrow> 'heap refRegistrar \<Rightarrow> 'heap refRegistrar" where
  "refGroup g r = r\<lparr>rfGroups := rfGroups r @ [g]\<rparr>"

definition nested :: "nat \<Rightarrow> string \<Rightarrow> 'heap middleware list \<Rightarrow> 'heap refRegistrar \<Rightarrow> string \<times> 'heap middleware list" where
  "nested g p mws r = (fst (rfGroups r ! g) @ p, snd (rfGroups r ! g) @ mws)"

fun refStep :: "'heap regOp \<Rightarrow> 'heap refRegistrar \<Rightarrow> 'heap refRegistrar" where
  "refStep (Use mws) r = r\<lparr>rfMiddleware := rfMiddleware r @ mws\<rparr>"
| "refStep (Handle m p h) r = refRoutes ([], []) [(m, p, h)] r"
| "refStep (NewGroup p mws) r = refGroup (p, mws) r"
| "refStep (GroupNewGroup g p mws) r = refGroup (nested g p mws r) r"
| "refStep (GroupUse g mws) r =
     r\<lparr>rfGroups := (rfGroups r)[g := (fst (rfGroups r ! g), snd (rfGroups r ! g) @ mws)]\<rparr>"
| "refStep (GroupHandle g m p h) r = refRoutes (rfGroups r ! g) [(m, p, h)] r"
| "refStep (Resources p c mws) r = refRoutes (p, mws) (resourcesRoutes c) (refGroup (p, mws) r)"
| "refStep (Resource p c mws) r = refRoutes (p, mws) (resourceRoutes c) (refGroup (p, mws) r)"
| "refStep (GroupResources g p c mws) r =
     refRoutes (nested g p mws r) (resourcesRoutes c) (refGroup (nested g p mws r) r)"
| "refStep (GroupResource g p c mws) r =
     refRoutes (nested g p mws r) (resourceRoutes c) (refGroup (nested g p mws r) r)"

text \<open>An operation names a group that exists.\<close>

fun validOp :: "nat \<Rightarrow> 'heap regOp \<Rightarrow> bool" where
  "validOp n (GroupNewGroup g p mws) = (g < n)"
| "validOp n (GroupUse g mws) = (g < n)"
| "validOp n (GroupHandle g m p h) = (g < n)"
| "validOp n (GroupResources g p c mws) = (g < n)"
| "validOp n (GroupResource g p c mws) = (g < n)"
| "validOp n _ = True"

fun newGroups :: "'heap regOp \<Rightarrow> nat" where
  "newGroups (Use mws) = 0"
| "newGroups (Handle m p h) = 0"
| "newGroups (GroupUse g mws) = 0"
| "newGroups (GroupHandle g m p h) = 0"
| "newGroups _ = 1"

fun validOps :: "nat \<Rightarrow> 'heap regOp list \<Rightarrow> bool" where
  "validOps n [] = True"
| "validOps n (opn # ops) \<longleftrightarrow> validOp n opn \<and> validOps (n + newGroups opn) ops"

section \<open>Refinement\<close>

definition slicesOf :: "'heap registrar \<Rightarrow> slice list" where
  "slicesOf r = rgMiddleware r # map gpMiddleware (rgGroups r)"

definition sliceOk :: "'a arrays \<Rightarrow> slice \<Rightarrow> bool" where
  "sliceOk arrs s \<longleftrightarrow> slArray s < length arrs \<and> slLen s \<le> slCap arrs s
     \<and> (\<forall>x\<in>set (take (slLen s) (arrs ! slArray s)). x \<noteq> None)"

definition regInv :: "'heap registrar \<Rightarrow> bool" where
  "regInv r \<longleftrightarrow> list_all (sliceOk (rgArrays r)) (slicesOf r) \<and> distinct (map slArray (slicesOf r))"

definition regAbs :: "'heap registrar \<Rightarrow> 'heap refRegistrar" where
  "regAbs r = \<lparr>rfMiddleware = slRead (rgArrays r) (rgMiddleware r),
     rfGroups = map (\<lambda>g. (gpPrefix g, slRead (rgArrays r) (gpMiddleware g))) (rgGroups r),
     rfRoutes = rgRoutes r\<rparr>"

definition slicesInv :: "'a arrays \<Rightarrow> slice list \<Rightarrow> bool" where
  "slicesInv arrs ss \<longleftrightarrow> list_all (sliceOk arrs) ss \<and> distinct (map slArray ss)"

lemma regInv_slices: "regInv r \<longleftrightarrow> slicesInv (rgArrays r) (slicesOf r)"
  by (simp add: regInv_def slicesInv_def)

lemma slAlloc_spec:
  assumes "slAlloc spare xs arrs = (s, arrs')"
  shows "sliceOk arrs' s" and "slRead arrs' s = xs" and "slArray s = length arrs"
    and "sliceOk arrs t \<Longrightarrow> sliceOk arrs' t \<and> slRead arrs' t = slRead arrs t"
  using assms by (auto simp: slAlloc_def sliceOk_def slCap_def slRead_def nth_append)

lemma slRead_length: "sliceOk arrs s \<Longrightarrow> length (slRead arrs s) = slLen s"
  by (simp add: sliceOk_def slRead_def slCap_def)

lemma slRead_Some: "sliceOk arrs s \<Longrightarrow> map Some (slRead arrs s) = take (slLen s) (arrs ! slArray s)"
  by (auto simp: sliceOk_def slRead_def intro!: map_idI)

lemma slAppend_spec:
  assumes "slAppend grow s xs arrs = (s', arrs')" and "sliceOk arrs s"
  shows "sliceOk arrs' s'" and "slRead arrs' s' = slRead arrs s @ xs" and "slArray s' \<in> {slArray s, length arrs}"
    and "sliceOk arrs t \<Longrightarrow> slArray t \<noteq> slArray s \<Longrightarrow> sliceOk arrs' t \<and> slRead arrs' t = slRead arrs t"
proof -
  consider (fits) "slLen s + length xs \<le> slCap arrs s" | (full) "\<not> slLen s + length xs \<le> slCap arrs s" by blast
  then have "sliceOk arrs' s' \<and> slRead arrs' s' = slRead arrs s @ xs \<and> slArray s' \<in> {slArray s, length arrs}
    \<and> (\<forall>t. sliceOk arrs t \<longrightarrow> slArray t \<noteq> slArray s \<longrightarrow> sliceOk arrs' t \<and> slRead arrs' t = slRead arrs t)"
  proof cases
    case fits
    then have s': "s' = s\<lparr>slLen := slLen s + length xs\<rparr>"
      "arrs' = arrs[slArray s := take (slLen s) (arrs ! slArray s) @ map Some xs
         @ drop (slLen s + length xs) (arrs ! slArray s)]"
      using assms(1) by (simp_all add: slAppend_def Let_def)
    have "min (length (arrs ! slArray s)) (slLen s) = slLen s" using assms(2) by (simp add: sliceOk_def slCap_def)
    then show ?thesis
      using assms(2) fits unfolding s' by (auto simp: sliceOk_def slRead_def slCap_def)
  next
    case full
    then have "slAlloc (grow (slLen s + length xs)) (slRead arrs s @ xs) arrs = (s', arrs')"
      using assms(1) by (simp add: slAppend_def Let_def)
    from slAlloc_spec [OF this] show ?thesis by simp
  qed
  then show "sliceOk arrs' s'" and "slRead arrs' s' = slRead arrs s @ xs" and "slArray s' \<in> {slArray s, length arrs}"
    and "sliceOk arrs t \<Longrightarrow> slArray t \<noteq> slArray s \<Longrightarrow> sliceOk arrs' t \<and> slRead arrs' t = slRead arrs t"
    by blast+
qed

text \<open>Adding a slice in a new array, and extending one of the slices in place or in a new array.\<close>

lemma slicesInv_add:
  assumes "slicesInv arrs ss" and "sliceOk arrs' s" and "length arrs \<le> slArray s"
    and "\<And>t. sliceOk arrs t \<Longrightarrow> sliceOk arrs' t \<and> slRead arrs' t = slRead arrs t"
  shows "slicesInv arrs' (ss @ [s]) \<and> map (slRead arrs') ss = map (slRead arrs) ss"
  using assms by (fastforce simp: slicesInv_def list_all_iff sliceOk_def)

lemma slicesInv_append:
  assumes inv: "slicesInv arrs ss" and k: "k < length ss" and app: "slAppend grow (ss ! k) xs arrs = (s, arrs')"
  shows "slicesInv arrs' (ss[k := s])
    \<and> map (slRead arrs') (ss[k := s]) = (map (slRead arrs) ss)[k := slRead arrs (ss ! k) @ xs]"
proof -
  have ok: "sliceOk arrs t" if "t \<in> set ss" for t using inv that by (simp add: slicesInv_def list_all_iff)
  note spec = slAppend_spec [OF app ok [OF nth_mem [OF k]]]
  have arr: "slArray (ss ! i) \<noteq> slArray (ss ! k)" if "i < length ss" "i \<noteq> k" for i
    using inv that k by (auto simp: slicesInv_def distinct_conv_nth)
  have keep: "sliceOk arrs' (ss ! i) \<and> slRead arrs' (ss ! i) = slRead arrs (ss ! i)" if "i < length ss" "i \<noteq> k" for i
    using spec(4) [OF ok arr] that by simp
  have new: "slArray s \<noteq> slArray (ss ! i)" if "i < length ss" "i \<noteq> k" for i
    using spec(3) arr [OF that] ok [of "ss ! i"] that by (auto simp: sliceOk_def)
  have "list_all (sliceOk arrs') (ss[k := s])"
    unfolding list_all_length
  proof (intro allI impI)
    show "sliceOk arrs' (ss[k := s] ! n)" if "n < length (ss[k := s])" for n
      using that spec(1) keep [of n] by (cases "n = k") simp_all
  qed
  moreover have "distinct (map slArray (ss[k := s]))"
    using inv new k by (auto simp: slicesInv_def distinct_conv_nth nth_list_update) (metis new)+
  moreover have "map (slRead arrs') (ss[k := s]) = (map (slRead arrs) ss)[k := slRead arrs (ss ! k) @ xs]"
  proof (rule nth_equalityI)
    fix i assume "i < length (map (slRead arrs') (ss[k := s]))"
    then show "map (slRead arrs') (ss[k := s]) ! i = (map (slRead arrs) ss)[k := slRead arrs (ss ! k) @ xs] ! i"
      using spec(2) keep [of i] by (cases "i = k") simp_all
  qed simp
  ultimately show ?thesis by (simp add: slicesInv_def)
qed

definition readsOf :: "'heap registrar \<Rightarrow> 'heap middleware list list" where
  "readsOf r = map (slRead (rgArrays r)) (slicesOf r)"

lemma regAbs_reads:
  "regAbs r = \<lparr>rfMiddleware = hd (readsOf r), rfGroups = zip (map gpPrefix (rgGroups r)) (tl (readsOf r)),
     rfRoutes = rgRoutes r\<rparr>"
  by (simp add: regAbs_def readsOf_def slicesOf_def zip_map_map o_def) (simp add: zip_same_conv_map)

lemma regAbs_groups [simp]:
  "length (rfGroups (regAbs r)) = length (rgGroups r)"
  "g < length (rgGroups r) \<Longrightarrow> rfGroups (regAbs r) ! g =
     (gpPrefix (rgGroups r ! g), slRead (rgArrays r) (gpMiddleware (rgGroups r ! g)))"
  "rfRoutes (regAbs r) = rgRoutes r" "rfMiddleware (regAbs r) = slRead (rgArrays r) (rgMiddleware r)"
  by (simp_all add: regAbs_def)

definition refines :: "'heap registrar \<Rightarrow> 'heap refRegistrar \<Rightarrow> bool" where
  "refines r f \<longleftrightarrow> regInv r \<and> regAbs r = f"

lemma refines_routerUse:
  assumes "regInv r"
  shows "refines (routerUse grow mws r) (refStep (Use mws) (regAbs r))"
proof -
  obtain s arrs where app: "slAppend grow (slicesOf r ! 0) mws (rgArrays r) = (s, arrs)"
    by (cases "slAppend grow (slicesOf r ! 0) mws (rgArrays r)")
  have "slicesInv arrs ((slicesOf r)[0 := s]) \<and> map (slRead arrs) ((slicesOf r)[0 := s]) =
      (readsOf r)[0 := slRead (rgArrays r) (slicesOf r ! 0) @ mws]"
    unfolding readsOf_def using assms app by (intro slicesInv_append) (simp_all add: regInv_slices slicesOf_def)
  then show ?thesis
    using app by (simp add: refines_def routerUse_def regInv_slices slicesOf_def regAbs_def readsOf_def)
qed

lemma refines_groupUse:
  assumes "regInv r" and "g < length (rgGroups r)"
  shows "refines (groupUse grow g mws r) (refStep (GroupUse g mws) (regAbs r))"
proof -
  let ?ss = "slicesOf r"
  have at: "?ss ! Suc g = gpMiddleware (rgGroups r ! g)" using assms(2) by (simp add: slicesOf_def)
  obtain s arrs where app: "slAppend grow (?ss ! Suc g) mws (rgArrays r) = (s, arrs)"
    by (cases "slAppend grow (?ss ! Suc g) mws (rgArrays r)")
  have "slicesInv arrs (?ss[Suc g := s]) \<and> map (slRead arrs) (?ss[Suc g := s]) =
      (map (slRead (rgArrays r)) ?ss)[Suc g := slRead (rgArrays r) (?ss ! Suc g) @ mws]"
    using assms app by (intro slicesInv_append) (simp_all add: regInv_slices slicesOf_def)
  note up = this
  have read: "slRead arrs ((?ss[Suc g := s]) ! Suc i) =
      (if i = g then slRead (rgArrays r) (gpMiddleware (rgGroups r ! g)) @ mws
       else slRead (rgArrays r) (gpMiddleware (rgGroups r ! i)))" if "i < length (rgGroups r)" for i
  proof -
    have "map (slRead arrs) (?ss[Suc g := s]) ! Suc i =
        (map (slRead (rgArrays r)) ?ss)[Suc g := slRead (rgArrays r) (?ss ! Suc g) @ mws] ! Suc i"
      using up by simp
    then show ?thesis using that by (cases "i = g") (simp_all add: slicesOf_def)
  qed
  have mid: "slRead arrs (rgMiddleware r) = slRead (rgArrays r) (rgMiddleware r)"
    using up by (simp add: slicesOf_def)
  have groups: "rfGroups (regAbs (groupUse grow g mws r)) = rfGroups (refStep (GroupUse g mws) (regAbs r))"
  proof (rule nth_equalityI)
    fix i assume "i < length (rfGroups (regAbs (groupUse grow g mws r)))"
    then have i: "i < length (rgGroups r)" using app at by (simp add: groupUse_def)
    then show "rfGroups (regAbs (groupUse grow g mws r)) ! i = rfGroups (refStep (GroupUse g mws) (regAbs r)) ! i"
      using read [OF i] app at assms(2) by (cases "i = g") (simp_all add: groupUse_def slicesOf_def)
  qed (use app at in \<open>simp add: groupUse_def\<close>)
  have "regInv (groupUse grow g mws r)"
    using up app at by (simp add: groupUse_def regInv_slices slicesOf_def map_update)
  moreover have "regAbs (groupUse grow g mws r) = refStep (GroupUse g mws) (regAbs r)"
    by (rule refRegistrar.equality) (use mid groups app at in \<open>simp_all add: groupUse_def\<close>)
  ultimately show ?thesis by (simp add: refines_def)
qed

lemma refines_newSlice:
  assumes "regInv r" and "sliceOk arrs s" and "length (rgArrays r) \<le> slArray s"
    and "\<And>t. sliceOk (rgArrays r) t \<Longrightarrow> sliceOk arrs t \<and> slRead arrs t = slRead (rgArrays r) t"
  shows "refines (routerNewGroupSlice p s (r\<lparr>rgArrays := arrs\<rparr>)) (refGroup (p, slRead arrs s) (regAbs r))"
proof -
  have "slicesInv arrs (slicesOf r @ [s]) \<and> map (slRead arrs) (slicesOf r) = map (slRead (rgArrays r)) (slicesOf r)"
    using assms by (intro slicesInv_add) (simp_all add: regInv_slices)
  then show ?thesis
    by (simp add: refines_def routerNewGroupSlice_def regInv_slices slicesOf_def regAbs_def refGroup_def)
qed

lemma refines_newGroup:
  assumes "regInv r"
  shows "refines (routerNewGroup p mws r) (refGroup (p, mws) (regAbs r))"
proof -
  obtain s arrs where al: "slAlloc 0 mws (rgArrays r) = (s, arrs)" by (cases "slAlloc 0 mws (rgArrays r)")
  show ?thesis
    using refines_newSlice [OF assms slAlloc_spec(1) [OF al] _ slAlloc_spec(4) [OF al], of p]
      slAlloc_spec(2,3) [OF al] by (simp add: routerNewGroup_def al)
qed

lemma refines_groupNewGroup:
  assumes "regInv r" and "g < length (rgGroups r)"
  shows "refines (groupNewGroup grow g p mws r) (refGroup (nested g p mws (regAbs r)) (regAbs r))"
proof -
  let ?old = "slRead (rgArrays r) (gpMiddleware (rgGroups r ! g))"
  obtain s0 arrs0 where al: "slAlloc (grow (length ?old)) ?old (rgArrays r) = (s0, arrs0)"
    by (cases "slAlloc (grow (length ?old)) ?old (rgArrays r)")
  obtain s1 arrs1 where app: "slAppend grow s0 mws arrs0 = (s1, arrs1)" by (cases "slAppend grow s0 mws arrs0")
  note a = slAlloc_spec [OF al] and b = slAppend_spec [OF app slAlloc_spec(1) [OF al]]
  have len: "length arrs0 = Suc (length (rgArrays r))" using al by (auto simp: slAlloc_def)
  have keep: "sliceOk arrs1 t \<and> slRead arrs1 t = slRead (rgArrays r) t" if "sliceOk (rgArrays r) t" for t
  proof -
    have "slArray t \<noteq> slArray s0" using that a(3) by (simp add: sliceOk_def)
    then show ?thesis using a(4) [OF that] b(4) [of t] by simp
  qed
  have "length (rgArrays r) \<le> slArray s1" using a(3) b(3) len by auto
  from refines_newSlice [OF assms(1) b(1) this keep, of "gpPrefix (rgGroups r ! g) @ p"]
  show ?thesis
    using al app a(2) b(2) assms(2)
    by (simp add: groupNewGroup_def routerNewGroupSlice_def nested_def Let_def)
qed

lemma refines_handle:
  assumes "refines r f" and "g < length (rgGroups r)"
  shows "refines (groupHandleFunc g m p h r) (refRoutes (rfGroups f ! g) [(m, p, h)] f)"
  using assms
  by (simp add: refines_def groupHandleFunc_def routerHandleFunc_def refRoutes_def chain_append
      regInv_slices slicesOf_def Let_def) (auto simp: regAbs_def)

lemma refines_registerAll:
  "refines r f \<Longrightarrow> g < length (rgGroups r) \<Longrightarrow>
     refines (registerAll g rs r) (refRoutes (rfGroups f ! g) rs f)"
proof (induction rs arbitrary: r f)
  case Nil
  then show ?case by (simp add: registerAll_def refRoutes_def)
next
  case (Cons x rs)
  obtain m p h where x: "x = (m, p, h)" by (cases x)
  have "refines (registerAll g rs (groupHandleFunc g m p h r))
      (refRoutes (rfGroups (refRoutes (rfGroups f ! g) [(m, p, h)] f) ! g) rs (refRoutes (rfGroups f ! g) [(m, p, h)] f))"
    using Cons.IH [OF refines_handle [OF Cons.prems, of m p h]] Cons.prems(2)
    by (simp add: groupHandleFunc_def routerHandleFunc_def Let_def)
  then show ?case by (simp add: registerAll_def x refRoutes_def)
qed

lemma refines_resources:
  assumes "refines r1 (refGroup G f)" and "length (rgGroups r1) = Suc n" and "length (rfGroups f) = n"
  shows "refines (registerAll n rs r1) (refRoutes G rs (refGroup G f))"
  using refines_registerAll [OF assms(1), of n rs] assms(2,3) by (simp add: refGroup_def nth_append)

lemma newGroup_count [simp]:
  "length (rgGroups (routerNewGroup p mws r)) = Suc (length (rgGroups r))"
  "length (rgGroups (groupNewGroup grow g p mws r)) = Suc (length (rgGroups r))"
  by (simp_all add: routerNewGroup_def routerNewGroupSlice_def groupNewGroup_def Let_def split: prod.splits)

lemma regStep_refines:
  assumes "regInv r" and "validOp (length (rgGroups r)) opn"
  shows "refines (regStep grow opn r) (refStep opn (regAbs r))"
proof (cases opn)
  case (Use mws)
  then show ?thesis using refines_routerUse [OF assms(1)] by simp
next
  case (Handle m p h)
  then show ?thesis using assms(1)
    by (simp add: refines_def routerHandleFunc_def refRoutes_def regInv_slices slicesOf_def regAbs_def)
next
  case (NewGroup p mws)
  then show ?thesis using refines_newGroup [OF assms(1)] by simp
next
  case (GroupNewGroup g p mws)
  then show ?thesis using refines_groupNewGroup [OF assms(1)] assms(2) by simp
next
  case (GroupUse g mws)
  then show ?thesis using refines_groupUse [OF assms(1)] assms(2) by simp
next
  case (GroupHandle g m p h)
  then show ?thesis using refines_handle [of r "regAbs r" g m p h] assms by (simp add: refines_def)
next
  case (Resources p c mws)
  then show ?thesis using refines_newGroup [OF assms(1), of p mws]
    by (simp add: routerResources_def refines_resources)
next
  case (Resource p c mws)
  then show ?thesis using refines_newGroup [OF assms(1), of p mws]
    by (simp add: routerResource_def refines_resources)
next
  case (GroupResources g p c mws)
  then show ?thesis using refines_groupNewGroup [OF assms(1), of g grow p mws] assms(2)
    by (simp add: groupResources_def refines_resources)
next
  case (GroupResource g p c mws)
  then show ?thesis using refines_groupNewGroup [OF assms(1), of g grow p mws] assms(2)
    by (simp add: groupResource_def refines_resources)
qed

lemma regStep_groups: "regInv r \<Longrightarrow> validOp (length (rgGroups r)) opn \<Longrightarrow>
    length (rgGroups (regStep grow opn r)) = length (rgGroups r) + newGroups opn"
proof -
  assume a: "regInv r" "validOp (length (rgGroups r)) opn"
  have "regAbs (regStep grow opn r) = refStep opn (regAbs r)"
    using regStep_refines [OF a] by (simp add: refines_def)
  then have "length (rgGroups (regStep grow opn r)) = length (rfGroups (refStep opn (regAbs r)))"
    by (metis regAbs_groups(1))
  then show ?thesis by (cases opn) (simp_all add: refRoutes_def refGroup_def)
qed

definition refInit :: "'heap refRegistrar" where
  "refInit = \<lparr>rfMiddleware = [], rfGroups = [], rfRoutes = []\<rparr>"

lemma newRegistrar_refines: "refines newRegistrar refInit"
  by (simp add: refines_def newRegistrar_def refInit_def regInv_def slicesOf_def sliceOk_def slCap_def
      regAbs_def slRead_def)

lemma registration_run:
  "refines r f \<Longrightarrow> validOps (length (rgGroups r)) ops \<Longrightarrow>
     refines (fold (regStep grow) ops r) (fold refStep ops f)"
proof (induction ops arbitrary: r f)
  case (Cons opn ops)
  have r: "regInv r" "f = regAbs r" using Cons.prems(1) by (simp_all add: refines_def)
  show ?case
    using Cons.IH [OF regStep_refines [OF r(1)]] regStep_groups [OF r(1)] Cons.prems(2) r(2) by simp
qed simp


definition tag :: "string \<Rightarrow> unit middleware" where
  "tag name h c = h (addHeader ''X-Trace'' name c)"

definition exampleOps :: "unit regOp list" where
  "exampleOps = [Use [tag ''a''], NewGroup ''/api'' [tag ''b''], GroupNewGroup 0 ''/v1'' [tag ''c''],
     GroupUse 0 [tag ''d''], GroupHandle 1 ''GET'' ''/x'' (String 200 ''ok'')]"


text \<open>\<open>Router.NewGroup\<close> keeps the slice it is given. Two groups made from one slice with spare
  capacity share its array: the middleware added to the second takes the place of the
  middleware added to the first, for every route registered afterwards.\<close>

theorem shared_slice_overwrites:
  "let (s, arrs) = slAlloc 1 [logging] [];
       r = \<lparr>rgArrays = arrs @ [[]], rgMiddleware = \<lparr>slArray = 1, slLen = 0\<rparr>, rgGroups = [], rgRoutes = []\<rparr>;
       r1 = groupUse grow 0 [auth] (routerNewGroupSlice ''/b'' s (routerNewGroupSlice ''/a'' s r));
       r2 = groupUse grow 1 [metrics] r1
   in rgRoutes (groupHandleFunc 0 ''GET'' ''/x'' h r1) = [(''GET'', ''/a/x'', chain h [logging, auth])]
      \<and> rgRoutes (groupHandleFunc 0 ''GET'' ''/x'' h r2) = [(''GET'', ''/a/x'', chain h [logging, metrics])]"
proof -
  let ?s = "\<lparr>slArray = 0, slLen = 1\<rparr>" and ?s2 = "\<lparr>slArray = 0, slLen = 2\<rparr>" and ?e = "\<lparr>slArray = 1, slLen = 0\<rparr>"
  let ?g = "\<lambda>p s. \<lparr>gpPrefix = p, gpMiddleware = s\<rparr>"
  let ?reg = "\<lambda>arr gs. \<lparr>rgArrays = [arr, []], rgMiddleware = ?e, rgGroups = gs, rgRoutes = []\<rparr>"
  have alloc: "slAlloc 1 [logging] [] = (?s, [[Some logging, None]])" by (simp add: slAlloc_def)
  have app: "slAppend grow ?s [mw] [[Some logging, x], []] = (?s2, [[Some logging, Some mw], []])" for mw x
    by (simp add: slAppend_def slCap_def Let_def)
  have r0: "routerNewGroupSlice ''/b'' ?s (routerNewGroupSlice ''/a'' ?s (?reg a [])) = ?reg a [?g ''/a'' ?s, ?g ''/b'' ?s]" for a
    by (simp add: routerNewGroupSlice_def)
  have r1: "groupUse grow 0 [auth] (?reg [Some logging, None] [?g ''/a'' ?s, ?g ''/b'' ?s]) =
      ?reg [Some logging, Some auth] [?g ''/a'' ?s2, ?g ''/b'' ?s]"
    by (simp add: groupUse_def app [simplified] Let_def)
  have r2: "groupUse grow 1 [metrics] (?reg [Some logging, Some auth] [?g ''/a'' ?s2, ?g ''/b'' ?s]) =
      ?reg [Some logging, Some metrics] [?g ''/a'' ?s2, ?g ''/b'' ?s2]"
    by (simp add: groupUse_def app [simplified] Let_def)
  have route: "rgRoutes (groupHandleFunc 0 ''GET'' ''/x'' h (?reg [Some logging, Some mw] [?g ''/a'' ?s2, gb])) =
      [(''GET'', ''/a/x'', chain h [logging, mw])]" for mw gb
    by (simp add: groupHandleFunc_def routerHandleFunc_def slRead_def Let_def)
  show ?thesis by (simp only: Let_def alloc prod.case append.simps r0 r1 r2 route simp_thms)
qed

end
