(* ===== verification/AllowedHosts.thy ===== *)
theory AllowedHosts
  imports Http
begin

text \<open>
  The Host allowlist (\<open>allowedhosts/allowedhosts.go\<close>). Besides the middleware: what an entry with a
  leading dot means, in terms of the labels of a host name.
\<close>

record ahConfig =
  ahHosts :: "string list"
  ahAllowAny :: bool

definition WithAllowedHosts :: "string list \<Rightarrow> ahConfig \<Rightarrow> ahConfig" where
  "WithAllowedHosts hosts c = c\<lparr>ahHosts := hosts, ahAllowAny := ''*'' \<in> set hosts\<rparr>"

definition ahNewConfig :: "(ahConfig \<Rightarrow> ahConfig) list \<Rightarrow> ahConfig" where
  "ahNewConfig opts = fold (\<lambda>opt c. opt c) opts \<lparr>ahHosts = [], ahAllowAny = False\<rparr>"

definition stripPort :: "string \<Rightarrow> string" where
  "stripPort hostport = (case splitHostPort hostport of None \<Rightarrow> hostport | Some (host, _) \<Rightarrow> host)"

text \<open>The loop over the entries.\<close>

fun matchesEntry :: "string \<Rightarrow> string list \<Rightarrow> bool" where
  "matchesEntry host [] = False"
| "matchesEntry host (h0 # hs) =
     (let h = toLower h0 in
      if hasPrefix h ''.'' then
        (if host = tl h \<or> hasSuffix host h then True else matchesEntry host hs)
      else if host = h then True
      else matchesEntry host hs)"

definition hostMatches :: "ahConfig \<Rightarrow> string \<Rightarrow> bool" where
  "hostMatches cfg host = (if ahAllowAny cfg then True else matchesEntry (toLower host) (ahHosts cfg))"

definition allowedHosts :: "ahConfig \<Rightarrow> 'heap middleware" where
  "allowedHosts cfg nxt c =
     (if ahHosts cfg = [] then nxt c
      else let host = stripPort (hrHost (cxRequest c)) in
           if \<not> hostMatches cfg host
           then (NewHTTPError 400 (''allowedhosts: host '' @ host @ '' is not permitted''), c)
           else nxt c)"

section \<open>Labels\<close>

definition labels :: "string \<Rightarrow> string list" where
  "labels host = splitOn (CHR ''.'') host"

text \<open>What an entry allows: a name, or, after a dot, a domain with all its subdomains.\<close>

definition entryAllows :: "string \<Rightarrow> string \<Rightarrow> bool" where
  "entryAllows h host =
     (case h of
        [] \<Rightarrow> host = []
      | c # d \<Rightarrow> if c = CHR ''.'' then suffix (labels (toLower d)) (labels (toLower host))
                 else toLower host = toLower h)"

lemma splitOn_inject: "splitOn c a = splitOn c b \<longleftrightarrow> a = b"
  by (metis join_splitOn)

lemma suffix_length_less: "suffix (x # xs) ys \<Longrightarrow> length xs < length ys"
  by (auto simp: suffix_def)

lemma splitOn_suffix:
  "suffix (splitOn c d) (splitOn c s) \<longleftrightarrow> s = d \<or> suffix (c # d) s"
proof (induction s)
  case Nil
  have "suffix (splitOn c d) [[]] \<longleftrightarrow> splitOn c d = splitOn c []" by (auto simp: suffix_Cons)
  then show ?case using splitOn_inject [of c d "[]"] by auto
next
  case (Cons x s)
  have eq: "splitOn c d = splitOn c t \<longleftrightarrow> d = t" for t by (rule splitOn_inject)
  show ?case
  proof (cases "x = c")
    case True
    have "suffix (splitOn c d) ([] # splitOn c s) \<longleftrightarrow> splitOn c d = splitOn c (c # s) \<or> suffix (splitOn c d) (splitOn c s)"
      by (simp add: suffix_Cons)
    then show ?thesis using Cons.IH eq [of "c # s"] True by (auto simp: suffix_Cons)
  next
    case False
    obtain p ps where s: "splitOn c s = p # ps" by (cases "splitOn c s") auto
    have tail: "suffix (splitOn c d) ps \<longleftrightarrow> suffix (c # d) s"
    proof (cases "d = s")
      case True
      then show ?thesis using suffix_length_less [of p ps ps] suffix_length_less [of c s s] s by auto
    next
      case ne: False
      then have "splitOn c d \<noteq> p # ps" using eq [of s] s by simp
      then show ?thesis using Cons.IH ne s by (auto simp: suffix_Cons)
    qed
    have "suffix (splitOn c d) ((x # p) # ps) \<longleftrightarrow> splitOn c d = splitOn c (x # s) \<or> suffix (splitOn c d) ps"
      using False s by (simp add: suffix_Cons)
    then show ?thesis using tail eq [of "x # s"] False s by (auto simp: suffix_Cons)
  qed
qed

lemma toLower_dot [simp]: "toLowerChar c = CHR ''.'' \<longleftrightarrow> c = CHR ''.''"
proof
  assume a: "toLowerChar c = CHR ''.''"
  show "c = CHR ''.''"
  proof (cases "65 \<le> (of_char c :: nat) \<and> (of_char c :: nat) \<le> 90")
    case True
    then have "(of_char (toLowerChar c) :: nat) = of_char c + 32" by (simp add: toLowerChar_def Let_def)
    then show ?thesis using a True by simp
  qed (use a in \<open>auto simp: toLowerChar_def Let_def\<close>)
qed (simp add: toLowerChar_def)

lemma matchesEntry_allows:
  "matchesEntry (toLower host) hs \<longleftrightarrow> (\<exists>h\<in>set hs. entryAllows h host)"
proof (induction hs)
  case (Cons h hs)
  have "(if hasPrefix (toLower h) ''.''
         then toLower host = tl (toLower h) \<or> hasSuffix (toLower host) (toLower h)
         else toLower host = toLower h) \<longleftrightarrow> entryAllows h host"
  proof (cases h)
    case Nil
    then show ?thesis by (simp add: entryAllows_def hasPrefix_def toLower_def)
  next
    case (Cons c d)
    have h: "toLower h = toLowerChar c # toLower d" by (simp add: Cons toLower_def)
    show ?thesis
    proof (cases "c = CHR ''.''")
      case True
      then have "toLower h = CHR ''.'' # toLower d" using h toLower_dot [of c] by simp
      then show ?thesis
        using splitOn_suffix [of "CHR ''.''" "toLower d" "toLower host"] True
        by (simp add: entryAllows_def Cons hasPrefix_def hasSuffix_def labels_def)
    next
      case False
      then show ?thesis using h by (simp add: entryAllows_def Cons hasPrefix_def eq_commute [of "CHR ''.''"])
    qed
  qed
  moreover have "matchesEntry (toLower host) (h # hs) \<longleftrightarrow>
      (if hasPrefix (toLower h) ''.''
       then toLower host = tl (toLower h) \<or> hasSuffix (toLower host) (toLower h)
       else toLower host = toLower h) \<or> matchesEntry (toLower host) hs"
    by (cases "hasPrefix (toLower h) ''.''") (simp_all add: Let_def)
  ultimately show ?case using Cons.IH by simp
qed simp

text \<open>With a configured allowlist, a request passes exactly when its host (without port, in any
  case) is one of the names, or is one of the dotted entries' domains or below one of them, label by
  label; any other request is answered 400 without running anything behind the
  middleware.\<close>

theorem allowedHosts_exact:
  assumes "hosts \<noteq> []"
  shows "allowedHosts (ahNewConfig [WithAllowedHosts hosts]) nxt c =
    (let host = stripPort (hrHost (cxRequest c)) in
     if ''*'' \<in> set hosts \<or> list_ex (\<lambda>h. entryAllows h host) hosts then nxt c
     else (Failed (HError (Some 400) (''allowedhosts: host '' @ host @ '' is not permitted'')), c))"
  using assms matchesEntry_allows
  by (simp add: allowedHosts_def ahNewConfig_def WithAllowedHosts_def hostMatches_def NewHTTPError_def
      Let_def list_ex_iff)

definition exampleRequest :: "string \<Rightarrow> string \<Rightarrow> request" where
  "exampleRequest m host = \<lparr>hrMethod = m, hrHost = host, hrPath = ''/'', hrRawQuery = [], hrHeader = noHeader,
     hrForm = (\<lambda>k. []), hrCookies = [], hrRemoteAddr = ''10.0.0.9:4711'', hrTLS = False\<rparr>"

theorem allowedHosts_exact_witness:
  "fst (allowedHosts (ahNewConfig [WithAllowedHosts [''.Example.com'']]) (String 200 ''ok'')
     (newContext () (exampleRequest ''GET'' ''evilexample.com:443''))) =
   Failed (HError (Some 400) ''allowedhosts: host evilexample.com is not permitted'')"
proof -
  let ?c = "newContext () (exampleRequest ''GET'' ''evilexample.com:443'')"
  have "stripPort (hrHost (cxRequest ?c)) = ''evilexample.com''"
    "\<not> entryAllows ''.Example.com'' ''evilexample.com''" by code_simp+
  then show ?thesis
    using allowedHosts_exact [of "[''.Example.com'']" "String 200 ''ok''" ?c] by (simp add: Let_def)
qed

end
