(* ===== verification/TrustedProxy.thy ===== *)
theory TrustedProxy
  imports Http
begin

text \<open>
  Client address and scheme behind proxies (\<open>trustedproxy/trustedproxy.go\<close>). \<open>net/netip\<close> is a
  parameter of the model: a record of its parsers, of \<open>Prefix.Contains\<close> and of \<open>Addr.String\<close>;
  no law of them is needed.
\<close>

record ('a, 'p) netip =
  npParseAddr :: "string \<Rightarrow> 'a option"
  npParsePrefix :: "string \<Rightarrow> 'p option"
  npPrefixFrom :: "'a \<Rightarrow> 'p"
  npContains :: "'p \<Rightarrow> 'a \<Rightarrow> bool"
  npString :: "'a \<Rightarrow> string"

record 'p tpConfig =
  tpTrusted :: "'p list"
  tpAssumeSSL :: bool

definition parsePrefix :: "('a, 'p) netip \<Rightarrow> string \<Rightarrow> 'p option" where
  "parsePrefix np raw =
     (if containsStr raw ''/'' then npParsePrefix np raw
      else map_option (npPrefixFrom np) (npParseAddr np raw))"

text \<open>\<open>None\<close> is the panic at start-up.\<close>

fun WithTrustedProxies :: "('a, 'p) netip \<Rightarrow> string list \<Rightarrow> 'p tpConfig \<Rightarrow> 'p tpConfig option" where
  "WithTrustedProxies np [] c = Some c"
| "WithTrustedProxies np (raw # cidrs) c =
     (case parsePrefix np raw of
        None \<Rightarrow> None
      | Some p \<Rightarrow> WithTrustedProxies np cidrs (c\<lparr>tpTrusted := tpTrusted c @ [p]\<rparr>))"

definition isTrusted :: "('a, 'p) netip \<Rightarrow> 'p tpConfig \<Rightarrow> 'a \<Rightarrow> bool" where
  "isTrusted np cfg addr = list_ex (\<lambda>p. npContains np p addr) (tpTrusted cfg)"

definition tpPeerHost :: "string \<Rightarrow> string" where
  "tpPeerHost remoteAddr = (case splitHostPort remoteAddr of None \<Rightarrow> remoteAddr | Some (host, _) \<Rightarrow> host)"

definition forwardedAddr :: "('a, 'p) netip \<Rightarrow> string \<Rightarrow> 'a option" where
  "forwardedAddr np entry0 =
     (let entry = trimSpace entry0 in
      npParseAddr np (case splitHostPort entry of None \<Rightarrow> entry | Some (host, _) \<Rightarrow> host))"

text \<open>The walk from the right: the entries come last first.\<close>

fun walkForwarded :: "('a, 'p) netip \<Rightarrow> 'p tpConfig \<Rightarrow> string list \<Rightarrow> string option" where
  "walkForwarded np cfg [] = None"
| "walkForwarded np cfg (part # parts) =
     (case forwardedAddr np part of
        None \<Rightarrow> None
      | Some addr \<Rightarrow> if isTrusted np cfg addr then walkForwarded np cfg parts else Some (npString np addr))"

definition resolveClientIP :: "('a, 'p) netip \<Rightarrow> 'p tpConfig \<Rightarrow> string \<Rightarrow> string option" where
  "resolveClientIP np cfg xff = walkForwarded np cfg (rev (splitOn (CHR '','') xff))"

definition firstEntry :: "string \<Rightarrow> string" where
  "firstEntry v = trimSpace (takeWhile (\<lambda>c. c \<noteq> CHR '','') v)"

definition ctxKeyClientIP :: string where "ctxKeyClientIP = ''trails/trustedproxy/clientip''"
definition ctxKeyScheme :: string where "ctxKeyScheme = ''trails/trustedproxy/scheme''"

definition ClientIP :: "'heap requestContext \<Rightarrow> string" where
  "ClientIP c = getString ctxKeyClientIP c"

definition Scheme :: "'heap requestContext \<Rightarrow> string" where
  "Scheme c = getString ctxKeyScheme c"

definition IsSecure :: "'heap requestContext \<Rightarrow> bool" where
  "IsSecure c \<longleftrightarrow> Scheme c = ''https''"

definition trustedPeer :: "('a, 'p) netip \<Rightarrow> 'p tpConfig \<Rightarrow> request \<Rightarrow> bool" where
  "trustedPeer np cfg r =
     (case npParseAddr np (tpPeerHost (hrRemoteAddr r)) of None \<Rightarrow> False | Some a \<Rightarrow> isTrusted np cfg a)"

definition clientIPOf :: "('a, 'p) netip \<Rightarrow> 'p tpConfig \<Rightarrow> request \<Rightarrow> string" where
  "clientIPOf np cfg r =
     (let peer = tpPeerHost (hrRemoteAddr r); xff = headerGet ''X-Forwarded-For'' (hrHeader r) in
      if trustedPeer np cfg r \<and> xff \<noteq> []
      then (case resolveClientIP np cfg xff of None \<Rightarrow> peer | Some ip \<Rightarrow> ip)
      else peer)"

definition schemeOf :: "('a, 'p) netip \<Rightarrow> 'p tpConfig \<Rightarrow> request \<Rightarrow> string" where
  "schemeOf np cfg r =
     (let own = (if hrTLS r then ''https'' else ''http'');
          xfp = headerGet ''X-Forwarded-Proto'' (hrHeader r); proto = firstEntry xfp in
      if tpAssumeSSL cfg then ''https''
      else if trustedPeer np cfg r \<and> xfp \<noteq> [] \<and> proto \<noteq> [] then toLower proto
      else own)"

definition trustedProxy :: "('a, 'p) netip \<Rightarrow> 'p tpConfig \<Rightarrow> 'heap middleware" where
  "trustedProxy np cfg nxt c =
     nxt (setString ctxKeyScheme (schemeOf np cfg (cxRequest c))
           (setString ctxKeyClientIP (clientIPOf np cfg (cxRequest c)) c))"

section \<open>What a client can make of it\<close>

lemma ClientIP_set [simp]: "ClientIP (setString ctxKeyScheme v (setString ctxKeyClientIP ip c)) = ip"
  by (simp add: ClientIP_def getString_def setString_def ctxKeyClientIP_def ctxKeyScheme_def)

lemma walkForwarded_skip:
  "list_all (\<lambda>p. case forwardedAddr np p of None \<Rightarrow> False | Some a \<Rightarrow> isTrusted np cfg a) ps \<Longrightarrow>
     walkForwarded np cfg (ps @ qs) = walkForwarded np cfg qs"
  by (induction ps) (auto split: option.splits)

lemma splitOn_joined:
  "\<forall>x\<in>set (p # ps). c \<notin> set x \<Longrightarrow> splitOn c (join [c] (p # ps)) = p # ps"
proof (induction ps arbitrary: p)
  case Nil
  have "c \<notin> set q \<Longrightarrow> splitOn c q = [q]" for q by (induction q) auto
  with Nil show ?case by simp
next
  case (Cons q ps)
  have "c \<notin> set p \<Longrightarrow> splitOn c (p @ c # s) = p # splitOn c s" for s by (induction p) auto
  with Cons show ?case by simp
qed

lemma splitOn_append:
  "\<exists>qs. splitOn c (a @ c # b) = qs @ splitOn c b"
proof (induction a)
  case (Cons x a)
  then obtain qs where qs: "splitOn c (a @ c # b) = qs @ splitOn c b" by blast
  show ?case
  proof (cases "x = c")
    case False
    have "qs \<noteq> []"
    proof
      assume "qs = []"
      then have "join [c] (splitOn c (a @ c # b)) = join [c] (splitOn c b)" using qs by simp
      then show False by (simp add: join_splitOn)
    qed
    with qs False show ?thesis by (cases qs) auto
  qed (use qs in \<open>auto intro: exI [of _ "[] # qs"]\<close>)
qed (auto intro: exI [of _ "[[]]"])


text \<open>\<open>netip\<close> on IPv4 addresses, for the instances below: the octets as a list.\<close>

definition parseIPv4 :: "string \<Rightarrow> nat list option" where
  "parseIPv4 s =
     (let ps = splitOn (CHR ''.'') s in
      if length ps = 4 \<and> list_all (\<lambda>p. p \<noteq> [] \<and> length p \<le> 3 \<and> list_all isDigit p
           \<and> (length p = 1 \<or> hd p \<noteq> CHR ''0'') \<and> digitsVal 0 p \<le> 255) ps
      then Some (map (digitsVal 0) ps) else None)"

definition ipv4 :: "(nat list, nat list) netip" where
  "ipv4 = \<lparr>npParseAddr = parseIPv4, npParsePrefix = (\<lambda>s. None), npPrefixFrom = (\<lambda>a. a),
     npContains = (\<lambda>p a. p = a), npString = (\<lambda>a. join ''.'' (map itoa a))\<rparr>"

definition proxiedRequest :: "string list \<Rightarrow> request" where
  "proxiedRequest xff = \<lparr>hrMethod = ''GET'', hrHost = ''example.com'', hrPath = ''/'', hrRawQuery = [],
     hrHeader = noHeader(''X-Forwarded-For'' := xff), hrForm = (\<lambda>k. []), hrCookies = [],
     hrRemoteAddr = ''10.0.0.1:80'', hrTLS = False\<rparr>"

definition proxyConfig :: "nat list tpConfig" where
  "proxyConfig = \<lparr>tpTrusted = [[10, 0, 0, 1], [10, 0, 0, 2]], tpAssumeSSL = False\<rparr>"

lemma proxiedRequest_facts:
  "WithTrustedProxies ipv4 [''10.0.0.1'', ''10.0.0.2''] \<lparr>tpTrusted = [], tpAssumeSSL = False\<rparr> = Some proxyConfig"
  "trustedPeer ipv4 proxyConfig (proxiedRequest xff)"
  "forwardedAddr ipv4 '' 203.0.113.9'' = Some [203, 0, 113, 9]"
  "forwardedAddr ipv4 '' 10.0.0.2'' = Some [10, 0, 0, 2]"
  "\<not> isTrusted ipv4 proxyConfig [203, 0, 113, 9]" "isTrusted ipv4 proxyConfig [10, 0, 0, 2]"
  "canonicalHeaderKey ''X-Forwarded-For'' = ''X-Forwarded-For''"
  "npString ipv4 [203, 0, 113, 9] = ''203.0.113.9''"
  by code_simp+


text \<open>A proxy that adds its own header line instead of extending the client's one: only the first
  line, the client's, is read.\<close>

theorem second_forwarded_line_ignored:
  assumes "forwardedAddr np fake = Some a" and "\<not> isTrusted np cfg a" and "CHR '','' \<notin> set fake" and "fake \<noteq> []"
    and "trustedPeer np cfg r" and "hrHeader r (canonicalHeaderKey ''X-Forwarded-For'') = [fake, real]"
  shows "clientIPOf np cfg r = npString np a"
proof -
  have "splitOn (CHR '','') fake = [fake]" using splitOn_joined [of fake "[]" "CHR '',''"] assms(3) by simp
  then show ?thesis using assms by (simp add: clientIPOf_def headerGet_def resolveClientIP_def Let_def)
qed

end
