(* ===== verification/Cors.thy ===== *)
theory Cors
  imports Http
begin

text \<open>
  Cross-origin resource sharing (\<open>cors/cors.go\<close>). \<open>int(d.Seconds())\<close> is the whole seconds of a
  duration in nanoseconds.
\<close>

record corsConfig =
  coAllowedOrigins :: "string list"
  coAllowAnyOrigin :: bool
  coAllowedMethods :: "string list"
  coAllowedHeaders :: "string list"
  coAllowAnyHeader :: bool
  coExposedHeaders :: "string list"
  coAllowCredentials :: bool
  coMaxAge :: int

type_synonym corsOption = "corsConfig \<Rightarrow> corsConfig"

definition WithAllowedOrigins :: "string list \<Rightarrow> corsOption" where
  "WithAllowedOrigins origins c = c\<lparr>coAllowedOrigins := origins, coAllowAnyOrigin := ''*'' \<in> set origins\<rparr>"

definition WithAllowedMethods :: "string list \<Rightarrow> corsOption" where
  "WithAllowedMethods methods c = c\<lparr>coAllowedMethods := methods\<rparr>"

definition WithAllowedHeaders :: "string list \<Rightarrow> corsOption" where
  "WithAllowedHeaders headers c = c\<lparr>coAllowedHeaders := headers, coAllowAnyHeader := ''*'' \<in> set headers\<rparr>"

definition WithExposedHeaders :: "string list \<Rightarrow> corsOption" where
  "WithExposedHeaders headers c = c\<lparr>coExposedHeaders := headers\<rparr>"

definition WithAllowCredentials :: "bool \<Rightarrow> corsOption" where
  "WithAllowCredentials b c = c\<lparr>coAllowCredentials := b\<rparr>"

definition WithCorsMaxAge :: "int \<Rightarrow> corsOption" where
  "WithCorsMaxAge d c = c\<lparr>coMaxAge := d\<rparr>"

definition corsNewConfig :: "corsOption list \<Rightarrow> corsConfig" where
  "corsNewConfig opts = fold (\<lambda>opt c. opt c) opts
     \<lparr>coAllowedOrigins = [], coAllowAnyOrigin = False,
      coAllowedMethods = [''GET'', ''HEAD'', ''POST'', ''PUT'', ''PATCH'', ''DELETE'', ''OPTIONS''],
      coAllowedHeaders = [''Accept'', ''Content-Type'', ''Authorization''], coAllowAnyHeader = False,
      coExposedHeaders = [], coAllowCredentials = False, coMaxAge = 0\<rparr>"

definition matchOrigin :: "corsConfig \<Rightarrow> string \<Rightarrow> bool" where
  "matchOrigin cfg origin =
     (if origin = [] then False else if coAllowAnyOrigin cfg then True else origin \<in> set (coAllowedOrigins cfg))"

definition allowOriginValue :: "corsConfig \<Rightarrow> string \<Rightarrow> string" where
  "allowOriginValue cfg origin = (if coAllowAnyOrigin cfg \<and> \<not> coAllowCredentials cfg then ''*'' else origin)"

definition isPreflight :: "request \<Rightarrow> bool" where
  "isPreflight r \<longleftrightarrow> hrMethod r = ''OPTIONS'' \<and> headerGet ''Access-Control-Request-Method'' (hrHeader r) \<noteq> []"

definition PreflightHandler :: "'heap handler" where
  "PreflightHandler c = (Done, c)"

text \<open>The headers both kinds of response share.\<close>

definition corsCommon :: "corsConfig \<Rightarrow> string \<Rightarrow> 'heap requestContext \<Rightarrow> 'heap requestContext" where
  "corsCommon cfg origin c =
     (let c1 = setHeader ''Access-Control-Allow-Origin'' (allowOriginValue cfg origin) c in
      if coAllowCredentials cfg then setHeader ''Access-Control-Allow-Credentials'' ''true'' c1 else c1)"

definition corsAllow :: "corsConfig \<Rightarrow> string \<Rightarrow> 'heap requestContext \<Rightarrow> 'heap requestContext" where
  "corsAllow cfg reqHeaders c =
     (let c1 = setHeader ''Access-Control-Allow-Methods'' (join '', '' (coAllowedMethods cfg)) c;
          c2 = (if coAllowAnyHeader cfg
                then (if reqHeaders \<noteq> [] then setHeader ''Access-Control-Allow-Headers'' reqHeaders c1 else c1)
                else setHeader ''Access-Control-Allow-Headers'' (join '', '' (coAllowedHeaders cfg)) c1)
      in if coMaxAge cfg > 0
         then setHeader ''Access-Control-Max-Age'' (formatInt (coMaxAge cfg div 1000000000)) c2 else c2)"

definition cors :: "corsConfig \<Rightarrow> 'heap middleware" where
  "cors cfg nxt c =
     (if coAllowedOrigins cfg = [] then nxt c
      else
        let r = cxRequest c; origin = headerGet ''Origin'' (hrHeader r); matched = matchOrigin cfg origin in
        if isPreflight r then
          (let c1 = addHeader ''Vary'' ''Access-Control-Request-Headers''
                      (addHeader ''Vary'' ''Access-Control-Request-Method'' (addHeader ''Vary'' ''Origin'' c));
               c2 = (if matched
                     then corsAllow cfg (headerGet ''Access-Control-Request-Headers'' (hrHeader r))
                            (corsCommon cfg origin c1)
                     else c1)
           in (Done, writeHeader 204 c2))
        else if \<not> matched then nxt c
        else
          (let c1 = corsCommon cfg origin (addHeader ''Vary'' ''Origin'' c);
               c2 = (if coExposedHeaders cfg \<noteq> []
                     then setHeader ''Access-Control-Expose-Headers'' (join '', '' (coExposedHeaders cfg)) c1 else c1)
           in nxt c2))"

section \<open>Who may read a response\<close>

text \<open>
  The Fetch check a browser makes before a script of \<open>origin\<close> reads a response with header map
  \<open>h\<close>; with credentials, \<open>*\<close> does not count and the credentials header must allow it.
\<close>

definition browserAllows :: "bool \<Rightarrow> string \<Rightarrow> header \<Rightarrow> bool" where
  "browserAllows withCredentials origin h \<longleftrightarrow>
     (let ao = headerGet ''Access-Control-Allow-Origin'' h in
      ao = origin \<and> ao \<noteq> [] \<and> (withCredentials \<longrightarrow> headerGet ''Access-Control-Allow-Credentials'' h = ''true'')
      \<or> (ao = ''*'' \<and> \<not> withCredentials))"

lemma canon_keys:
  "canonicalHeaderKey ''Vary'' = ''Vary''"
  "canonicalHeaderKey ''Origin'' = ''Origin''"
  "canonicalHeaderKey ''Access-Control-Allow-Origin'' = ''Access-Control-Allow-Origin''"
  "canonicalHeaderKey ''Access-Control-Allow-Credentials'' = ''Access-Control-Allow-Credentials''"
  "canonicalHeaderKey ''Access-Control-Allow-Methods'' = ''Access-Control-Allow-Methods''"
  "canonicalHeaderKey ''Access-Control-Allow-Headers'' = ''Access-Control-Allow-Headers''"
  "canonicalHeaderKey ''Access-Control-Max-Age'' = ''Access-Control-Max-Age''"
  "canonicalHeaderKey ''Access-Control-Expose-Headers'' = ''Access-Control-Expose-Headers''"
  by code_simp+

text \<open>The header map a request is passed on with.\<close>

definition corsPassed :: "corsConfig \<Rightarrow> 'heap requestContext \<Rightarrow> 'heap requestContext" where
  "corsPassed cfg c =
     (let origin = headerGet ''Origin'' (hrHeader (cxRequest c)) in
      if coAllowedOrigins cfg = [] \<or> \<not> matchOrigin cfg origin then c
      else let c1 = corsCommon cfg origin (addHeader ''Vary'' ''Origin'' c) in
           if coExposedHeaders cfg \<noteq> []
           then setHeader ''Access-Control-Expose-Headers'' (join '', '' (coExposedHeaders cfg)) c1 else c1)"

lemma cors_passes: "\<not> isPreflight (cxRequest c) \<Longrightarrow> cors cfg nxt c = nxt (corsPassed cfg c)"
  by (simp add: cors_def corsPassed_def Let_def)

lemma corsPassed_grant:
  assumes "ctxHeader c = noHeader" and "origin = headerGet ''Origin'' (hrHeader (cxRequest c))"
  shows "headerGet ''Access-Control-Allow-Origin'' (ctxHeader (corsPassed cfg c)) =
      (if coAllowedOrigins cfg \<noteq> [] \<and> matchOrigin cfg origin then allowOriginValue cfg origin else [])"
    and "headerGet ''Access-Control-Allow-Credentials'' (ctxHeader (corsPassed cfg c)) =
      (if coAllowedOrigins cfg \<noteq> [] \<and> matchOrigin cfg origin \<and> coAllowCredentials cfg then ''true'' else [])"
  using assms
  by (simp_all add: corsPassed_def corsCommon_def headerGet_Set canon_keys Let_def)
    (simp_all add: headerGet_def headerAdd_def noHeader_def canon_keys)

text \<open>For a configured allowlist, a browser lets a script of an origin read the response exactly when
  the origin is allowed, and with credentials exactly when these are allowed too; a request of
  another origin is served with no grant at all. The wildcard is never sent together with the
  credentials grant.\<close>

theorem cors_grants_exactly:
  assumes "coAllowedOrigins cfg \<noteq> []" and "coAllowAnyOrigin cfg \<longleftrightarrow> ''*'' \<in> set (coAllowedOrigins cfg)"
    and "origin = headerGet ''Origin'' (hrHeader (cxRequest c))" and "origin \<noteq> []" and "origin \<noteq> ''*''"
    and "\<not> isPreflight (cxRequest c)" and "ctxHeader c = noHeader"
  shows "\<exists>c'. (\<forall>nxt. cors cfg nxt c = nxt c')
    \<and> (browserAllows cred origin (ctxHeader c') \<longleftrightarrow>
         (''*'' \<in> set (coAllowedOrigins cfg) \<or> origin \<in> set (coAllowedOrigins cfg)) \<and> (\<not> cred \<or> coAllowCredentials cfg))
    \<and> \<not> (headerGet ''Access-Control-Allow-Origin'' (ctxHeader c') = ''*''
          \<and> headerGet ''Access-Control-Allow-Credentials'' (ctxHeader c') = ''true'')"
proof (intro exI [of _ "corsPassed cfg c"] conjI allI)
  note grant = corsPassed_grant [OF assms(7,3), of cfg]
  show "cors cfg nxt c = nxt (corsPassed cfg c)" for nxt by (rule cors_passes [OF assms(6)])
  have m: "matchOrigin cfg origin \<longleftrightarrow> ''*'' \<in> set (coAllowedOrigins cfg) \<or> origin \<in> set (coAllowedOrigins cfg)"
    using assms(2,4) by (simp add: matchOrigin_def)
  show "browserAllows cred origin (ctxHeader (corsPassed cfg c)) \<longleftrightarrow>
         (''*'' \<in> set (coAllowedOrigins cfg) \<or> origin \<in> set (coAllowedOrigins cfg)) \<and> (\<not> cred \<or> coAllowCredentials cfg)"
    using assms(1,2,4,5) m by (auto simp: browserAllows_def grant allowOriginValue_def Let_def)
  show "\<not> (headerGet ''Access-Control-Allow-Origin'' (ctxHeader (corsPassed cfg c)) = ''*''
          \<and> headerGet ''Access-Control-Allow-Credentials'' (ctxHeader (corsPassed cfg c)) = ''true'')"
    using assms(5) by (auto simp: grant allowOriginValue_def)
qed

definition corsRequest :: "string \<Rightarrow> request" where
  "corsRequest origin = \<lparr>hrMethod = ''GET'', hrHost = ''api.example.com'', hrPath = ''/'', hrRawQuery = [],
     hrHeader = noHeader(''Origin'' := [origin]), hrForm = (\<lambda>k. []), hrCookies = [],
     hrRemoteAddr = ''10.0.0.9:4711'', hrTLS = True\<rparr>"

definition corsExample :: corsConfig where
  "corsExample = corsNewConfig [WithAllowedOrigins [''https://app.example.com''], WithAllowCredentials True]"

theorem cors_grants_exactly_witness:
  "\<exists>c'. (\<forall>nxt. cors corsExample nxt (newContext () (corsRequest ''https://app.example.com'')) = nxt c')
    \<and> browserAllows True ''https://app.example.com'' (ctxHeader c')"
proof -
  let ?c = "newContext () (corsRequest ''https://app.example.com'')"
  have "headerGet ''Origin'' (hrHeader (cxRequest ?c)) = ''https://app.example.com''" by code_simp
  moreover have "ctxHeader ?c = noHeader" "\<not> isPreflight (cxRequest ?c)"
    by (simp_all add: newContext_def ctxHeader_def newResponse_def isPreflight_def corsRequest_def)
  moreover have "coAllowedOrigins corsExample = [''https://app.example.com'']" "coAllowCredentials corsExample"
    "\<not> coAllowAnyOrigin corsExample"
    by (simp_all add: corsExample_def corsNewConfig_def WithAllowedOrigins_def WithAllowCredentials_def)
  ultimately show ?thesis
    using cors_grants_exactly [of corsExample "''https://app.example.com''" ?c True] by auto
qed

text \<open>A preflight request is always answered 204, and the handler does not run.\<close>

definition unsent :: "'heap requestContext \<Rightarrow> bool" where
  "unsent c \<longleftrightarrow> (\<exists>r. cxWriter c = Net r \<and> rsStatus r = None)"

lemma unsent_headers [simp]: "unsent c \<Longrightarrow> unsent (setHeader k v c)" "unsent c \<Longrightarrow> unsent (addHeader k v c)"
  by (auto simp: unsent_def setHeader_def addHeader_def)

lemma unsent_cors [simp]: "unsent c \<Longrightarrow> unsent (corsCommon cfg origin c)" "unsent c \<Longrightarrow> unsent (corsAllow cfg hs c)"
  by (simp_all add: corsCommon_def corsAllow_def Let_def)

lemma preflight_answered:
  assumes "coAllowedOrigins cfg \<noteq> []" and "isPreflight (cxRequest c)" and "cxWriter c = Net newResponse"
  shows "\<exists>c'. (\<forall>nxt. cors cfg nxt c = (Done, c')) \<and> rsStatus (wrBase (cxWriter c')) = Some 204"
proof -
  have "unsent c" using assms(3) by (simp add: unsent_def newResponse_def)
  then obtain c2 where c2: "\<And>nxt. cors cfg nxt c = (Done, writeHeader 204 c2)" and "unsent c2"
    using assms(1,2) by (simp add: cors_def Let_def)
  then have "rsStatus (wrBase (cxWriter (writeHeader 204 c2))) = Some 204"
    by (auto simp: unsent_def writeHeader_def respWriteHeader_def)
  with c2 show ?thesis by blast
qed

end
