(* ===== verification/SecureHeaders.thy ===== *)
theory SecureHeaders
  imports Http "HOL-Library.List_Lexorder" "HOL-Library.Char_ord"
begin

text \<open>
  Security headers (\<open>secureheaders/secureheaders.go\<close>). The directive map of a
  Content-Security-Policy is an association list with distinct names, of which Go visits
  the keys in sorted order.
\<close>

record shConfig =
  shHSTSMaxAge :: int
  shIncludeSubDomains :: bool
  shPreload :: bool
  shNosniff :: bool
  shFrameOptions :: string
  shReferrerPolicy :: string
  shCSP :: "(string \<times> string list) list"

type_synonym shOption = "shConfig \<Rightarrow> shConfig"

definition WithHSTSMaxAge :: "int \<Rightarrow> shOption" where
  "WithHSTSMaxAge d c = c\<lparr>shHSTSMaxAge := d\<rparr>"

definition WithHSTSIncludeSubDomains :: "bool \<Rightarrow> shOption" where
  "WithHSTSIncludeSubDomains b c = c\<lparr>shIncludeSubDomains := b\<rparr>"

definition WithHSTSPreload :: "bool \<Rightarrow> shOption" where
  "WithHSTSPreload b c = c\<lparr>shPreload := b\<rparr>"

definition WithContentTypeNosniff :: "bool \<Rightarrow> shOption" where
  "WithContentTypeNosniff b c = c\<lparr>shNosniff := b\<rparr>"

definition WithFrameOptions :: "string \<Rightarrow> shOption" where
  "WithFrameOptions v c = c\<lparr>shFrameOptions := v\<rparr>"

definition WithReferrerPolicy :: "string \<Rightarrow> shOption" where
  "WithReferrerPolicy p c = c\<lparr>shReferrerPolicy := p\<rparr>"

definition WithCSP :: "(string \<times> string list) list \<Rightarrow> shOption" where
  "WithCSP directives c = c\<lparr>shCSP := directives\<rparr>"

definition shDefault :: shConfig where
  "shDefault = \<lparr>shHSTSMaxAge = 2 * 365 * 24 * 3600 * 1000000000, shIncludeSubDomains = True, shPreload = False,
     shNosniff = True, shFrameOptions = ''DENY'', shReferrerPolicy = ''strict-origin-when-cross-origin'', shCSP = []\<rparr>"

definition shNewConfig :: "shOption list \<Rightarrow> shConfig" where
  "shNewConfig opts = fold (\<lambda>opt c. opt c) opts shDefault"

definition hstsValue :: "shConfig \<Rightarrow> string" where
  "hstsValue cfg =
     ''max-age='' @ formatInt (shHSTSMaxAge cfg div 1000000000)
       @ (if shIncludeSubDomains cfg then ''; includeSubDomains'' else [])
       @ (if shPreload cfg then ''; preload'' else [])"

definition cspValue :: "(string \<times> string list) list \<Rightarrow> string" where
  "cspValue directives =
     join ''; '' (map (\<lambda>name. name @ '' '' @ join '' '' (the (map_of directives name))) (sort (map fst directives)))"

definition buildHeaders :: "shConfig \<Rightarrow> (string \<times> string) list" where
  "buildHeaders cfg =
     (if shHSTSMaxAge cfg > 0 then [(''Strict-Transport-Security'', hstsValue cfg)] else [])
     @ (if shNosniff cfg then [(''X-Content-Type-Options'', ''nosniff'')] else [])
     @ (if shFrameOptions cfg \<noteq> [] then [(''X-Frame-Options'', shFrameOptions cfg)] else [])
     @ (if shReferrerPolicy cfg \<noteq> [] then [(''Referrer-Policy'', shReferrerPolicy cfg)] else [])
     @ (if shCSP cfg \<noteq> [] then [(''Content-Security-Policy'', cspValue (shCSP cfg))] else [])"

definition secureHeaders :: "shConfig \<Rightarrow> 'heap middleware" where
  "secureHeaders cfg nxt c = nxt (fold (\<lambda>(k, v). setHeader k v) (buildHeaders cfg) c)"

section \<open>Which responses carry them\<close>

definition shKeys :: "string list" where
  "shKeys = [''Strict-Transport-Security'', ''X-Content-Type-Options'', ''X-Frame-Options'', ''Referrer-Policy'',
     ''Content-Security-Policy'']"

lemma shKeys_canonical: "list_all (\<lambda>k. canonicalHeaderKey k = k) shKeys"
  by code_simp

lemma buildHeaders_keys: "set (map fst (buildHeaders cfg)) \<subseteq> set shKeys \<and> distinct (map fst (buildHeaders cfg))"
  by (simp add: buildHeaders_def shKeys_def)

lemma buildHeaders_nosniff: "(''X-Content-Type-Options'', v) \<in> set (buildHeaders cfg) \<Longrightarrow> v = ''nosniff''"
  by (simp add: buildHeaders_def split: if_splits)

lemma setHeaders_other:
  "k \<notin> set (map fst kvs) \<Longrightarrow> list_all (\<lambda>k. canonicalHeaderKey k = k) (map fst kvs) \<Longrightarrow>
     ctxHeader (fold (\<lambda>(k, v). setHeader k v) kvs c) k = ctxHeader c k"
proof (induction kvs arbitrary: c)
  case (Cons p kvs)
  then show ?case by (cases p) (simp add: headerSet_def)
qed simp

lemma setHeaders_header:
  "distinct (map fst kvs) \<Longrightarrow> list_all (\<lambda>k. canonicalHeaderKey k = k) (map fst kvs) \<Longrightarrow> (k, v) \<in> set kvs \<Longrightarrow>
     ctxHeader (fold (\<lambda>(k, v). setHeader k v) kvs c) k = [v]"
proof (induction kvs arbitrary: c)
  case (Cons p kvs)
  obtain k0 v0 where p: "p = (k0, v0)" by (cases p)
  show ?case
  proof (cases "(k, v) = p")
    case True
    then show ?thesis using Cons.prems(1,2) setHeaders_other [of k kvs "setHeader k v c"] p by (simp add: headerSet_def)
  next
    case False
    then show ?thesis using Cons p by auto
  qed
qed simp

lemma secureHeaders_set:
  assumes "(k, v) \<in> set (buildHeaders cfg)"
  shows "ctxHeader (fold (\<lambda>(k, v). setHeader k v) (buildHeaders cfg) c) k = [v]"
  using assms shKeys_canonical buildHeaders_keys [of cfg]
  by (intro setHeaders_header) (auto simp: list_all_iff)

text \<open>The policy does not depend on the order in which Go visits the directive map.\<close>

lemma cspValue_order:
  assumes "distinct (map fst d1)" and "distinct (map fst d2)" and "set d1 = set d2"
  shows "cspValue d1 = cspValue d2"
proof -
  have "sort (map fst d1) = sort (map fst d2)"
    using assms by (intro sorted_distinct_set_unique) simp_all
  moreover have "map_of d1 = map_of d2" using assms by (simp add: map_of_inject_set)
  ultimately show ?thesis by (simp add: cspValue_def)
qed

end
