(* ===== verification/Base64.thy ===== *)
theory Base64
  imports Prelude
begin

text \<open>
  The part of \<open>encoding/base64\<close> that sessions, CSRF tokens, credentials and signed tokens use:
  the standard and the URL alphabet, padded and unpadded, with Go's (non-strict) decoder,
  which skips line breaks and does not check the unused bits of the last digit. The rest of
  the development rests on the round trip of a codec, stated as a locale and interpreted for
  every alphabet and padding.
\<close>

locale codec =
  fixes enc :: "bytes \<Rightarrow> string" and dec :: "string \<Rightarrow> bytes option"
  assumes dec_enc: "dec (enc b) = Some b"
begin

lemma enc_inject: "enc a = enc b \<longleftrightarrow> a = b"
  by (metis dec_enc option.inject)

lemma dec_unique: "dec (enc a) = Some b \<longleftrightarrow> a = b"
  by (simp add: dec_enc)

end

section \<open>Digits\<close>

definition b64Alphabet :: "bool \<Rightarrow> string" where
  "b64Alphabet url = ''ABCDEFGHIJKLMNOPQRSTUVWXYZabcdefghijklmnopqrstuvwxyz0123456789'' @ (if url then ''-_'' else ''+/'')"

definition b64Char :: "bool \<Rightarrow> nat \<Rightarrow> char" where
  "b64Char url n = b64Alphabet url ! n"

definition b64Digit :: "bool \<Rightarrow> char \<Rightarrow> nat option" where
  "b64Digit url c = find (\<lambda>i. b64Alphabet url ! i = c) [0..<64]"

lemma b64_digit_all: "\<forall>url. list_all (\<lambda>n. b64Digit url (b64Char url n) = Some n
    \<and> b64Char url n \<notin> set [CHR ''='', CHR 0x0A, CHR 0x0D, CHR '' '']) [0..<64]"
  by code_simp

lemma b64Digit_Char [simp]: "n < 64 \<Longrightarrow> b64Digit url (b64Char url n) = Some n"
  using b64_digit_all by (auto simp: list_all_iff)

lemma b64Char_plain:
  assumes "n < 64"
  shows "b64Char url n \<noteq> CHR ''=''" "b64Char url n \<noteq> CHR 0x0A" "b64Char url n \<noteq> CHR 0x0D" "b64Char url n \<noteq> CHR '' ''"
  using b64_digit_all [rule_format, of url] assms by (auto simp: list_all_iff)

section \<open>Encoding\<close>

fun b64Encode :: "bool \<Rightarrow> bool \<Rightarrow> bytes \<Rightarrow> string" where
  "b64Encode url pad [] = []"
| "b64Encode url pad [a] =
     (let x = of_char a :: nat in
      [b64Char url (x div 4), b64Char url (x mod 4 * 16)] @ (if pad then ''=='' else []))"
| "b64Encode url pad [a, b] =
     (let x = of_char a :: nat; y = of_char b in
      [b64Char url (x div 4), b64Char url (x mod 4 * 16 + y div 16), b64Char url (y mod 16 * 4)]
        @ (if pad then ''='' else []))"
| "b64Encode url pad (a # b # c # r) =
     (let x = of_char a :: nat; y = of_char b; z = of_char c in
      [b64Char url (x div 4), b64Char url (x mod 4 * 16 + y div 16), b64Char url (y mod 16 * 4 + z div 64),
       b64Char url (z mod 64)] @ b64Encode url pad r)"

section \<open>Decoding\<close>

definition byte1 :: "nat \<Rightarrow> nat \<Rightarrow> char" where
  "byte1 p q = char_of (p * 4 + q div 16)"

definition byte2 :: "nat \<Rightarrow> nat \<Rightarrow> char" where
  "byte2 q r = char_of (q mod 16 * 16 + r div 4)"

definition byte3 :: "nat \<Rightarrow> nat \<Rightarrow> char" where
  "byte3 r s = char_of (r mod 4 * 64 + s)"

fun b64Quads :: "bool \<Rightarrow> bool \<Rightarrow> string \<Rightarrow> bytes option" where
  "b64Quads url pad [] = Some []"
| "b64Quads url pad [a] = None"
| "b64Quads url pad [a, b] =
     (case (b64Digit url a, b64Digit url b) of
        (Some p, Some q) \<Rightarrow> if pad then None else Some [byte1 p q] | _ \<Rightarrow> None)"
| "b64Quads url pad [a, b, c] =
     (case (b64Digit url a, b64Digit url b, b64Digit url c) of
        (Some p, Some q, Some r) \<Rightarrow> if pad then None else Some [byte1 p q, byte2 q r] | _ \<Rightarrow> None)"
| "b64Quads url pad (a # b # c # d # rest) =
     (case (b64Digit url a, b64Digit url b) of
        (Some p, Some q) \<Rightarrow>
          if pad \<and> c = CHR ''='' then (if d = CHR ''='' \<and> rest = [] then Some [byte1 p q] else None)
          else (case b64Digit url c of
                  None \<Rightarrow> None
                | Some r \<Rightarrow>
                    if pad \<and> d = CHR ''='' then (if rest = [] then Some [byte1 p q, byte2 q r] else None)
                    else (case (b64Digit url d, b64Quads url pad rest) of
                            (Some s, Some bs) \<Rightarrow> Some (byte1 p q # byte2 q r # byte3 r s # bs)
                          | _ \<Rightarrow> None))
      | _ \<Rightarrow> None)"

definition b64Decode :: "bool \<Rightarrow> bool \<Rightarrow> string \<Rightarrow> bytes option" where
  "b64Decode url pad s = b64Quads url pad (filter (\<lambda>c. c \<noteq> CHR 0x0A \<and> c \<noteq> CHR 0x0D) s)"

section \<open>The round trip\<close>

lemma of_char_less [simp]: "(of_char c :: nat) < 256"
  by simp

lemma digit_bounds [simp]:
  "(of_char a :: nat) div 4 < 64" "(of_char a :: nat) mod 4 * 16 < 64"
  "(of_char a :: nat) mod 4 * 16 + of_char b div 16 < 64" "(of_char b :: nat) mod 16 * 4 < 64"
  "(of_char b :: nat) mod 16 * 4 + of_char c div 64 < 64" "(of_char c :: nat) mod 64 < 64"
  using of_char_less [of a] of_char_less [of b] of_char_less [of c] by linarith+

lemma bytes_back [simp]:
  "byte1 (of_char a div 4) (of_char a mod 4 * 16) = a"
  "byte1 (of_char a div 4) (of_char a mod 4 * 16 + of_char b div 16) = a"
  "byte2 (of_char a mod 4 * 16 + of_char b div 16) (of_char b mod 16 * 4) = b"
  "byte2 (of_char a mod 4 * 16 + of_char b div 16) (of_char b mod 16 * 4 + of_char c div 64) = b"
  "byte3 (of_char b mod 16 * 4 + of_char c div 64) (of_char c mod 64) = c"
proof -
  have a: "(of_char a :: nat) div 4 * 4 + of_char a mod 4 = of_char a"
    and b: "(of_char b :: nat) div 16 * 16 + of_char b mod 16 = of_char b"
    and c: "(of_char c :: nat) div 64 * 64 + of_char c mod 64 = of_char c" by simp_all
  have small: "(of_char b :: nat) div 16 < 16" "(of_char c :: nat) div 64 < 4"
    using of_char_less [of b] of_char_less [of c] by linarith+
  show "byte1 (of_char a div 4) (of_char a mod 4 * 16) = a" by (simp add: byte1_def)
  show "byte1 (of_char a div 4) (of_char a mod 4 * 16 + of_char b div 16) = a"
    using small by (simp add: byte1_def)
  show "byte2 (of_char a mod 4 * 16 + of_char b div 16) (of_char b mod 16 * 4) = b"
    using small b by (simp add: byte2_def)
  show "byte2 (of_char a mod 4 * 16 + of_char b div 16) (of_char b mod 16 * 4 + of_char c div 64) = b"
    using small b by (simp add: byte2_def)
  show "byte3 (of_char b mod 16 * 4 + of_char c div 64) (of_char c mod 64) = c"
    using small c by (simp add: byte3_def)
qed

lemma b64Encode_no_breaks:
  "filter (\<lambda>c. c \<noteq> CHR 0x0A \<and> c \<noteq> CHR 0x0D) (b64Encode url pad bs) = b64Encode url pad bs"
  by (induction url pad bs rule: b64Encode.induct) (simp_all add: Let_def b64Char_plain)

lemma b64Quads_Encode: "b64Quads url pad (b64Encode url pad bs) = Some bs"
  by (induction url pad bs rule: b64Encode.induct) (simp_all add: Let_def b64Char_plain)

lemma b64_roundtrip: "b64Decode url pad (b64Encode url pad bs) = Some bs"
  by (simp add: b64Decode_def b64Encode_no_breaks b64Quads_Encode)

interpretation b64: codec "b64Encode url pad" "b64Decode url pad" for url pad
  by unfold_locales (rule b64_roundtrip)

lemma b64Encode_chars: "set (b64Encode url pad bs) \<subseteq> set (b64Alphabet url) \<union> {CHR ''=''}"
proof -
  have "b64Char url n \<in> set (b64Alphabet url)" if "n < 64" for n
    unfolding b64Char_def using that by (intro nth_mem) (simp add: b64Alphabet_def)
  then show ?thesis
    by (induction url pad bs rule: b64Encode.induct) (auto simp: Let_def)
qed

end
