(* ===== verification/Credentials.thy ===== *)
theory Credentials
  imports Base64
begin

text \<open>
  Encryption at rest and in cookies (\<open>internal/credentials/credentials.go\<close>, \<open>credentials.go\<close>).
  AES-256-GCM is a parameter: a record of \<open>Seal\<close> and \<open>Open\<close>, of which \<open>aeadOk\<close> states the
  documented behaviour. Random nonces are arguments. Environment, files and TOML are
  parameters of the loader; environment names have no path elements.
\<close>

record aead =
  aeSeal :: "bytes \<Rightarrow> bytes \<Rightarrow> bytes \<Rightarrow> bytes"
  aeOpen :: "bytes \<Rightarrow> bytes \<Rightarrow> bytes \<Rightarrow> bytes option"

definition nonceSize :: nat where
  "nonceSize = 12"

text \<open>\<open>Open\<close> inverts \<open>Seal\<close>, and accepts nothing else.\<close>

definition aeadOk :: "aead \<Rightarrow> bool" where
  "aeadOk ae \<longleftrightarrow> (\<forall>k n c p. length k = 32 \<longrightarrow> length n = nonceSize \<longrightarrow>
     (aeOpen ae k n c = Some p \<longleftrightarrow> c = aeSeal ae k n p))"

section \<open>Hexadecimal keys\<close>

definition hexVal :: "char \<Rightarrow> nat option" where
  "hexVal c =
     (let n = of_char c :: nat in
      if 48 \<le> n \<and> n \<le> 57 then Some (n - 48)
      else if 97 \<le> n \<and> n \<le> 102 then Some (n - 87)
      else if 65 \<le> n \<and> n \<le> 70 then Some (n - 55)
      else None)"

fun hexDecode :: "string \<Rightarrow> bytes option" where
  "hexDecode [] = Some []"
| "hexDecode [a] = None"
| "hexDecode (a # b # s) =
     (case (hexVal a, hexVal b, hexDecode s) of
        (Some x, Some y, Some bs) \<Rightarrow> Some (char_of (16 * x + y) # bs)
      | _ \<Rightarrow> None)"

definition hexChar :: "nat \<Rightarrow> char" where
  "hexChar n = ''0123456789abcdef'' ! n"

definition hexEncode :: "bytes \<Rightarrow> string" where
  "hexEncode bs = concat (map (\<lambda>c. [hexChar (of_char c div 16), hexChar (of_char c mod 16)]) bs)"

lemma hexVal_all: "list_all (\<lambda>n. hexVal (hexChar n) = Some n) [0..<16]"
  by code_simp

lemma hexVal_Char [simp]: "n < 16 \<Longrightarrow> hexVal (hexChar n) = Some n"
  using hexVal_all by (auto simp: list_all_iff)

lemma hex_roundtrip: "hexDecode (hexEncode bs) = Some bs"
proof (induction bs)
  case (Cons c bs)
  have "(of_char c :: nat) div 16 < 16" using of_char_less [of c] by linarith
  then show ?case using Cons.IH by (simp add: hexEncode_def)
qed (simp add: hexEncode_def)

interpretation hexc: codec hexEncode hexDecode
  by unfold_locales (rule hex_roundtrip)

section \<open>Encryption\<close>

datatype credError =
    BadKey
  | KeyLength nat
  | BadEncoding
  | TooShort
  | WrongKeyOrCorrupted
  | NoMasterKey string
  | ReadFailed string string
  | ParseFailed string

definition GenerateKey :: "bytes \<Rightarrow> string" where
  "GenerateKey random32 = hexEncode random32"

definition newGCM :: "string \<Rightarrow> credError + bytes" where
  "newGCM hexKey =
     (case hexDecode (trimSpace hexKey) of
        None \<Rightarrow> Inl BadKey
      | Some key \<Rightarrow> if length key \<noteq> 32 then Inl (KeyLength (length key)) else Inr key)"

definition Encrypt :: "aead \<Rightarrow> bytes \<Rightarrow> string \<Rightarrow> bytes \<Rightarrow> credError + string" where
  "Encrypt ae nonce hexKey plaintext =
     rbind (newGCM hexKey) (\<lambda>key.
       Inr (b64Encode False True (nonce @ aeSeal ae key nonce plaintext) @ [CHR 0x0A]))"

definition Decrypt :: "aead \<Rightarrow> string \<Rightarrow> string \<Rightarrow> credError + bytes" where
  "Decrypt ae hexKey encoded =
     rbind (newGCM hexKey) (\<lambda>key.
       case b64Decode False True (trimSpace encoded) of
         None \<Rightarrow> Inl BadEncoding
       | Some d \<Rightarrow>
           if length d < nonceSize then Inl TooShort
           else (case aeOpen ae key (take nonceSize d) (drop nonceSize d) of
                   None \<Rightarrow> Inl WrongKeyOrCorrupted
                 | Some p \<Rightarrow> Inr p))"

lemma not_isSpace_b64: "c \<in> set (b64Encode url pad bs) \<Longrightarrow> \<not> isSpace c"
proof -
  assume "c \<in> set (b64Encode url pad bs)"
  then have "c \<in> set (b64Alphabet url) \<union> {CHR ''=''}" using b64Encode_chars by blast
  moreover have "\<forall>url. list_all (\<lambda>c. \<not> isSpace c) (CHR ''='' # b64Alphabet url)" by code_simp
  ultimately show ?thesis unfolding list_all_iff by auto
qed

lemma trimSpace_b64 [simp]: "trimSpace (b64Encode url pad bs) = b64Encode url pad bs"
  by (rule trimSpace_id) (simp add: not_isSpace_b64)

lemma trimSpace_newline: "trimSpace (s @ [CHR 0x0A]) = trimSpace s"
proof (cases "dropWhile isSpace s = []")
  case True
  then have "dropWhile isSpace (s @ [CHR 0x0A]) = []"
    by (simp only: dropWhile_eq_Nil_conv) (simp add: isSpace_def)
  with True show ?thesis unfolding trimSpace_def by (simp only:)
next
  case False
  then have "dropWhile isSpace (s @ [CHR 0x0A]) = dropWhile isSpace s @ [CHR 0x0A]"
    by (simp add: dropWhile_append)
  then show ?thesis by (simp add: trimSpace_def isSpace_def)
qed

lemma trimSpace_b64_newline [simp]: "trimSpace (b64Encode url pad bs @ [CHR 0x0A]) = b64Encode url pad bs"
  by (simp add: trimSpace_newline)

lemma newGCM_length: "newGCM hexKey = Inr key \<Longrightarrow> length key = 32"
  by (auto simp: newGCM_def split: option.splits if_splits)

text \<open>What decrypts is exactly what was encrypted, with the same key.\<close>

lemma Decrypt_iff:
  assumes "aeadOk ae" and "newGCM hexKey = Inr key"
  shows "Decrypt ae hexKey encoded = Inr p \<longleftrightarrow>
    (\<exists>d. b64Decode False True (trimSpace encoded) = Some d \<and> nonceSize \<le> length d
       \<and> drop nonceSize d = aeSeal ae key (take nonceSize d) p)"
proof -
  have "aeOpen ae key (take nonceSize d) c = Some p \<longleftrightarrow> c = aeSeal ae key (take nonceSize d) p"
    if "nonceSize \<le> length d" for c d
    using assms newGCM_length [OF assms(2)] that unfolding aeadOk_def by simp
  note opens = this
  show ?thesis
  proof (cases "b64Decode False True (trimSpace encoded)")
    case (Some d)
    show ?thesis
    proof (cases "nonceSize \<le> length d")
      case True
      then show ?thesis using opens [OF True, of "drop nonceSize d"] Some assms(2)
        by (cases "aeOpen ae key (take nonceSize d) (drop nonceSize d)") (auto simp: Decrypt_def)
    qed (use Some assms(2) in \<open>simp add: Decrypt_def\<close>)
  qed (use assms(2) in \<open>simp add: Decrypt_def\<close>)
qed

lemma Decrypt_Encrypt:
  assumes "aeadOk ae" and "Encrypt ae nonce hexKey p = Inr s" and "length nonce = nonceSize"
  shows "Decrypt ae hexKey s = Inr p" and "Decrypt ae hexKey (trimSpace s) = Inr p"
proof -
  obtain key where key: "newGCM hexKey = Inr key"
    and s: "s = b64Encode False True (nonce @ aeSeal ae key nonce p) @ [CHR 0x0A]"
    using assms(2) by (auto simp: Encrypt_def rbind_eq_Inr)
  show "Decrypt ae hexKey s = Inr p"
    unfolding Decrypt_iff [OF assms(1) key] s by (simp add: b64_roundtrip assms(3))
  show "Decrypt ae hexKey (trimSpace s) = Inr p"
    unfolding Decrypt_iff [OF assms(1) key] s by (simp add: b64_roundtrip assms(3))
qed

section \<open>The credentials files\<close>

definition KeyPath :: "string \<Rightarrow> string" where
  "KeyPath environment = ''config/credentials/'' @ environment @ ''.key''"

definition EncPath :: "string \<Rightarrow> string" where
  "EncPath environment = ''config/credentials/'' @ environment @ ''.toml.enc''"

definition RelEncPath :: "string \<Rightarrow> string" where
  "RelEncPath environment = ''credentials/'' @ environment @ ''.toml.enc''"

text \<open>A file: missing, unreadable for a reason, or its contents.\<close>

datatype fileRead = Missing | Unreadable string | Contents bytes

definition ResolveKey :: "string \<Rightarrow> (string \<Rightarrow> fileRead) \<Rightarrow> string \<Rightarrow> credError + string" where
  "ResolveKey masterKeyEnv files environment =
     (if masterKeyEnv \<noteq> [] then Inr masterKeyEnv
      else case files (KeyPath environment) of
             Missing \<Rightarrow> Inl (NoMasterKey environment)
           | Unreadable e \<Rightarrow> Inl (ReadFailed (KeyPath environment) e)
           | Contents d \<Rightarrow> Inr (trimSpace d))"

text \<open>\<open>Inr None\<close> is \<open>ok = false\<close>.\<close>

definition ReadDecrypted ::
    "aead \<Rightarrow> string \<Rightarrow> (string \<Rightarrow> fileRead) \<Rightarrow> (string \<Rightarrow> fileRead) \<Rightarrow> string \<Rightarrow> credError + bytes option" where
  "ReadDecrypted ae masterKeyEnv files fsys environment =
     (case fsys (RelEncPath environment) of
        Missing \<Rightarrow> Inr None
      | Unreadable e \<Rightarrow> Inl (ReadFailed (RelEncPath environment) e)
      | Contents d \<Rightarrow>
          rbind (ResolveKey masterKeyEnv files environment) (\<lambda>key.
            rbind (Decrypt ae key d) (\<lambda>p. Inr (Some p))))"

text \<open>\<open>LoadCredentials\<close>: \<open>toml\<close> fills the zero value or fails.\<close>

definition LoadCredentials ::
    "(bytes \<Rightarrow> 't \<Rightarrow> 't option) \<Rightarrow> 't \<Rightarrow> aead \<Rightarrow> string \<Rightarrow> (string \<Rightarrow> fileRead) \<Rightarrow> (string \<Rightarrow> fileRead) \<Rightarrow> string \<Rightarrow> credError + 't" where
  "LoadCredentials toml zero ae masterKeyEnv files fsys environment =
     rbind (ReadDecrypted ae masterKeyEnv files fsys environment) (\<lambda>r.
       case r of
         None \<Rightarrow> Inr zero
       | Some p \<Rightarrow> (case toml p zero of None \<Rightarrow> Inl (ParseFailed environment) | Some t \<Rightarrow> Inr t))"

definition DefaultContents :: "string \<Rightarrow> bytes" where
  "DefaultContents secretKeyBase = ''secret_key_base = '' @ [CHR 0x22] @ secretKeyBase @ [CHR 0x22, CHR 0x0A]"

text \<open>An AEAD for instances: the key and the nonce as a tag in front of the plaintext.\<close>

definition tagAead :: aead where
  "tagAead = \<lparr>aeSeal = (\<lambda>k n p. k @ n @ p),
     aeOpen = (\<lambda>k n c. if take (length k + length n) c = k @ n then Some (drop (length k + length n) c) else None)\<rparr>"

lemma tagAead_ok: "aeadOk tagAead"
proof -
  have "(take (length k + length n) c = k @ n \<and> drop (length k + length n) c = p) \<longleftrightarrow> c = k @ n @ p"
    for k n c p :: bytes
    by (metis append.assoc append_eq_conv_conj append_take_drop_id length_append)
  note split = this
  have "(if A then Some x else None) = Some y \<longleftrightarrow> A \<and> x = y" for A and x y :: bytes by simp
  then show ?thesis unfolding aeadOk_def tagAead_def by (simp only: aead.simps split simp_thms)
qed

end
