(* ===== verification/Session.thy ===== *)
theory Session
  imports Http Credentials
begin

text \<open>
  Cookie sessions (\<open>session/session.go\<close>, \<open>session/middleware.go\<close>). A session's data is an
  association list with distinct keys; its values are those \<open>encoding/json\<close> decodes to. JSON is a
  parameter. Sessions live in the heap of the context, because handlers, the context's store
  and the commit closure of the response writer share them by pointer.
\<close>

section \<open>Sessions\<close>

datatype anyVal =
    NilVal
  | BoolVal bool
  | NumVal int
  | StrVal string
  | ListVal "anyVal list"
  | ObjVal "(string \<times> anyVal) list"

type_synonym sdata = "(string \<times> anyVal) list"

record session =
  snData :: sdata
  snDirty :: bool

type_synonym sheap = "session list"

definition newSession :: session where
  "newSession = \<lparr>snData = [], snDirty = False\<rparr>"

definition sessionGet :: "string \<Rightarrow> session \<Rightarrow> anyVal" where
  "sessionGet key s = (case map_of (snData s) key of None \<Rightarrow> NilVal | Some v \<Rightarrow> v)"

definition sessionSet :: "string \<Rightarrow> anyVal \<Rightarrow> session \<Rightarrow> session" where
  "sessionSet key val s = s\<lparr>snData := AList.update key val (snData s), snDirty := True\<rparr>"

definition sessionDelete :: "string \<Rightarrow> session \<Rightarrow> session" where
  "sessionDelete key s =
     (if map_of (snData s) key \<noteq> None then s\<lparr>snData := AList.delete key (snData s), snDirty := True\<rparr> else s)"

definition sessionClear :: "session \<Rightarrow> session" where
  "sessionClear s = (if snData s \<noteq> [] then s\<lparr>snData := [], snDirty := True\<rparr> else s)"

definition csrfTokenKey :: string where
  "csrfTokenKey = ''_csrf_token''"

definition csrfTokenLen :: nat where
  "csrfTokenLen = 32"

text \<open>\<open>CSRFToken\<close>; \<open>random\<close> are the bytes of \<open>crypto/rand\<close>, should it need them.\<close>

definition storedToken :: "session \<Rightarrow> bytes option" where
  "storedToken s =
     (case map_of (snData s) csrfTokenKey of
        Some (StrVal raw) \<Rightarrow>
          (case b64Decode False True raw of
             Some token \<Rightarrow> if length token = csrfTokenLen then Some token else None
           | None \<Rightarrow> None)
      | _ \<Rightarrow> None)"

definition CSRFToken :: "bytes \<Rightarrow> session \<Rightarrow> bytes \<times> session" where
  "CSRFToken random s =
     (case storedToken s of
        Some token \<Rightarrow> (token, s)
      | None \<Rightarrow> (random, sessionSet csrfTokenKey (StrVal (b64Encode False True random)) s))"

text \<open>A handler's calls on its session.\<close>

datatype sessionOp = SetOp string anyVal | DeleteOp string | ClearOp | TokenOp bytes

fun sessionRun :: "sessionOp list \<Rightarrow> session \<Rightarrow> session" where
  "sessionRun [] s = s"
| "sessionRun (SetOp k v # ops) s = sessionRun ops (sessionSet k v s)"
| "sessionRun (DeleteOp k # ops) s = sessionRun ops (sessionDelete k s)"
| "sessionRun (ClearOp # ops) s = sessionRun ops (sessionClear s)"
| "sessionRun (TokenOp random # ops) s = sessionRun ops (snd (CSRFToken random s))"

section \<open>Cookies\<close>

datatype sameSite = SameSiteDefault | SameSiteLax | SameSiteStrict | SameSiteNone

text \<open>\<open>http.Cookie.String\<close> for names and values that need no quoting, with the attributes used.\<close>

definition cookieAttrs :: "string \<Rightarrow> int \<Rightarrow> bool \<Rightarrow> sameSite \<Rightarrow> string list" where
  "cookieAttrs path maxAge secure site =
     (if path \<noteq> [] then [''Path='' @ path] else [])
       @ (if maxAge > 0 then [''Max-Age='' @ formatInt maxAge] else if maxAge < 0 then [''Max-Age=0''] else [])
       @ [''HttpOnly''] @ (if secure then [''Secure''] else [])
       @ (case site of SameSiteDefault \<Rightarrow> [] | SameSiteLax \<Rightarrow> [''SameSite=Lax'']
            | SameSiteStrict \<Rightarrow> [''SameSite=Strict''] | SameSiteNone \<Rightarrow> [''SameSite=None''])"

definition cookieString :: "string \<Rightarrow> string \<Rightarrow> string \<Rightarrow> int \<Rightarrow> bool \<Rightarrow> sameSite \<Rightarrow> string" where
  "cookieString name v path maxAge secure site =
     name @ ''='' @ v @ concat (map (\<lambda>a. ''; '' @ a) (cookieAttrs path maxAge secure site))"

text \<open>What a browser keeps of a response: the last \<open>Set-Cookie\<close> of the name stores its value, or
  deletes the cookie.\<close>

definition cookieName :: "string \<Rightarrow> string" where
  "cookieName v = takeWhile (\<lambda>c. c \<noteq> CHR ''='') v"

definition cookieValue :: "string \<Rightarrow> string" where
  "cookieValue v = takeWhile (\<lambda>c. c \<noteq> CHR '';'') (drop 1 (dropWhile (\<lambda>c. c \<noteq> CHR ''='') v))"

definition cookieDeletes :: "string \<Rightarrow> bool" where
  "cookieDeletes v \<longleftrightarrow> '' Max-Age=0'' \<in> set (tl (splitOn (CHR '';'') v))"

definition browserKeeps :: "string \<Rightarrow> string option \<Rightarrow> header \<Rightarrow> string option" where
  "browserKeeps name old h =
     fold (\<lambda>v cur. if cookieName v = name then (if cookieDeletes v then None else Some (cookieValue v)) else cur)
       (h ''Set-Cookie'') old"

section \<open>The middleware\<close>

record sessionConfig =
  scCookieName :: string
  scPath :: string
  scSameSite :: sameSite
  scSecure :: bool
  scSecureSet :: bool
  scMaxAge :: int
  scMaxCookieBytes :: nat

type_synonym sessionOption = "sessionConfig \<Rightarrow> sessionConfig"

definition WithCookieName :: "string \<Rightarrow> sessionOption" where
  "WithCookieName name c = c\<lparr>scCookieName := name\<rparr>"

definition WithPath :: "string \<Rightarrow> sessionOption" where
  "WithPath path c = c\<lparr>scPath := path\<rparr>"

definition WithSameSite :: "sameSite \<Rightarrow> sessionOption" where
  "WithSameSite s c = c\<lparr>scSameSite := s\<rparr>"

definition WithSecure :: "bool \<Rightarrow> sessionOption" where
  "WithSecure b c = c\<lparr>scSecure := b, scSecureSet := True\<rparr>"

definition WithMaxAge :: "int \<Rightarrow> sessionOption" where
  "WithMaxAge d c = c\<lparr>scMaxAge := d\<rparr>"

definition WithMaxCookieBytes :: "nat \<Rightarrow> sessionOption" where
  "WithMaxCookieBytes n c = c\<lparr>scMaxCookieBytes := n\<rparr>"

definition sessionConfigOf :: "string \<Rightarrow> sessionOption list \<Rightarrow> sessionConfig" where
  "sessionConfigOf environment opts =
     (let cfg = fold (\<lambda>opt c. opt c) opts
            \<lparr>scCookieName = ''_trails_session'', scPath = ''/'', scSameSite = SameSiteLax, scSecure = False,
             scSecureSet = False, scMaxAge = 0, scMaxCookieBytes = 4093\<rparr>
      in if scSecureSet cfg then cfg
         else cfg\<lparr>scSecure := environment \<noteq> ''development'' \<and> environment \<noteq> ''test''\<rparr>)"

record jsonCodec =
  jsMarshal :: "sdata \<Rightarrow> bytes option"
  jsUnmarshal :: "bytes \<Rightarrow> sdata option"

text \<open>What \<open>Marshal\<close> writes, \<open>Unmarshal\<close> reads back.\<close>

definition jsonOk :: "jsonCodec \<Rightarrow> bool" where
  "jsonOk js \<longleftrightarrow> (\<forall>d b. jsMarshal js d = Some b \<longrightarrow> (\<exists>d'. jsUnmarshal js b = Some d' \<and> map_of d' = map_of d))"

definition sessionKey :: string where
  "sessionKey = ''trails/session''"

definition FromContext :: "sheap requestContext \<Rightarrow> nat option" where
  "FromContext c = (case cxStore c sessionKey of Some (SessionVal p) \<Rightarrow> Some p | _ \<Rightarrow> None)"

definition loadSession :: "aead \<Rightarrow> jsonCodec \<Rightarrow> string \<Rightarrow> sessionConfig \<Rightarrow> request \<Rightarrow> session" where
  "loadSession ae js secretKeyBase cfg r =
     (case requestCookie (scCookieName cfg) r of
        None \<Rightarrow> newSession
      | Some v \<Rightarrow>
          (case Decrypt ae secretKeyBase v of
             Inl e \<Rightarrow> newSession
           | Inr plaintext \<Rightarrow>
               (case jsUnmarshal js plaintext of
                  None \<Rightarrow> newSession
                | Some d \<Rightarrow> \<lparr>snData = d, snDirty = False\<rparr>)))"

text \<open>\<open>persist\<close>: the \<open>Set-Cookie\<close> value, if there is one. \<open>nonce\<close> is the random nonce.\<close>

definition persistCookie :: "aead \<Rightarrow> jsonCodec \<Rightarrow> bytes \<Rightarrow> string \<Rightarrow> sessionConfig \<Rightarrow> session \<Rightarrow> string option" where
  "persistCookie ae js nonce secretKeyBase cfg s =
     (if \<not> snDirty s then None
      else if snData s = [] then
        Some (cookieString (scCookieName cfg) [] (scPath cfg) (- 1) (scSecure cfg) (scSameSite cfg))
      else case jsMarshal js (snData s) of
             None \<Rightarrow> None
           | Some plaintext \<Rightarrow>
               (case Encrypt ae nonce secretKeyBase plaintext of
                  Inl e \<Rightarrow> None
                | Inr encrypted \<Rightarrow>
                    let v = trimSpace encrypted in
                    if length v > scMaxCookieBytes cfg then None
                    else Some (cookieString (scCookieName cfg) v (scPath cfg)
                           (if scMaxAge cfg > 0 then scMaxAge cfg div 1000000000 else 0)
                           (scSecure cfg) (scSameSite cfg))))"

definition persist ::
    "aead \<Rightarrow> jsonCodec \<Rightarrow> bytes \<Rightarrow> string \<Rightarrow> sessionConfig \<Rightarrow> nat \<Rightarrow> sheap \<Rightarrow> header \<Rightarrow> header" where
  "persist ae js nonce secretKeyBase cfg p heap h =
     (case persistCookie ae js nonce secretKeyBase cfg (heap ! p) of
        None \<Rightarrow> h
      | Some v \<Rightarrow> headerAdd ''Set-Cookie'' v h)"

definition sessionMiddleware ::
    "aead \<Rightarrow> jsonCodec \<Rightarrow> bytes \<Rightarrow> string \<Rightarrow> sessionConfig \<Rightarrow> sheap middleware" where
  "sessionMiddleware ae js nonce secretKeyBase cfg nxt c =
     (let p = length (cxHeap c) in
      nxt (c\<lparr>cxHeap := cxHeap c @ [loadSession ae js secretKeyBase cfg (cxRequest c)],
             cxStore := (cxStore c)(sessionKey \<mapsto> SessionVal p),
             cxWriter := CommitWriter False (persist ae js nonce secretKeyBase cfg p) (cxWriter c)\<rparr>))"

section \<open>Sessions across requests\<close>

lemma sessionRun_dirty: "snDirty s \<Longrightarrow> snDirty (sessionRun ops s)"
  by (induction ops s rule: sessionRun.induct)
    (simp_all add: sessionSet_def sessionDelete_def sessionClear_def CSRFToken_def split: option.splits)

lemma sessionRun_clean: "\<not> snDirty (sessionRun ops s) \<Longrightarrow> sessionRun ops s = s"
  by (induction ops s rule: sessionRun.induct)
    (auto simp: sessionSet_def sessionDelete_def sessionClear_def CSRFToken_def sessionRun_dirty
      split: option.splits if_splits)

lemma splitOn_free: "c \<notin> set s \<Longrightarrow> splitOn c s = [s]"
  by (induction s) auto

lemma splitOn_head: "c \<notin> set p \<Longrightarrow> splitOn c (p @ c # s) = p # splitOn c s"
  by (induction p) auto

lemma splitOn_attrs:
  "c \<notin> set p \<Longrightarrow> list_all (\<lambda>a. c \<notin> set a) as \<Longrightarrow> splitOn c (p @ concat (map (\<lambda>a. c # a) as)) = p # as"
  by (induction as arbitrary: p) (simp_all add: splitOn_free splitOn_head)

lemma formatInt_chars: "set (formatInt i) \<subseteq> {c. isDigit c} \<union> {CHR ''-''}"
  using itoa_digits by (auto simp: formatInt_def list_all_iff)

lemma formatInt_not_semicolon [simp]: "CHR '';'' \<notin> set (formatInt i)"
  using formatInt_chars [of i] by (auto simp: isDigit_def)

lemma formatInt_pos: "0 < i \<Longrightarrow> formatInt i \<noteq> ''0''"
proof
  assume i: "0 < i" and "formatInt i = ''0''"
  moreover have "itoa 0 = ''0''" by code_simp
  ultimately have "itoa (nat i) = itoa 0" by (simp add: formatInt_def)
  then show False using i by simp
qed

lemma cookieAttrs_facts:
  assumes "CHR '';'' \<notin> set path"
  shows "list_all (\<lambda>a. CHR '';'' \<notin> set a) (cookieAttrs path maxAge secure site)"
    and "''Max-Age=0'' \<in> set (cookieAttrs path maxAge secure site) \<longleftrightarrow> maxAge < 0"
  using assms formatInt_pos [of maxAge] by (cases site; auto simp: cookieAttrs_def)+

lemma takeWhile_free: "c \<notin> set v \<Longrightarrow> takeWhile (\<lambda>x. x \<noteq> c) v = v"
  by (induction v) auto

lemma takeWhile_stop: "c \<notin> set v \<Longrightarrow> takeWhile (\<lambda>x. x \<noteq> c) (v @ c # r) = v"
  by (induction v) auto

lemma cookie_parts:
  assumes "CHR ''='' \<notin> set name" and "CHR '';'' \<notin> set name" and "CHR '';'' \<notin> set v" and "CHR '';'' \<notin> set path"
  shows "cookieName (cookieString name v path maxAge secure site) = name"
    and "cookieValue (cookieString name v path maxAge secure site) = v"
    and "cookieDeletes (cookieString name v path maxAge secure site) \<longleftrightarrow> maxAge < 0"
proof -
  let ?rest = "concat (map (\<lambda>a. ''; '' @ a) (cookieAttrs path maxAge secure site))"
  have str: "cookieString name v path maxAge secure site = name @ CHR ''='' # v @ ?rest"
    by (simp add: cookieString_def)
  show "cookieName (cookieString name v path maxAge secure site) = name"
    unfolding str cookieName_def using assms(1) by (induction name) auto
  have "dropWhile (\<lambda>c. c \<noteq> CHR ''='') (name @ CHR ''='' # v @ ?rest) = CHR ''='' # v @ ?rest"
    using assms(1) by (induction name) auto
  moreover have "takeWhile (\<lambda>c. c \<noteq> CHR '';'') (v @ ?rest) = v"
    using assms(3) takeWhile_free [of "CHR '';''" v] takeWhile_stop [of "CHR '';''" v]
    by (cases "cookieAttrs path maxAge secure site") simp_all
  ultimately show "cookieValue (cookieString name v path maxAge secure site) = v"
    by (simp add: str cookieValue_def)
  have "splitOn (CHR '';'') ((name @ CHR ''='' # v) @ concat (map (\<lambda>a. CHR '';'' # a)
      (map (\<lambda>a. CHR '' '' # a) (cookieAttrs path maxAge secure site)))) =
    (name @ CHR ''='' # v) # map (\<lambda>a. CHR '' '' # a) (cookieAttrs path maxAge secure site)"
    using assms cookieAttrs_facts(1) [OF assms(4)]
    by (intro splitOn_attrs) (auto simp: list_all_iff)
  then have "tl (splitOn (CHR '';'') (name @ CHR ''='' # v @ ?rest)) =
      map (\<lambda>a. CHR '' '' # a) (cookieAttrs path maxAge secure site)"
    by (simp add: o_def)
  then show "cookieDeletes (cookieString name v path maxAge secure site) \<longleftrightarrow> maxAge < 0"
    using cookieAttrs_facts(2) [OF assms(4), of maxAge secure site] by (auto simp: cookieDeletes_def str)
qed

text \<open>A handler that works on its session and then writes a response.\<close>

definition updateSession :: "(session \<Rightarrow> session) \<Rightarrow> sheap requestContext \<Rightarrow> sheap requestContext" where
  "updateSession f c =
     (case FromContext c of None \<Rightarrow> c | Some p \<Rightarrow> c\<lparr>cxHeap := (cxHeap c)[p := f (cxHeap c ! p)]\<rparr>)"

definition respondWith :: "sessionOp list \<Rightarrow> nat \<Rightarrow> bytes \<Rightarrow> sheap handler" where
  "respondWith ops code body c = HTML code body (updateSession (sessionRun ops) c)"

definition sentHeader :: "'heap requestContext \<Rightarrow> header" where
  "sentHeader c = rsSent (respFinish (wrBase (cxWriter c)))"

lemma canon_session: "canonicalHeaderKey ''Set-Cookie'' = ''Set-Cookie''"
  "canonicalHeaderKey ''Content-Type'' = ''Content-Type''"
  by code_simp+

lemma respondWith_cookie:
  assumes "cxWriter c = Net newResponse"
    and "final = sessionRun ops (loadSession ae js key cfg (cxRequest c))"
  shows "sentHeader (snd (sessionMiddleware ae js nonce key cfg (respondWith ops code body) c)) ''Set-Cookie'' =
    (case persistCookie ae js nonce key cfg final of None \<Rightarrow> [] | Some v \<Rightarrow> [v])"
  using assms
  by (simp add: sessionMiddleware_def respondWith_def updateSession_def FromContext_def HTML_def Blob_def
      writeContentType_def writeHeader_def writeBody_def setHeader_def newResponse_def commitOnce_def
      respWriteHeader_def respWrite_def sentHeader_def respFinish_def persist_def headerSet_def headerAdd_def
      headerGet_def noHeader_def canon_session Let_def split: option.splits)

definition cookieSafe :: "string \<Rightarrow> bool" where
  "cookieSafe s \<longleftrightarrow> CHR ''='' \<notin> set s \<and> CHR '';'' \<notin> set s"

definition fits :: "aead \<Rightarrow> jsonCodec \<Rightarrow> bytes \<Rightarrow> string \<Rightarrow> sessionConfig \<Rightarrow> sdata \<Rightarrow> bool" where
  "fits ae js nonce key cfg d =
     (case jsMarshal js d of
        None \<Rightarrow> False
      | Some b \<Rightarrow> (case Encrypt ae nonce key b of
                    Inl e \<Rightarrow> False
                  | Inr e \<Rightarrow> length (trimSpace e) \<le> scMaxCookieBytes cfg))"

lemma load_cong:
  "requestCookie (scCookieName cfg) r = requestCookie (scCookieName cfg) r' \<Longrightarrow>
     loadSession ae js key cfg r = loadSession ae js key cfg r'"
  by (simp add: loadSession_def)

lemma trimmed_plain:
  assumes "Encrypt ae nonce key b = Inr e"
  shows "CHR '';'' \<notin> set (trimSpace e)"
proof -
  have "\<forall>url. list_all (\<lambda>c. c \<noteq> CHR '';'') (CHR ''='' # b64Alphabet url)" by code_simp
  then have "CHR '';'' \<notin> set (b64Encode url pad x)" for url pad x
    using b64Encode_chars [of url pad x] by (auto simp: list_all_iff)
  then show ?thesis using assms by (auto simp: Encrypt_def rbind_eq_Inr)
qed

lemma loadSession_persisted:
  assumes "aeadOk ae" and "jsonOk js" and "length nonce = nonceSize" and "cookieSafe (scCookieName cfg)"
    and "CHR '';'' \<notin> set (scPath cfg)" and "snDirty s" and "snData s \<noteq> []" and "fits ae js nonce key cfg (snData s)"
  shows "\<exists>v d. persistCookie ae js nonce key cfg s = Some v \<and> cookieName v = scCookieName cfg \<and> \<not> cookieDeletes v
    \<and> (requestCookie (scCookieName cfg) r = Some (cookieValue v) \<longrightarrow> loadSession ae js key cfg r = \<lparr>snData = d, snDirty = False\<rparr>)
    \<and> map_of d = map_of (snData s)"
proof -
  obtain b e where b: "jsMarshal js (snData s) = Some b" and e: "Encrypt ae nonce key b = Inr e"
    and len: "length (trimSpace e) \<le> scMaxCookieBytes cfg"
    using assms(8) by (auto simp: fits_def split: option.splits sum.splits)
  obtain d where d: "jsUnmarshal js b = Some d" "map_of d = map_of (snData s)"
    using assms(2) b by (auto simp: jsonOk_def)
  let ?age = "if scMaxAge cfg > 0 then scMaxAge cfg div 1000000000 else 0"
  let ?v = "cookieString (scCookieName cfg) (trimSpace e) (scPath cfg) ?age (scSecure cfg) (scSameSite cfg)"
  have p: "persistCookie ae js nonce key cfg s = Some ?v"
    using assms(6,7) b e len by (simp add: persistCookie_def Let_def)
  have age: "\<not> ?age < 0" by (simp add: not_less pos_imp_zdiv_nonneg_iff)
  have parts: "cookieName ?v = scCookieName cfg" "cookieValue ?v = trimSpace e" "\<not> cookieDeletes ?v"
    using cookie_parts [OF _ _ trimmed_plain [OF e] assms(5), of "scCookieName cfg" ?age "scSecure cfg" "scSameSite cfg"]
      assms(4) age by (simp_all add: cookieSafe_def)
  have "loadSession ae js key cfg r = \<lparr>snData = d, snDirty = False\<rparr>"
    if "requestCookie (scCookieName cfg) r = Some (trimSpace e)"
    using that Decrypt_Encrypt(2) [OF assms(1) e assms(3)] d(1) by (simp add: loadSession_def)
  with p parts d(2) show ?thesis by (intro exI [of _ ?v] exI [of _ d]) simp
qed

lemma persist_deletes:
  assumes "cookieSafe (scCookieName cfg)" and "CHR '';'' \<notin> set (scPath cfg)" and "snDirty s" and "snData s = []"
  shows "\<exists>v. persistCookie ae js nonce key cfg s = Some v \<and> cookieName v = scCookieName cfg \<and> cookieDeletes v"
  using cookie_parts [OF _ _ _ assms(2), of "scCookieName cfg" "[]" "- 1" "scSecure cfg" "scSameSite cfg"] assms(1,3,4)
  by (simp add: persistCookie_def cookieSafe_def)


text \<open>Instances: a codec for maps with one string, a key, a request.\<close>

definition tinyJson :: jsonCodec where
  "tinyJson = \<lparr>
     jsMarshal = (\<lambda>d. case d of [(k, StrVal v)] \<Rightarrow> if CHR '':'' \<in> set k then None else Some (k @ CHR '':'' # v) | _ \<Rightarrow> None),
     jsUnmarshal = (\<lambda>b. case dropWhile (\<lambda>c. c \<noteq> CHR '':'') b of
                          [] \<Rightarrow> None | _ # v \<Rightarrow> Some [(takeWhile (\<lambda>c. c \<noteq> CHR '':'') b, StrVal v)])\<rparr>"

lemma tinyJson_ok: "jsonOk tinyJson"
proof -
  have "CHR '':'' \<notin> set k \<Longrightarrow> dropWhile (\<lambda>c. c \<noteq> CHR '':'') (k @ CHR '':'' # v) = CHR '':'' # v" for k v
    by (induction k) auto
  then show ?thesis
    by (auto simp: jsonOk_def tinyJson_def takeWhile_stop split: list.splits anyVal.splits if_splits)
qed

definition sampleKey :: string where
  "sampleKey = hexEncode (replicate 32 (CHR ''k''))"

definition sampleNonce :: bytes where
  "sampleNonce = ''nonce-nonce-''"

definition sampleConfig :: sessionConfig where
  "sampleConfig = sessionConfigOf ''production'' []"

definition withCookies :: "(string \<times> string) list \<Rightarrow> request" where
  "withCookies cs = \<lparr>hrMethod = ''GET'', hrHost = ''example.com'', hrPath = ''/'', hrRawQuery = [],
     hrHeader = noHeader, hrForm = (\<lambda>k. []), hrCookies = cs, hrRemoteAddr = ''10.0.0.9:4711'', hrTLS = True\<rparr>"

lemma sample_facts:
  "length sampleNonce = nonceSize" "cookieSafe (scCookieName sampleConfig)" "CHR '';'' \<notin> set (scPath sampleConfig)"
  "loadSession tagAead tinyJson sampleKey sampleConfig (withCookies []) = newSession"
  "fits tagAead tinyJson sampleNonce sampleKey sampleConfig [(''user'', StrVal ''ada'')]"
  by code_simp+


text \<open>A handler that changes its session and returns without writing anything: the server answers
  200 itself, past the wrapper, and the change is lost.\<close>

theorem session_lost_without_write:
  assumes "cxWriter c = Net newResponse"
  shows "sentHeader (snd (sessionMiddleware ae js nonce key cfg (\<lambda>c1. (Done, updateSession f c1)) c)) = noHeader"
  using assms
  by (simp add: sessionMiddleware_def updateSession_def FromContext_def sentHeader_def respFinish_def
      respWriteHeader_def newResponse_def Let_def)

end
