(* ===== verification/Csrf.thy ===== *)
theory Csrf
  imports Session
begin

unbundle bit_operations_syntax

text \<open>
  Synchronizer tokens (\<open>csrf/csrf.go\<close>) over the session's secret. Random bytes (the mask, and the
  secret should the session have none yet) are arguments.
\<close>

record csrfConfig =
  csFieldName :: string
  csHeaderName :: string

type_synonym csrfOption = "csrfConfig \<Rightarrow> csrfConfig"

definition WithFieldName :: "string \<Rightarrow> csrfOption" where
  "WithFieldName name c = c\<lparr>csFieldName := name\<rparr>"

definition WithHeaderName :: "string \<Rightarrow> csrfOption" where
  "WithHeaderName name c = c\<lparr>csHeaderName := name\<rparr>"

definition csrfNewConfig :: "csrfOption list \<Rightarrow> csrfConfig" where
  "csrfNewConfig opts = fold (\<lambda>opt c. opt c) opts \<lparr>csFieldName = ''authenticity_token'', csHeaderName = ''X-CSRF-Token''\<rparr>"

definition safeMethods :: "string list" where
  "safeMethods = [''GET'', ''HEAD'', ''OPTIONS'', ''TRACE'']"

definition xorBytes :: "bytes \<Rightarrow> bytes \<Rightarrow> bytes" where
  "xorBytes a b = map2 (\<lambda>x y. char_of ((of_char x :: nat) XOR of_char y)) a b"

definition maskToken :: "bytes \<Rightarrow> bytes \<Rightarrow> string" where
  "maskToken m real = b64Encode True True (m @ xorBytes m real)"

definition verifyToken :: "bytes \<Rightarrow> string \<Rightarrow> bool" where
  "verifyToken real submitted =
     (if submitted = [] then False
      else case b64Decode True True submitted of
             None \<Rightarrow> False
           | Some raw \<Rightarrow>
               if length raw \<noteq> 2 * length real then False
               else xorBytes (take (length real) raw) (drop (length real) raw) = real)"

definition csrf :: "csrfConfig \<Rightarrow> bytes \<Rightarrow> sheap middleware" where
  "csrf cfg random nxt c =
     (case FromContext c of
        None \<Rightarrow> (Panicked ''csrf: no session found on context'', c)
      | Some p \<Rightarrow>
          if hrMethod (cxRequest c) \<in> set safeMethods then nxt c
          else
            let r = cxRequest c; h = headerGet (csHeaderName cfg) (hrHeader r);
                submitted = (if h = [] then hrForm r (csFieldName cfg) else h);
                (token, s) = CSRFToken random (cxHeap c ! p);
                c1 = c\<lparr>cxHeap := (cxHeap c)[p := s]\<rparr>
            in if \<not> verifyToken token submitted
               then (NewHTTPError 403 ''csrf: invalid or missing authenticity token'', c1)
               else nxt c1)"

section \<open>The template functions\<close>

text \<open>\<open>template.HTMLEscapeString\<close>.\<close>

definition htmlEscape :: "string \<Rightarrow> string" where
  "htmlEscape s = concat (map (\<lambda>c.
     if c = CHR ''&'' then ''&amp;'' else if c = CHR ''<'' then ''&lt;'' else if c = CHR ''>'' then ''&gt;''
     else if of_char c = (34 :: nat) then ''&#34;'' else if of_char c = (39 :: nat) then ''&#39;''
     else if of_char c = (0 :: nat) then [CHR 0xEF, CHR 0xBF, CHR 0xBD] else [c]) s)"

definition quoted :: "string \<Rightarrow> string" where
  "quoted s = [CHR 0x22] @ s @ [CHR 0x22]"

text \<open>The token a template renders, with the session after the call; \<open>None\<close> without a session.\<close>

definition pageToken :: "bytes \<Rightarrow> bytes \<Rightarrow> sheap requestContext \<Rightarrow> (string \<times> sheap requestContext) option" where
  "pageToken random m c =
     (case FromContext c of
        None \<Rightarrow> None
      | Some p \<Rightarrow>
          (let (token, s) = CSRFToken random (cxHeap c ! p) in
           Some (maskToken m token, c\<lparr>cxHeap := (cxHeap c)[p := s]\<rparr>)))"

definition csrfField :: "csrfConfig \<Rightarrow> string \<Rightarrow> string" where
  "csrfField cfg t =
     ''<input type='' @ quoted ''hidden'' @ '' name='' @ quoted (htmlEscape (csFieldName cfg)) @ '' value='' @ quoted t @ ''>''"

definition csrfMetaTag :: "csrfConfig \<Rightarrow> string \<Rightarrow> string" where
  "csrfMetaTag cfg t =
     ''<meta name='' @ quoted ''csrf-param'' @ '' content='' @ quoted (htmlEscape (csFieldName cfg))
       @ ''><meta name='' @ quoted ''csrf-token'' @ '' content='' @ quoted t @ ''>''"

section \<open>Masking\<close>

lemma xor_less_256: "(a :: nat) < 256 \<Longrightarrow> b < 256 \<Longrightarrow> a XOR b < 256"
proof -
  assume "a < 256" "b < 256"
  then have "take_bit 8 (a XOR b) = a XOR b" by (simp add: take_bit_xor take_bit_nat_eq_self)
  then show ?thesis using take_bit_nat_less_exp [of 8 "a XOR b"] by simp
qed

lemma xor_char_self: "char_of ((of_char x :: nat) XOR (of_char x XOR of_char y) mod 256) = y"
proof -
  have "(of_char x :: nat) XOR of_char y < 256" by (intro xor_less_256) simp_all
  then show ?thesis by (simp add: xor.assoc [symmetric])
qed

lemma xorBytes_length [simp]: "length (xorBytes a b) = min (length a) (length b)"
  by (simp add: xorBytes_def)

lemma xorBytes_cancel: "length a = length b \<Longrightarrow> xorBytes a (xorBytes a b) = b"
  by (induction a b rule: list_induct2) (simp_all add: xorBytes_def xor_char_self)

lemma b64Encode_Nil_iff [simp]: "b64Encode url pad bs = [] \<longleftrightarrow> bs = []"
  by (induction url pad bs rule: b64Encode.induct) (simp_all add: Let_def)

text \<open>Exactly the maskings of the secret are accepted.\<close>

lemma verifyToken_iff:
  assumes "real \<noteq> []"
  shows "verifyToken real submitted \<longleftrightarrow>
    (\<exists>m. length m = length real \<and> b64Decode True True submitted = Some (m @ xorBytes m real))"
    (is "?l \<longleftrightarrow> ?r")
proof
  assume ?l
  then obtain raw where raw: "b64Decode True True submitted = Some raw" "length raw = 2 * length real"
    "xorBytes (take (length real) raw) (drop (length real) raw) = real"
    by (auto simp: verifyToken_def split: option.splits if_splits)
  have "xorBytes (take (length real) raw) real = drop (length real) raw"
    using raw(2) xorBytes_cancel [of "take (length real) raw" "drop (length real) raw"] unfolding raw(3) by simp
  then show ?r using raw(1,2) by (intro exI [of _ "take (length real) raw"]) simp
next
  assume ?r
  then obtain m where m: "length m = length real" "b64Decode True True submitted = Some (m @ xorBytes m real)" by blast
  have "submitted \<noteq> []"
  proof
    assume "submitted = []"
    then show False using m assms by (simp add: b64Decode_def)
  qed
  then show ?l using m xorBytes_cancel [of m real] by (simp add: verifyToken_def)
qed

lemma verify_mask: "real \<noteq> [] \<Longrightarrow> length m = length real \<Longrightarrow> verifyToken real (maskToken m real)"
  by (auto simp: verifyToken_iff maskToken_def b64_roundtrip)

lemma CSRFToken_stored:
  assumes "length random = csrfTokenLen"
  shows "storedToken (snd (CSRFToken random s)) = Some (fst (CSRFToken random s))"
    and "length (fst (CSRFToken random s)) = csrfTokenLen"
proof -
  have "storedToken s = Some t \<Longrightarrow> length t = csrfTokenLen" for t
    by (auto simp: storedToken_def split: option.splits anyVal.splits if_splits)
  then show "length (fst (CSRFToken random s)) = csrfTokenLen"
    using assms by (simp add: CSRFToken_def split: option.splits)
  show "storedToken (snd (CSRFToken random s)) = Some (fst (CSRFToken random s))"
    using assms
    by (auto simp: CSRFToken_def storedToken_def sessionSet_def update_conv b64_roundtrip split: option.splits)
qed

lemma storedToken_cong: "map_of (snData s) = map_of (snData s') \<Longrightarrow> storedToken s = storedToken s'"
  by (simp add: storedToken_def)


definition sampleSecret :: bytes where
  "sampleSecret = ''0123456789abcdef0123456789ABCDEF''"

definition postWith :: "string \<Rightarrow> sheap requestContext" where
  "postWith t = (newContext [snd (CSRFToken sampleSecret newSession)]
     ((withCookies [])\<lparr>hrMethod := ''POST'', hrForm := (\<lambda>k. if k = ''authenticity_token'' then t else [])\<rparr>))
     \<lparr>cxStore := [sessionKey \<mapsto> SessionVal 0]\<rparr>"

lemma sampleSecret_stored: "CSRFToken random (snd (CSRFToken sampleSecret newSession)) =
    (sampleSecret, snd (CSRFToken sampleSecret newSession))"
proof -
  have "storedToken (snd (CSRFToken sampleSecret newSession)) = Some (fst (CSRFToken sampleSecret newSession))"
    by (rule CSRFToken_stored(1)) code_simp
  moreover have "storedToken newSession = None" by (simp add: storedToken_def newSession_def)
  then have "fst (CSRFToken sampleSecret newSession) = sampleSecret" by (simp add: CSRFToken_def)
  ultimately show ?thesis by (simp add: CSRFToken_def)
qed


end
