(* ===== verification/HttpCache.thy ===== *)
theory HttpCache
  imports Session CacheMemory
begin

text \<open>
  The response cache (\<open>cache/httpcache/httpcache.go\<close>): a client of the store contract that uses
  \<open>Read\<close> and \<open>Write\<close>. Gob encoding and SHA-256 are parameters; the handlers behind it do not use
  the same store. The middleware threads the store beside the context.
\<close>

record hcConfig =
  hcTTL :: int
  hcKeyFunc :: "request \<Rightarrow> string"

definition hcDefaultKeyFunc :: "request \<Rightarrow> string" where
  "hcDefaultKeyFunc r = hrMethod r @ '' '' @ hrPath r @ ''?'' @ hrRawQuery r"

definition hcConfigOf :: "(hcConfig \<Rightarrow> hcConfig) list \<Rightarrow> hcConfig" where
  "hcConfigOf opts = fold (\<lambda>opt c. opt c) opts \<lparr>hcTTL = 300000000000, hcKeyFunc = hcDefaultKeyFunc\<rparr>"

record cachedResponse =
  crStatus :: nat
  crHeader :: header
  crBody :: bytes
  crETag :: string

record gob =
  gbEncode :: "cachedResponse \<Rightarrow> bytes option"
  gbDecode :: "bytes \<Rightarrow> cachedResponse option"

definition gobOk :: "gob \<Rightarrow> bool" where
  "gobOk g \<longleftrightarrow> (\<forall>x b. gbEncode g x = Some b \<longrightarrow> gbDecode g b = Some x)"

text \<open>A store operation may fail (\<open>Inl\<close>, or an error from \<open>Write\<close>, which is ignored).\<close>

type_synonym 's hcRead = "string \<Rightarrow> 's \<Rightarrow> (cacheError + bytes option) \<times> 's"
type_synonym 's hcWrite = "string \<Rightarrow> bytes \<Rightarrow> int \<Rightarrow> 's \<Rightarrow> 's"

definition hcLookup :: "gob \<Rightarrow> 's hcRead \<Rightarrow> string \<Rightarrow> 's \<Rightarrow> cachedResponse option \<times> 's" where
  "hcLookup g rd key s =
     (case rd key s of
        (Inr (Some raw), s') \<Rightarrow> (gbDecode g raw, s')
      | (_, s') \<Rightarrow> (None, s'))"

definition copyHeader :: "header \<Rightarrow> header \<Rightarrow> header" where
  "copyHeader src dst k = dst k @ src k"

definition mapHeader :: "(header \<Rightarrow> header) \<Rightarrow> 'heap requestContext \<Rightarrow> 'heap requestContext" where
  "mapHeader f c = c\<lparr>cxWriter := wrMapHeader f (cxWriter c)\<rparr>"

definition serveCached :: "cachedResponse \<Rightarrow> 'heap handler" where
  "serveCached cached c =
     (let m = headerGet ''If-None-Match'' (hrHeader (cxRequest c)) in
      if m \<noteq> [] \<and> m = crETag cached
      then (Done, writeHeader 304 (setHeader ''ETag'' (crETag cached) c))
      else (Done, writeBody (crBody cached) (writeHeader (crStatus cached)
             (setHeader ''ETag'' (crETag cached) (mapHeader (copyHeader (crHeader cached)) c)))))"

definition computeETag :: "(bytes \<Rightarrow> bytes) \<Rightarrow> bytes \<Rightarrow> string" where
  "computeETag sha256 body = [CHR 0x22] @ hexEncode (take 16 (sha256 body)) @ [CHR 0x22]"

definition recordAndStore ::
    "gob \<Rightarrow> (bytes \<Rightarrow> bytes) \<Rightarrow> 's hcWrite \<Rightarrow> string \<Rightarrow> int \<Rightarrow> 'heap handler \<Rightarrow> 'heap requestContext \<Rightarrow> 's
       \<Rightarrow> result \<times> 'heap requestContext \<times> 's" where
  "recordAndStore g sha256 wr key ttl nxt c s =
     (case nxt (c\<lparr>cxWriter := Recorder newResponse\<rparr>) of
        (Panicked e, c1) \<Rightarrow> (Panicked e, c1, s)
      | (Failed e, c1) \<Rightarrow> (Failed e, c1\<lparr>cxWriter := cxWriter c\<rparr>, s)
      | (Done, c1) \<Rightarrow>
          let rec = wrBase (cxWriter c1); c2 = c1\<lparr>cxWriter := cxWriter c\<rparr>;
              status = (case rsStatus rec of None \<Rightarrow> 200 | Some n \<Rightarrow> n)
          in if status \<noteq> 200 then
               (Done, writeBody (rsBody rec) (writeHeader status (mapHeader (copyHeader (rsHeader rec)) c2)), s)
             else
               let etag = computeETag sha256 (rsBody rec);
                   cached = \<lparr>crStatus = status, crHeader = rsHeader rec, crBody = rsBody rec, crETag = etag\<rparr>;
                   s' = (case gbEncode g cached of None \<Rightarrow> s | Some raw \<Rightarrow> wr key raw ttl s)
               in (Done, writeBody (rsBody rec) (writeHeader status
                     (setHeader ''ETag'' etag (mapHeader (copyHeader (rsHeader rec)) c2))), s'))"

definition httpCache ::
    "gob \<Rightarrow> (bytes \<Rightarrow> bytes) \<Rightarrow> 's hcRead \<Rightarrow> 's hcWrite \<Rightarrow> hcConfig \<Rightarrow> 'heap handler \<Rightarrow> 'heap requestContext \<Rightarrow> 's
       \<Rightarrow> result \<times> 'heap requestContext \<times> 's" where
  "httpCache g sha256 rd wr cfg nxt c s =
     (let r = cxRequest c in
      if hrMethod r \<noteq> ''GET'' \<and> hrMethod r \<noteq> ''HEAD'' then (case nxt c of (res, c') \<Rightarrow> (res, c', s))
      else let key = hcKeyFunc cfg r in
           case hcLookup g rd key s of
             (Some cached, s1) \<Rightarrow> (case serveCached cached c of (res, c') \<Rightarrow> (res, c', s1))
           | (None, s1) \<Rightarrow> recordAndStore g sha256 wr key (hcTTL cfg) nxt c s1)"

section \<open>Hits\<close>

text \<open>A store of the contract, at an instant.\<close>

definition storeRead :: "(string \<Rightarrow> int \<Rightarrow> 's \<Rightarrow> bytes option \<times> 's) \<Rightarrow> int \<Rightarrow> 's hcRead" where
  "storeRead rd now key s = (case rd key now s of (v, s') \<Rightarrow> (Inr v, s'))"

definition storeWrite :: "(string \<Rightarrow> bytes \<Rightarrow> int \<Rightarrow> int \<Rightarrow> 's \<Rightarrow> 's) \<Rightarrow> int \<Rightarrow> 's hcWrite" where
  "storeWrite wr now key v ttl s = wr key v ttl now s"

text \<open>What the handler behind the cache writes to a recorder.\<close>

definition recorded :: "'heap handler \<Rightarrow> 'heap requestContext \<Rightarrow> response" where
  "recorded nxt c = wrBase (cxWriter (snd (nxt (c\<lparr>cxWriter := Recorder newResponse\<rparr>))))"

definition cacheable :: "'heap handler \<Rightarrow> 'heap requestContext \<Rightarrow> bool" where
  "cacheable nxt c \<longleftrightarrow> fst (nxt (c\<lparr>cxWriter := Recorder newResponse\<rparr>)) = Done
     \<and> (rsStatus (recorded nxt c) = None \<or> rsStatus (recorded nxt c) = Some 200)"

definition cachedOf :: "(bytes \<Rightarrow> bytes) \<Rightarrow> response \<Rightarrow> cachedResponse" where
  "cachedOf sha256 r = \<lparr>crStatus = 200, crHeader = rsHeader r, crBody = rsBody r, crETag = computeETag sha256 (rsBody r)\<rparr>"

lemma record_stores:
  assumes "cacheable nxt c" and "gbEncode g (cachedOf sha256 (recorded nxt c)) = Some raw"
  shows "snd (snd (recordAndStore g sha256 wr key ttl nxt c s)) = wr key raw ttl s"
proof -
  obtain c1 where c1: "nxt (c\<lparr>cxWriter := Recorder newResponse\<rparr>) = (Done, c1)"
    using assms(1) by (cases "nxt (c\<lparr>cxWriter := Recorder newResponse\<rparr>)") (auto simp: cacheable_def)
  then have "recorded nxt c = wrBase (cxWriter c1)" by (simp add: recorded_def)
  then show ?thesis
    using assms c1 by (auto simp: recordAndStore_def cacheable_def cachedOf_def Let_def)
qed

lemma serveCached_response:
  assumes "cxWriter c = Net newResponse" and "headerGet ''If-None-Match'' (hrHeader (cxRequest c)) \<noteq> crETag x"
    and "crStatus x = 200"
  shows "fst (serveCached x c) = Done
    \<and> wrBase (cxWriter (snd (serveCached x c))) =
        \<lparr>rsHeader = headerSet ''ETag'' (crETag x) (crHeader x), rsStatus = Some 200,
         rsSent = headerSet ''ETag'' (crETag x) (crHeader x), rsBody = crBody x\<rparr>"
proof -
  have "copyHeader h noHeader = h" for h by (simp add: copyHeader_def noHeader_def fun_eq_iff)
  then show ?thesis
    using assms
    by (auto simp: serveCached_def writeBody_def writeHeader_def setHeader_def mapHeader_def newResponse_def
        respWriteHeader_def respWrite_def Let_def)
qed

text \<open>After a cacheable response, the next request of the same key within the lifetime gets, without
  running the handler, exactly the recorded status, header (with the ETag) and body, or a 304
  without a body if it names the ETag.\<close>

theorem httpcache_hit:
  assumes "hrMethod (cxRequest c1) = ''GET''" and "hrMethod (cxRequest c2) = ''GET''"
    and "hcKeyFunc cfg (cxRequest c1) = key" and "hcKeyFunc cfg (cxRequest c2) = key"
    and "fst (memRead key now s) = None" and "cacheable nxt c1" and "gobOk g"
    and "gbEncode g (cachedOf sha256 (recorded nxt c1)) = Some raw"
    and "s1 = snd (snd (httpCache g sha256 (storeRead memRead now) (storeWrite memWrite now) cfg nxt c1 s))"
    and "0 < hcTTL cfg" and "later < now + hcTTL cfg"
    and "cxWriter c2 = Net newResponse"
    and "httpCache g sha256 (storeRead memRead later) (storeWrite memWrite later) cfg nxt2 c2 s1 = (res, c3, s2)"
  shows "res = Done \<and> cxHeap c3 = cxHeap c2
    \<and> (let etag = computeETag sha256 (rsBody (recorded nxt c1)); got = wrBase (cxWriter c3) in
       if headerGet ''If-None-Match'' (hrHeader (cxRequest c2)) = etag
       then rsStatus got = Some 304 \<and> rsBody got = []
       else rsStatus got = Some 200 \<and> rsBody got = rsBody (recorded nxt c1)
            \<and> rsSent got = headerSet ''ETag'' etag (rsHeader (recorded nxt c1)))"
proof -
  let ?x = "cachedOf sha256 (recorded nxt c1)"
  obtain s0 where s0: "memRead key now s = (None, s0)" using assms(5) by (cases "memRead key now s") simp
  then have "s1 = memWrite key raw (hcTTL cfg) now s0"
    using assms(1,3,9) record_stores [OF assms(6,8), of "storeWrite memWrite now" key "hcTTL cfg" s0]
    by (simp add: httpCache_def hcLookup_def storeRead_def storeWrite_def Let_def)
  then have "fst (memRead key later s1) = Some raw"
    using mem.write_read [where s = s0 and now = now and t = later and ttl = "hcTTL cfg" and k = key and v = raw]
      assms(10,11) by simp
  then obtain s3 where s3: "memRead key later s1 = (Some raw, s3)" by (cases "memRead key later s1") simp
  have dec: "gbDecode g raw = Some ?x" using assms(7,8) by (simp add: gobOk_def)
  have hit: "(res, c3) = serveCached ?x c2"
    using assms(2,4,13) s3 dec by (simp add: httpCache_def hcLookup_def storeRead_def Let_def split: prod.splits)
  have x: "crStatus ?x = 200" "crETag ?x = computeETag sha256 (rsBody (recorded nxt c1))"
    "crBody ?x = rsBody (recorded nxt c1)" "crHeader ?x = rsHeader (recorded nxt c1)"
    by (simp_all add: cachedOf_def)
  have heap: "cxHeap c3 = cxHeap c2"
    using hit by (auto simp: serveCached_def writeBody_def writeHeader_def setHeader_def mapHeader_def Let_def
        split: if_splits)
  show ?thesis
  proof (cases "headerGet ''If-None-Match'' (hrHeader (cxRequest c2)) = crETag ?x")
    case True
    moreover have "crETag ?x \<noteq> []" by (simp add: x(2) computeETag_def)
    ultimately have "(res, c3) = (Done, writeHeader 304 (setHeader ''ETag'' (crETag ?x) c2))"
      using hit by (simp add: serveCached_def)
    then show ?thesis using heap True assms(12) x(2)
      by (simp add: writeHeader_def setHeader_def newResponse_def respWriteHeader_def Let_def)
  next
    case False
    then show ?thesis using serveCached_response [OF assms(12) False x(1)] hit heap x(2-4)
      by (metis (no_types, lifting) fst_conv response.select_convs snd_conv)
  qed
qed

text \<open>An instance: pages with no header but their type, encoded as their body.\<close>

definition pageResponse :: "bytes \<Rightarrow> cachedResponse" where
  "pageResponse body = \<lparr>crStatus = 200, crHeader = headerSet ''Content-Type'' ''text/html; charset=UTF-8'' noHeader,
     crBody = body, crETag = computeETag (\<lambda>b. b) body\<rparr>"

definition pageGob :: gob where
  "pageGob = \<lparr>gbEncode = (\<lambda>x. if x = pageResponse (crBody x) then Some (crBody x) else None),
     gbDecode = (\<lambda>b. Some (pageResponse b))\<rparr>"

lemma pageGob_ok: "gobOk pageGob"
proof -
  have "gbDecode pageGob b = Some x" if "gbEncode pageGob x = Some b" for x b
  proof -
    have "x = pageResponse (crBody x)" "b = crBody x" using that by (auto simp: pageGob_def split: if_splits)
    then show ?thesis by (simp add: pageGob_def)
  qed
  then show ?thesis by (simp add: gobOk_def)
qed

lemma page_recorded:
  "recorded (HTML 200 body) (newContext h r) =
     \<lparr>rsHeader = headerSet ''Content-Type'' ''text/html; charset=UTF-8'' noHeader, rsStatus = Some 200,
      rsSent = headerSet ''Content-Type'' ''text/html; charset=UTF-8'' noHeader, rsBody = body\<rparr>"
  "cacheable (HTML 200 body) (newContext h r)"
  by (simp_all add: recorded_def cacheable_def HTML_def Blob_def writeContentType_def writeBody_def writeHeader_def
      setHeader_def newContext_def newResponse_def respWriteHeader_def Let_def)

theorem httpcache_hit_witness:
  "let c = newContext () (withCookies []); cfg = hcConfigOf [];
       s1 = snd (snd (httpCache pageGob (\<lambda>b. b) (storeRead memRead 0) (storeWrite memWrite 0) cfg (HTML 200 ''page'') c Map.empty));
       c3 = fst (snd (httpCache pageGob (\<lambda>b. b) (storeRead memRead 9) (storeWrite memWrite 9) cfg (HTML 500 ''boom'') c s1))
   in rsStatus (wrBase (cxWriter c3)) = Some 200 \<and> rsBody (wrBase (cxWriter c3)) = ''page''"
proof -
  let ?c = "newContext () (withCookies [])" and ?cfg = "hcConfigOf []"
  let ?h = "HTML 200 ''page'' :: unit handler"
  have req: "hrMethod (cxRequest ?c) = ''GET''" "cxWriter ?c = Net newResponse"
    "headerGet ''If-None-Match'' (hrHeader (cxRequest ?c)) = []"
    by (simp_all add: newContext_def withCookies_def)
  have enc: "gbEncode pageGob (cachedOf (\<lambda>b. b) (recorded ?h ?c)) = Some ''page''"
    by (simp add: page_recorded pageGob_def cachedOf_def pageResponse_def)
  have empty: "fst (memRead (hcKeyFunc ?cfg (cxRequest ?c)) 0 Map.empty) = None" by (simp add: memRead_def)
  have ttl: "0 < hcTTL ?cfg" "9 < 0 + hcTTL ?cfg" by (simp_all add: hcConfigOf_def)
  define s1 where "s1 = snd (snd (httpCache pageGob (\<lambda>b. b) (storeRead memRead 0) (storeWrite memWrite 0) ?cfg ?h ?c Map.empty))"
  obtain res c3 s2 where run: "httpCache pageGob (\<lambda>b. b) (storeRead memRead 9) (storeWrite memWrite 9) ?cfg
      (HTML 500 ''boom'') ?c s1 = (res, c3, s2)" using prod_cases3 by blast
  have "[] \<noteq> computeETag (\<lambda>b. b) x" for x by (simp add: computeETag_def)
  then show ?thesis
    using httpcache_hit [OF req(1) req(1) refl refl empty page_recorded(2) pageGob_ok enc s1_def ttl req(2) run] req(3) run
    unfolding s1_def by (simp add: page_recorded Let_def)
qed

section \<open>Sessions behind the cache\<close>

lemma respondWith_recorded:
  assumes "final = sessionRun ops (loadSession ae js key cfg (cxRequest c))"
  shows "rsHeader (recorded (sessionMiddleware ae js nonce key cfg (respondWith ops code body)) c) ''Set-Cookie'' =
      (case persistCookie ae js nonce key cfg final of None \<Rightarrow> [] | Some v \<Rightarrow> [v])"
    and "cacheable (sessionMiddleware ae js nonce key cfg (respondWith ops 200 body)) c"
  using assms
  by (simp_all add: recorded_def cacheable_def sessionMiddleware_def respondWith_def updateSession_def FromContext_def HTML_def
      Blob_def writeContentType_def writeHeader_def writeBody_def setHeader_def newResponse_def commitOnce_def
      respWriteHeader_def persist_def headerSet_def headerAdd_def headerGet_def noHeader_def canon_session Let_def
      split: option.splits)

text \<open>
  With the cache registered outside the session middleware, the recorded header contains the
  session cookie of the visitor whose request filled the cache. The next visitor of the page
  gets that cookie, and with it that session.
\<close>

theorem cached_session_hijack:
  assumes "aeadOk ae" and "jsonOk js" and "length nonce = nonceSize" and "cookieSafe (scCookieName scfg)"
    and "CHR '';'' \<notin> set (scPath scfg)"
    and "final = sessionRun ops (loadSession ae js secret scfg (cxRequest c1))"
    and "snDirty final" and "snData final \<noteq> []" and "fits ae js nonce secret scfg (snData final)"
    and "nxt = sessionMiddleware ae js nonce secret scfg (respondWith ops 200 body)"
    and "hrMethod (cxRequest c1) = ''GET''" and "hrMethod (cxRequest c2) = ''GET''"
    and "hcKeyFunc cfg (cxRequest c1) = key" and "hcKeyFunc cfg (cxRequest c2) = key"
    and "fst (memRead key now s) = None" and "gobOk g"
    and "gbEncode g (cachedOf sha256 (recorded nxt c1)) = Some raw"
    and "s1 = snd (snd (httpCache g sha256 (storeRead memRead now) (storeWrite memWrite now) cfg nxt c1 s))"
    and "0 < hcTTL cfg" and "later < now + hcTTL cfg"
    and "cxWriter c2 = Net newResponse" and "headerGet ''If-None-Match'' (hrHeader (cxRequest c2)) = []"
    and "httpCache g sha256 (storeRead memRead later) (storeWrite memWrite later) cfg nxt2 c2 s1 = (res, c3, s2)"
    and "requestCookie (scCookieName scfg) r3 = browserKeeps (scCookieName scfg) None (rsSent (wrBase (cxWriter c3)))"
  shows "map_of (snData (loadSession ae js secret scfg r3)) = map_of (snData final)"
proof -
  have cb: "cacheable nxt c1" unfolding assms(10) by (rule respondWith_recorded(2) [OF refl])
  have "[] \<noteq> computeETag sha256 x" for x by (simp add: computeETag_def)
  then have "rsSent (wrBase (cxWriter c3)) =
      headerSet ''ETag'' (computeETag sha256 (rsBody (recorded nxt c1))) (rsHeader (recorded nxt c1))"
    using httpcache_hit [OF assms(11-15) cb assms(16-21) assms(23)] assms(22) by (simp add: Let_def)
  moreover have "canonicalHeaderKey ''ETag'' \<noteq> ''Set-Cookie''" by code_simp
  ultimately have "rsSent (wrBase (cxWriter c3)) ''Set-Cookie'' = rsHeader (recorded nxt c1) ''Set-Cookie''"
    by (simp add: headerSet_def)
  moreover obtain v d where v: "persistCookie ae js nonce secret scfg final = Some v" "cookieName v = scCookieName scfg"
    "\<not> cookieDeletes v"
    "requestCookie (scCookieName scfg) r3 = Some (cookieValue v) \<longrightarrow> loadSession ae js secret scfg r3 = \<lparr>snData = d, snDirty = False\<rparr>"
    "map_of d = map_of (snData final)"
    using loadSession_persisted [OF assms(1-5,7-9)] by blast
  ultimately have "requestCookie (scCookieName scfg) r3 = Some (cookieValue v)"
    using assms(24) respondWith_recorded(1) [OF assms(6), of nonce 200 body] unfolding assms(10)
    by (simp add: browserKeeps_def)
  then show ?thesis using v(4,5) by simp
qed

end
