(* ===== verification/Auth.thy ===== *)
theory Auth
  imports Credentials
begin

text \<open>
  Tokens and passwords (\<open>auth/token.go\<close>, \<open>auth/signed_token.go\<close>, \<open>auth/password.go\<close>). The JSON of a
  token's payload and bcrypt are parameters; random bytes and the current time are arguments.
\<close>

section \<open>Opaque tokens\<close>

definition tokenBytes :: nat where
  "tokenBytes = 24"

definition NewToken :: "bytes \<Rightarrow> string" where
  "NewToken random24 = b64Encode True False random24"

definition EnsureToken :: "bytes \<Rightarrow> string \<Rightarrow> string" where
  "EnsureToken random24 field = (if field \<noteq> [] then field else NewToken random24)"

section \<open>Signed tokens\<close>

record tokenPayload =
  tpID :: string
  tpPurpose :: string
  tpDigest :: string
  tpExpiresAt :: int

datatype tokenError = TokenJSON | TokenCred credError | TokenEncoding

definition trimTrailingNewline :: "string \<Rightarrow> string" where
  "trimTrailingNewline s = (if s \<noteq> [] \<and> List.last s = CHR 0x0A then butlast s else s)"

definition GenerateTokenFor ::
    "aead \<Rightarrow> (tokenPayload \<Rightarrow> bytes option) \<Rightarrow> bytes \<Rightarrow> int \<Rightarrow> string \<Rightarrow> string \<Rightarrow> string \<Rightarrow> string \<Rightarrow> int \<Rightarrow> tokenError + string" where
  "GenerateTokenFor ae marshal nonce now secretKeyBase purpose i digest expiresIn =
     (case marshal \<lparr>tpID = i, tpPurpose = purpose, tpDigest = digest, tpExpiresAt = now + expiresIn\<rparr> of
        None \<Rightarrow> Inl TokenJSON
      | Some plaintext \<Rightarrow>
          (case Encrypt ae nonce secretKeyBase plaintext of
             Inl e \<Rightarrow> Inl (TokenCred e)
           | Inr encoded \<Rightarrow>
               (case b64Decode False True (trimTrailingNewline encoded) of
                  None \<Rightarrow> Inl TokenEncoding
                | Some raw \<Rightarrow> Inr (b64Encode True False raw))))"

text \<open>The result is the ID, or \<open>None\<close> for \<open>("", false)\<close>.\<close>

definition VerifyTokenFor ::
    "aead \<Rightarrow> (bytes \<Rightarrow> tokenPayload option) \<Rightarrow> int \<Rightarrow> string \<Rightarrow> string \<Rightarrow> string \<Rightarrow> string \<Rightarrow> string option" where
  "VerifyTokenFor ae unmarshal now secretKeyBase purpose token digest =
     (case b64Decode True False token of
        None \<Rightarrow> None
      | Some raw \<Rightarrow>
          (case Decrypt ae secretKeyBase (b64Encode False True raw) of
             Inl e \<Rightarrow> None
           | Inr plaintext \<Rightarrow>
               (case unmarshal plaintext of
                  None \<Rightarrow> None
                | Some p \<Rightarrow>
                    if tpPurpose p \<noteq> purpose then None
                    else if now > tpExpiresAt p then None
                    else if tpDigest p \<noteq> digest then None
                    else Some (tpID p))))"

lemma generated_token:
  assumes "GenerateTokenFor ae marshal nonce now secret purpose i digest expiresIn = Inr token"
  shows "\<exists>b key. marshal \<lparr>tpID = i, tpPurpose = purpose, tpDigest = digest, tpExpiresAt = now + expiresIn\<rparr> = Some b
    \<and> newGCM secret = Inr key \<and> token = b64Encode True False (nonce @ aeSeal ae key nonce b)"
proof -
  have "trimTrailingNewline (b64Encode False True x @ [CHR 0x0A]) = b64Encode False True x" for x
    by (simp add: trimTrailingNewline_def)
  then show ?thesis
    using assms
    by (auto simp: GenerateTokenFor_def Encrypt_def rbind_eq_Inr b64_roundtrip split: option.splits sum.splits)
qed

text \<open>A token verifies, with its ID, exactly for the purpose and the digest it was made for and until it
  expires; and a token that verifies at all is, up to base64, an encryption under the secret of a
  payload with that purpose, digest and ID.\<close>

theorem token_for_exact:
  assumes "aeadOk ae" and "length nonce = nonceSize"
    and "GenerateTokenFor ae marshal nonce now secret purpose i digest expiresIn = Inr token"
    and "\<And>p b. marshal p = Some b \<Longrightarrow> unmarshal b = Some p"
  shows "VerifyTokenFor ae unmarshal later secret purpose' token digest' =
      (if purpose' = purpose \<and> digest' = digest \<and> later \<le> now + expiresIn then Some i else None)
    \<and> (\<forall>forged j. VerifyTokenFor ae unmarshal later secret purpose' forged digest' = Some j \<longrightarrow>
        (\<exists>key n b p. newGCM secret = Inr key \<and> b64Decode True False forged = Some (n @ aeSeal ae key n b)
           \<and> unmarshal b = Some p \<and> tpPurpose p = purpose' \<and> tpDigest p = digest' \<and> tpID p = j \<and> later \<le> tpExpiresAt p))"
proof (intro conjI allI impI)
  obtain b key where b: "marshal \<lparr>tpID = i, tpPurpose = purpose, tpDigest = digest, tpExpiresAt = now + expiresIn\<rparr> = Some b"
    and key: "newGCM secret = Inr key" and token: "token = b64Encode True False (nonce @ aeSeal ae key nonce b)"
    using generated_token [OF assms(3)] by blast
  have "Decrypt ae secret (b64Encode False True (nonce @ aeSeal ae key nonce b)) = Inr b"
    unfolding Decrypt_iff [OF assms(1) key] by (simp add: b64_roundtrip assms(2))
  then show "VerifyTokenFor ae unmarshal later secret purpose' token digest' =
      (if purpose' = purpose \<and> digest' = digest \<and> later \<le> now + expiresIn then Some i else None)"
    using assms(4) [OF b] by (auto simp: VerifyTokenFor_def token b64_roundtrip)
next
  fix forged j
  assume v: "VerifyTokenFor ae unmarshal later secret purpose' forged digest' = Some j"
  obtain key where key: "newGCM secret = Inr key" using generated_token [OF assms(3)] by blast
  obtain raw b p where raw: "b64Decode True False forged = Some raw"
    and dec: "Decrypt ae secret (b64Encode False True raw) = Inr b" and p: "unmarshal b = Some p"
      "tpPurpose p = purpose'" "tpDigest p = digest'" "tpID p = j" "later \<le> tpExpiresAt p"
    using v by (auto simp: VerifyTokenFor_def split: option.splits sum.splits if_splits)
  have "drop nonceSize raw = aeSeal ae key (take nonceSize raw) b"
    using dec unfolding Decrypt_iff [OF assms(1) key] by (simp add: b64_roundtrip)
  then have "raw = take nonceSize raw @ aeSeal ae key (take nonceSize raw) b" by (metis append_take_drop_id)
  then show "\<exists>key n b p. newGCM secret = Inr key \<and> b64Decode True False forged = Some (n @ aeSeal ae key n b)
      \<and> unmarshal b = Some p \<and> tpPurpose p = purpose' \<and> tpDigest p = digest' \<and> tpID p = j \<and> later \<le> tpExpiresAt p"
    using key raw p by metis
qed

definition payloadMarshal :: "tokenPayload \<Rightarrow> bytes option" where
  "payloadMarshal p =
     (if tpPurpose p = ''password_reset'' \<and> tpDigest p = ''d1'' \<and> tpExpiresAt p = 900 then Some (tpID p) else None)"

definition payloadUnmarshal :: "bytes \<Rightarrow> tokenPayload option" where
  "payloadUnmarshal b = Some \<lparr>tpID = b, tpPurpose = ''password_reset'', tpDigest = ''d1'', tpExpiresAt = 900\<rparr>"

theorem token_for_exact_witness:
  "let secret = hexEncode (replicate 32 (CHR ''k''));
       token = b64Encode True False (''nonce-nonce-'' @ aeSeal tagAead (replicate 32 (CHR ''k'')) ''nonce-nonce-'' ''42'')
   in VerifyTokenFor tagAead payloadUnmarshal 850 secret ''password_reset'' token ''d1'' = Some ''42''"
proof -
  let ?secret = "hexEncode (replicate 32 (CHR ''k''))"
  let ?token = "b64Encode True False (''nonce-nonce-'' @ aeSeal tagAead (replicate 32 (CHR ''k'')) ''nonce-nonce-'' ''42'')"
  have gen: "GenerateTokenFor tagAead payloadMarshal ''nonce-nonce-'' 0 ?secret ''password_reset'' ''42'' ''d1'' 900 = Inr ?token"
  proof -
    have key: "newGCM ?secret = Inr (replicate 32 (CHR ''k''))" by code_simp
    have "trimTrailingNewline (x @ [CHR 0x0A]) = x" for x by (simp add: trimTrailingNewline_def)
    then show ?thesis
      by (simp add: GenerateTokenFor_def Encrypt_def key payloadMarshal_def b64_roundtrip rbind_def del: b64Encode.simps)
  qed
  have n: "length ''nonce-nonce-'' = nonceSize" by (simp add: nonceSize_def)
  have "payloadUnmarshal b = Some p" if "payloadMarshal p = Some b" for p b
    using that by (cases p) (auto simp: payloadMarshal_def payloadUnmarshal_def split: if_splits)
  from token_for_exact [OF tagAead_ok n gen this, where later = 850 and purpose' = "''password_reset''" and digest' = "''d1''"]
  show ?thesis by (simp add: Let_def)
qed

section \<open>Passwords\<close>

record securePassword =
  spDigest :: bytes
  spPassword :: string
  spConfirmation :: string

datatype passwordError = ErrPasswordRequired | ErrPasswordConfirmationMismatch | ErrHashing string

record bcrypt =
  bcHash :: "string \<Rightarrow> string + bytes"
  bcMatches :: "bytes \<Rightarrow> string \<Rightarrow> bool"

definition hashPending :: "bcrypt \<Rightarrow> bool \<Rightarrow> securePassword \<Rightarrow> passwordError option \<times> securePassword" where
  "hashPending bc requireOnCreate p =
     (if spPassword p = [] then
        (if requireOnCreate \<and> spDigest p = [] then (Some ErrPasswordRequired, p) else (None, p))
      else if spConfirmation p \<noteq> [] \<and> spConfirmation p \<noteq> spPassword p then (Some ErrPasswordConfirmationMismatch, p)
      else case bcHash bc (spPassword p) of
             Inl e \<Rightarrow> (Some (ErrHashing e), p)
           | Inr digest \<Rightarrow> (None, \<lparr>spDigest = digest, spPassword = [], spConfirmation = []\<rparr>))"

definition PasswordBeforeInsert :: "bcrypt \<Rightarrow> securePassword \<Rightarrow> passwordError option \<times> securePassword" where
  "PasswordBeforeInsert bc p = hashPending bc True p"

definition PasswordBeforeUpdate :: "bcrypt \<Rightarrow> securePassword \<Rightarrow> passwordError option \<times> securePassword" where
  "PasswordBeforeUpdate bc p = hashPending bc False p"

text \<open>\<open>dummyDigest\<close> is hashed once; it is empty if that failed.\<close>

definition dummyDigest :: "bcrypt \<Rightarrow> bytes" where
  "dummyDigest bc = (case bcHash bc ''trails-dummy-password-for-timing-safety'' of Inl e \<Rightarrow> [] | Inr d \<Rightarrow> d)"

definition Authenticate :: "bcrypt \<Rightarrow> securePassword \<Rightarrow> string \<Rightarrow> bool" where
  "Authenticate bc p password =
     (let digest = (if spDigest p = [] then dummyDigest bc else spDigest p);
          matched = bcMatches bc digest password
      in matched \<and> spDigest p \<noteq> [])"

text \<open>No record without a digest authenticates, not even with the dummy password; a hook clears the
  clear text exactly when it hashes it, and a failing hook changes nothing.\<close>

lemma Authenticate_empty: "spDigest p = [] \<Longrightarrow> \<not> Authenticate bc p password"
  by (simp add: Authenticate_def Let_def)

lemma hashPending_facts:
  assumes "hashPending bc create p = (e, p')"
  shows "e \<noteq> None \<longrightarrow> p' = p" and "e = None \<longrightarrow> spPassword p' = []"
    and "e = None \<and> spPassword p = [] \<longrightarrow> spDigest p' = spDigest p"
    and "e = None \<and> create \<longrightarrow> spDigest p' \<noteq> [] \<or> bcHash bc (spPassword p) = Inr []"
  using assms by (auto simp: hashPending_def split: if_splits sum.splits)

end
