(* ===== verification/Broadcaster.thy ===== *)
theory Broadcaster
  imports Prelude
begin

text \<open>
  The \<open>Broadcaster\<close> interface of realtime channels (\<open>channels/backend.go\<close>) as a locale, and its two
  implementations (\<open>channels/backend/memory\<close>, \<open>channels/backend/database\<close>). Subscriptions are
  numbered; each has a buffer of 16 payloads, and a send to a full one is dropped. \<open>deliver\<close> is
  the arrival of a payload: \<open>Publish\<close> in memory, the delivery of a polled row in the database.
\<close>

definition bufferSize :: nat where
  "bufferSize = 16"

definition trySend :: "'m \<Rightarrow> 'm list \<Rightarrow> 'm list" where
  "trySend m buf = (if length buf < bufferSize then buf @ [m] else buf)"

locale broadcaster =
  fixes valid :: "'b \<Rightarrow> bool"
    and subsOn :: "'b \<Rightarrow> string \<Rightarrow> nat set"
    and buf :: "'b \<Rightarrow> nat \<Rightarrow> bytes list"
    and sub :: "string \<Rightarrow> 'b \<Rightarrow> nat option \<times> 'b"
    and unsub :: "nat \<Rightarrow> 'b \<Rightarrow> 'b"
    and deliver :: "string \<Rightarrow> bytes \<Rightarrow> 'b \<Rightarrow> 'b"
    and recv :: "nat \<Rightarrow> 'b \<Rightarrow> bytes option \<times> 'b"
  assumes sub_Some: "valid b \<Longrightarrow> sub t b = (Some i, b') \<Longrightarrow>
      valid b' \<and> subsOn b' = (subsOn b)(t := insert i (subsOn b t)) \<and> (\<forall>u. i \<notin> subsOn b u)
      \<and> buf b' = (buf b)(i := [])"
    and sub_None: "sub t b = (None, b') \<Longrightarrow> b' = b"
    and unsub_valid: "valid b \<Longrightarrow> valid (unsub i b)"
    and unsub_subs: "valid b \<Longrightarrow> subsOn (unsub i b) u = subsOn b u - {i}"
    and unsub_buf: "valid b \<Longrightarrow> buf (unsub i b) = buf b"
    and deliver_valid: "valid b \<Longrightarrow> valid (deliver t p b)"
    and deliver_subs: "valid b \<Longrightarrow> subsOn (deliver t p b) = subsOn b"
    and deliver_buf: "valid b \<Longrightarrow> buf (deliver t p b) i = (if i \<in> subsOn b t then trySend p (buf b i) else buf b i)"
    and recv_valid: "valid b \<Longrightarrow> valid (snd (recv i b)) \<and> subsOn (snd (recv i b)) = subsOn b"
    and recv_buf: "valid b \<Longrightarrow> fst (recv i b) = (case buf b i of [] \<Rightarrow> None | p # _ \<Rightarrow> Some p)
      \<and> buf (snd (recv i b)) = (buf b)(i := tl (buf b i))"
begin

text \<open>A subscriber of the topic receives what is delivered, if its buffer was drained.\<close>

lemma deliver_recv:
  assumes "valid b" and "i \<in> subsOn b t" and "buf b i = []"
  shows "fst (recv i (deliver t p b)) = Some p"
  using recv_buf [OF deliver_valid [OF assms(1)], of i t p] assms
  by (simp add: deliver_buf trySend_def bufferSize_def)

lemma deliver_other:
  assumes "valid b" and "i \<notin> subsOn b t"
  shows "buf (deliver t p b) i = buf b i"
  using assms by (simp add: deliver_buf)

end

section \<open>Subscriptions\<close>

text \<open>The table of subscriptions both implementations keep.\<close>

record subTable =
  stTopics :: "string \<Rightarrow> nat list"
  stTopicOf :: "nat \<Rightarrow> string"
  stBuffers :: "nat \<Rightarrow> bytes list"
  stNext :: nat
  stClosed :: bool

definition newSubTable :: subTable where
  "newSubTable = \<lparr>stTopics = (\<lambda>t. []), stTopicOf = (\<lambda>i. []), stBuffers = (\<lambda>i. []), stNext = 0, stClosed = False\<rparr>"

definition stSubscribe :: "string \<Rightarrow> subTable \<Rightarrow> nat option \<times> subTable" where
  "stSubscribe topic b =
     (if stClosed b then (None, b)
      else let i = stNext b in
           (Some i, b\<lparr>stTopics := (stTopics b)(topic := stTopics b topic @ [i]), stTopicOf := (stTopicOf b)(i := topic),
                      stBuffers := (stBuffers b)(i := []), stNext := Suc i\<rparr>))"

text \<open>Deleting twice is deleting once, so the \<open>sync.Once\<close> needs no state here.\<close>

definition stUnsubscribe :: "nat \<Rightarrow> subTable \<Rightarrow> subTable" where
  "stUnsubscribe i b =
     b\<lparr>stTopics := (stTopics b)(stTopicOf b i := filter (\<lambda>j. j \<noteq> i) (stTopics b (stTopicOf b i)))\<rparr>"

definition stDeliver :: "string \<Rightarrow> bytes \<Rightarrow> subTable \<Rightarrow> subTable" where
  "stDeliver topic payload b =
     b\<lparr>stBuffers := fold (\<lambda>i bufs. bufs(i := trySend payload (bufs i))) (stTopics b topic) (stBuffers b)\<rparr>"

definition stReceive :: "nat \<Rightarrow> subTable \<Rightarrow> bytes option \<times> subTable" where
  "stReceive i b =
     (case stBuffers b i of [] \<Rightarrow> (None, b) | p # ps \<Rightarrow> (Some p, b\<lparr>stBuffers := (stBuffers b)(i := ps)\<rparr>))"

definition stClose :: "subTable \<Rightarrow> subTable" where
  "stClose b = (if stClosed b then b else b\<lparr>stClosed := True, stTopics := (\<lambda>t. [])\<rparr>)"

definition stValid :: "subTable \<Rightarrow> bool" where
  "stValid b \<longleftrightarrow> (\<forall>t. distinct (stTopics b t) \<and> (\<forall>i\<in>set (stTopics b t). i < stNext b \<and> stTopicOf b i = t))"

definition stOn :: "subTable \<Rightarrow> string \<Rightarrow> nat set" where
  "stOn b t = set (stTopics b t)"

lemma fold_send:
  "distinct is \<Longrightarrow> fold (\<lambda>i bufs. bufs(i := trySend p (bufs i))) is bufs j =
     (if j \<in> set is then trySend p (bufs j) else bufs j)"
  by (induction "is" arbitrary: bufs) auto

lemma stClose_valid: "stValid b \<Longrightarrow> stValid (stClose b)"
  by (simp add: stClose_def stValid_def)

section \<open>The memory backend\<close>

text \<open>\<open>None\<close> is success; otherwise \<open>ErrClosed\<close>.\<close>

datatype brokerError = ErrClosed

definition memPublish :: "string \<Rightarrow> bytes \<Rightarrow> subTable \<Rightarrow> brokerError option \<times> subTable" where
  "memPublish topic payload b = (if stClosed b then (Some ErrClosed, b) else (None, stDeliver topic payload b))"

lemma stSubscribe_spec:
  assumes "stValid b" and "stSubscribe t b = (Some i, b')"
  shows "stValid b' \<and> stOn b' = (stOn b)(t := insert i (stOn b t)) \<and> (\<forall>u. i \<notin> stOn b u)
    \<and> stBuffers b' = (stBuffers b)(i := [])"
proof -
  have i: "i = stNext b" and b': "b' = b\<lparr>stTopics := (stTopics b)(t := stTopics b t @ [i]),
      stTopicOf := (stTopicOf b)(i := t), stBuffers := (stBuffers b)(i := []), stNext := Suc i\<rparr>"
    using assms(2) by (auto simp: stSubscribe_def Let_def split: if_splits)
  have fresh: "i \<notin> set (stTopics b u)" for u using assms(1) by (auto simp: stValid_def i)
  have "stValid b'" using assms(1) fresh by (auto simp: stValid_def b' i less_SucI)
  moreover have "stOn b' = (stOn b)(t := insert i (stOn b t))" by (auto simp: stOn_def b' fun_eq_iff)
  ultimately show ?thesis using fresh by (simp add: stOn_def b')
qed

interpretation memB: broadcaster stValid stOn stBuffers stSubscribe stUnsubscribe stDeliver stReceive
proof unfold_locales
  fix b b' :: subTable and t u p :: string and i :: nat
  show "stValid b \<Longrightarrow> stSubscribe t b = (Some i, b') \<Longrightarrow>
      stValid b' \<and> stOn b' = (stOn b)(t := insert i (stOn b t)) \<and> (\<forall>u. i \<notin> stOn b u) \<and> stBuffers b' = (stBuffers b)(i := [])"
    by (rule stSubscribe_spec)
  show "stSubscribe t b = (None, b') \<Longrightarrow> b' = b" by (auto simp: stSubscribe_def Let_def split: if_splits)
  show "stValid b \<Longrightarrow> stValid (stUnsubscribe i b)" by (auto simp: stUnsubscribe_def stValid_def)
  show "stValid b \<Longrightarrow> stOn (stUnsubscribe i b) u = stOn b u - {i}"
    by (auto simp: stUnsubscribe_def stValid_def stOn_def)
  show "stBuffers (stUnsubscribe i b) = stBuffers b" if "stValid b" by (simp add: stUnsubscribe_def)
  show "stValid b \<Longrightarrow> stValid (stDeliver t p b)" by (simp add: stDeliver_def stValid_def)
  show "stOn (stDeliver t p b) = stOn b" if "stValid b" by (simp add: stDeliver_def stOn_def fun_eq_iff)
  show "stValid b \<Longrightarrow> stBuffers (stDeliver t p b) i = (if i \<in> stOn b t then trySend p (stBuffers b i) else stBuffers b i)"
    by (simp add: stDeliver_def stOn_def stValid_def fold_send)
  show "stValid b \<Longrightarrow> stValid (snd (stReceive i b)) \<and> stOn (snd (stReceive i b)) = stOn b"
    by (simp add: stReceive_def stValid_def stOn_def fun_eq_iff split: list.splits)
  show "fst (stReceive i b) = (case stBuffers b i of [] \<Rightarrow> None | p # _ \<Rightarrow> Some p)
      \<and> stBuffers (snd (stReceive i b)) = (stBuffers b)(i := tl (stBuffers b i))" if "stValid b"
    by (auto simp: stReceive_def split: list.splits)
qed

section \<open>The database backend\<close>

record messageRow =
  mrID :: nat
  mrTopic :: string
  mrPayload :: bytes
  mrCreatedAt :: int

text \<open>A process's broadcaster: its subscriptions and its cursor. The table is shared.\<close>

record dbBroker =
  dkSubs :: subTable
  dkCursor :: nat

text \<open>\<open>New\<close> starts after the latest row.\<close>

definition dkNew :: "messageRow list \<Rightarrow> dbBroker" where
  "dkNew table = \<lparr>dkSubs = newSubTable, dkCursor = Max (insert 0 (mrID ` set table))\<rparr>"

definition dkPublish :: "nat \<Rightarrow> int \<Rightarrow> string \<Rightarrow> bytes \<Rightarrow> dbBroker \<Rightarrow> messageRow list \<Rightarrow> brokerError option \<times> messageRow list" where
  "dkPublish newID now topic payload b table =
     (if stClosed (dkSubs b) then (Some ErrClosed, table)
      else (None, table @ [\<lparr>mrID = newID, mrTopic = topic, mrPayload = payload, mrCreatedAt = now\<rparr>]))"

definition dkSubscribe :: "string \<Rightarrow> dbBroker \<Rightarrow> nat option \<times> dbBroker" where
  "dkSubscribe topic b = (case stSubscribe topic (dkSubs b) of (i, s) \<Rightarrow> (i, b\<lparr>dkSubs := s\<rparr>))"

definition dkUnsubscribe :: "nat \<Rightarrow> dbBroker \<Rightarrow> dbBroker" where
  "dkUnsubscribe i b = b\<lparr>dkSubs := stUnsubscribe i (dkSubs b)\<rparr>"

definition dkClose :: "dbBroker \<Rightarrow> dbBroker" where
  "dkClose b = b\<lparr>dkSubs := stClose (dkSubs b)\<rparr>"

definition dkReceive :: "nat \<Rightarrow> dbBroker \<Rightarrow> bytes option \<times> dbBroker" where
  "dkReceive i b = (case stReceive i (dkSubs b) of (p, s) \<Rightarrow> (p, b\<lparr>dkSubs := s\<rparr>))"

definition dkDeliverRow :: "string \<Rightarrow> bytes \<Rightarrow> dbBroker \<Rightarrow> dbBroker" where
  "dkDeliverRow topic payload b = b\<lparr>dkSubs := stDeliver topic payload (dkSubs b)\<rparr>"

definition dkDeliver :: "messageRow list \<Rightarrow> dbBroker \<Rightarrow> dbBroker" where
  "dkDeliver rows b = fold (\<lambda>r. dkDeliverRow (mrTopic r) (mrPayload r)) rows b"

text \<open>The query of \<open>poll\<close>, and its loop. Each batch moves the cursor, so the rows that are left
  bound the loop; an error of the query would end it early.\<close>

definition dkNewer :: "nat \<Rightarrow> messageRow list \<Rightarrow> messageRow list" where
  "dkNewer cursor table = sort_key mrID (filter (\<lambda>r. mrID r > cursor) table)"

function dkPoll :: "nat \<Rightarrow> messageRow list \<Rightarrow> dbBroker \<Rightarrow> dbBroker" where
  "dkPoll batchSize table b =
     (let rows = take batchSize (dkNewer (dkCursor b) table) in
      if rows = [] then b
      else let b' = (dkDeliver rows b)\<lparr>dkCursor := mrID (List.last rows)\<rparr> in
           if length rows < batchSize then b' else dkPoll batchSize table b')"
  by pat_completeness auto

lemma dkNewer_last: "rows = take n (dkNewer c table) \<Longrightarrow> rows \<noteq> [] \<Longrightarrow>
    List.last rows \<in> set table \<and> c < mrID (List.last rows)"
proof -
  assume rows: "rows = take n (dkNewer c table)" "rows \<noteq> []"
  then have "List.last rows \<in> set (dkNewer c table)" by (meson in_set_takeD last_in_set)
  then show ?thesis by (simp add: dkNewer_def)
qed

termination dkPoll
proof (relation "measure (\<lambda>(n, table, b). length (filter (\<lambda>r. mrID r > dkCursor b) table))")
  fix n table b rows x
  assume "rows = take n (dkNewer (dkCursor b) table)" "rows \<noteq> []"
    and x: "x = (dkDeliver rows b)\<lparr>dkCursor := mrID (List.last rows)\<rparr>"
  then have l: "List.last rows \<in> set table" "dkCursor b < mrID (List.last rows)" using dkNewer_last by blast+
  have "length (filter (\<lambda>r. mrID r > mrID (List.last rows)) table) < length (filter (\<lambda>r. mrID r > dkCursor b) table)"
    using l by (intro filter_length_less [of _ _ _ "List.last rows"]) auto
  then show "((n, table, x), (n, table, b)) \<in> measure (\<lambda>(n, table, b). length (filter (\<lambda>r. mrID r > dkCursor b) table))"
    by (simp add: x)
qed simp

definition dkTrim :: "int \<Rightarrow> nat \<Rightarrow> int \<Rightarrow> messageRow list \<Rightarrow> messageRow list" where
  "dkTrim retention batch now table =
     (let stale = take batch (sort_key mrCreatedAt (filter (\<lambda>r. mrCreatedAt r < now - retention) table))
      in filter (\<lambda>r. mrID r \<notin> mrID ` set stale) table)"

section \<open>One poll\<close>

lemma dkPoll_step:
  "dkPoll n table b =
     (let rows = take n (dkNewer (dkCursor b) table) in
      if rows = [] then b
      else let b' = (dkDeliver rows b)\<lparr>dkCursor := mrID (List.last rows)\<rparr> in
           if length rows < n then b' else dkPoll n table b')"
  by (rule dkPoll.simps)

declare dkPoll.simps [simp del]

interpretation dbB: broadcaster "\<lambda>b. stValid (dkSubs b)" "\<lambda>b. stOn (dkSubs b)" "\<lambda>b. stBuffers (dkSubs b)"
  dkSubscribe dkUnsubscribe dkDeliverRow dkReceive
proof unfold_locales
  fix b b' :: dbBroker and t u p :: string and i :: nat
  show "stValid (dkSubs b) \<Longrightarrow> dkSubscribe t b = (Some i, b') \<Longrightarrow>
      stValid (dkSubs b') \<and> stOn (dkSubs b') = (stOn (dkSubs b))(t := insert i (stOn (dkSubs b) t))
      \<and> (\<forall>u. i \<notin> stOn (dkSubs b) u) \<and> stBuffers (dkSubs b') = (stBuffers (dkSubs b))(i := [])"
    using stSubscribe_spec [of "dkSubs b" t i] by (auto simp: dkSubscribe_def split: prod.splits)
  show "dkSubscribe t b = (None, b') \<Longrightarrow> b' = b"
    using memB.sub_None [of t "dkSubs b"] by (auto simp: dkSubscribe_def split: prod.splits)
  show "stValid (dkSubs b) \<Longrightarrow> stValid (dkSubs (snd (dkReceive i b))) \<and> stOn (dkSubs (snd (dkReceive i b))) = stOn (dkSubs b)"
    using memB.recv_valid [of "dkSubs b" i] by (simp add: dkReceive_def case_prod_beta)
  show "stValid (dkSubs b) \<Longrightarrow> fst (dkReceive i b) = (case stBuffers (dkSubs b) i of [] \<Rightarrow> None | p # _ \<Rightarrow> Some p)
      \<and> stBuffers (dkSubs (snd (dkReceive i b))) = (stBuffers (dkSubs b))(i := tl (stBuffers (dkSubs b) i))"
    using memB.recv_buf [of "dkSubs b" i] by (simp add: dkReceive_def case_prod_beta)
qed (simp_all add: dkUnsubscribe_def dkDeliverRow_def dkReceive_def memB.unsub_valid memB.unsub_subs memB.unsub_buf
    memB.deliver_valid memB.deliver_subs memB.deliver_buf)

lemma dkNewer_facts:
  assumes "distinct (map mrID table)"
  shows "sorted (map mrID (dkNewer c table))" and "distinct (map mrID (dkNewer c table))"
    and "set (dkNewer c table) = {r \<in> set table. c < mrID r}"
  using assms by (auto simp: dkNewer_def distinct_map intro: inj_on_subset)

text \<open>What is left after a batch is what comes after its last row.\<close>

lemma dkNewer_drop:
  assumes "distinct (map mrID table)" and "rows = take n (dkNewer c table)" and "rows \<noteq> []"
  shows "dkNewer (mrID (List.last rows)) table = drop n (dkNewer c table)"
proof -
  let ?all = "dkNewer c table" and ?m = "mrID (List.last rows)"
  note facts = dkNewer_facts [OF assms(1)]
  have split: "?all = rows @ drop n ?all" using assms(2) by simp
  have last: "List.last rows \<in> set rows" using assms(3) by simp
  have sorted: "sorted (map mrID rows @ map mrID (drop n ?all))" "distinct (map mrID rows @ map mrID (drop n ?all))"
    using facts(1,2) [of c] split by (metis map_append)+
  have low: "mrID r \<le> ?m" if "r \<in> set rows" for r
  proof -
    obtain ys y where ys: "rows = ys @ [y]" using assms(3) by (cases rows rule: rev_cases) auto
    show ?thesis using sorted(1) that by (auto simp: ys sorted_append)
  qed
  have high: "?m < mrID r" if "r \<in> set (drop n ?all)" for r
  proof -
    have "?m \<le> mrID r" using sorted(1) last that by (simp add: sorted_append)
    moreover have "?m \<noteq> mrID r" using sorted(2) last that by (auto simp: distinct_append)
    ultimately show ?thesis by simp
  qed
  have "filter (\<lambda>r. ?m < mrID r) ?all = filter (\<lambda>r. ?m < mrID r) rows @ filter (\<lambda>r. ?m < mrID r) (drop n ?all)"
    by (subst split) (rule filter_append)
  also have "\<dots> = drop n ?all" using low high by (force simp: filter_empty_conv not_less)
  finally have f: "filter (\<lambda>r. ?m < mrID r) ?all = drop n ?all" .
  have "c < ?m" using dkNewer_last [OF assms(2,3)] by blast
  then have "filter (\<lambda>r. ?m < mrID r) table = filter (\<lambda>r. ?m < mrID r) (filter (\<lambda>r. c < mrID r) table)"
    by (auto simp: filter_filter intro!: filter_cong)
  then show ?thesis using f by (simp add: dkNewer_def filter_sort)
qed

lemma dkDeliver_append: "dkDeliver (xs @ ys) b = dkDeliver ys (dkDeliver xs b)"
  by (simp add: dkDeliver_def)

lemma dkDeliver_cursor: "dkCursor (dkDeliver rows b) = dkCursor b"
  by (induction rows arbitrary: b) (simp_all add: dkDeliver_def dkDeliverRow_def)

lemma dkDeliver_move: "dkDeliver rows (b\<lparr>dkCursor := c\<rparr>) = (dkDeliver rows b)\<lparr>dkCursor := c\<rparr>"
proof (induction rows arbitrary: b)
  case (Cons r rows)
  have "dkDeliverRow t p (b\<lparr>dkCursor := c\<rparr>) = (dkDeliverRow t p b)\<lparr>dkCursor := c\<rparr>" for t p
    by (cases b) (simp add: dkDeliverRow_def)
  then show ?case using Cons by (simp add: dkDeliver_def)
qed (simp add: dkDeliver_def)

text \<open>C13: However it is cut into batches, one poll delivers every row newer than the cursor exactly once,
  in the order of their IDs, and leaves the cursor at the newest of them.\<close>

theorem poll_delivers_all:
  assumes "distinct (map mrID table)" and "0 < batchSize"
  shows "dkPoll batchSize table b =
    (let rows = dkNewer (dkCursor b) table in
     if rows = [] then b else (dkDeliver rows b)\<lparr>dkCursor := mrID (List.last rows)\<rparr>)"
  using assms
proof (induction batchSize table b rule: dkPoll.induct)
  case (1 n table b)
  let ?all = "dkNewer (dkCursor b) table" and ?rows = "take n (dkNewer (dkCursor b) table)"
  let ?b' = "(dkDeliver ?rows b)\<lparr>dkCursor := mrID (List.last ?rows)\<rparr>"
  show ?case
  proof (cases "?rows = []")
    case True
    then have "?all = []" using 1(3) by simp
    then show ?thesis by (subst dkPoll_step) (simp add: Let_def)
  next
    case ne: False
    show ?thesis
    proof (cases "length ?rows < n")
      case True
      then have "?rows = ?all" by simp
      then show ?thesis using ne True by (subst dkPoll_step) (simp add: Let_def)
    next
      case False
      have rest: "dkNewer (dkCursor ?b') table = drop n ?all"
        using dkNewer_drop [OF 1(2) refl ne] by simp
      have all: "?all = ?rows @ drop n ?all" by simp
      have "dkPoll n table b = dkPoll n table ?b'"
        using ne False by (subst dkPoll_step) (simp add: Let_def)
      also have "\<dots> = (if drop n ?all = [] then ?b'
          else (dkDeliver (drop n ?all) ?b')\<lparr>dkCursor := mrID (List.last (drop n ?all))\<rparr>)"
        using 1(1) [OF refl ne refl False 1(2,3)] by (simp only: rest Let_def)
      also have "\<dots> = (dkDeliver ?all b)\<lparr>dkCursor := mrID (List.last ?all)\<rparr>"
      proof (cases "drop n ?all = []")
        case True
        then have "?all = ?rows" by (metis all append_Nil2)
        then show ?thesis using True by metis
      next
        case d: False
        have "dkDeliver ?all b = dkDeliver (drop n ?all) (dkDeliver ?rows b)"
          by (metis all dkDeliver_append)
        then have "dkDeliver (drop n ?all) ?b' = (dkDeliver ?all b)\<lparr>dkCursor := mrID (List.last ?rows)\<rparr>"
          by (simp only: dkDeliver_move)
        moreover have "List.last (drop n ?all) = List.last ?all" using d by (simp add: last_drop)
        ultimately show ?thesis by (simp only: d if_False) simp
      qed
      finally show ?thesis using ne by (simp add: Let_def)
    qed
  qed
qed

definition sampleMessage :: "nat \<Rightarrow> messageRow" where
  "sampleMessage i = \<lparr>mrID = i, mrTopic = ''room'', mrPayload = replicate i CHR ''x'', mrCreatedAt = 0\<rparr>"

definition sampleBroker :: dbBroker where
  "sampleBroker = snd (dkSubscribe ''room'' (dkNew [sampleMessage 1]))"

text \<open>Four rows, one of them already seen, in batches of two.\<close>

theorem poll_delivers_all_witness:
  "stBuffers (dkSubs (dkPoll 2 [sampleMessage 1, sampleMessage 4, sampleMessage 2, sampleMessage 3] sampleBroker)) 0
     = [''xx'', ''xxx'', ''xxxx'']
   \<and> dkCursor (dkPoll 2 [sampleMessage 1, sampleMessage 4, sampleMessage 2, sampleMessage 3] sampleBroker) = 4"
proof -
  have d: "distinct (map mrID [sampleMessage 1, sampleMessage 4, sampleMessage 2, sampleMessage 3])" "(0::nat) < 2"
    by (simp_all add: sampleMessage_def)
  show ?thesis
    unfolding poll_delivers_all [OF d]
    by (simp add: Let_def dkNewer_def dkDeliver_def dkDeliverRow_def stDeliver_def sampleBroker_def sampleMessage_def dkNew_def
        dkSubscribe_def stSubscribe_def newSubTable_def trySend_def bufferSize_def eval_nat_numeral)
qed

text \<open>IDs are given before rows are committed. A row that becomes visible with an ID below the cursor
  is never delivered.\<close>

theorem late_row_lost:
  assumes "mrID r \<le> dkCursor b"
  shows "dkPoll n (table @ [r]) b = dkPoll n table b"
  using assms
proof (induction n table b rule: dkPoll.induct)
  case (1 n table b)
  have same: "dkNewer (dkCursor b) (table @ [r]) = dkNewer (dkCursor b) table"
    using 1(2) by (simp add: dkNewer_def)
  let ?rows = "take n (dkNewer (dkCursor b) table)"
  show ?case
  proof (cases "?rows = [] \<or> length ?rows < n")
    case True
    then show ?thesis
      by (subst (1 2) dkPoll_step) (simp only: same Let_def, auto)
  next
    case False
    then have "mrID r \<le> dkCursor ((dkDeliver ?rows b)\<lparr>dkCursor := mrID (List.last ?rows)\<rparr>)"
      using 1(2) dkNewer_last [of ?rows n "dkCursor b" table] by auto
    then show ?thesis
      using 1(1) [OF refl _ refl] False by (subst (1 2) dkPoll_step) (simp add: same Let_def)
  qed
qed

end
