(* ===== verification/Hub.thy ===== *)
theory Hub
  imports Broadcaster Http "HOL-Library.AList"
begin

text \<open>
  The hub of realtime channels (\<open>channels/hub.go\<close>, \<open>conn.go\<close>, \<open>channel.go\<close>) and its transport
  (\<open>channels/sse.go\<close>, \<open>spur.go\<close>), over any \<open>broadcaster\<close>. Connections and subscribers are addresses
  in the hub's two heaps. Each critical section of the hub's mutex is one definition; the
  methods are their sequential compositions, and \<open>hubStep\<close> lets them interleave in any order.
  An application's channel is a record of its callbacks.
\<close>

section \<open>State\<close>

type_synonym params = "(string \<times> string) list"

record conn =
  cnOutbox :: "(string \<times> bytes) list"
  cnSubs :: "(string \<times> nat) list"

record subscriber =
  sbConn :: nat
  sbName :: string
  sbParams :: params
  sbTopics :: "string list"

record fanout =
  fnSub :: nat
  fnSubscribers :: "nat list"

record 'b hub =
  hbBroker :: 'b
  hbConns :: "string \<rightharpoonup> nat"
  hbHeap :: "conn list"
  hbSubs :: "subscriber list"
  hbTopics :: "string \<rightharpoonup> fanout"

datatype hubError =
    ErrUnknownConnection string
  | ErrUnknownChannel string
  | ErrAlreadySubscribed string
  | ErrNotSubscribed string
  | AppError string

definition newHub :: "'b \<Rightarrow> 'b hub" where
  "newHub b = \<lparr>hbBroker = b, hbConns = Map.empty, hbHeap = [], hbSubs = [], hbTopics = Map.empty\<rparr>"

definition defaultOutboxSize :: nat where
  "defaultOutboxSize = 16"

section \<open>Channels and their registry\<close>

record 'b channel =
  chSubscribed :: "nat \<Rightarrow> params \<Rightarrow> 'b hub \<Rightarrow> string option \<times> 'b hub"
  chUnsubscribed :: "nat \<Rightarrow> 'b hub \<Rightarrow> 'b hub"
  chReceive :: "nat \<Rightarrow> bytes \<Rightarrow> 'b hub \<Rightarrow> string option \<times> 'b hub"

type_synonym 'b channels = "string \<rightharpoonup> 'b channel"

text \<open>\<open>None\<close> is the panic on a name that is taken.\<close>

definition registerChannel :: "string \<Rightarrow> 'b channel \<Rightarrow> 'b channels \<Rightarrow> 'b channels option" where
  "registerChannel name ch reg = (if reg name \<noteq> None then None else Some (reg(name \<mapsto> ch)))"

definition registryNew :: "'b channels \<Rightarrow> string \<Rightarrow> hubError + 'b channel" where
  "registryNew reg name = (case reg name of None \<Rightarrow> Inl (ErrUnknownChannel name) | Some ch \<Rightarrow> Inr ch)"

section \<open>Critical sections\<close>

text \<open>\<open>id\<close> is the random identifier.\<close>

definition hubConnect :: "string \<Rightarrow> 'b hub \<Rightarrow> 'b hub" where
  "hubConnect connID h =
     h\<lparr>hbHeap := hbHeap h @ [\<lparr>cnOutbox = [], cnSubs = []\<rparr>], hbConns := (hbConns h)(connID \<mapsto> length (hbHeap h))\<rparr>"

definition setSubs :: "nat \<Rightarrow> (string \<times> nat) list \<Rightarrow> 'b hub \<Rightarrow> 'b hub" where
  "setSubs c subs h = h\<lparr>hbHeap := (hbHeap h)[c := (hbHeap h ! c)\<lparr>cnSubs := subs\<rparr>]\<rparr>"

definition disconnectBegin :: "string \<Rightarrow> 'b hub \<Rightarrow> nat list \<times> 'b hub" where
  "disconnectBegin connID h =
     (case hbConns h connID of
        None \<Rightarrow> ([], h)
      | Some c \<Rightarrow> (map snd (cnSubs (hbHeap h ! c)), setSubs c [] (h\<lparr>hbConns := (hbConns h)(connID := None)\<rparr>)))"

definition subscribeCheck :: "string \<Rightarrow> string \<Rightarrow> 'b hub \<Rightarrow> hubError + nat" where
  "subscribeCheck connID name h =
     (case hbConns h connID of
        None \<Rightarrow> Inl (ErrUnknownConnection connID)
      | Some c \<Rightarrow> if map_of (cnSubs (hbHeap h ! c)) name \<noteq> None then Inl (ErrAlreadySubscribed name) else Inr c)"

definition subscribeAdd :: "nat \<Rightarrow> string \<Rightarrow> params \<Rightarrow> 'b hub \<Rightarrow> hubError + nat \<times> 'b hub" where
  "subscribeAdd c name prms h =
     (if map_of (cnSubs (hbHeap h ! c)) name \<noteq> None then Inl (ErrAlreadySubscribed name)
      else let s = length (hbSubs h) in
           Inr (s, setSubs c (AList.update name s (cnSubs (hbHeap h ! c)))
             (h\<lparr>hbSubs := hbSubs h @ [\<lparr>sbConn = c, sbName = name, sbParams = prms, sbTopics = []\<rparr>]\<rparr>)))"

definition subscribeRollback :: "nat \<Rightarrow> string \<Rightarrow> 'b hub \<Rightarrow> 'b hub" where
  "subscribeRollback c name h = setSubs c (AList.delete name (cnSubs (hbHeap h ! c))) h"

definition lookupSub :: "string \<Rightarrow> string \<Rightarrow> 'b hub \<Rightarrow> hubError + nat \<times> nat" where
  "lookupSub connID name h =
     (case hbConns h connID of
        None \<Rightarrow> Inl (ErrUnknownConnection connID)
      | Some c \<Rightarrow> (case map_of (cnSubs (hbHeap h ! c)) name of
                    None \<Rightarrow> Inl (ErrNotSubscribed name)
                  | Some s \<Rightarrow> Inr (c, s)))"

definition unsubscribeBegin :: "string \<Rightarrow> string \<Rightarrow> 'b hub \<Rightarrow> hubError + nat \<times> 'b hub" where
  "unsubscribeBegin connID name h =
     (case lookupSub connID name h of
        Inl e \<Rightarrow> Inl e
      | Inr (c, s) \<Rightarrow> Inr (s, setSubs c (AList.delete name (cnSubs (hbHeap h ! c))) h))"

definition track :: "nat \<Rightarrow> string \<Rightarrow> fanout \<Rightarrow> 'b hub \<Rightarrow> 'b hub" where
  "track s topic tf h =
     h\<lparr>hbTopics := (hbTopics h)(topic \<mapsto> tf\<lparr>fnSubscribers := List.insert s (fnSubscribers tf)\<rparr>),
       hbSubs := (hbSubs h)[s := (hbSubs h ! s)\<lparr>sbTopics := List.insert topic (sbTopics (hbSubs h ! s))\<rparr>]\<rparr>"

definition streamFrom :: "(string \<Rightarrow> 'b \<Rightarrow> nat option \<times> 'b) \<Rightarrow> nat \<Rightarrow> string \<Rightarrow> 'b hub \<Rightarrow> bool \<times> 'b hub" where
  "streamFrom sub s topic h =
     (case hbTopics h topic of
        Some tf \<Rightarrow> (True, track s topic tf h)
      | None \<Rightarrow>
          (case sub topic (hbBroker h) of
             (None, b) \<Rightarrow> (False, h\<lparr>hbBroker := b\<rparr>)
           | (Some i, b) \<Rightarrow> (True, track s topic \<lparr>fnSub = i, fnSubscribers = []\<rparr> (h\<lparr>hbBroker := b\<rparr>))))"

definition untrackTopic :: "(nat \<Rightarrow> 'b \<Rightarrow> 'b) \<Rightarrow> nat \<Rightarrow> string \<Rightarrow> 'b hub \<Rightarrow> 'b hub" where
  "untrackTopic unsub s topic h =
     (case hbTopics h topic of
        None \<Rightarrow> h
      | Some tf \<Rightarrow>
          let rest = filter (\<lambda>x. x \<noteq> s) (fnSubscribers tf) in
          if rest = [] then h\<lparr>hbBroker := unsub (fnSub tf) (hbBroker h), hbTopics := (hbTopics h)(topic := None)\<rparr>
          else h\<lparr>hbTopics := (hbTopics h)(topic \<mapsto> tf\<lparr>fnSubscribers := rest\<rparr>)\<rparr>)"

definition untrackTopics :: "(nat \<Rightarrow> 'b \<Rightarrow> 'b) \<Rightarrow> nat \<Rightarrow> 'b hub \<Rightarrow> 'b hub" where
  "untrackTopics unsub s h =
     (let h1 = fold (untrackTopic unsub s) (sbTopics (hbSubs h ! s)) h
      in h1\<lparr>hbSubs := (hbSubs h1)[s := (hbSubs h1 ! s)\<lparr>sbTopics := []\<rparr>]\<rparr>)"

definition outboxSend :: "bytes \<Rightarrow> nat \<Rightarrow> 'b hub \<Rightarrow> 'b hub" where
  "outboxSend payload s h =
     (let sb = hbSubs h ! s; c = hbHeap h ! sbConn sb in
      if length (cnOutbox c) < defaultOutboxSize
      then h\<lparr>hbHeap := (hbHeap h)[sbConn sb := c\<lparr>cnOutbox := cnOutbox c @ [(sbName sb, payload)]\<rparr>]\<rparr>
      else h)"

text \<open>One round of the loop of \<open>pump\<close> for a topic's fan-out.\<close>

definition hubPump :: "(nat \<Rightarrow> 'b \<Rightarrow> bytes option \<times> 'b) \<Rightarrow> string \<Rightarrow> 'b hub \<Rightarrow> 'b hub" where
  "hubPump recv topic h =
     (case hbTopics h topic of
        None \<Rightarrow> h
      | Some tf \<Rightarrow>
          (case recv (fnSub tf) (hbBroker h) of
             (None, b) \<Rightarrow> h\<lparr>hbBroker := b\<rparr>
           | (Some payload, b) \<Rightarrow> fold (outboxSend payload) (fnSubscribers tf) (h\<lparr>hbBroker := b\<rparr>)))"

section \<open>Methods\<close>

definition teardown :: "'b channels \<Rightarrow> (nat \<Rightarrow> 'b \<Rightarrow> 'b) \<Rightarrow> nat \<Rightarrow> 'b hub \<Rightarrow> 'b hub" where
  "teardown reg unsub s h =
     untrackTopics unsub s
       (case reg (sbName (hbSubs h ! s)) of None \<Rightarrow> h | Some ch \<Rightarrow> chUnsubscribed ch s h)"

definition hubDisconnect :: "'b channels \<Rightarrow> (nat \<Rightarrow> 'b \<Rightarrow> 'b) \<Rightarrow> string \<Rightarrow> 'b hub \<Rightarrow> 'b hub" where
  "hubDisconnect reg unsub connID h =
     (case disconnectBegin connID h of (subs, h1) \<Rightarrow> fold (teardown reg unsub) subs h1)"

definition hubSubscribe ::
    "'b channels \<Rightarrow> (nat \<Rightarrow> 'b \<Rightarrow> 'b) \<Rightarrow> string \<Rightarrow> string \<Rightarrow> params \<Rightarrow> 'b hub \<Rightarrow> hubError option \<times> 'b hub" where
  "hubSubscribe reg unsub connID name prms h =
     (case subscribeCheck connID name h of
        Inl e \<Rightarrow> (Some e, h)
      | Inr c \<Rightarrow>
          (case registryNew reg name of
             Inl e \<Rightarrow> (Some e, h)
           | Inr ch \<Rightarrow>
               (case subscribeAdd c name prms h of
                  Inl e \<Rightarrow> (Some e, h)
                | Inr (s, h1) \<Rightarrow>
                    (case chSubscribed ch s prms h1 of
                       (None, h2) \<Rightarrow> (None, h2)
                     | (Some e, h2) \<Rightarrow> (Some (AppError e), untrackTopics unsub s (subscribeRollback c name h2))))))"

definition hubUnsubscribe ::
    "'b channels \<Rightarrow> (nat \<Rightarrow> 'b \<Rightarrow> 'b) \<Rightarrow> string \<Rightarrow> string \<Rightarrow> 'b hub \<Rightarrow> hubError option \<times> 'b hub" where
  "hubUnsubscribe reg unsub connID name h =
     (case unsubscribeBegin connID name h of
        Inl e \<Rightarrow> (Some e, h)
      | Inr (s, h1) \<Rightarrow> (None, teardown reg unsub s h1))"

definition hubReceive :: "'b channels \<Rightarrow> string \<Rightarrow> string \<Rightarrow> bytes \<Rightarrow> 'b hub \<Rightarrow> hubError option \<times> 'b hub" where
  "hubReceive reg connID name msg h =
     (case lookupSub connID name h of
        Inl e \<Rightarrow> (Some e, h)
      | Inr (c, s) \<Rightarrow>
          (case reg (sbName (hbSubs h ! s)) of
             None \<Rightarrow> (None, h)
           | Some ch \<Rightarrow> (case chReceive ch s msg h of (e, h') \<Rightarrow> (map_option AppError e, h'))))"

definition hubBroadcast ::
    "(string \<Rightarrow> bytes \<Rightarrow> 'b \<Rightarrow> brokerError option \<times> 'b) \<Rightarrow> string \<Rightarrow> bytes \<Rightarrow> 'b hub \<Rightarrow> brokerError option \<times> 'b hub" where
  "hubBroadcast publish topic payload h =
     (case publish topic payload (hbBroker h) of (e, b) \<Rightarrow> (e, h\<lparr>hbBroker := b\<rparr>))"

section \<open>Interleavings\<close>

text \<open>
  Any critical section may happen at any time on any address: more than what the methods do.
  A send of a pump is a step of its own, at any time, because it happens outside the lock.
\<close>

inductive hubStep ::
    "(string \<Rightarrow> 'b \<Rightarrow> nat option \<times> 'b) \<Rightarrow> (nat \<Rightarrow> 'b \<Rightarrow> 'b) \<Rightarrow> (string \<Rightarrow> bytes \<Rightarrow> 'b \<Rightarrow> 'b)
       \<Rightarrow> (nat \<Rightarrow> 'b \<Rightarrow> bytes option \<times> 'b) \<Rightarrow> 'b hub \<Rightarrow> 'b hub \<Rightarrow> bool"
  for sub :: "string \<Rightarrow> 'b \<Rightarrow> nat option \<times> 'b" and unsub :: "nat \<Rightarrow> 'b \<Rightarrow> 'b"
    and deliver :: "string \<Rightarrow> bytes \<Rightarrow> 'b \<Rightarrow> 'b" and recv :: "nat \<Rightarrow> 'b \<Rightarrow> bytes option \<times> 'b" where
  Connect: "hubStep sub unsub deliver recv h (hubConnect connID h)"
| Disconnect: "hubStep sub unsub deliver recv h (snd (disconnectBegin connID h))"
| Add: "subscribeAdd c name prms h = Inr (s, h') \<Longrightarrow> hubStep sub unsub deliver recv h h'"
| Rollback: "hubStep sub unsub deliver recv h (subscribeRollback c name h)"
| Unsubscribe: "unsubscribeBegin connID name h = Inr (s, h') \<Longrightarrow> hubStep sub unsub deliver recv h h'"
| Stream: "s < length (hbSubs h) \<Longrightarrow> hubStep sub unsub deliver recv h (snd (streamFrom sub s topic h))"
| Untrack: "s < length (hbSubs h) \<Longrightarrow> hubStep sub unsub deliver recv h (untrackTopics unsub s h)"
| Arrive: "hubStep sub unsub deliver recv h (h\<lparr>hbBroker := deliver topic payload (hbBroker h)\<rparr>)"
| Take: "hubStep sub unsub deliver recv h (h\<lparr>hbBroker := snd (recv i (hbBroker h))\<rparr>)"
| Send: "hubStep sub unsub deliver recv h (outboxSend payload s h)"

text \<open>The subscribers that stream from a topic, by their own list of topics.\<close>

definition trackers :: "'b hub \<Rightarrow> string \<Rightarrow> nat set" where
  "trackers h t = {s. s < length (hbSubs h) \<and> t \<in> set (sbTopics (hbSubs h ! s))}"

text \<open>The topic index for given sets of subscribers: a fan-out exists for exactly the topics that have
  one, lists exactly them, and holds the broker's only subscription to the topic.\<close>

definition indexOk :: "('b \<Rightarrow> string \<Rightarrow> nat set) \<Rightarrow> (string \<Rightarrow> nat set) \<Rightarrow> 'b hub \<Rightarrow> string \<Rightarrow> bool" where
  "indexOk subsOn tr h t \<longleftrightarrow>
     (case hbTopics h t of
        None \<Rightarrow> tr t = {} \<and> subsOn (hbBroker h) t = {}
      | Some tf \<Rightarrow> set (fnSubscribers tf) = tr t \<and> tr t \<noteq> {} \<and> distinct (fnSubscribers tf)
          \<and> subsOn (hbBroker h) t = {fnSub tf})"

definition oneTopic :: "('b \<Rightarrow> string \<Rightarrow> nat set) \<Rightarrow> 'b \<Rightarrow> bool" where
  "oneTopic subsOn b \<longleftrightarrow> (\<forall>i t u. i \<in> subsOn b t \<longrightarrow> i \<in> subsOn b u \<longrightarrow> t = u)"

definition hubOk ::
    "('b \<Rightarrow> bool) \<Rightarrow> ('b \<Rightarrow> string \<Rightarrow> nat set) \<Rightarrow> (string \<Rightarrow> nat set) \<Rightarrow> 'b hub \<Rightarrow> bool" where
  "hubOk valid subsOn tr h \<longleftrightarrow> valid (hbBroker h) \<and> oneTopic subsOn (hbBroker h) \<and> (\<forall>t. indexOk subsOn tr h t)"

definition hubInv :: "('b \<Rightarrow> bool) \<Rightarrow> ('b \<Rightarrow> string \<Rightarrow> nat set) \<Rightarrow> 'b hub \<Rightarrow> bool" where
  "hubInv valid subsOn h \<longleftrightarrow> hubOk valid subsOn (trackers h) h"

section \<open>The index in every interleaving\<close>

lemma hubOk_cong:
  "hubOk valid subsOn tr h \<Longrightarrow> hbBroker h' = hbBroker h \<Longrightarrow> hbTopics h' = hbTopics h \<Longrightarrow> hubOk valid subsOn tr h'"
  unfolding hubOk_def indexOk_def by metis

lemma hubInv_cong:
  "hubInv valid subsOn h \<Longrightarrow> hbBroker h' = hbBroker h \<Longrightarrow> hbTopics h' = hbTopics h \<Longrightarrow> trackers h' = trackers h
     \<Longrightarrow> hubInv valid subsOn h'"
  unfolding hubInv_def by (metis hubOk_cong)

lemma hubInv_broker:
  assumes "hubInv valid subsOn h" and "valid b" and "subsOn b = subsOn (hbBroker h)"
  shows "hubInv valid subsOn (h\<lparr>hbBroker := b\<rparr>)"
proof -
  have "trackers (h\<lparr>hbBroker := b\<rparr>) = trackers h" by (simp add: trackers_def fun_eq_iff)
  moreover have "indexOk subsOn tr (h\<lparr>hbBroker := b\<rparr>) t = indexOk subsOn tr h t" for tr t
    using assms(3) by (simp add: indexOk_def split: option.splits)
  ultimately show ?thesis using assms by (simp add: hubInv_def hubOk_def oneTopic_def)
qed

lemma trackers_cong: "map sbTopics (hbSubs h') = map sbTopics (hbSubs h) \<Longrightarrow> trackers h' = trackers h"
proof (rule ext)
  fix t assume eq: "map sbTopics (hbSubs h') = map sbTopics (hbSubs h)"
  have len: "length (hbSubs h') = length (hbSubs h)" using eq by (metis length_map)
  have "sbTopics (hbSubs h' ! s) = sbTopics (hbSubs h ! s)" if "s < length (hbSubs h)" for s
    using eq that len by (metis nth_map)
  then show "trackers h' t = trackers h t" by (auto simp: trackers_def len)
qed

lemma setSubs_simps [simp]:
  "hbBroker (setSubs c subs h) = hbBroker h" "hbTopics (setSubs c subs h) = hbTopics h"
  "hbSubs (setSubs c subs h) = hbSubs h" "hbConns (setSubs c subs h) = hbConns h"
  by (simp_all add: setSubs_def)

lemma outboxSend_simps [simp]:
  "hbBroker (outboxSend p s h) = hbBroker h" "hbTopics (outboxSend p s h) = hbTopics h"
  "hbSubs (outboxSend p s h) = hbSubs h" "hbConns (outboxSend p s h) = hbConns h"
  by (simp_all add: outboxSend_def Let_def)

lemma trackers_simps [simp]:
  "trackers (setSubs c subs h) = trackers h" "trackers (outboxSend p s h) = trackers h"
  "trackers (h\<lparr>hbBroker := b\<rparr>) = trackers h" "trackers (h\<lparr>hbHeap := cs\<rparr>) = trackers h"
  "trackers (h\<lparr>hbConns := m\<rparr>) = trackers h"
  by (simp_all add: trackers_def fun_eq_iff)

lemma disconnectBegin_same:
  "hbBroker (snd (disconnectBegin connID h)) = hbBroker h" "hbTopics (snd (disconnectBegin connID h)) = hbTopics h"
  "trackers (snd (disconnectBegin connID h)) = trackers h" "hbSubs (snd (disconnectBegin connID h)) = hbSubs h"
  by (simp_all add: disconnectBegin_def split: option.splits)

lemma subscribeAdd_same:
  assumes "subscribeAdd c name prms h = Inr (s, h')"
  shows "hbBroker h' = hbBroker h" and "hbTopics h' = hbTopics h" and "trackers h' = trackers h"
proof -
  have h': "h' = setSubs c (AList.update name s (cnSubs (hbHeap h ! c)))
      (h\<lparr>hbSubs := hbSubs h @ [\<lparr>sbConn = c, sbName = name, sbParams = prms, sbTopics = []\<rparr>]\<rparr>)"
    using assms by (auto simp: subscribeAdd_def Let_def split: if_splits)
  show "hbBroker h' = hbBroker h" and "hbTopics h' = hbTopics h" by (simp_all add: h')
  show "trackers h' = trackers h" by (auto simp: h' trackers_def fun_eq_iff nth_append less_Suc_eq)
qed

lemma track_trackers:
  assumes "s < length (hbSubs h)"
  shows "trackers (track s topic tf h) = (trackers h)(topic := insert s (trackers h topic))"
  using assms by (auto simp: track_def trackers_def fun_eq_iff nth_list_update)

context broadcaster
begin

lemma hubOk_track:
  assumes "hubOk valid subsOn tr h" and "hbTopics h topic = Some tf" and "s < length (hbSubs h)"
  shows "hubOk valid subsOn (tr(topic := insert s (tr topic))) (track s topic tf h)"
proof -
  have ix: "indexOk subsOn tr h t" for t using assms(1) by (simp add: hubOk_def)
  have "indexOk subsOn (tr(topic := insert s (tr topic))) (track s topic tf h) t" for t
    using ix [of t] ix [of topic] assms(2,3) by (auto simp: indexOk_def track_def split: option.splits)
  then show ?thesis using assms(1) by (simp add: hubOk_def track_def)
qed

lemma hubInv_stream:
  assumes inv: "hubInv valid subsOn h" and s: "s < length (hbSubs h)"
  shows "hubInv valid subsOn (snd (streamFrom sub s topic h))"
proof (cases "hbTopics h topic")
  case (Some tf)
  then show ?thesis
    using inv s by (simp add: streamFrom_def hubInv_def track_trackers hubOk_track)
next
  case topic: None
  obtain i b where b: "sub topic (hbBroker h) = (i, b)" by (cases "sub topic (hbBroker h)")
  show ?thesis
  proof (cases i)
    case None
    then have "b = hbBroker h" using b sub_None by blast
    then show ?thesis using inv topic b None by (simp add: streamFrom_def)
  next
    case (Some j)
    let ?tf = "\<lparr>fnSub = j, fnSubscribers = []\<rparr>" and ?h = "h\<lparr>hbBroker := b\<rparr>"
    have v: "valid (hbBroker h)" and one: "oneTopic subsOn (hbBroker h)" and ix: "indexOk subsOn (trackers h) h t" for t
      using inv by (auto simp: hubInv_def hubOk_def)
    note facts = sub_Some [OF v b [unfolded Some]]
    have "oneTopic subsOn b" using one facts by (auto simp: oneTopic_def)
    moreover have "indexOk subsOn ((trackers h)(topic := insert s (trackers h topic))) (track s topic ?tf ?h) t" for t
      using ix [of t] ix [of topic] facts topic
      by (auto simp: indexOk_def track_def split: option.splits)
    moreover have "trackers (track s topic ?tf ?h) = (trackers h)(topic := insert s (trackers h topic))"
      using s by (simp add: track_trackers)
    moreover have "hbBroker (track s topic ?tf ?h) = b" by (simp add: track_def)
    ultimately have "hubInv valid subsOn (track s topic ?tf ?h)"
      unfolding hubInv_def hubOk_def using facts by metis
    then show ?thesis using topic b Some by (simp add: streamFrom_def)
  qed
qed

lemma hubOk_untrack:
  assumes ok: "hubOk valid subsOn tr h"
  shows "hubOk valid subsOn (tr(topic := tr topic - {s})) (untrackTopic unsub s topic h)"
proof (cases "hbTopics h topic")
  case None
  have ix: "indexOk subsOn tr h t" for t using ok by (simp add: hubOk_def)
  have "indexOk subsOn (tr(topic := tr topic - {s})) h t" for t
    using ix [of t] None by (auto simp: indexOk_def split: option.splits)
  then show ?thesis using ok None by (simp add: hubOk_def untrackTopic_def)
next
  case (Some tf)
  have v: "valid (hbBroker h)" and one: "oneTopic subsOn (hbBroker h)" and ix: "indexOk subsOn tr h t" for t
    using ok by (auto simp: hubOk_def)
  have rest: "set (filter (\<lambda>x. x \<noteq> s) (fnSubscribers tf)) = tr topic - {s}"
    using ix [of topic] Some by (auto simp: indexOk_def)
  have other: "fnSub tf \<notin> subsOn (hbBroker h) u" if "u \<noteq> topic" for u
    using ix [of topic] Some one that by (auto simp: indexOk_def oneTopic_def)
  show ?thesis
  proof (cases "tr topic - {s} = {}")
    case True
    then have e: "filter (\<lambda>x. x \<noteq> s) (fnSubscribers tf) = []" using rest by (metis set_empty)
    have "oneTopic subsOn (unsub (fnSub tf) (hbBroker h))"
      using one by (auto simp: oneTopic_def unsub_subs [OF v])
    moreover have "subsOn (unsub (fnSub tf) (hbBroker h)) u = (if u = topic then {} else subsOn (hbBroker h) u)" for u
      using other [of u] ix [of topic] Some by (auto simp: unsub_subs [OF v] indexOk_def)
    moreover have "indexOk subsOn (tr(topic := tr topic - {s})) (untrackTopic unsub s topic h) t" for t
      using ix [of t] True e Some calculation(2) [of t]
      by (auto simp: untrackTopic_def indexOk_def split: option.splits)
    ultimately show ?thesis using e Some v by (simp add: untrackTopic_def hubOk_def unsub_valid)
  next
    case False
    then have "filter (\<lambda>x. x \<noteq> s) (fnSubscribers tf) \<noteq> []" using rest by (metis set_empty)
    moreover have "indexOk subsOn (tr(topic := tr topic - {s})) (untrackTopic unsub s topic h) t" for t
      using ix [of t] ix [of topic] False rest Some calculation
      by (auto simp: untrackTopic_def indexOk_def Let_def split: option.splits)
    ultimately show ?thesis using Some v one by (simp add: untrackTopic_def hubOk_def Let_def)
  qed
qed

lemma hubOk_untrack_fold:
  "hubOk valid subsOn tr h \<Longrightarrow>
     hubOk valid subsOn (\<lambda>t. if t \<in> set ts then tr t - {s} else tr t) (fold (untrackTopic unsub s) ts h)"
proof (induction ts arbitrary: tr h)
  case (Cons topic ts)
  have "(\<lambda>t. if t \<in> set ts then (tr(topic := tr topic - {s})) t - {s} else (tr(topic := tr topic - {s})) t)
      = (\<lambda>t. if t \<in> set (topic # ts) then tr t - {s} else tr t)"
    by (rule ext) auto
  then show ?case using Cons.IH [OF hubOk_untrack [OF Cons.prems, of topic s]] by simp
qed simp

lemma untrack_subs: "hbSubs (fold (untrackTopic unsub s) ts h) = hbSubs h"
  by (induction ts arbitrary: h) (simp_all add: untrackTopic_def Let_def split: option.splits)

lemma untrackTopics_trackers:
  assumes "s < length (hbSubs h)"
  shows "trackers (untrackTopics unsub s h) t = trackers h t - {s}"
  using assms by (auto simp: untrackTopics_def trackers_def Let_def untrack_subs nth_list_update)

lemma hubInv_untrack:
  assumes "hubInv valid subsOn h" and s: "s < length (hbSubs h)"
  shows "hubInv valid subsOn (untrackTopics unsub s h)"
proof -
  let ?ts = "sbTopics (hbSubs h ! s)"
  have "(\<lambda>t. if t \<in> set ?ts then trackers h t - {s} else trackers h t) = trackers (untrackTopics unsub s h)"
    using s by (auto simp: fun_eq_iff untrackTopics_trackers) (auto simp: trackers_def)
  moreover have "hubOk valid subsOn (\<lambda>t. if t \<in> set ?ts then trackers h t - {s} else trackers h t) (untrackTopics unsub s h)"
    using hubOk_untrack_fold [OF assms(1) [unfolded hubInv_def], of ?ts s]
    by (rule hubOk_cong) (simp_all add: untrackTopics_def Let_def)
  ultimately show ?thesis by (simp add: hubInv_def)
qed

lemma hubInv_step:
  assumes "hubStep sub unsub deliver recv h h'" and inv: "hubInv valid subsOn h"
  shows "hubInv valid subsOn h'"
  using assms(1)
proof cases
  case (Stream s topic)
  then show ?thesis using hubInv_stream inv by blast
next
  case (Untrack s)
  then show ?thesis using hubInv_untrack inv by blast
next
  case (Arrive topic payload)
  have "valid (hbBroker h)" using inv by (simp add: hubInv_def hubOk_def)
  with Arrive show ?thesis using hubInv_broker [OF inv] deliver_valid deliver_subs by metis
next
  case (Take i)
  have "valid (hbBroker h)" using inv by (simp add: hubInv_def hubOk_def)
  with Take show ?thesis using hubInv_broker [OF inv] recv_valid by metis
next
  case (Add c name prms s)
  then show ?thesis using hubInv_cong [OF inv] subscribeAdd_same by metis
next
  case (Disconnect connID)
  then show ?thesis using hubInv_cong [OF inv] disconnectBegin_same by metis
next
  case (Unsubscribe connID name s)
  then have "hbBroker h' = hbBroker h" "hbTopics h' = hbTopics h" "trackers h' = trackers h"
    by (auto simp: unsubscribeBegin_def split: sum.splits)
  then show ?thesis by (rule hubInv_cong [OF inv])
qed (auto intro!: hubInv_cong [OF inv] simp: hubConnect_def subscribeRollback_def)

lemma hubInv_reachable:
  "(hubStep sub unsub deliver recv)\<^sup>*\<^sup>* h h' \<Longrightarrow> hubInv valid subsOn h \<Longrightarrow> hubInv valid subsOn h'"
  by (induction rule: rtranclp_induct) (auto intro: hubInv_step)

lemma hubInv_new:
  "valid b \<Longrightarrow> (\<And>t. subsOn b t = {}) \<Longrightarrow> hubInv valid subsOn (newHub b)"
  by (simp add: hubInv_def hubOk_def indexOk_def newHub_def oneTopic_def trackers_def)

text \<open>A payload that arrives for a topic and is pumped reaches the outbox of every subscriber.\<close>

lemma outboxSend_fold:
  assumes "c < length (hbHeap h)" and "length (cnOutbox (hbHeap h ! c)) \<le> defaultOutboxSize"
  shows "cnOutbox (hbHeap (fold (outboxSend p) ss h) ! c) =
    take defaultOutboxSize (cnOutbox (hbHeap h ! c)
      @ map (\<lambda>s. (sbName (hbSubs h ! s), p)) (filter (\<lambda>s. sbConn (hbSubs h ! s) = c) ss))"
  using assms
proof (induction ss arbitrary: h)
  case (Cons s ss)
  let ?h = "outboxSend p s h"
  have len: "length (hbHeap ?h) = length (hbHeap h)" by (simp add: outboxSend_def Let_def)
  have out: "cnOutbox (hbHeap ?h ! c) =
      (if sbConn (hbSubs h ! s) = c \<and> length (cnOutbox (hbHeap h ! c)) < defaultOutboxSize
       then cnOutbox (hbHeap h ! c) @ [(sbName (hbSubs h ! s), p)] else cnOutbox (hbHeap h ! c))"
    using Cons.prems(1) by (cases "sbConn (hbSubs h ! s) = c") (simp_all add: outboxSend_def Let_def)
  have "cnOutbox (hbHeap (fold (outboxSend p) ss ?h) ! c) = take defaultOutboxSize (cnOutbox (hbHeap ?h ! c)
      @ map (\<lambda>s. (sbName (hbSubs h ! s), p)) (filter (\<lambda>s. sbConn (hbSubs h ! s) = c) ss))"
    using Cons.IH [of ?h] Cons.prems len out by (simp split: if_splits)
  then show ?case using Cons.prems out by (auto simp: take_Cons' split: if_splits)
qed simp

lemma pump_delivers:
  assumes inv: "hubInv valid subsOn h" and tf: "hbTopics h topic = Some tf" and "buf (hbBroker h) (fnSub tf) = []"
    and c: "c < length (hbHeap h)" "length (cnOutbox (hbHeap h ! c)) \<le> defaultOutboxSize"
  shows "cnOutbox (hbHeap (hubPump recv topic (h\<lparr>hbBroker := deliver topic p (hbBroker h)\<rparr>)) ! c) =
    take defaultOutboxSize (cnOutbox (hbHeap h ! c)
      @ map (\<lambda>s. (sbName (hbSubs h ! s), p)) (filter (\<lambda>s. sbConn (hbSubs h ! s) = c) (fnSubscribers tf)))"
proof -
  let ?b = "deliver topic p (hbBroker h)"
  have v: "valid (hbBroker h)" and "indexOk subsOn (trackers h) h topic"
    using inv by (simp_all add: hubInv_def hubOk_def)
  then have "fnSub tf \<in> subsOn (hbBroker h) topic" using tf by (simp add: indexOk_def)
  then have "fst (recv (fnSub tf) ?b) = Some p" using deliver_recv v assms(3) by blast
  then obtain b where "recv (fnSub tf) ?b = (Some p, b)" by (cases "recv (fnSub tf) ?b") simp
  then have "hubPump recv topic (h\<lparr>hbBroker := ?b\<rparr>) = fold (outboxSend p) (fnSubscribers tf) (h\<lparr>hbBroker := b\<rparr>)"
    using tf by (simp add: hubPump_def)
  then show ?thesis using outboxSend_fold [of c "h\<lparr>hbBroker := b\<rparr>" p "fnSubscribers tf"] c by simp
qed

end

section \<open>Outboxes\<close>

definition outboxesOk :: "'b hub \<Rightarrow> bool" where
  "outboxesOk h \<longleftrightarrow> list_all (\<lambda>c. length (cnOutbox c) \<le> defaultOutboxSize) (hbHeap h)"

lemma outboxesOk_update:
  "outboxesOk h \<Longrightarrow> length (cnOutbox x) \<le> defaultOutboxSize \<Longrightarrow> outboxesOk (h\<lparr>hbHeap := (hbHeap h)[c := x]\<rparr>)"
  using set_update_subset_insert [of "hbHeap h" c x] by (auto simp: outboxesOk_def list_all_iff)

lemma outboxesOk_setSubs: "outboxesOk h \<Longrightarrow> outboxesOk (setSubs c subs h)"
proof (cases "c < length (hbHeap h)")
  case True
  then show "outboxesOk h \<Longrightarrow> outboxesOk (setSubs c subs h)"
    unfolding setSubs_def by (intro outboxesOk_update) (auto simp: outboxesOk_def list_all_iff)
qed (simp add: setSubs_def outboxesOk_def list_update_beyond)

lemma outboxesOk_send: "outboxesOk h \<Longrightarrow> outboxesOk (outboxSend p s h)"
  unfolding outboxSend_def Let_def by (auto intro!: outboxesOk_update)

lemma outboxesOk_cong: "outboxesOk h \<Longrightarrow> hbHeap h' = hbHeap h \<Longrightarrow> outboxesOk h'"
  by (simp add: outboxesOk_def)

lemma track_heap [simp]: "hbHeap (track s topic tf h) = hbHeap h" "hbConns (track s topic tf h) = hbConns h"
  by (simp_all add: track_def)

lemma streamFrom_heap [simp]:
  "hbHeap (snd (streamFrom sub s topic h)) = hbHeap h" "hbConns (snd (streamFrom sub s topic h)) = hbConns h"
  by (simp_all add: streamFrom_def split: option.splits prod.splits)

lemma untrackTopic_heap [simp]:
  "hbHeap (untrackTopic unsub s topic h) = hbHeap h" "hbConns (untrackTopic unsub s topic h) = hbConns h"
  "hbSubs (untrackTopic unsub s topic h) = hbSubs h"
  by (simp_all add: untrackTopic_def Let_def split: option.splits)

lemma untrackTopics_heap [simp]:
  "hbHeap (untrackTopics unsub s h) = hbHeap h" "hbConns (untrackTopics unsub s h) = hbConns h"
proof -
  have "hbHeap (fold (untrackTopic unsub s) ts h) = hbHeap h" "hbConns (fold (untrackTopic unsub s) ts h) = hbConns h" for ts
    by (induction ts arbitrary: h) simp_all
  then show "hbHeap (untrackTopics unsub s h) = hbHeap h" "hbConns (untrackTopics unsub s h) = hbConns h"
    by (simp_all add: untrackTopics_def Let_def)
qed

lemma outboxesOk_step:
  assumes "hubStep sub unsub deliver recv h h'" and ok: "outboxesOk h"
  shows "outboxesOk h'"
  using assms(1)
proof cases
  case (Connect connID)
  then show ?thesis using ok by (simp add: hubConnect_def outboxesOk_def)
next
  case (Disconnect connID)
  then show ?thesis
    using ok by (auto simp: disconnectBegin_def intro!: outboxesOk_setSubs elim: outboxesOk_cong split: option.splits)
next
  case (Add c name prms s)
  have "outboxesOk (setSubs c subs (h\<lparr>hbSubs := ss\<rparr>))" for subs ss
    by (rule outboxesOk_setSubs) (rule outboxesOk_cong [OF ok], simp)
  then show ?thesis using Add by (auto simp: subscribeAdd_def Let_def split: if_splits)
next
  case (Rollback c name)
  then show ?thesis using ok by (simp add: subscribeRollback_def outboxesOk_setSubs)
next
  case (Unsubscribe connID name s)
  then show ?thesis using ok by (auto simp: unsubscribeBegin_def outboxesOk_setSubs split: sum.splits)
next
  case (Send payload s)
  then show ?thesis using ok by (simp add: outboxesOk_send)
qed (auto intro: outboxesOk_cong [OF ok])

lemma outboxesOk_reachable:
  "(hubStep sub unsub deliver recv)\<^sup>*\<^sup>* h h' \<Longrightarrow> outboxesOk h \<Longrightarrow> outboxesOk h'"
  by (induction rule: rtranclp_induct) (auto intro: outboxesOk_step)

section \<open>Over the memory broadcaster\<close>

abbreviation memHubStep :: "subTable hub \<Rightarrow> subTable hub \<Rightarrow> bool" where
  "memHubStep \<equiv> hubStep stSubscribe stUnsubscribe stDeliver stReceive"

lemma newSubTable_facts: "stValid newSubTable" "stOn newSubTable t = {}"
  by (simp_all add: newSubTable_def stValid_def stOn_def)

lemma memHub_inv: "memHubStep\<^sup>*\<^sup>* (newHub newSubTable) h \<Longrightarrow> hubInv stValid stOn h"
  using memB.hubInv_reachable memB.hubInv_new newSubTable_facts by metis

lemma memHub_index: "memHubStep\<^sup>*\<^sup>* (newHub newSubTable) h \<Longrightarrow> indexOk stOn (trackers h) h topic"
  using memHub_inv by (simp add: hubInv_def hubOk_def)

text \<open>C14: However the hub's operations interleave, in every state each topic has a fan-out exactly if some
  subscriber streams from it, the fan-out lists exactly these subscribers, each once, and it
  holds the one subscription of the topic at the broadcaster.\<close>

theorem hub_index_consistent:
  assumes "memHubStep\<^sup>*\<^sup>* (newHub newSubTable) h"
  shows "indexOk stOn (trackers h) h topic"
  using assms by (rule memHub_index)

text \<open>The same holds over the database broadcaster.\<close>

theorem hub_index_database:
  assumes "(hubStep dkSubscribe dkUnsubscribe dkDeliverRow dkReceive)\<^sup>*\<^sup>* (newHub (dkNew table)) h"
  shows "indexOk (\<lambda>b. stOn (dkSubs b)) (trackers h) h topic"
proof -
  have "hubInv (\<lambda>b. stValid (dkSubs b)) (\<lambda>b. stOn (dkSubs b)) (newHub (dkNew table))"
    by (rule dbB.hubInv_new) (simp_all add: dkNew_def newSubTable_facts)
  from dbB.hubInv_reachable [OF assms this] show ?thesis by (simp add: hubInv_def hubOk_def)
qed

text \<open>C15: A broadcast that the broadcaster accepts and the topic's pump takes is put, in every outbox, once
  for each subscriber on that connection that streams from the topic, under the subscriber's
  channel name, and nowhere else; what does not fit into the sixteen places is dropped.\<close>

theorem broadcast_delivers:
  assumes reach: "memHubStep\<^sup>*\<^sup>* (newHub newSubTable) h"
    and "hubBroadcast memPublish topic payload h = (None, h1)" and "hbTopics h topic = Some tf"
    and "stBuffers (hbBroker h) (fnSub tf) = []" and "c < length (hbHeap h)"
  shows "cnOutbox (hbHeap (hubPump stReceive topic h1) ! c) =
      take 16 (cnOutbox (hbHeap h ! c)
        @ map (\<lambda>s. (sbName (hbSubs h ! s), payload)) (filter (\<lambda>s. sbConn (hbSubs h ! s) = c) (fnSubscribers tf)))
    \<and> set (fnSubscribers tf) = trackers h topic \<and> distinct (fnSubscribers tf)"
proof -
  have "outboxesOk (newHub newSubTable)" by (simp add: outboxesOk_def newHub_def)
  then have "outboxesOk h" by (rule outboxesOk_reachable [OF reach])
  then have c: "length (cnOutbox (hbHeap h ! c)) \<le> defaultOutboxSize"
    using assms(5) by (simp add: outboxesOk_def list_all_iff)
  have h1: "h1 = h\<lparr>hbBroker := stDeliver topic payload (hbBroker h)\<rparr>"
    using assms(2) by (auto simp: hubBroadcast_def memPublish_def split: if_splits)
  have "indexOk stOn (trackers h) h topic" using memHub_inv [OF reach] by (simp add: hubInv_def hubOk_def)
  then show ?thesis
    using memB.pump_delivers [OF memHub_inv [OF reach] assms(3,4,5) c, of payload] assms(3)
    by (simp add: h1 indexOk_def defaultOutboxSize_def)
qed

section \<open>An example\<close>

definition sampleHub :: "subTable hub" where
  "sampleHub = \<lparr>hbBroker = snd (stSubscribe ''room:1'' newSubTable), hbConns = [''ab12'' \<mapsto> 0],
     hbHeap = [\<lparr>cnOutbox = [], cnSubs = [(''room'', 0)]\<rparr>],
     hbSubs = [\<lparr>sbConn = 0, sbName = ''room'', sbParams = [], sbTopics = [''room:1'']\<rparr>],
     hbTopics = [''room:1'' \<mapsto> \<lparr>fnSub = 0, fnSubscribers = [0]\<rparr>]\<rparr>"

lemma sampleHub_reachable: "memHubStep\<^sup>*\<^sup>* (newHub newSubTable) sampleHub"
proof -
  let ?h1 = "hubConnect ''ab12'' (newHub newSubTable)"
  obtain s h2 where add: "subscribeAdd 0 ''room'' [] ?h1 = Inr (s, h2)"
    by (simp add: subscribeAdd_def hubConnect_def newHub_def Let_def)
  then have s: "s = 0" "hbSubs h2 \<noteq> []" by (auto simp: subscribeAdd_def hubConnect_def newHub_def Let_def)
  have "memHubStep (newHub newSubTable) ?h1" by (rule Connect)
  moreover have "memHubStep ?h1 h2" using add by (rule Add)
  moreover have "memHubStep h2 (snd (streamFrom stSubscribe 0 ''room:1'' h2))" using s by (intro Stream) simp
  moreover have "snd (streamFrom stSubscribe 0 ''room:1'' h2) = sampleHub"
    using add by (auto simp: subscribeAdd_def hubConnect_def newHub_def Let_def setSubs_def streamFrom_def track_def
        stSubscribe_def newSubTable_def sampleHub_def)
  ultimately show ?thesis by (metis (no_types, lifting) converse_rtranclp_into_rtranclp rtranclp.rtrancl_refl)
qed

theorem hub_index_consistent_witness:
  "set (fnSubscribers (the (hbTopics sampleHub ''room:1''))) = trackers sampleHub ''room:1''
   \<and> trackers sampleHub ''room:1'' = {0}"
proof -
  have "trackers sampleHub ''room:1'' = {0}" by (auto simp: trackers_def sampleHub_def)
  then show ?thesis
    using hub_index_consistent [OF sampleHub_reachable, of "''room:1''"] by (simp add: indexOk_def sampleHub_def)
qed

theorem broadcast_delivers_witness:
  "cnOutbox (hbHeap (hubPump stReceive ''room:1'' (snd (hubBroadcast memPublish ''room:1'' ''hi'' sampleHub))) ! 0)
     = [(''room'', ''hi'')]"
proof -
  obtain h1 where h1: "hubBroadcast memPublish ''room:1'' ''hi'' sampleHub = (None, h1)"
    by (simp add: hubBroadcast_def memPublish_def sampleHub_def stSubscribe_def newSubTable_def Let_def)
  have tf: "hbTopics sampleHub ''room:1'' = Some \<lparr>fnSub = 0, fnSubscribers = [0]\<rparr>" by (simp add: sampleHub_def)
  have e: "stBuffers (hbBroker sampleHub) (fnSub \<lparr>fnSub = 0, fnSubscribers = [0]\<rparr>) = []"
    by (simp add: sampleHub_def stSubscribe_def newSubTable_def Let_def)
  have c: "0 < length (hbHeap sampleHub)" by (simp add: sampleHub_def)
  show ?thesis
    using broadcast_delivers [OF sampleHub_reachable h1 tf e c] h1 by (simp add: sampleHub_def)
qed

section \<open>Two races\<close>

text \<open>A connection that disconnects between the check and the insertion of a subscribe keeps the
  subscription: it streams on, and nothing that names the connection can end it.\<close>

theorem subscribe_after_disconnect_leaks:
  assumes "subscribeCheck connID name h = Inr c" and "disconnectBegin connID h = (subs, h1)"
    and "subscribeAdd c name prms h1 = Inr (s, h2)" and "streamFrom sub s topic h2 = (True, h3)"
  shows "(\<exists>tf. hbTopics h3 topic = Some tf \<and> s \<in> set (fnSubscribers tf))
    \<and> hubDisconnect reg unsub connID h3 = h3
    \<and> hubUnsubscribe reg unsub connID name h3 = (Some (ErrUnknownConnection connID), h3)"
proof -
  have "hbConns h1 connID = None" using assms(1,2)
    by (auto simp: subscribeCheck_def disconnectBegin_def setSubs_def split: option.splits if_splits)
  moreover have "hbConns h2 = hbConns h1" using assms(3) by (auto simp: subscribeAdd_def Let_def split: if_splits)
  moreover have "hbConns h3 = hbConns h2" using streamFrom_heap(2) [of sub s topic h2] assms(4) by simp
  ultimately have "hbConns h3 connID = None" by simp
  then have "hubDisconnect reg unsub connID h3 = h3"
    "hubUnsubscribe reg unsub connID name h3 = (Some (ErrUnknownConnection connID), h3)"
    by (simp_all add: hubDisconnect_def disconnectBegin_def hubUnsubscribe_def unsubscribeBegin_def lookupSub_def)
  moreover have "\<exists>tf. hbTopics h3 topic = Some tf \<and> s \<in> set (fnSubscribers tf)"
    using assms(4) by (auto simp: streamFrom_def track_def split: option.splits prod.splits)
  ultimately show ?thesis by blast
qed

text \<open>A failing subscribe removes whatever the connection has under the name, even a newer
  subscription made after an unsubscribe in between: that one streams on without an entry.\<close>

theorem rollback_drops_newer:
  assumes "map_of (cnSubs (hbHeap h ! c)) name = Some s2" and "c < length (hbHeap h)"
  shows "map_of (cnSubs (hbHeap (untrackTopics unsub s1 (subscribeRollback c name h)) ! c)) name = None"
  using assms by (simp add: subscribeRollback_def setSubs_def delete_conv')

end
