(* ===== verification/Sse.thy ===== *)
theory Sse
  imports Http
begin

text \<open>
  The Server-Sent Events frames of \<open>channels/sse.go\<close>, and the parser of the HTML standard that
  reads them in the browser: lines end with LF, CR or CRLF; an empty line dispatches the event
  collected so far.
\<close>

definition LF :: char where "LF = CHR 0x0A"
definition CR :: char where "CR = CHR 0x0D"

definition writeSSEEvent :: "string \<Rightarrow> bytes \<Rightarrow> string" where
  "writeSSEEvent event data =
     ''event: '' @ event @ [LF] @ concat (map (\<lambda>line. ''data: '' @ line @ [LF]) (splitOn LF data)) @ [LF]"

definition writeSSEComment :: "string \<Rightarrow> string" where
  "writeSSEComment comment = '': '' @ comment @ [LF, LF]"

section \<open>The reader\<close>

text \<open>The complete lines of a stream.\<close>

fun sseLines :: "string \<Rightarrow> string \<Rightarrow> string list" where
  "sseLines acc [] = []"
| "sseLines acc (c # s) =
     (if c = LF then rev acc # sseLines [] s
      else if c = CR then rev acc # (case s of [] \<Rightarrow> [] | d # s' \<Rightarrow> if d = LF then sseLines [] s' else sseLines [] s)
      else sseLines (c # acc) s)"

record sseEvent =
  seType :: string
  seData :: bytes

text \<open>Field name and value of a line; a space after the colon is dropped.\<close>

definition sseField :: "string \<Rightarrow> string \<times> string" where
  "sseField line =
     (let name = takeWhile (\<lambda>c. c \<noteq> CHR '':'') line; rest = drop (Suc (length name)) line in
      (name, if rest \<noteq> [] \<and> hd rest = CHR '' '' then tl rest else rest))"

text \<open>Fold over the lines: the event type buffer and the data buffer.\<close>

fun sseParse :: "string \<Rightarrow> string \<Rightarrow> string list \<Rightarrow> sseEvent list" where
  "sseParse t d [] = []"
| "sseParse t d (line # ls) =
     (if line = [] then
        (if d = [] then sseParse [] [] ls
         else \<lparr>seType = (if t = [] then ''message'' else t), seData = butlast d\<rparr> # sseParse [] [] ls)
      else if hd line = CHR '':'' then sseParse t d ls
      else if fst (sseField line) = ''event'' then sseParse (snd (sseField line)) d ls
      else if fst (sseField line) = ''data'' then sseParse t (d @ snd (sseField line) @ [LF]) ls
      else sseParse t d ls)"

definition sseRead :: "string \<Rightarrow> sseEvent list" where
  "sseRead stream = sseParse [] [] (sseLines [] stream)"

section \<open>Frames read back\<close>

lemma crlf [simp]: "LF \<noteq> CR" "CR \<noteq> LF" "LF \<noteq> CHR '' ''" "LF \<noteq> CHR '':''"
  by (simp_all add: LF_def CR_def)

lemma sseLines_line:
  "LF \<notin> set line \<Longrightarrow> CR \<notin> set line \<Longrightarrow> sseLines acc (line @ LF # s) = (rev acc @ line) # sseLines [] s"
  by (induction line arbitrary: acc) auto

lemma sseLines_data:
  assumes "list_all (\<lambda>l. LF \<notin> set l \<and> CR \<notin> set l) ls"
  shows "sseLines [] (concat (map (\<lambda>line. ''data: '' @ line @ [LF]) ls) @ s) = map (\<lambda>l. ''data: '' @ l) ls @ sseLines [] s"
  using assms
proof (induction ls)
  case (Cons l ls)
  have "sseLines [] ((''data: '' @ l) @ LF # t) = (''data: '' @ l) # sseLines [] t" for t
    using Cons.prems sseLines_line [of "''data: '' @ l" "[]" t] by (simp add: LF_def CR_def)
  then show ?case using Cons by simp
qed simp

lemma sseParse_data:
  "sseParse t d (map (\<lambda>l. ''data: '' @ l) ls @ rest) = sseParse t (d @ concat (map (\<lambda>l. l @ [LF]) ls)) rest"
  by (induction ls arbitrary: d) (simp_all add: sseField_def Let_def)

lemma concat_lines: "ls \<noteq> [] \<Longrightarrow> concat (map (\<lambda>l. l @ [LF]) ls) = join [LF] ls @ [LF]"
  by (induction ls rule: list_nonempty_induct) (simp_all add: join_Cons)

lemma splitOn_no_sep: "\<forall>x\<in>set (splitOn c s). c \<notin> set x \<and> set x \<subseteq> set s"
proof (induction s)
  case (Cons a s)
  obtain p ps where "splitOn c s = p # ps" by (cases "splitOn c s") auto
  with Cons show ?case by auto
qed simp

lemma frame_lines:
  assumes "LF \<notin> set channel" and "CR \<notin> set channel" and "CR \<notin> set payload"
  shows "sseLines [] (writeSSEEvent channel payload @ s) =
    (''event: '' @ channel) # map (\<lambda>l. ''data: '' @ l) (splitOn LF payload) @ [] # sseLines [] s"
proof -
  have "sseLines [] ((''event: '' @ channel) @ LF # t) = (''event: '' @ channel) # sseLines [] t" for t
    using assms(1,2) sseLines_line [of "''event: '' @ channel" "[]" t] by (simp add: LF_def CR_def)
  moreover have "list_all (\<lambda>l. LF \<notin> set l \<and> CR \<notin> set l) (splitOn LF payload)"
    using splitOn_no_sep [of LF payload] assms(3) unfolding list_all_iff by blast
  note sseLines_data [OF this, of "LF # s"]
  ultimately show ?thesis by (simp add: writeSSEEvent_def)
qed

lemma frame_parse:
  assumes "channel \<noteq> []"
  shows "sseParse [] [] ((''event: '' @ channel) # map (\<lambda>l. ''data: '' @ l) (splitOn LF payload) @ [] # rest) =
    \<lparr>seType = channel, seData = payload\<rparr> # sseParse [] [] rest"
proof -
  have "concat (map (\<lambda>l. l @ [LF]) (splitOn LF payload)) = payload @ [LF]"
    by (simp add: concat_lines join_splitOn)
  then show ?thesis using assms by (simp add: sseParse_data [simplified] sseField_def Let_def)
qed



text \<open>Only LF splits the payload. A carriage return in it ends the data line for the browser, and
  what follows is read as fields: a payload can forge an event of another channel.\<close>

theorem sse_cr_injection:
  "sseRead (writeSSEEvent ''room'' (''hi'' @ [CR] @ ''event: admin'' @ [CR] @ ''data: grant'')) =
    [\<lparr>seType = ''admin'', seData = ''hi'' @ [LF] @ ''grant''\<rparr>]"
  by code_simp

end
