(* ===== verification/Transport.thy ===== *)
theory Transport
  imports Hub Sse
begin

text \<open>
  The HTTP transport of channels (\<open>channels/sse.go\<close>, \<open>channels/spur.go\<close>): the command endpoint and
  the event stream of one connection. The hub is the heap of the request's context. Binding the
  body and quoting names in errors are parameters.
\<close>

section \<open>The command endpoint\<close>

definition HeaderConnectionID :: string where
  "HeaderConnectionID = ''X-Cable-Connection-Id''"

record commandBody =
  cbCommand :: string
  cbChannel :: string
  cbParams :: params
  cbData :: bytes

fun statusFor :: "hubError \<Rightarrow> nat" where
  "statusFor (ErrUnknownConnection _) = 404"
| "statusFor (ErrUnknownChannel _) = 404"
| "statusFor (ErrNotSubscribed _) = 404"
| "statusFor (ErrAlreadySubscribed _) = 409"
| "statusFor (AppError _) = 500"

fun hubErrorText :: "(string \<Rightarrow> string) \<Rightarrow> hubError \<Rightarrow> string" where
  "hubErrorText quote (ErrUnknownConnection i) = ''channels: unknown connection: '' @ quote i"
| "hubErrorText quote (ErrUnknownChannel n) = ''channels: unknown channel: '' @ quote n"
| "hubErrorText quote (ErrNotSubscribed n) = ''channels: not subscribed: '' @ quote n"
| "hubErrorText quote (ErrAlreadySubscribed n) = ''channels: already subscribed: '' @ quote n"
| "hubErrorText quote (AppError e) = e"

definition runCommand ::
    "'b channels \<Rightarrow> (nat \<Rightarrow> 'b \<Rightarrow> 'b) \<Rightarrow> string \<Rightarrow> commandBody \<Rightarrow> 'b hub \<Rightarrow> (hubError option \<times> 'b hub) option" where
  "runCommand reg unsub connID body h =
     (if cbCommand body = ''subscribe'' then Some (hubSubscribe reg unsub connID (cbChannel body) (cbParams body) h)
      else if cbCommand body = ''unsubscribe'' then Some (hubUnsubscribe reg unsub connID (cbChannel body) h)
      else if cbCommand body = ''message'' then Some (hubReceive reg connID (cbChannel body) (cbData body) h)
      else None)"

definition handleCommand ::
    "'b channels \<Rightarrow> (nat \<Rightarrow> 'b \<Rightarrow> 'b) \<Rightarrow> (string \<Rightarrow> string) \<Rightarrow> (request \<Rightarrow> commandBody option) \<Rightarrow> 'b hub handler" where
  "handleCommand reg unsub quote bind c =
     (let connID = headerGet HeaderConnectionID (hrHeader (cxRequest c)) in
      if connID = [] then String 400 (''missing '' @ HeaderConnectionID @ '' header'') c
      else case bind (cxRequest c) of
             None \<Rightarrow> String 400 ''bad request'' c
           | Some body \<Rightarrow>
               (case runCommand reg unsub connID body (cxHeap c) of
                  None \<Rightarrow> String 400 ''unknown command'' c
                | Some (Some e, h) \<Rightarrow> String (statusFor e) (hubErrorText quote e) (c\<lparr>cxHeap := h\<rparr>)
                | Some (None, h) \<Rightarrow> String 200 ''ok'' (c\<lparr>cxHeap := h\<rparr>)))"

section \<open>The stream\<close>

text \<open>Of the writers only the server's own can flush.\<close>

fun canFlush :: "'heap writer \<Rightarrow> bool" where
  "canFlush (Net r) = True"
| "canFlush (Recorder r) = False"
| "canFlush (CommitWriter committed commit w) = False"

text \<open>
  What the loop of \<open>handleConnect\<close> meets: the end of the request, a message to take from the
  outbox or a heartbeat, each with the success of its write, and, between rounds, another
  goroutine's send to this outbox.
\<close>

datatype streamEvent = CtxDone | FromOutbox bool | Heartbeat bool | Arrives "string \<times> bytes"

definition setOutbox :: "nat \<Rightarrow> (string \<times> bytes) list \<Rightarrow> 'b hub requestContext \<Rightarrow> 'b hub requestContext" where
  "setOutbox a msgs c =
     c\<lparr>cxHeap := (cxHeap c)\<lparr>hbHeap := (hbHeap (cxHeap c))[a := (hbHeap (cxHeap c) ! a)\<lparr>cnOutbox := msgs\<rparr>]\<rparr>\<rparr>"

definition outboxOf :: "nat \<Rightarrow> 'b hub requestContext \<Rightarrow> (string \<times> bytes) list" where
  "outboxOf a c = cnOutbox (hbHeap (cxHeap c) ! a)"

fun streamLoop ::
    "('b hub \<Rightarrow> 'b hub) \<Rightarrow> nat \<Rightarrow> streamEvent list \<Rightarrow> 'b hub requestContext \<Rightarrow> 'b hub requestContext" where
  "streamLoop disconnect a [] c = c"
| "streamLoop disconnect a (CtxDone # es) c = c\<lparr>cxHeap := disconnect (cxHeap c)\<rparr>"
| "streamLoop disconnect a (FromOutbox ok # es) c =
     (case outboxOf a c of
        [] \<Rightarrow> streamLoop disconnect a es c
      | (name, payload) # msgs \<Rightarrow>
          let c1 = setOutbox a msgs c in
          if ok then streamLoop disconnect a es (writeBody (writeSSEEvent name payload) c1)
          else c1\<lparr>cxHeap := disconnect (cxHeap c1)\<rparr>)"
| "streamLoop disconnect a (Heartbeat ok # es) c =
     (if ok then streamLoop disconnect a es (writeBody (writeSSEComment ''ping'') c)
      else c\<lparr>cxHeap := disconnect (cxHeap c)\<rparr>)"
| "streamLoop disconnect a (Arrives m # es) c =
     (let q = outboxOf a c in
      streamLoop disconnect a es (if length q < defaultOutboxSize then setOutbox a (q @ [m]) c else c))"

definition welcomeData :: "string \<Rightarrow> bytes" where
  "welcomeData connID = [CHR 0x7B, CHR 0x22] @ ''connection_id'' @ [CHR 0x22, CHR 0x3A, CHR 0x22] @ connID @ [CHR 0x22, CHR 0x7D]"

definition handleConnect ::
    "'b channels \<Rightarrow> (nat \<Rightarrow> 'b \<Rightarrow> 'b) \<Rightarrow> string \<Rightarrow> bool \<Rightarrow> streamEvent list \<Rightarrow> 'b hub handler" where
  "handleConnect reg unsub connID ok events c =
     (if \<not> canFlush (cxWriter c)
      then (NewHTTPError 500 ''channels: response writer does not support flushing'', c)
      else
        let a = length (hbHeap (cxHeap c)); disconnect = hubDisconnect reg unsub connID;
            c1 = c\<lparr>cxHeap := hubConnect connID (cxHeap c)\<rparr>;
            c2 = writeHeader 200 (setHeader ''X-Accel-Buffering'' ''no'' (setHeader ''Connection'' ''keep-alive''
                   (setHeader ''Cache-Control'' ''no-cache'' (setHeader ''Content-Type'' ''text/event-stream'' c1))))
        in if ok then (Done, streamLoop disconnect a events (writeBody (writeSSEEvent ''connected'' (welcomeData connID)) c2))
           else (Done, c2\<lparr>cxHeap := disconnect (cxHeap c2)\<rparr>))"

section \<open>What the stream carries\<close>

text \<open>The messages the outbox takes, when \<open>n\<close> are in it.\<close>

fun accepted :: "nat \<Rightarrow> streamEvent list \<Rightarrow> (string \<times> bytes) list" where
  "accepted n [] = []"
| "accepted n (Arrives m # es) = (if n < defaultOutboxSize then m # accepted (Suc n) es else accepted n es)"
| "accepted n (FromOutbox ok # es) = accepted (n - 1) es"
| "accepted n (_ # es) = accepted n es"

fun openEvent :: "streamEvent \<Rightarrow> bool" where
  "openEvent CtxDone = False"
| "openEvent (FromOutbox ok) = ok"
| "openEvent (Heartbeat ok) = ok"
| "openEvent (Arrives m) = True"

definition plainMsg :: "string \<times> bytes \<Rightarrow> bool" where
  "plainMsg m \<longleftrightarrow> fst m \<noteq> [] \<and> LF \<notin> set (fst m) \<and> CR \<notin> set (fst m) \<and> CR \<notin> set (snd m)"

definition asEvent :: "string \<times> bytes \<Rightarrow> sseEvent" where
  "asEvent m = \<lparr>seType = fst m, seData = snd m\<rparr>"

definition sentBody :: "'heap requestContext \<Rightarrow> bytes" where
  "sentBody c = rsBody (wrBase (cxWriter c))"

lemma sseRead_event:
  assumes "plainMsg m"
  shows "sseRead (writeSSEEvent (fst m) (snd m) @ s) = asEvent m # sseRead s"
  using assms frame_lines [of "fst m" "snd m" s] frame_parse [of "fst m" "snd m" "sseLines [] s"]
  by (simp add: plainMsg_def sseRead_def asEvent_def)

lemma sseRead_comment: "sseRead (writeSSEComment ''ping'' @ s) = sseRead s"
proof -
  have "sseLines [] (writeSSEComment ''ping'' @ s) = '': ping'' # [] # sseLines [] s"
    by (simp add: writeSSEComment_def LF_def CR_def)
  then show ?thesis by (simp add: sseRead_def)
qed

text \<open>Messages, with pings between them, as the loop writes them.\<close>

definition frame :: "(string \<times> bytes) option \<Rightarrow> bytes" where
  "frame x = (case x of None \<Rightarrow> writeSSEComment ''ping'' | Some m \<Rightarrow> writeSSEEvent (fst m) (snd m))"

lemma frame_simps [simp]: "frame None = writeSSEComment ''ping''" "frame (Some (n, p)) = writeSSEEvent n p"
  by (simp_all add: frame_def)

fun shown :: "(string \<times> bytes) option list \<Rightarrow> (string \<times> bytes) list" where
  "shown [] = []"
| "shown (None # xs) = shown xs"
| "shown (Some m # xs) = m # shown xs"

lemma shown_append [simp]: "shown (xs @ ys) = shown xs @ shown ys"
  by (induction xs rule: shown.induct) simp_all

lemma sseRead_frames:
  "list_all plainMsg (shown xs) \<Longrightarrow> sseRead (concat (map frame xs)) = map asEvent (shown xs)"
proof (induction xs rule: shown.induct)
  case 1
  then show ?case by (simp add: sseRead_def)
qed (simp_all add: frame_def sseRead_comment sseRead_event)

text \<open>A context whose response is under way.\<close>

definition streaming :: "'heap requestContext \<Rightarrow> bool" where
  "streaming c \<longleftrightarrow> (\<exists>r. cxWriter c = Net r \<and> rsStatus r = Some 200)"

lemma streaming_write [simp]:
  "streaming c \<Longrightarrow> streaming (writeBody b c)" "streaming c \<Longrightarrow> sentBody (writeBody b c) = sentBody c @ b"
  by (auto simp: streaming_def writeBody_def respWrite_def respWriteHeader_def sentBody_def Let_def)

lemma outbox_simps [simp]:
  "outboxOf a (writeBody b c) = outboxOf a c" "cxHeap (writeBody b c) = cxHeap c"
  "a < length (hbHeap (cxHeap c)) \<Longrightarrow> outboxOf a (setOutbox a q c) = q"
  "length (hbHeap (cxHeap (setOutbox a q c))) = length (hbHeap (cxHeap c))"
  "streaming (setOutbox a q c) = streaming c" "sentBody (setOutbox a q c) = sentBody c"
  by (simp_all add: outboxOf_def writeBody_def setOutbox_def streaming_def sentBody_def)

lemma streamLoop_frames:
  assumes "streaming c" and "list_all openEvent es" and "a < length (hbHeap (cxHeap c))"
  shows "\<exists>xs. sentBody (streamLoop disconnect a es c) = sentBody c @ concat (map frame xs)
    \<and> shown xs @ outboxOf a (streamLoop disconnect a es c) = outboxOf a c @ accepted (length (outboxOf a c)) es"
  using assms
proof (induction disconnect a es c rule: streamLoop.induct)
  case (1 disconnect a c)
  show ?case by (rule exI [of _ "[]"]) simp
next
  case (3 disconnect a ok es c)
  show ?case
  proof (cases "outboxOf a c")
    case Nil
    then show ?thesis using 3 by simp
  next
    case (Cons m msgs)
    obtain name payload where m: "m = (name, payload)" by (cases m)
    let ?c = "writeBody (writeSSEEvent name payload) (setOutbox a msgs c)"
    have "\<exists>xs. sentBody (streamLoop disconnect a es ?c) = sentBody ?c @ concat (map frame xs)
      \<and> shown xs @ outboxOf a (streamLoop disconnect a es ?c) = outboxOf a ?c @ accepted (length (outboxOf a ?c)) es"
      using 3 Cons m by (intro "3.IH"(2)) simp_all
    then obtain xs where "sentBody (streamLoop disconnect a es ?c) = sentBody ?c @ concat (map frame xs)"
      "shown xs @ outboxOf a (streamLoop disconnect a es ?c) = outboxOf a ?c @ accepted (length (outboxOf a ?c)) es"
      by blast
    then show ?thesis
      using 3(3-5) Cons m by (intro exI [of _ "Some m # xs"]) simp
  qed
next
  case (4 disconnect a ok es c)
  then obtain xs where "sentBody (streamLoop disconnect a es (writeBody (writeSSEComment ''ping'') c)) =
      sentBody c @ writeSSEComment ''ping'' @ concat (map frame xs)"
    "shown xs @ outboxOf a (streamLoop disconnect a es (writeBody (writeSSEComment ''ping'') c)) =
      outboxOf a c @ accepted (length (outboxOf a c)) es" by auto
  then show ?case using 4(3) by (intro exI [of _ "None # xs"]) simp
next
  case (5 disconnect a m es c)
  show ?case
  proof (cases "length (outboxOf a c) < defaultOutboxSize")
    case True
    let ?c = "setOutbox a (outboxOf a c @ [m]) c"
    have "\<exists>xs. sentBody (streamLoop disconnect a es ?c) = sentBody ?c @ concat (map frame xs)
      \<and> shown xs @ outboxOf a (streamLoop disconnect a es ?c) = outboxOf a ?c @ accepted (length (outboxOf a ?c)) es"
      using 5(1) [OF refl] 5(2-4) True by simp
    then show ?thesis using True 5(4) by simp
  next
    case False
    then show ?thesis using 5(1) [OF refl] 5(2-4) by simp
  qed
qed simp


definition connectRequest :: request where
  "connectRequest = \<lparr>hrMethod = ''GET'', hrHost = ''example.com'', hrPath = ''/cable'', hrRawQuery = [],
     hrHeader = noHeader, hrForm = (\<lambda>k. []), hrCookies = [], hrRemoteAddr = ''10.0.0.9:4711'', hrTLS = True\<rparr>"


section \<open>Rejected subscriptions\<close>

definition connsOk :: "'b hub \<Rightarrow> bool" where
  "connsOk h \<longleftrightarrow> (\<forall>connID c. hbConns h connID = Some c \<longrightarrow> c < length (hbHeap h))"

lemma lengths [simp]:
  "length (hbHeap (setSubs c subs h)) = length (hbHeap h)" "length (hbHeap (outboxSend p s h)) = length (hbHeap h)"
  "length (hbSubs (track s t tf h)) = length (hbSubs h)" "length (hbSubs (untrackTopics unsub s h)) = length (hbSubs h)"
proof -
  have "length (hbSubs (fold (untrackTopic unsub s) ts h)) = length (hbSubs h)" for ts
    by (induction ts arbitrary: h) simp_all
  then show "length (hbSubs (untrackTopics unsub s h)) = length (hbSubs h)" by (simp add: untrackTopics_def Let_def)
qed (simp_all add: setSubs_def outboxSend_def track_def Let_def)

lemma streamFrom_length [simp]: "length (hbSubs (snd (streamFrom sub s topic h))) = length (hbSubs h)"
  by (simp add: streamFrom_def split: option.splits prod.splits)

text \<open>No step loses an address, or gives a connection one that does not exist.\<close>

lemma step_grows:
  assumes "hubStep sub unsub deliver recv h h'"
  shows "length (hbSubs h) \<le> length (hbSubs h') \<and> length (hbHeap h) \<le> length (hbHeap h')
    \<and> (connsOk h \<longrightarrow> connsOk h')"
  using assms
proof cases
  case (Add c name prms s)
  then show ?thesis by (auto simp: subscribeAdd_def connsOk_def Let_def split: if_splits)
next
  case (Unsubscribe connID name s)
  then show ?thesis by (auto simp: unsubscribeBegin_def connsOk_def split: sum.splits)
qed (auto simp: hubConnect_def connsOk_def disconnectBegin_def subscribeRollback_def less_SucI split: option.splits if_splits)

lemma steps_grow:
  "(hubStep sub unsub deliver recv)\<^sup>*\<^sup>* h h' \<Longrightarrow> length (hbSubs h) \<le> length (hbSubs h')
     \<and> length (hbHeap h) \<le> length (hbHeap h') \<and> (connsOk h \<longrightarrow> connsOk h')"
  by (induction rule: rtranclp_induct) (auto dest: step_grows)

text \<open>C16: Over the memory broadcaster and with channels that act on the hub only through its operations, a
  subscribe command that fails leaves nothing behind: on an unknown connection or channel or a
  name in use the hub is unchanged, and if the channel itself refuses, its new subscriber is in
  no fan-out, whatever it streamed from before, and the name is free again.\<close>

theorem rejected_subscribe_leaves_nothing:
  assumes reach: "memHubStep\<^sup>*\<^sup>* (newHub newSubTable) h"
    and acts: "\<And>ch s g. reg name = Some ch \<Longrightarrow> memHubStep\<^sup>*\<^sup>* g (snd (chSubscribed ch s prms g))"
    and fails: "hubSubscribe reg stUnsubscribe connID name prms h = (Some e, h')"
  shows "case e of
      AppError msg \<Rightarrow> (\<forall>t. length (hbSubs h) \<notin> trackers h' t)
        \<and> (\<forall>t. case hbTopics h' t of None \<Rightarrow> True | Some tf \<Rightarrow> length (hbSubs h) \<notin> set (fnSubscribers tf))
        \<and> (case hbConns h connID of None \<Rightarrow> False | Some c \<Rightarrow> map_of (cnSubs (hbHeap h' ! c)) name = None)
    | _ \<Rightarrow> h' = h"
proof (cases "h' = h \<and> (\<forall>msg. e \<noteq> AppError msg)")
  case True
  then show ?thesis by (cases e) auto
next
  case False
  then obtain c ch s h1 msg h2 where c: "subscribeCheck connID name h = Inr c" and ch: "reg name = Some ch"
    and add: "subscribeAdd c name prms h = Inr (s, h1)" and sub: "chSubscribed ch s prms h1 = (Some msg, h2)"
    and e: "e = AppError msg" and h': "h' = untrackTopics stUnsubscribe s (subscribeRollback c name h2)"
    using fails
    by (fastforce simp: hubSubscribe_def subscribeCheck_def registryNew_def subscribeAdd_def Let_def
        split: sum.splits option.splits prod.splits if_splits)
  have s: "s = length (hbSubs h)" "hbSubs h1 \<noteq> []" "s < length (hbSubs h1)"
    using add by (auto simp: subscribeAdd_def Let_def split: if_splits)
  have conn: "hbConns h connID = Some c" using c by (auto simp: subscribeCheck_def split: option.splits if_splits)
  have "connsOk (newHub newSubTable)" by (simp add: connsOk_def newHub_def)
  then have "c < length (hbHeap h)" using steps_grow [OF reach] conn by (auto simp: connsOk_def)
  have one: "memHubStep h h1" using add by (rule Add)
  have two: "memHubStep\<^sup>*\<^sup>* h1 h2" using acts [OF ch, of h1 s] sub by simp
  have three: "memHubStep h2 (subscribeRollback c name h2)" by (rule Rollback)
  have len: "s < length (hbSubs (subscribeRollback c name h2))" "c < length (hbHeap h2)"
    using steps_grow [OF two] step_grows [OF one] s \<open>c < length (hbHeap h)\<close> by (simp_all add: subscribeRollback_def)
  have four: "memHubStep (subscribeRollback c name h2) h'" unfolding h' using len(1) by (rule Untrack)
  have "memHubStep\<^sup>*\<^sup>* (newHub newSubTable) h'"
    using reach one two three four by (meson rtranclp.rtrancl_into_rtrancl rtranclp_trans)
  note ix = memHub_index [OF this]
  have none: "s \<notin> trackers h' t" for t by (simp add: h' memB.untrackTopics_trackers [OF len(1)])
  have "case hbTopics h' t of None \<Rightarrow> True | Some tf \<Rightarrow> s \<notin> set (fnSubscribers tf)" for t
    using ix [of t] none [of t] by (auto simp: indexOk_def split: option.splits)
  moreover have "map_of (cnSubs (hbHeap h' ! c)) name = None"
    using len(2) by (simp add: h' subscribeRollback_def setSubs_def delete_conv')
  ultimately show ?thesis using none conn unfolding e s(1) [symmetric] by simp
qed

text \<open>A room that lets a subscriber stream before it looks at the password.\<close>

definition sampleRoom :: "subTable channel" where
  "sampleRoom = \<lparr>chSubscribed = (\<lambda>s prms h. if s < length (hbSubs h)
       then (if prms = [] then Some ''no password'' else None, snd (streamFrom stSubscribe s ''room:1'' h)) else (None, h)),
     chUnsubscribed = (\<lambda>s h. h), chReceive = (\<lambda>s b h. (None, h))\<rparr>"

theorem rejected_subscribe_leaves_nothing_witness:
  "fst (hubSubscribe [''room'' \<mapsto> sampleRoom] stUnsubscribe ''ab12'' ''room'' [] (hubConnect ''ab12'' (newHub newSubTable)))
     = Some (AppError ''no password'')
   \<and> trackers (snd (hubSubscribe [''room'' \<mapsto> sampleRoom] stUnsubscribe ''ab12'' ''room'' []
       (hubConnect ''ab12'' (newHub newSubTable)))) ''room:1'' = {}"
proof -
  let ?h = "hubConnect ''ab12'' (newHub newSubTable)" and ?reg = "[''room'' \<mapsto> sampleRoom]"
  obtain h' where h': "hubSubscribe ?reg stUnsubscribe ''ab12'' ''room'' [] ?h = (Some (AppError ''no password''), h')"
    by (simp add: hubSubscribe_def subscribeCheck_def registryNew_def subscribeAdd_def sampleRoom_def hubConnect_def
        newHub_def Let_def)
  have reach: "memHubStep\<^sup>*\<^sup>* (newHub newSubTable) ?h" by (simp add: Connect r_into_rtranclp)
  have acts: "memHubStep\<^sup>*\<^sup>* g (snd (chSubscribed ch s [] g))" if "?reg ''room'' = Some ch" for ch s g
  proof (cases "s < length (hbSubs g)")
    case True
    then have "memHubStep g (snd (streamFrom stSubscribe s ''room:1'' g))" by (rule Stream)
    then show ?thesis using that True by (auto simp: sampleRoom_def split: if_splits)
  next
    case False
    then show ?thesis using that by (auto simp: sampleRoom_def split: if_splits)
  qed
  have "length (hbSubs ?h) \<notin> trackers h' ''room:1''"
    using rejected_subscribe_leaves_nothing [OF reach acts h'] by simp
  moreover have "length (hbSubs h') = 1" "length (hbSubs ?h) = 0"
    using h' by (auto simp: hubSubscribe_def subscribeCheck_def registryNew_def subscribeAdd_def sampleRoom_def
        hubConnect_def newHub_def subscribeRollback_def Let_def split: prod.splits)
  ultimately have "trackers h' ''room:1'' = {}" by (auto simp: trackers_def)
  then show ?thesis using h' by simp
qed

end
