(* ===== verification/CloudTask.thy ===== *)
theory CloudTask
  imports Jobs Http
begin

text \<open>
  The Cloud Tasks backend (\<open>jobs/backend/cloudtask\<close>). The three tables are lists of rows; each
  transaction or statement is one step on them. Google Cloud Tasks delivers every task it accepted
  until a push is answered with a 2xx; it, the token verifier and JSON are parameters. Flags
  say whether a call of the database or of Cloud Tasks succeeds where the code goes on after
  a failure.
\<close>

section \<open>Rows and configuration\<close>

datatype ctState = CtPending | CtExecuting | CtFinished | CtFailed

record ctRow =
  ctID :: nat
  ctKind :: string
  ctArgs :: bytes
  ctQueue :: string
  ctState :: ctState
  ctAttempts :: int
  ctMaxAttempts :: int
  ctKey :: string
  ctLimit :: int
  ctDuration :: int
  ctLockedAt :: int
  ctTaskName :: string
  ctLastError :: string
  ctFinishedAt :: int
  ctCreatedAt :: int

record slotRow =
  slID :: nat
  slKey :: string
  slCreatedAt :: int

text \<open>\<open>cdSchedule\<close> is \<open>next_run_at\<close> of the one row of the schedule table, once it exists.\<close>

record ctDB =
  cdJobs :: "ctRow list"
  cdNextID :: nat
  cdSlots :: "slotRow list"
  cdNextSlot :: nat
  cdSchedule :: "int option"

record ctConfig =
  cgProjectID :: string
  cgLocation :: string
  cgBaseURL :: string
  cgServiceAccount :: string
  cgAudience :: string
  cgPushPath :: string
  cgCleanupPath :: string
  cgQueueName :: "string \<Rightarrow> string"
  cgRetention :: int
  cgCleanupInterval :: int
  cgSlotGrace :: int

definition defaultQueueName :: "string \<Rightarrow> string" where
  "defaultQueueName logical = (if logical = [] then ''default'' else logical)"

type_synonym ctOption = "ctConfig \<Rightarrow> ctConfig"

definition WithPushPath :: "string \<Rightarrow> ctOption" where
  "WithPushPath p c = c\<lparr>cgPushPath := p\<rparr>"

definition WithCleanupPath :: "string \<Rightarrow> ctOption" where
  "WithCleanupPath p c = c\<lparr>cgCleanupPath := p\<rparr>"

definition WithQueueName :: "(string \<Rightarrow> string) \<Rightarrow> ctOption" where
  "WithQueueName f c = c\<lparr>cgQueueName := f\<rparr>"

definition WithRetention :: "int \<Rightarrow> ctOption" where
  "WithRetention d c = c\<lparr>cgRetention := d\<rparr>"

definition WithCleanupInterval :: "int \<Rightarrow> ctOption" where
  "WithCleanupInterval d c = c\<lparr>cgCleanupInterval := d\<rparr>"

definition WithSlotGracePeriod :: "int \<Rightarrow> ctOption" where
  "WithSlotGracePeriod d c = c\<lparr>cgSlotGrace := d\<rparr>"

text \<open>\<open>New\<close>; \<open>None\<close> is its panic.\<close>

definition ctNew :: "string \<Rightarrow> string \<Rightarrow> string \<Rightarrow> string \<Rightarrow> string \<Rightarrow> ctOption list \<Rightarrow> ctConfig option" where
  "ctNew project location baseURL account audience opts =
     (if project = [] \<or> location = [] \<or> baseURL = [] \<or> account = [] then None
      else Some (fold (\<lambda>opt c. opt c) opts
        \<lparr>cgProjectID = project, cgLocation = location, cgBaseURL = baseURL, cgServiceAccount = account,
         cgAudience = (if audience = [] then baseURL else audience), cgPushPath = ''/tasks/run'',
         cgCleanupPath = ''/tasks/cleanup'', cgQueueName = defaultQueueName, cgRetention = 86400000000000,
         cgCleanupInterval = 300000000000, cgSlotGrace = 3600000000000\<rparr>))"

definition queuePath :: "ctConfig \<Rightarrow> string \<Rightarrow> string" where
  "queuePath cfg logical =
     ''projects/'' @ cgProjectID cfg @ ''/locations/'' @ cgLocation cfg @ ''/queues/'' @ cgQueueName cfg logical"

definition pushURL :: "ctConfig \<Rightarrow> string" where
  "pushURL cfg = cgBaseURL cfg @ cgPushPath cfg"

definition cleanupURL :: "ctConfig \<Rightarrow> string" where
  "cleanupURL cfg = cgBaseURL cfg @ cgCleanupPath cfg"

section \<open>Tasks\<close>

text \<open>The payloads: a job's ID, or the time a cleanup was scheduled for.\<close>

datatype taskBody = RunJob nat | RunCleanup int

record ctTask =
  tkParent :: string
  tkURL :: string
  tkBody :: taskBody
  tkScheduleTime :: "int option"

definition scheduleClaimedSentinel :: int where
  "scheduleClaimedSentinel = 2 ^ 63 - 1"

definition scheduleCleanupTask :: "ctConfig \<Rightarrow> int \<Rightarrow> ctTask" where
  "scheduleCleanupTask cfg scheduledFor =
     \<lparr>tkParent = queuePath cfg ''default'', tkURL = cleanupURL cfg, tkBody = RunCleanup scheduledFor,
      tkScheduleTime = Some scheduledFor\<rparr>"

text \<open>\<open>committed\<close>, \<open>created\<close> and \<open>reset\<close>: whether the transaction, \<open>CreateTask\<close> and the reset succeed.\<close>

definition ensureScheduled :: "ctConfig \<Rightarrow> int \<Rightarrow> bool \<Rightarrow> bool \<Rightarrow> bool \<Rightarrow> ctDB \<Rightarrow> ctDB \<times> ctTask list" where
  "ensureScheduled cfg now committed created reset db =
     (if \<not> committed then (db, [])
      else
        let cur = (case cdSchedule db of None \<Rightarrow> 0 | Some t \<Rightarrow> t) in
        if cur > now then (db\<lparr>cdSchedule := Some cur\<rparr>, [])
        else
          let nextRunAt = now + cgCleanupInterval cfg; db1 = db\<lparr>cdSchedule := Some nextRunAt\<rparr> in
          if created then (db1, [scheduleCleanupTask cfg nextRunAt])
          else (if reset then db1\<lparr>cdSchedule := Some 0\<rparr> else db1, []))"

section \<open>Enqueue\<close>

definition ctNewRow :: "nat \<Rightarrow> int \<Rightarrow> enqueued \<Rightarrow> ctRow" where
  "ctNewRow i now e =
     \<lparr>ctID = i, ctKind = eqKind e, ctArgs = eqArgs e, ctQueue = (if eqQueue e = [] then ''default'' else eqQueue e),
      ctState = CtPending, ctAttempts = 0,
      ctMaxAttempts = (if eqMaxAttempts e = 0 then DefaultMaxAttempts else eqMaxAttempts e),
      ctKey = eqConcurrencyKey e, ctLimit = eqConcurrencyLimit e, ctDuration = eqConcurrencyDuration e,
      ctLockedAt = 0, ctTaskName = [], ctLastError = [], ctFinishedAt = 0, ctCreatedAt = now\<rparr>"

definition ctUpdate :: "nat \<Rightarrow> (ctRow \<Rightarrow> ctRow) \<Rightarrow> ctRow list \<Rightarrow> ctRow list" where
  "ctUpdate i f rows = map (\<lambda>r. if ctID r = i then f r else r) rows"

text \<open>\<open>named\<close> is the name of the created task, or \<open>None\<close> if \<open>CreateTask\<close> fails; \<open>deleted\<close> and \<open>recorded\<close>
  whether the row's deletion, or its update with the name, succeeds; \<open>sched\<close> the cleanup's flags.\<close>

definition ctEnqueue ::
    "ctConfig \<Rightarrow> int \<Rightarrow> string option \<Rightarrow> bool \<Rightarrow> bool \<Rightarrow> bool \<times> bool \<times> bool \<Rightarrow> enqueued \<Rightarrow> ctDB \<Rightarrow> bool \<times> ctDB \<times> ctTask list" where
  "ctEnqueue cfg now named deleted recorded sched e db =
     (let i = cdNextID db; row = ctNewRow i now e;
          db1 = db\<lparr>cdJobs := cdJobs db @ [row], cdNextID := Suc i\<rparr>;
          task = \<lparr>tkParent = queuePath cfg (ctQueue row), tkURL = pushURL cfg, tkBody = RunJob i,
                  tkScheduleTime = eqScheduledAt e\<rparr>
      in case named of
           None \<Rightarrow> (False, if deleted then db1\<lparr>cdJobs := filter (\<lambda>r. ctID r \<noteq> i) (cdJobs db1)\<rparr> else db1, [])
         | Some name \<Rightarrow>
             let db2 = (if recorded then db1\<lparr>cdJobs := ctUpdate i (\<lambda>r. r\<lparr>ctTaskName := name\<rparr>) (cdJobs db1)\<rparr> else db1);
                 (committed, created, reset) = sched;
                 (db3, tasks) = ensureScheduled cfg now committed created reset db2
             in (True, db3, task # tasks))"

section \<open>Claiming\<close>

datatype claimResult = ClaimExecute ctRow | ClaimSkip | ClaimDeferred | ClaimExhausted

text \<open>The insert with ON CONFLICT DO NOTHING on the key.\<close>

definition upsertSlot :: "string \<Rightarrow> int \<Rightarrow> ctDB \<Rightarrow> ctDB" where
  "upsertSlot key now db =
     (if list_ex (\<lambda>s. slKey s = key) (cdSlots db) then db
      else db\<lparr>cdSlots := cdSlots db @ [\<lparr>slID = cdNextSlot db, slKey = key, slCreatedAt = now\<rparr>],
              cdNextSlot := Suc (cdNextSlot db)\<rparr>)"

definition ctActive :: "string \<Rightarrow> int \<Rightarrow> ctRow list \<Rightarrow> nat" where
  "ctActive key windowStart rows =
     length (filter (\<lambda>r. ctKey r = key \<and> ctState r = CtExecuting \<and> ctLockedAt r > windowStart) rows)"

definition claimForExecution :: "int \<Rightarrow> nat \<Rightarrow> ctDB \<Rightarrow> claimResult \<times> ctDB" where
  "claimForExecution now jobID db =
     (case find (\<lambda>r. ctID r = jobID) (cdJobs db) of
        None \<Rightarrow> (ClaimSkip, db)
      | Some row0 \<Rightarrow>
          if ctState row0 \<noteq> CtPending then (ClaimSkip, db)
          else if ctAttempts row0 \<ge> ctMaxAttempts row0 then (ClaimExhausted, db)
          else
            let row = row0\<lparr>ctAttempts := ctAttempts row0 + 1, ctState := CtExecuting, ctLockedAt := now\<rparr>;
                db1 = db\<lparr>cdJobs := ctUpdate (ctID row) (\<lambda>r. r\<lparr>ctAttempts := ctAttempts row, ctState := CtExecuting,
                                                       ctLockedAt := now\<rparr>) (cdJobs db)\<rparr>
            in if ctKey row = [] then (ClaimExecute row, db1)
               else
                 let db2 = upsertSlot (ctKey row) now db1 in
                 if int (ctActive (ctKey row) (now - ctDuration row) (cdJobs db2)) > ctLimit row
                 then (ClaimDeferred, db2\<lparr>cdJobs := ctUpdate (ctID row) (\<lambda>r. r\<lparr>ctAttempts := ctAttempts row - 1,
                                                                        ctState := CtPending\<rparr>) (cdJobs db2)\<rparr>)
                 else (ClaimExecute row, db2))"

section \<open>Finishing and failing\<close>

definition ctFinish :: "nat \<Rightarrow> int \<Rightarrow> ctDB \<Rightarrow> ctDB" where
  "ctFinish i now db = db\<lparr>cdJobs := ctUpdate i (\<lambda>r. r\<lparr>ctState := CtFinished, ctFinishedAt := now\<rparr>) (cdJobs db)\<rparr>"

definition ctExhausted :: "ctRow \<Rightarrow> bool" where
  "ctExhausted row \<longleftrightarrow> ctAttempts row \<ge> ctMaxAttempts row"

definition ctFail :: "ctRow \<Rightarrow> string \<Rightarrow> int \<Rightarrow> ctDB \<Rightarrow> ctDB" where
  "ctFail row jobErr now db =
     db\<lparr>cdJobs := ctUpdate (ctID row)
       (\<lambda>r. let r1 = r\<lparr>ctLastError := jobErr\<rparr> in
            if ctExhausted row then r1\<lparr>ctState := CtFailed, ctFinishedAt := now\<rparr> else r1\<lparr>ctState := CtPending\<rparr>)
       (cdJobs db)\<rparr>"

section \<open>Pushes\<close>

datatype authError = ErrMissingToken | ErrInvalidToken | ErrWrongServiceAccount

definition bearerToken :: "request \<Rightarrow> string option" where
  "bearerToken r =
     (let h = headerGet ''Authorization'' (hrHeader r) in
      if take 7 h = ''Bearer '' then Some (drop 7 h) else None)"

text \<open>\<open>validate\<close> gives the email claim of a valid token; a missing claim is the empty string.\<close>

definition authenticate :: "(string \<Rightarrow> string \<Rightarrow> string option) \<Rightarrow> ctConfig \<Rightarrow> request \<Rightarrow> authError option" where
  "authenticate validate cfg r =
     (case bearerToken r of
        None \<Rightarrow> Some ErrMissingToken
      | Some token \<Rightarrow>
          (case validate token (cgAudience cfg) of
             None \<Rightarrow> Some ErrInvalidToken
           | Some email \<Rightarrow> if email \<noteq> cgServiceAccount cfg then Some ErrWrongServiceAccount else None))"

text \<open>
  \<open>handlePush\<close> with the status and text it answers. The claim commits at \<open>now\<close>, or fails (\<open>claimed\<close>
  is false); \<open>dispatch\<close> is the registry's \<open>Dispatch\<close>; \<open>others\<close> is what other processes do to the
  database meanwhile; \<open>ended\<close> is the time of the last update, which \<open>stored\<close> tells to succeed.
\<close>

definition handlePush ::
    "(string \<Rightarrow> string \<Rightarrow> string option) \<Rightarrow> ctConfig \<Rightarrow> (request \<Rightarrow> nat option) \<Rightarrow> (string \<Rightarrow> bytes \<Rightarrow> string option)
       \<Rightarrow> int \<Rightarrow> bool \<Rightarrow> (ctDB \<Rightarrow> ctDB) \<Rightarrow> int \<Rightarrow> bool \<Rightarrow> request \<Rightarrow> ctDB \<Rightarrow> (nat \<times> string) \<times> ctDB" where
  "handlePush validate cfg bind dispatch now claimed others ended stored r db =
     (case authenticate validate cfg r of
        Some ErrWrongServiceAccount \<Rightarrow> ((403, ''forbidden''), db)
      | Some _ \<Rightarrow> ((401, ''unauthorized''), db)
      | None \<Rightarrow>
          (case bind r of
             None \<Rightarrow> ((400, ''bad request''), db)
           | Some jobID \<Rightarrow>
               if jobID = 0 then ((400, ''bad request''), db)
               else if \<not> claimed then ((500, ''internal error''), db)
               else
                 (case claimForExecution now jobID db of
                    (ClaimSkip, db1) \<Rightarrow> ((200, ''ok''), db1)
                  | (ClaimExhausted, db1) \<Rightarrow> ((200, ''ok''), db1)
                  | (ClaimDeferred, db1) \<Rightarrow> ((429, ''concurrency limit reached''), db1)
                  | (ClaimExecute row, db1) \<Rightarrow>
                      let db2 = others db1 in
                      case dispatch (ctKind row) (ctArgs row) of
                        None \<Rightarrow> ((200, ''ok''), if stored then ctFinish (ctID row) ended db2 else db2)
                      | Some e \<Rightarrow>
                          (if ctExhausted row then (200, ''ok'') else (500, ''job failed''),
                           if stored then ctFail row e ended db2 else db2))))"

section \<open>Cleanup\<close>

definition cleanupBatch :: nat where
  "cleanupBatch = 500"

definition cleanupJobs :: "ctConfig \<Rightarrow> int \<Rightarrow> ctDB \<Rightarrow> ctDB" where
  "cleanupJobs cfg now db =
     (let cutoff = now - cgRetention cfg;
          stale = take cleanupBatch (sort_key ctFinishedAt
            (filter (\<lambda>r. (ctState r = CtFinished \<or> ctState r = CtFailed) \<and> ctFinishedAt r \<le> cutoff) (cdJobs db)))
      in db\<lparr>cdJobs := filter (\<lambda>r. ctID r \<notin> ctID ` set stale) (cdJobs db)\<rparr>)"

definition slotActive :: "string \<Rightarrow> ctDB \<Rightarrow> bool" where
  "slotActive key db = list_ex (\<lambda>r. ctKey r = key \<and> ctState r = CtExecuting) (cdJobs db)"

definition cleanupSlot :: "slotRow \<Rightarrow> ctDB \<Rightarrow> ctDB" where
  "cleanupSlot s db =
     (if slotActive (slKey s) db then db else db\<lparr>cdSlots := filter (\<lambda>x. slID x \<noteq> slID s) (cdSlots db)\<rparr>)"

definition cleanupSlots :: "ctConfig \<Rightarrow> int \<Rightarrow> ctDB \<Rightarrow> ctDB" where
  "cleanupSlots cfg now db =
     fold cleanupSlot (take cleanupBatch (sort_key slCreatedAt
       (filter (\<lambda>s. slCreatedAt s \<le> now - cgSlotGrace cfg) (cdSlots db)))) db"

text \<open>The transaction of \<open>handleCleanupPush\<close>: whether it claimed the run. Without the row it is an error.\<close>

definition claimCleanup :: "int \<Rightarrow> ctDB \<Rightarrow> (bool \<times> ctDB) option" where
  "claimCleanup scheduledFor db =
     (case cdSchedule db of
        None \<Rightarrow> None
      | Some t \<Rightarrow> if t \<noteq> scheduledFor then Some (False, db)
                  else Some (True, db\<lparr>cdSchedule := Some scheduleClaimedSentinel\<rparr>))"

definition handleCleanupPush ::
    "(string \<Rightarrow> string \<Rightarrow> string option) \<Rightarrow> ctConfig \<Rightarrow> (request \<Rightarrow> int option) \<Rightarrow> int \<Rightarrow> bool \<Rightarrow> bool \<Rightarrow> request \<Rightarrow> ctDB
       \<Rightarrow> (nat \<times> string) \<times> ctDB \<times> ctTask list" where
  "handleCleanupPush validate cfg bind now created stored r db =
     (if authenticate validate cfg r \<noteq> None then ((401, ''unauthorized''), db, [])
      else case bind r of
             None \<Rightarrow> ((400, ''bad request''), db, [])
           | Some scheduledFor \<Rightarrow>
               (case claimCleanup scheduledFor db of
                  None \<Rightarrow> ((500, ''internal error''), db, [])
                | Some (False, db1) \<Rightarrow> ((200, ''ok''), db1, [])
                | Some (True, db1) \<Rightarrow>
                    let db2 = cleanupSlots cfg now (cleanupJobs cfg now db1); next = now + cgCleanupInterval cfg in
                    if \<not> created then ((200, ''ok''), if stored then db2\<lparr>cdSchedule := Some 0\<rparr> else db2, [])
                    else ((200, ''ok''), if stored then db2\<lparr>cdSchedule := Some next\<rparr> else db2,
                          [scheduleCleanupTask cfg next])))"

section \<open>The backend as a transition system\<close>

text \<open>
  The database with any number of processes serving pushes: the clock of the database's
  host, the dispatches under way (each with its copy of the row) and, as a ghost, how often
  each job was started. \<open>pol\<close> gives the limit and duration of each concurrency key, which the
  jobs of a key agree on. Any push may arrive at any time, any number of times, and a dispatch
  may be lost with its process or with its last update.
\<close>

record ct =
  ctDb :: ctDB
  ctNow :: int
  ctRunning :: "ctRow list"
  ctStarts :: "nat \<Rightarrow> nat"

definition ctInit :: "int \<Rightarrow> ct" where
  "ctInit t = \<lparr>ctDb = \<lparr>cdJobs = [], cdNextID = 1, cdSlots = [], cdNextSlot = 1, cdSchedule = None\<rparr>, ctNow = t,
     ctRunning = [], ctStarts = (\<lambda>i. 0)\<rparr>"

definition ctEnded :: "nat \<Rightarrow> ctRow list \<Rightarrow> ctRow list" where
  "ctEnded i rs = filter (\<lambda>r. ctID r \<noteq> i) rs"

definition agrees :: "(string \<Rightarrow> int \<times> int) \<Rightarrow> enqueued \<Rightarrow> bool" where
  "agrees pol e \<longleftrightarrow> eqConcurrencyKey e = [] \<or> pol (eqConcurrencyKey e) = (eqConcurrencyLimit e, eqConcurrencyDuration e)"

inductive ctStep :: "(string \<Rightarrow> int \<times> int) \<Rightarrow> ct \<Rightarrow> ct \<Rightarrow> bool" for pol :: "string \<Rightarrow> int \<times> int" where
  Tick: "0 \<le> d \<Longrightarrow> ctStep pol s (s\<lparr>ctNow := ctNow s + d\<rparr>)"
| Enqueue: "agrees pol e \<Longrightarrow> ctEnqueue cfg (ctNow s) named deleted recorded sched e (ctDb s) = (ok, db, tasks) \<Longrightarrow>
    ctStep pol s (s\<lparr>ctDb := db\<rparr>)"
| Start: "claimForExecution (ctNow s) i (ctDb s) = (ClaimExecute row, db) \<Longrightarrow>
    ctStep pol s (s\<lparr>ctDb := db, ctRunning := ctRunning s @ [row], ctStarts := (ctStarts s)(i := Suc (ctStarts s i))\<rparr>)"
| Refuse: "claimForExecution (ctNow s) i (ctDb s) = (res, db) \<Longrightarrow> (\<And>row. res \<noteq> ClaimExecute row) \<Longrightarrow>
    ctStep pol s (s\<lparr>ctDb := db\<rparr>)"
| Succeed: "q \<in> set (ctRunning s) \<Longrightarrow>
    ctStep pol s (s\<lparr>ctDb := ctFinish (ctID q) (ctNow s) (ctDb s), ctRunning := ctEnded (ctID q) (ctRunning s)\<rparr>)"
| Fail: "q \<in> set (ctRunning s) \<Longrightarrow>
    ctStep pol s (s\<lparr>ctDb := ctFail q msg (ctNow s) (ctDb s), ctRunning := ctEnded (ctID q) (ctRunning s)\<rparr>)"
| Lost: "q \<in> set (ctRunning s) \<Longrightarrow> ctStep pol s (s\<lparr>ctRunning := ctEnded (ctID q) (ctRunning s)\<rparr>)"
| CleanJobs: "ctStep pol s (s\<lparr>ctDb := cleanupJobs cfg (ctNow s) (ctDb s)\<rparr>)"
| CleanSlots: "ctStep pol s (s\<lparr>ctDb := cleanupSlots cfg (ctNow s) (ctDb s)\<rparr>)"
| Schedule: "ctStep pol s (s\<lparr>ctDb := (ctDb s)\<lparr>cdSchedule := t\<rparr>\<rparr>)"

inductive_cases ctStepE: "ctStep pol s s'"

text \<open>What a row in the table satisfies, when it was started \<open>n\<close> times.\<close>

definition ctRowOk :: "(string \<Rightarrow> int \<times> int) \<Rightarrow> nat \<Rightarrow> ctRow \<Rightarrow> bool" where
  "ctRowOk pol n r \<longleftrightarrow> int n = ctAttempts r \<and> ctAttempts r \<le> max 0 (ctMaxAttempts r)
     \<and> (ctKey r = [] \<or> pol (ctKey r) = (ctLimit r, ctDuration r))"

text \<open>A dispatch is of a row that is in the table and executing.\<close>

definition runsRow :: "ctRow list \<Rightarrow> ctRow \<Rightarrow> bool" where
  "runsRow rows q \<longleftrightarrow> list_ex (\<lambda>r. ctID r = ctID q \<and> ctKey r = ctKey q \<and> ctState r = CtExecuting
     \<and> ctLockedAt r = ctLockedAt q \<and> ctAttempts r = ctAttempts q \<and> ctMaxAttempts r = ctMaxAttempts q) rows"

text \<open>At no time from now on do more jobs of a key count than its limit allows.\<close>

definition ctBound :: "(string \<Rightarrow> int \<times> int) \<Rightarrow> int \<Rightarrow> ctRow list \<Rightarrow> bool" where
  "ctBound pol now rows \<longleftrightarrow>
     (\<forall>k t. now \<le> t \<longrightarrow> k \<noteq> [] \<longrightarrow> int (ctActive k (t - snd (pol k)) rows) \<le> max 0 (fst (pol k)))"

definition ctInv :: "(string \<Rightarrow> int \<times> int) \<Rightarrow> ct \<Rightarrow> bool" where
  "ctInv pol s \<longleftrightarrow> distinct (map ctID (cdJobs (ctDb s)))
     \<and> (\<forall>r\<in>set (cdJobs (ctDb s)). ctID r < cdNextID (ctDb s) \<and> ctRowOk pol (ctStarts s (ctID r)) r)
     \<and> (\<forall>i\<ge>cdNextID (ctDb s). ctStarts s i = 0)
     \<and> distinct (map ctID (ctRunning s)) \<and> (\<forall>q\<in>set (ctRunning s). runsRow (cdJobs (ctDb s)) q)
     \<and> ctBound pol (ctNow s) (cdJobs (ctDb s))"

section \<open>Preservation\<close>

lemma ctUpdate_ids: "(\<And>r. ctID (f r) = ctID r) \<Longrightarrow> map ctID (ctUpdate i f rows) = map ctID rows"
  by (simp add: ctUpdate_def)

lemma ctUpdate_set: "r \<in> set (ctUpdate i f rows) \<longleftrightarrow> (\<exists>x\<in>set rows. r = (if ctID x = i then f x else x))"
  unfolding ctUpdate_def set_map image_iff by blast

lemma ctUpdate_keep: "x \<in> set rows \<Longrightarrow> ctID x \<noteq> i \<Longrightarrow> x \<in> set (ctUpdate i f rows)"
  unfolding ctUpdate_set by (rule bexI [of _ x]) simp_all

lemma ctActive_le:
  "(\<And>r. r \<in> set rows \<Longrightarrow> P r \<Longrightarrow> Q r) \<Longrightarrow> length (filter P rows) \<le> length (filter Q rows)"
  by (induction rows) (auto simp: le_SucI)

lemma ctBound_le:
  assumes "ctBound pol now rows" and "\<And>k w. ctActive k w rows' \<le> ctActive k w rows"
  shows "ctBound pol now rows'"
  unfolding ctBound_def
proof (intro allI impI)
  fix k :: string and t :: int
  assume "now \<le> t" "k \<noteq> []"
  then have "int (ctActive k (t - snd (pol k)) rows) \<le> max 0 (fst (pol k))" using assms(1) by (simp add: ctBound_def)
  then show "int (ctActive k (t - snd (pol k)) rows') \<le> max 0 (fst (pol k))"
    using assms(2) [of k "t - snd (pol k)"] by linarith
qed

lemma runsRow_iff:
  "runsRow rows q \<longleftrightarrow> (\<exists>r\<in>set rows. ctID r = ctID q \<and> ctKey r = ctKey q \<and> ctState r = CtExecuting
     \<and> ctLockedAt r = ctLockedAt q \<and> ctAttempts r = ctAttempts q \<and> ctMaxAttempts r = ctMaxAttempts q)"
  by (simp add: runsRow_def list_ex_iff)

text \<open>An update of a row that keeps what identifies it and does not set it executing.\<close>

definition calm :: "nat \<Rightarrow> (ctRow \<Rightarrow> ctRow) \<Rightarrow> ctRow list \<Rightarrow> bool" where
  "calm i f rows \<longleftrightarrow> (\<forall>r. ctID (f r) = ctID r) \<and> (\<forall>r\<in>set rows. ctID r = i \<longrightarrow>
     ctKey (f r) = ctKey r \<and> ctLimit (f r) = ctLimit r \<and> ctDuration (f r) = ctDuration r
     \<and> ctMaxAttempts (f r) = ctMaxAttempts r \<and> ctAttempts (f r) = ctAttempts r
     \<and> (ctState (f r) = CtExecuting \<longrightarrow> ctState r = CtExecuting \<and> ctLockedAt (f r) = ctLockedAt r))"

lemma calm_active:
  "calm i f rows \<Longrightarrow> ctActive k w (ctUpdate i f rows) \<le> ctActive k w rows"
proof (induction rows)
  case (Cons r rows)
  then have "calm i f rows" by (simp add: calm_def)
  with Cons show ?case by (auto simp: ctUpdate_def ctActive_def calm_def)
qed (simp add: ctUpdate_def ctActive_def)

lemma ctInv_update:
  assumes inv: "ctInv pol s" and calm: "calm i f (cdJobs (ctDb s))"
    and db: "cdJobs db = ctUpdate i f (cdJobs (ctDb s))" "cdNextID db = cdNextID (ctDb s)"
    and rs: "distinct (map ctID rs)" "\<And>q. q \<in> set rs \<Longrightarrow> q \<in> set (ctRunning s) \<and> ctID q \<noteq> i"
  shows "ctInv pol (s\<lparr>ctDb := db, ctRunning := rs\<rparr>)"
proof -
  have "distinct (map ctID (cdJobs db))" using inv calm by (simp add: db ctUpdate_ids ctInv_def calm_def)
  moreover have "ctID r < cdNextID db \<and> ctRowOk pol (ctStarts s (ctID r)) r" if r: "r \<in> set (cdJobs db)" for r
  proof -
    obtain x where x: "x \<in> set (cdJobs (ctDb s))" "r = (if ctID x = i then f x else x)"
      using r by (auto simp: db ctUpdate_set)
    have "ctID x < cdNextID (ctDb s) \<and> ctRowOk pol (ctStarts s (ctID x)) x" using inv x(1) by (simp add: ctInv_def)
    then show ?thesis using x calm db(2) by (auto simp: calm_def ctRowOk_def)
  qed
  moreover have "runsRow (cdJobs db) q" if q: "q \<in> set rs" for q
  proof -
    have "runsRow (cdJobs (ctDb s)) q" using inv rs(2) [OF q] by (simp add: ctInv_def)
    then show ?thesis unfolding runsRow_iff db using rs(2) [OF q] ctUpdate_keep by metis
  qed
  moreover have "ctBound pol (ctNow s) (cdJobs db)"
    using inv calm_active [OF calm] unfolding db ctInv_def by (blast intro: ctBound_le)
  ultimately show ?thesis using inv rs(1) db(2) by (simp add: ctInv_def)
qed

text \<open>Rows that are not executing may go.\<close>

lemma ctInv_remove:
  assumes inv: "ctInv pol s" and db: "cdJobs db = filter P (cdJobs (ctDb s))" "cdNextID db = cdNextID (ctDb s)"
    and keep: "\<And>r. r \<in> set (cdJobs (ctDb s)) \<Longrightarrow> ctState r = CtExecuting \<Longrightarrow> P r"
  shows "ctInv pol (s\<lparr>ctDb := db\<rparr>)"
proof -
  have "ctActive k w (cdJobs db) \<le> ctActive k w (cdJobs (ctDb s))" for k w
    unfolding ctActive_def db filter_filter by (rule ctActive_le) simp
  then have "ctBound pol (ctNow s) (cdJobs db)" using inv ctBound_le unfolding ctInv_def by blast
  moreover have "runsRow (cdJobs db) q" if "q \<in> set (ctRunning s)" for q
    using inv that keep unfolding ctInv_def runsRow_iff db set_filter by blast
  moreover have "distinct (map ctID (cdJobs db))" using inv unfolding db ctInv_def by (blast intro: distinct_map_filter)
  ultimately show ?thesis using inv by (simp add: ctInv_def db)
qed

text \<open>A new pending row.\<close>

lemma ctInv_add:
  assumes inv: "ctInv pol s" and e: "agrees pol e"
    and row: "r = (ctNewRow (cdNextID (ctDb s)) now e)\<lparr>ctTaskName := name\<rparr>"
    and db: "cdJobs db = cdJobs (ctDb s) @ [r]" "cdNextID db = Suc (cdNextID (ctDb s))"
  shows "ctInv pol (s\<lparr>ctDb := db\<rparr>)"
proof -
  have r: "ctID r = cdNextID (ctDb s)" "ctState r = CtPending" "ctAttempts r = 0" "ctKey r = eqConcurrencyKey e"
    "ctLimit r = eqConcurrencyLimit e" "ctDuration r = eqConcurrencyDuration e"
    by (simp_all add: row ctNewRow_def)
  have "ctActive k w (cdJobs db) = ctActive k w (cdJobs (ctDb s))" for k w by (simp add: ctActive_def db r)
  then have "ctBound pol (ctNow s) (cdJobs db)" using inv by (simp add: ctInv_def ctBound_def)
  moreover have "runsRow (cdJobs db) q" if "q \<in> set (ctRunning s)" for q
    using inv that unfolding ctInv_def runsRow_iff db by auto
  moreover have "distinct (map ctID (cdJobs db))" using inv by (auto simp: db r ctInv_def)
  moreover have "ctRowOk pol (ctStarts s (ctID r)) r"
    using inv e by (auto simp: ctRowOk_def r agrees_def ctInv_def)
  ultimately show ?thesis using inv by (auto simp: ctInv_def db r less_SucI)
qed

text \<open>What a claim does to the table.\<close>

lemma claim_cases:
  assumes "claimForExecution now i db = (res, db')"
  obtains (same) "db' = db" "\<And>row. res \<noteq> ClaimExecute row"
  | (deferred) r where "r \<in> set (cdJobs db)" "ctID r = i" "ctState r = CtPending" "cdNextID db' = cdNextID db"
      "cdJobs db' = ctUpdate i (\<lambda>x. x\<lparr>ctAttempts := ctAttempts r, ctState := CtPending, ctLockedAt := now\<rparr>) (cdJobs db)"
      "res = ClaimDeferred"
  | (execute) r row where "r \<in> set (cdJobs db)" "ctID r = i" "ctState r = CtPending" "ctAttempts r < ctMaxAttempts r"
      "row = r\<lparr>ctAttempts := ctAttempts r + 1, ctState := CtExecuting, ctLockedAt := now\<rparr>" "res = ClaimExecute row"
      "cdNextID db' = cdNextID db"
      "cdJobs db' = ctUpdate i (\<lambda>x. x\<lparr>ctAttempts := ctAttempts row, ctState := CtExecuting, ctLockedAt := now\<rparr>) (cdJobs db)"
      "ctKey row = [] \<or> int (ctActive (ctKey row) (now - ctDuration row) (cdJobs db')) \<le> ctLimit row"
proof (cases "find (\<lambda>r. ctID r = i) (cdJobs db)")
  case None
  then show thesis using assms same by (simp add: claimForExecution_def)
next
  case (Some r)
  then have r: "r \<in> set (cdJobs db)" "ctID r = i" by (auto simp: find_Some_iff)
  let ?row = "r\<lparr>ctAttempts := ctAttempts r + 1, ctState := CtExecuting, ctLockedAt := now\<rparr>"
  let ?jobs = "ctUpdate i (\<lambda>x. x\<lparr>ctAttempts := ctAttempts ?row, ctState := CtExecuting, ctLockedAt := now\<rparr>) (cdJobs db)"
  have slot: "cdJobs (upsertSlot k now (db\<lparr>cdJobs := js\<rparr>)) = js" "cdNextID (upsertSlot k now (db\<lparr>cdJobs := js\<rparr>)) = cdNextID db" for k js
    by (simp_all add: upsertSlot_def)
  have twice: "ctUpdate i (\<lambda>x. x\<lparr>ctAttempts := a, ctState := b\<rparr>)
      (ctUpdate i (\<lambda>x. x\<lparr>ctAttempts := a', ctState := b', ctLockedAt := now\<rparr>) rows) =
    ctUpdate i (\<lambda>x. x\<lparr>ctAttempts := a, ctState := b, ctLockedAt := now\<rparr>) rows" for a a' b b' rows
    by (simp add: ctUpdate_def)
  consider (skip) "ctState r \<noteq> CtPending \<or> ctAttempts r \<ge> ctMaxAttempts r"
    | (over) "ctState r = CtPending" "ctAttempts r < ctMaxAttempts r" "ctKey r \<noteq> []"
        "int (ctActive (ctKey r) (now - ctDuration r) ?jobs) > ctLimit r"
    | (run) "ctState r = CtPending" "ctAttempts r < ctMaxAttempts r"
        "ctKey r = [] \<or> int (ctActive (ctKey r) (now - ctDuration r) ?jobs) \<le> ctLimit r"
    by linarith
  then show thesis
  proof cases
    case skip
    then show thesis using assms Some same by (auto simp: claimForExecution_def split: if_splits)
  next
    case over
    then show thesis using assms Some r deferred by (auto simp: claimForExecution_def slot twice Let_def)
  next
    case run
    then show thesis using assms Some r execute [OF r] by (auto simp: claimForExecution_def slot Let_def split: if_splits)
  qed
qed

lemma ctInv_start:
  assumes inv: "ctInv pol s" and claim: "claimForExecution (ctNow s) i (ctDb s) = (ClaimExecute row, db)"
  shows "ctInv pol (s\<lparr>ctDb := db, ctRunning := ctRunning s @ [row], ctStarts := (ctStarts s)(i := Suc (ctStarts s i))\<rparr>)"
  using claim
proof (cases rule: claim_cases)
  case (execute r row')
  let ?f = "\<lambda>x. x\<lparr>ctAttempts := ctAttempts row', ctState := CtExecuting, ctLockedAt := ctNow s\<rparr>"
  have row: "row' = row" using execute(6) by simp
  have uniq: "x = r" if "x \<in> set (cdJobs (ctDb s))" "ctID x = i" for x
    using inv that execute(1,2) by (metis (no_types, lifting) ctInv_def distinct_map inj_onD)
  have fr: "?f r = row" using execute(5) row by simp
  have jobs: "x \<in> set (cdJobs db) \<longleftrightarrow> x = row \<or> x \<in> set (cdJobs (ctDb s)) \<and> ctID x \<noteq> i" for x
  proof
    assume "x \<in> set (cdJobs db)"
    then obtain y where "y \<in> set (cdJobs (ctDb s))" "x = (if ctID y = i then ?f y else y)"
      unfolding execute(8) ctUpdate_set by blast
    then show "x = row \<or> x \<in> set (cdJobs (ctDb s)) \<and> ctID x \<noteq> i" using uniq fr by (cases "ctID y = i") auto
  next
    assume x: "x = row \<or> x \<in> set (cdJobs (ctDb s)) \<and> ctID x \<noteq> i"
    have "row \<in> set (cdJobs db)"
      unfolding execute(8) ctUpdate_set using execute(1,2) fr by (intro bexI [of _ r]) simp_all
    then show "x \<in> set (cdJobs db)" using x ctUpdate_keep unfolding execute(8) by metis
  qed
  have rowf: "ctID row = i" "ctKey row = ctKey r" "ctState row = CtExecuting" "ctLimit row = ctLimit r"
    "ctDuration row = ctDuration r" "ctAttempts row = ctAttempts r + 1" "ctMaxAttempts row = ctMaxAttempts r"
    using execute(2,5) row by auto
  have old: "ctID r < cdNextID (ctDb s)" "i < cdNextID (ctDb s)" "ctRowOk pol (ctStarts s i) r" using inv execute(1,2) by (auto simp: ctInv_def)
  have idle: "ctID q \<noteq> i" if "q \<in> set (ctRunning s)" for q
  proof
    assume "ctID q = i"
    then have "ctState r = CtExecuting" using inv that uniq by (fastforce simp: ctInv_def runsRow_iff)
    then show False using execute(3) by simp
  qed
  have "distinct (map ctID (cdJobs db))" using inv unfolding execute(8) by (simp add: ctUpdate_ids ctInv_def)
  moreover have "ctID x < cdNextID db \<and> ctRowOk pol (((ctStarts s)(i := Suc (ctStarts s i))) (ctID x)) x"
    if "x \<in> set (cdJobs db)" for x
    using that inv old execute(4,7) rowf unfolding jobs by (auto simp: ctRowOk_def ctInv_def)
  moreover have "\<forall>j\<ge>cdNextID db. ((ctStarts s)(i := Suc (ctStarts s i))) j = 0"
    using inv old execute(2,7) by (auto simp: ctInv_def)
  moreover have "distinct (map ctID (ctRunning s @ [row]))"
    using inv idle rowf(1) by (force simp: ctInv_def)
  moreover have "runsRow (cdJobs db) q" if "q \<in> set (ctRunning s @ [row])" for q
    using that inv idle jobs rowf(3) unfolding runsRow_iff ctInv_def by (cases "q = row") (auto, metis+)
  moreover have "ctBound pol (ctNow s) (cdJobs db)"
    unfolding ctBound_def
  proof (intro allI impI)
    fix k :: string and t :: int
    assume t: "ctNow s \<le> t" and k: "k \<noteq> []"
    show "int (ctActive k (t - snd (pol k)) (cdJobs db)) \<le> max 0 (fst (pol k))"
    proof (cases "k = ctKey row")
      case True
      then have "pol k = (ctLimit row, ctDuration row)" using old(3) rowf k by (auto simp: ctRowOk_def)
      moreover have "int (ctActive k (ctNow s - ctDuration row) (cdJobs db)) \<le> ctLimit row"
        using execute(9) row k True by simp
      moreover have "ctActive k (t - ctDuration row) (cdJobs db) \<le> ctActive k (ctNow s - ctDuration row) (cdJobs db)"
        unfolding ctActive_def using t by (intro ctActive_le) auto
      ultimately show ?thesis by simp
    next
      case False
      have "ctActive k w (ctUpdate i ?f rows) = ctActive k w rows" if "set rows \<subseteq> set (cdJobs (ctDb s))" for w rows
        using that
      proof (induction rows)
        case (Cons x rows)
        then show ?case using False uniq [of x] rowf(2) by (auto simp: ctUpdate_def ctActive_def)
      qed (simp add: ctUpdate_def ctActive_def)
      then show ?thesis using inv t k unfolding execute(8) by (simp add: ctInv_def ctBound_def)
    qed
  qed
  ultimately show ?thesis using inv by (simp add: ctInv_def)
next
  case same
  then show ?thesis by blast
next
  case (deferred r)
  then show ?thesis by simp
qed

lemma ensureScheduled_jobs:
  "ensureScheduled cfg now committed created reset db = (db', tasks) \<Longrightarrow> cdJobs db' = cdJobs db \<and> cdNextID db' = cdNextID db"
  by (auto simp: ensureScheduled_def Let_def split: if_splits)

lemma ctInv_enqueue:
  assumes inv: "ctInv pol s" and e: "agrees pol e"
    and enq: "ctEnqueue cfg now named deleted recorded sched e (ctDb s) = (ok, db, tasks)"
  shows "ctInv pol (s\<lparr>ctDb := db\<rparr>)"
proof -
  let ?i = "cdNextID (ctDb s)" and ?row = "ctNewRow (cdNextID (ctDb s)) now e"
  have id: "ctID ?row = ?i" by (simp add: ctNewRow_def)
  have fresh: "ctID r \<noteq> ?i" if "r \<in> set (cdJobs (ctDb s))" for r using inv that by (auto simp: ctInv_def)
  consider (gone) "named = None" "deleted" | (stay) "named = None" "\<not> deleted" | (made) name where "named = Some name"
    by (cases named) auto
  then show ?thesis
  proof cases
    case gone
    then have db: "cdJobs db = cdJobs (ctDb s)" "cdNextID db = Suc ?i"
      using enq fresh id by (auto simp: ctEnqueue_def Let_def filter_id_conv)
    then show ?thesis using inv by (auto simp: ctInv_def less_SucI)
  next
    case stay
    then have db: "cdJobs db = cdJobs (ctDb s) @ [?row]" "cdNextID db = Suc ?i"
      using enq by (auto simp: ctEnqueue_def Let_def)
    have "?row = ?row\<lparr>ctTaskName := []\<rparr>" by (simp add: ctNewRow_def)
    from ctInv_add [OF inv e this db] show ?thesis .
  next
    case (made name)
    have other: "ctUpdate ?i f (cdJobs (ctDb s)) = cdJobs (ctDb s)" for f
      using fresh by (auto simp: ctUpdate_def intro: map_idI)
    obtain committed created reset where sched: "sched = (committed, created, reset)" by (cases sched)
    let ?r = "?row\<lparr>ctTaskName := if recorded then name else []\<rparr>"
    have "?row\<lparr>ctTaskName := []\<rparr> = ?row" by (simp add: ctNewRow_def)
    moreover have "ctUpdate ?i f (cdJobs (ctDb s) @ [?row]) = cdJobs (ctDb s) @ [f ?row]" for f
      using other id by (simp add: ctUpdate_def)
    ultimately have db: "cdJobs db = cdJobs (ctDb s) @ [?r]" "cdNextID db = Suc ?i"
      using enq made sched by (auto simp: ctEnqueue_def Let_def dest!: ensureScheduled_jobs split: if_splits prod.splits)
    from ctInv_add [OF inv e refl db] show ?thesis .
  qed
qed

lemma cleanupSlots_jobs: "cdJobs (cleanupSlots cfg now db) = cdJobs db" "cdNextID (cleanupSlots cfg now db) = cdNextID db"
proof -
  have "cdJobs (fold cleanupSlot ss db) = cdJobs db \<and> cdNextID (fold cleanupSlot ss db) = cdNextID db" for ss
    by (induction ss arbitrary: db) (simp_all add: cleanupSlot_def)
  then show "cdJobs (cleanupSlots cfg now db) = cdJobs db" "cdNextID (cleanupSlots cfg now db) = cdNextID db"
    by (simp_all add: cleanupSlots_def)
qed

lemma ctInv_same:
  "ctInv pol s \<Longrightarrow> cdJobs db = cdJobs (ctDb s) \<Longrightarrow> cdNextID db = cdNextID (ctDb s) \<Longrightarrow> ctInv pol (s\<lparr>ctDb := db\<rparr>)"
  by (simp add: ctInv_def)

lemma ctEnded_facts:
  assumes "ctInv pol s"
  shows "distinct (map ctID (ctEnded i (ctRunning s)))"
    and "q \<in> set (ctEnded i (ctRunning s)) \<Longrightarrow> q \<in> set (ctRunning s) \<and> ctID q \<noteq> i"
  using assms by (auto simp: ctEnded_def ctInv_def distinct_map_filter)

lemma ctInv_step:
  assumes "ctStep pol s s'" and inv: "ctInv pol s"
  shows "ctInv pol s'"
  using assms(1)
proof cases
  case (Tick d)
  then show ?thesis using inv by (auto simp: ctInv_def ctBound_def)
next
  case (Enqueue e cfg named deleted recorded sched ok db tasks)
  then show ?thesis using ctInv_enqueue inv by blast
next
  case (Start i row db)
  then show ?thesis using ctInv_start inv by blast
next
  case (Refuse i res db)
  from Refuse(2) show ?thesis
  proof (cases rule: claim_cases)
    case same
    then show ?thesis using Refuse inv by simp
  next
    case (deferred r)
    let ?f = "\<lambda>x. x\<lparr>ctAttempts := ctAttempts r, ctState := CtPending, ctLockedAt := ctNow s\<rparr>"
    have uniq: "x = r" if "x \<in> set (cdJobs (ctDb s))" "ctID x = i" for x
      using inv that deferred(1,2) by (metis (no_types, lifting) ctInv_def distinct_map inj_onD)
    have "calm i ?f (cdJobs (ctDb s))" using uniq by (auto simp: calm_def)
    moreover have "q \<in> set (ctRunning s) \<Longrightarrow> q \<in> set (ctRunning s) \<and> ctID q \<noteq> i" for q
      using inv uniq deferred(3) by (fastforce simp: ctInv_def runsRow_iff)
    moreover have "distinct (map ctID (ctRunning s))" using inv by (simp add: ctInv_def)
    ultimately have "ctInv pol (s\<lparr>ctDb := db, ctRunning := ctRunning s\<rparr>)"
      using ctInv_update [OF inv _ deferred(5,4)] by blast
    then show ?thesis using Refuse(1) by simp
  qed (use Refuse in auto)
next
  case (Succeed q)
  have "calm (ctID q) (\<lambda>r. r\<lparr>ctState := CtFinished, ctFinishedAt := ctNow s\<rparr>) (cdJobs (ctDb s))" by (simp add: calm_def)
  from ctInv_update [OF inv this _ _ ctEnded_facts [OF inv]] show ?thesis
    by (simp add: Succeed(1) ctFinish_def)
next
  case (Fail q msg)
  let ?f = "\<lambda>r. let r1 = r\<lparr>ctLastError := msg\<rparr> in
    if ctExhausted q then r1\<lparr>ctState := CtFailed, ctFinishedAt := ctNow s\<rparr> else r1\<lparr>ctState := CtPending\<rparr>"
  have "calm (ctID q) ?f (cdJobs (ctDb s))" by (simp add: calm_def Let_def)
  from ctInv_update [OF inv this _ _ ctEnded_facts [OF inv]] show ?thesis
    by (simp add: Fail(1) ctFail_def)
next
  case (Lost q)
  then show ?thesis using inv ctEnded_facts [OF inv, where i = "ctID q"] by (simp add: ctInv_def)
next
  case (CleanJobs cfg)
  let ?stale = "take cleanupBatch (sort_key ctFinishedAt (filter (\<lambda>r. (ctState r = CtFinished \<or> ctState r = CtFailed)
    \<and> ctFinishedAt r \<le> ctNow s - cgRetention cfg) (cdJobs (ctDb s))))"
  have stale: "r \<in> set (cdJobs (ctDb s)) \<and> ctState r \<noteq> CtExecuting" if "r \<in> set ?stale" for r
    using in_set_takeD [OF that] by auto
  have "ctID r \<notin> ctID ` set ?stale" if "r \<in> set (cdJobs (ctDb s))" "ctState r = CtExecuting" for r
  proof
    assume "ctID r \<in> ctID ` set ?stale"
    then obtain x where x: "ctID r = ctID x" "x \<in> set ?stale" by (rule imageE)
    have "inj_on ctID (set (cdJobs (ctDb s)))" using inv by (simp add: ctInv_def distinct_map)
    from inj_onD [OF this x(1) that(1)] have "r = x" using stale [OF x(2)] by simp
    then show False using stale [OF x(2)] that(2) by simp
  qed
  note keep = this
  have "cdJobs (cleanupJobs cfg (ctNow s) (ctDb s)) = filter (\<lambda>r. ctID r \<notin> ctID ` set ?stale) (cdJobs (ctDb s))"
    "cdNextID (cleanupJobs cfg (ctNow s) (ctDb s)) = cdNextID (ctDb s)"
    by (simp_all only: cleanupJobs_def Let_def) simp_all
  from ctInv_remove [OF inv this keep] show ?thesis by (simp only: CleanJobs)
next
  case (CleanSlots cfg)
  then show ?thesis using ctInv_same [OF inv] cleanupSlots_jobs by simp
next
  case (Schedule t)
  then show ?thesis using ctInv_same [OF inv] by simp
qed

lemma ctInv_reachable:
  "(ctStep pol)\<^sup>*\<^sup>* s s' \<Longrightarrow> ctInv pol s \<Longrightarrow> ctInv pol s'"
  by (induction rule: rtranclp_induct) (auto intro: ctInv_step)

lemma ctInv_init: "ctInv pol (ctInit t)"
  by (simp add: ctInv_def ctInit_def ctBound_def ctActive_def)

section \<open>Properties\<close>

lemma length_filter_inj:
  assumes "distinct (map f xs)" and "\<And>x. x \<in> set xs \<Longrightarrow> P x \<Longrightarrow> \<exists>y\<in>set ys. Q y \<and> g y = f x"
  shows "length (filter P xs) \<le> length (filter Q ys)"
proof -
  have "length (filter P xs) = card (f ` set (filter P xs))"
    using assms(1) distinct_card [of "map f (filter P xs)"] by (simp add: distinct_map_filter)
  also have "\<dots> \<le> card (g ` set (filter Q ys))"
    using assms(2) by (intro card_mono) force+
  also have "\<dots> \<le> length (filter Q ys)"
    by (metis card_image_le card_length finite_set le_trans)
  finally show ?thesis .
qed

text \<open>Whatever pushes arrive, however often and in whatever order, no job is dispatched while an
  earlier dispatch of it is under way, every job in the table has been started exactly as often
  as its attempts say, and never more often than its maximum.\<close>

theorem cloud_dispatch_exclusive:
  assumes "(ctStep pol)\<^sup>*\<^sup>* (ctInit t) s"
  shows "distinct (map ctID (ctRunning s))
    \<and> list_all (\<lambda>r. int (ctStarts s (ctID r)) = ctAttempts r \<and> ctAttempts r \<le> max 0 (ctMaxAttempts r)) (cdJobs (ctDb s))"
  using ctInv_reachable [OF assms ctInv_init] by (auto simp: ctInv_def list_all_iff ctRowOk_def)

text \<open>C18: If the jobs of each key agree on its limit and duration, at no time do more dispatches of a key
  run that were started within the last duration than the limit allows.\<close>

theorem cloud_limit_respected:
  assumes "(ctStep pol)\<^sup>*\<^sup>* (ctInit t) s" and "k \<noteq> []" and "pol k = (limit, duration)"
  shows "int (length (filter (\<lambda>q. ctKey q = k \<and> ctNow s - duration < ctLockedAt q) (ctRunning s))) \<le> max 0 limit"
proof -
  have inv: "ctInv pol s" using ctInv_reachable [OF assms(1) ctInv_init] .
  have "length (filter (\<lambda>q. ctKey q = k \<and> ctNow s - duration < ctLockedAt q) (ctRunning s))
      \<le> ctActive k (ctNow s - duration) (cdJobs (ctDb s))"
    unfolding ctActive_def
  proof (rule length_filter_inj [where f = ctID and g = ctID])
    fix q assume "q \<in> set (ctRunning s)" "ctKey q = k \<and> ctNow s - duration < ctLockedAt q"
    then show "\<exists>r\<in>set (cdJobs (ctDb s)). (ctKey r = k \<and> ctState r = CtExecuting \<and> ctNow s - duration < ctLockedAt r)
        \<and> ctID r = ctID q"
      using inv by (fastforce simp: ctInv_def runsRow_iff)
  qed (use inv in \<open>simp add: ctInv_def\<close>)
  moreover have "int (ctActive k (ctNow s - duration) (cdJobs (ctDb s))) \<le> max 0 limit"
    using inv assms(2,3) by (fastforce simp: ctInv_def ctBound_def)
  ultimately show ?thesis by linarith
qed

text \<open>Two jobs of one key with limit 1: the push of the first starts it, that of the second is refused.\<close>

definition mailJob :: enqueued where
  "mailJob = \<lparr>eqKind = ''mail'', eqArgs = [], eqQueue = [], eqScheduledAt = None, eqMaxAttempts = 3,
     eqConcurrencyKey = ''k'', eqConcurrencyLimit = 1, eqConcurrencyDuration = 60\<rparr>"

definition mailRow :: "nat \<Rightarrow> ctRow" where
  "mailRow i = ctNewRow i 100 mailJob"

definition twoJobs :: ctDB where
  "twoJobs = \<lparr>cdJobs = [mailRow 1, mailRow 2], cdNextID = 3, cdSlots = [], cdNextSlot = 1, cdSchedule = None\<rparr>"

definition twoPushed :: ct where
  "twoPushed = \<lparr>ctDb = \<lparr>cdJobs = [(mailRow 1)\<lparr>ctAttempts := 1, ctState := CtExecuting, ctLockedAt := 100\<rparr>,
       (mailRow 2)\<lparr>ctLockedAt := 100\<rparr>], cdNextID = 3, cdSlots = [\<lparr>slID = 1, slKey = ''k'', slCreatedAt = 100\<rparr>],
       cdNextSlot = 2, cdSchedule = None\<rparr>, ctNow = 100,
     ctRunning = [(mailRow 1)\<lparr>ctAttempts := 1, ctState := CtExecuting, ctLockedAt := 100\<rparr>],
     ctStarts = (\<lambda>i. if i = 1 then 1 else 0)\<rparr>"

lemma twoPushed_reachable: "(ctStep (\<lambda>k. (1, 60)))\<^sup>*\<^sup>* (ctInit 100) twoPushed"
proof -
  let ?step = "ctStep (\<lambda>k. (1, 60))"
  obtain cfg where "ctNew ''p'' ''l'' ''u'' ''a'' [] [] = Some cfg" by (simp add: ctNew_def)
  let ?db1 = "\<lparr>cdJobs = [mailRow 1], cdNextID = 2, cdSlots = [], cdNextSlot = 1, cdSchedule = None\<rparr>"
  have enq: "ctEnqueue cfg 100 None False False (False, False, False) mailJob (ctDb (ctInit 100)) = (False, ?db1, [])"
    "ctEnqueue cfg 100 None False False (False, False, False) mailJob ?db1 = (False, twoJobs, [])"
    by (simp_all add: ctEnqueue_def ctInit_def mailRow_def twoJobs_def Let_def)
  have "agrees (\<lambda>k. (1, 60)) mailJob" by (simp add: agrees_def mailJob_def)
  note en = Enqueue [OF this, of cfg]
  have one: "?step (ctInit 100) ((ctInit 100)\<lparr>ctDb := ?db1\<rparr>)"
    by (rule en [OF _]) (use enq in \<open>simp add: ctInit_def\<close>)
  have two: "?step ((ctInit 100)\<lparr>ctDb := ?db1\<rparr>) ((ctInit 100)\<lparr>ctDb := twoJobs\<rparr>)"
  proof -
    have "?step ((ctInit 100)\<lparr>ctDb := ?db1\<rparr>) ((ctInit 100)\<lparr>ctDb := ?db1\<rparr>\<lparr>ctDb := twoJobs\<rparr>)"
      by (rule en) (use enq in \<open>simp add: ctInit_def\<close>)
    then show ?thesis by simp
  qed
  let ?run = "(mailRow 1)\<lparr>ctAttempts := 1, ctState := CtExecuting, ctLockedAt := 100\<rparr>"
  let ?db3 = "\<lparr>cdJobs = [?run, mailRow 2], cdNextID = 3, cdSlots = [\<lparr>slID = 1, slKey = ''k'', slCreatedAt = 100\<rparr>],
    cdNextSlot = 2, cdSchedule = None\<rparr>"
  let ?s3 = "\<lparr>ctDb = ?db3, ctNow = 100, ctRunning = [?run], ctStarts = (\<lambda>i. if i = 1 then 1 else 0)\<rparr>"
  have claim1: "claimForExecution 100 1 twoJobs = (ClaimExecute ?run, ?db3)"
    by (simp add: claimForExecution_def twoJobs_def mailRow_def ctNewRow_def mailJob_def ctUpdate_def upsertSlot_def
        ctActive_def Let_def)
  have "?step ((ctInit 100)\<lparr>ctDb := twoJobs\<rparr>) (((ctInit 100)\<lparr>ctDb := twoJobs\<rparr>)\<lparr>ctDb := ?db3, ctRunning := [] @ [?run],
      ctStarts := (\<lambda>i. 0)(1 := Suc 0)\<rparr>)"
    using Start [of "(ctInit 100)\<lparr>ctDb := twoJobs\<rparr>" 1 ?run ?db3 "\<lambda>k. (1, 60)"] claim1 by (simp add: ctInit_def)
  moreover have "((ctInit 100)\<lparr>ctDb := twoJobs\<rparr>)\<lparr>ctDb := ?db3, ctRunning := [] @ [?run], ctStarts := (\<lambda>i. 0)(1 := Suc 0)\<rparr>
      = ?s3" by (simp add: ctInit_def fun_eq_iff)
  ultimately have three: "?step ((ctInit 100)\<lparr>ctDb := twoJobs\<rparr>) ?s3" by simp
  have claim2: "claimForExecution 100 2 ?db3 = (ClaimDeferred, ctDb twoPushed)"
    by (simp add: claimForExecution_def mailRow_def ctNewRow_def mailJob_def ctUpdate_def upsertSlot_def
        ctActive_def twoPushed_def Let_def)
  have "?step ?s3 (?s3\<lparr>ctDb := ctDb twoPushed\<rparr>)"
    by (rule Refuse [of _ 2 ClaimDeferred]) (use claim2 in simp_all)
  moreover have "?s3\<lparr>ctDb := ctDb twoPushed\<rparr> = twoPushed" by (simp add: twoPushed_def)
  ultimately have "?step ?s3 twoPushed" by (simp only:)
  with one two three show ?thesis
    by (meson converse_rtranclp_into_rtranclp rtranclp.rtrancl_refl)
qed

theorem cloud_dispatch_exclusive_witness:
  "distinct (map ctID (ctRunning twoPushed)) \<and> ctStarts twoPushed 1 = 1 \<and> ctStarts twoPushed 2 = 0"
  using cloud_dispatch_exclusive [OF twoPushed_reachable] by (simp add: twoPushed_def)

theorem cloud_limit_respected_witness:
  "length (filter (\<lambda>q. ctKey q = ''k'' \<and> ctNow twoPushed - 60 < ctLockedAt q) (ctRunning twoPushed)) = 1"
proof -
  have "int (length (filter (\<lambda>q. ctKey q = ''k'' \<and> ctNow twoPushed - 60 < ctLockedAt q) (ctRunning twoPushed))) \<le> max 0 1"
    by (rule cloud_limit_respected [OF twoPushed_reachable]) simp_all
  then show ?thesis by (simp add: twoPushed_def mailRow_def ctNewRow_def mailJob_def)
qed

section \<open>The answer to a push\<close>

lemma find_ctUpdate:
  "(\<And>r. ctID (f r) = ctID r) \<Longrightarrow>
     find (\<lambda>x. ctID x = i) (ctUpdate i f rows) = map_option f (find (\<lambda>x. ctID x = i) rows)"
  by (induction rows) (simp_all add: ctUpdate_def)

lemma find_upsert [simp]: "cdJobs (upsertSlot k now db) = cdJobs db"
  by (simp add: upsertSlot_def)

text \<open>The other jobs of a row's key that count against it.\<close>

definition ctOthers :: "ctRow \<Rightarrow> int \<Rightarrow> ctRow list \<Rightarrow> nat" where
  "ctOthers row now rows =
     length (filter (\<lambda>r. ctID r \<noteq> ctID row \<and> ctKey r = ctKey row \<and> ctState r = CtExecuting
       \<and> ctLockedAt r > now - ctDuration row) rows)"

lemma ctActive_marked:
  assumes "find (\<lambda>x. ctID x = ctID row) rows = Some row" and "distinct (map ctID rows)"
  shows "int (ctActive (ctKey row) (now - ctDuration row)
      (ctUpdate (ctID row) (\<lambda>r. r\<lparr>ctAttempts := a, ctState := CtExecuting, ctLockedAt := now\<rparr>) rows)) =
    int (ctOthers row now rows) + (if 0 < ctDuration row then 1 else 0)"
  using assms
proof (induction rows)
  case (Cons r rows)
  show ?case
  proof (cases "ctID r = ctID row")
    case True
    then have r: "r = row" using Cons.prems(1) by simp
    have "ctID x \<noteq> ctID row" if "x \<in> set rows" for x using Cons.prems(2) that r by (auto simp: image_iff)
    then have "ctUpdate (ctID row) f rows = rows"
      "filter (\<lambda>x. ctID x \<noteq> ctID row \<and> P x) rows = filter P rows" for f P
      by (auto simp: ctUpdate_def intro!: map_idI filter_cong)
    then show ?thesis by (simp add: r ctUpdate_def ctActive_def ctOthers_def)
  next
    case False
    have "ctUpdate (ctID row) f (r # rows) = r # ctUpdate (ctID row) f rows" for f
      using False by (simp add: ctUpdate_def)
    moreover have "ctActive k w (r # xs) =
        (if ctKey r = k \<and> ctState r = CtExecuting \<and> w < ctLockedAt r then 1 else 0) + ctActive k w xs" for k w xs
      by (simp add: ctActive_def)
    moreover have "ctOthers row now (r # rows) =
        (if ctKey r = ctKey row \<and> ctState r = CtExecuting \<and> now - ctDuration row < ctLockedAt r then 1 else 0)
        + ctOthers row now rows"
      using False by (simp add: ctOthers_def)
    ultimately show ?thesis using Cons False by simp
  qed
qed simp


text \<open>A failing mail, pushed for the first time.\<close>

definition pushRequest :: request where
  "pushRequest = \<lparr>hrMethod = ''POST'', hrHost = ''example.com'', hrPath = ''/tasks/run'', hrRawQuery = [],
     hrHeader = noHeader(''Authorization'' := [''Bearer t'']), hrForm = (\<lambda>k. []), hrCookies = [],
     hrRemoteAddr = ''10.0.0.9:4711'', hrTLS = True\<rparr>"

definition mailConfig :: ctConfig where
  "mailConfig = the (ctNew ''p'' ''l'' ''https://x'' ''tasks@p'' [] [])"

lemma pushRequest_ok:
  "authenticate (\<lambda>token audience. if token = ''t'' \<and> audience = ''https://x'' then Some ''tasks@p'' else None)
     mailConfig pushRequest = None"
  by code_simp


section \<open>What a crash leaves behind\<close>

text \<open>An executing row without a dispatch: every push of it is acknowledged with 200, so Cloud Tasks
  drops the task, and no step ever changes the row.\<close>

definition stuck :: "nat \<Rightarrow> ct \<Rightarrow> bool" where
  "stuck i s \<longleftrightarrow> list_ex (\<lambda>r. ctID r = i \<and> ctState r = CtExecuting) (cdJobs (ctDb s)) \<and> i \<notin> ctID ` set (ctRunning s)"

lemma stuck_claim:
  assumes "distinct (map ctID (cdJobs db))" and "r \<in> set (cdJobs db)" and "ctID r = i" and "ctState r = CtExecuting"
  shows "claimForExecution now i db = (ClaimSkip, db)"
proof -
  obtain x where x: "find (\<lambda>x. ctID x = i) (cdJobs db) = Some x" using assms(2,3) by (cases "find (\<lambda>x. ctID x = i) (cdJobs db)") (auto simp: find_None_iff)
  then have "x \<in> set (cdJobs db)" "ctID x = i" by (auto simp: find_Some_iff)
  then have "x = r" using assms by (metis distinct_map inj_onD)
  then show ?thesis using x assms(4) by (simp add: claimForExecution_def)
qed

theorem crashed_job_acknowledged:
  assumes "(ctStep pol)\<^sup>*\<^sup>* (ctInit t) s" and "stuck i s" and "authenticate validate cfg r = None"
    and "bind r = Some i" and "i \<noteq> 0"
  shows "handlePush validate cfg bind dispatch now True others ended stored r (ctDb s) = ((200, ''ok''), ctDb s)"
proof -
  obtain x where "x \<in> set (cdJobs (ctDb s))" "ctID x = i" "ctState x = CtExecuting"
    using assms(2) by (auto simp: stuck_def list_ex_iff)
  then have "claimForExecution now i (ctDb s) = (ClaimSkip, ctDb s)"
    using ctInv_reachable [OF assms(1) ctInv_init] by (intro stuck_claim) (auto simp: ctInv_def)
  then show ?thesis using assms(3-5) by (simp add: handlePush_def)
qed

text \<open>Once the cleanup push has claimed the run, a crash leaves the sentinel: before the year 2262 no
  enqueue schedules a cleanup again, and no push that was ever scheduled matches it.\<close>

theorem sentinel_stops_cleanup:
  assumes "cdSchedule db = Some scheduleClaimedSentinel" and "now < scheduleClaimedSentinel"
    and "scheduledFor < scheduleClaimedSentinel"
  shows "ensureScheduled cfg now committed created reset db = (db, [])
    \<and> claimCleanup scheduledFor db = Some (False, db)"
  using assms by (simp add: ensureScheduled_def claimCleanup_def)

end
