(* ===== verification/PackDb.thy ===== *)
theory PackDb
  imports Schema SqlDdl
begin

text \<open>
  The connection layer of \<open>pack\<close>: Go values and model rows behind pointers, the database
  handle \<open>DB\<close> (\<open>pack.go\<close>), the hook-bracketed path of every statement (\<open>hooks.go\<close>), error
  classification (\<open>classify.go\<close>, \<open>errors.go\<close>), and the shapes of scanned results
  (\<open>internal/scan\<close>, \<open>scanning.go\<close>).

  Operations run in a state with three ways to end: a value, a returned error, a panic. The
  state (\<open>world\<close>) holds the database session, the calls made on the query hooks, the rows
  behind Go pointers and the savepoint counters. The database and its driver are the
  parameter \<open>engine\<close>; \<open>context\<close> cancellation and times are left out.
\<close>

named_theorems io_simps \<open>rules of running an operation\<close>

section \<open>Go values and model rows\<close>

text \<open>
  A value with its dynamic type, as an \<open>any\<close> holds it. Integers carry the name of their type
  and its width in bits; \<open>VOpaque\<close> is a value of any other comparable type, given by its
  type, its contents and whether it is the zero value.
\<close>

datatype goVal =
    VNil
  | VBool bool
  | VInt string nat int
  | VUint string nat nat
  | VString string
  | VBytes "string option"
  | VSlice "goVal list option"
  | VPtr "goVal option"
  | VStruct "goVal list"
  | VOpaque string string bool

text \<open>\<open>reflect.Value.IsZero\<close>.\<close>

fun isZeroVal :: "goVal \<Rightarrow> bool" where
  "isZeroVal VNil = True"
| "isZeroVal (VBool b) = (\<not> b)"
| "isZeroVal (VInt t w i) = (i = 0)"
| "isZeroVal (VUint t w n) = (n = 0)"
| "isZeroVal (VString s) = (s = [])"
| "isZeroVal (VBytes b) = (b = None)"
| "isZeroVal (VSlice xs) = (xs = None)"
| "isZeroVal (VPtr p) = (p = None)"
| "isZeroVal (VStruct vs) = list_all isZeroVal vs"
| "isZeroVal (VOpaque t s z) = z"

text \<open>
  A struct value: its leaf fields by index path, and the rows its relation fields point to
  (the empty list for a nil pointer or slice).
\<close>

datatype inst = Inst (instVal: "nat list \<Rightarrow> goVal") (instRel: "nat list \<Rightarrow> inst list")

definition setVal :: "nat list \<Rightarrow> goVal \<Rightarrow> inst \<Rightarrow> inst" where
  "setVal path v r = Inst ((instVal r)(path := v)) (instRel r)"

definition setRel :: "nat list \<Rightarrow> inst list \<Rightarrow> inst \<Rightarrow> inst" where
  "setRel path rs r = Inst (instVal r) ((instRel r)(path := rs))"

lemma instVal_setVal [simp]: "instVal (setVal p v r) = (instVal r)(p := v)"
  by (simp add: setVal_def)

lemma instRel_setVal [simp]: "instRel (setVal p v r) = instRel r"
  by (simp add: setVal_def)

lemma instVal_setRel [simp]: "instVal (setRel p rs r) = instVal r"
  by (simp add: setRel_def)

lemma instRel_setRel [simp]: "instRel (setRel p rs r) = (instRel r)(p := rs)"
  by (simp add: setRel_def)

section \<open>Errors\<close>

datatype violationKind = UniqueViolation | ForeignKeyViolation | NotNullViolation
  | CheckViolation | SerializationFailure

datatype packError =
    DriverError string
  | RenderError sqlError
  | Violation violationKind string string string string string packError
  | ErrNoRows
  | ErrUintOverflow string string string nat
  | ErrZeroCompositeKey string
  | ErrSetOperationBlockedByHooks string string
  | ErrPinnedConnUnsupported
  | HookError string string packError
  | Message string
  | Wrapped string packError
  | DdlError ddlError
  | ErrConstraintWrongRelationKind string string relationKind
  | ErrRelationNotFound string string
  | ErrAlterColumnRequiresTopLevelConnection
  | ErrForeignKeyCheckFailed string "(string \<times> goVal) list list"

text \<open>\<open>Violation kind Model Operation Constraint Table Column err\<close>. The last five are the errors of
  the schema statements and of the migrator (\<open>pack/migrate/errors.go\<close>).\<close>

definition classOf :: "string \<Rightarrow> violationKind option" where
  "classOf code =
     (if code = ''ERR_UNIQUE'' then Some UniqueViolation
      else if code = ''ERR_FOREIGN_KEY'' then Some ForeignKeyViolation
      else if code = ''ERR_NOT_NULL'' then Some NotNullViolation
      else if code = ''ERR_CHECK'' then Some CheckViolation
      else if code = ''ERR_SERIALIZATION_FAILURE'' then Some SerializationFailure
      else None)"

text \<open>The configured \<open>driver.ErrorDecoder\<close>, and its \<open>Detail\<close> when it is a
  \<open>DetailedErrorDecoder\<close>.\<close>

record errorDecoder =
  edClassify :: "packError \<Rightarrow> string option"
  edDetail :: "(packError \<Rightarrow> string \<times> string \<times> string) option"

definition noopErrorDecoder :: errorDecoder where
  "noopErrorDecoder = \<lparr>edClassify = (\<lambda>e. None), edDetail = None\<rparr>"

definition classifyError :: "errorDecoder \<Rightarrow> string \<Rightarrow> string \<Rightarrow> packError \<Rightarrow> packError" where
  "classifyError ed op model err =
     (case edClassify ed err of
        None \<Rightarrow> err
      | Some code \<Rightarrow>
          (let (constraint, tbl, col) = (case edDetail ed of None \<Rightarrow> ([], [], []) | Some f \<Rightarrow> f err)
           in (case classOf code of
                 None \<Rightarrow> err
               | Some k \<Rightarrow> Violation k model op constraint tbl col err)))"

section \<open>Operations\<close>

datatype 'a outcome = Ret 'a | Fail packError | Panic string

type_synonym ('w, 'a) io = "'w \<Rightarrow> 'a outcome \<times> 'w"

definition ioRet :: "'a \<Rightarrow> ('w, 'a) io" where
  "ioRet x = (\<lambda>w. (Ret x, w))"

definition ioFail :: "packError \<Rightarrow> ('w, 'a) io" where
  "ioFail e = (\<lambda>w. (Fail e, w))"

definition ioBind :: "('w, 'a) io \<Rightarrow> ('a \<Rightarrow> ('w, 'b) io) \<Rightarrow> ('w, 'b) io" where
  "ioBind m f = (\<lambda>w. case m w of
     (Ret x, w') \<Rightarrow> f x w' | (Fail e, w') \<Rightarrow> (Fail e, w') | (Panic p, w') \<Rightarrow> (Panic p, w'))"

definition ioLift :: "packError + 'a \<Rightarrow> ('w, 'a) io" where
  "ioLift r = (case r of Inl e \<Rightarrow> ioFail e | Inr x \<Rightarrow> ioRet x)"

text \<open>A result of the renderer, its error returned as it is.\<close>

definition ioRender :: "sqlError + 'a \<Rightarrow> ('w, 'a) io" where
  "ioRender r = (case r of Inl e \<Rightarrow> ioFail (RenderError e) | Inr x \<Rightarrow> ioRet x)"

text \<open>A loop that stops at the first error, over a list.\<close>

fun ioEach :: "('a \<Rightarrow> ('w, unit) io) \<Rightarrow> 'a list \<Rightarrow> ('w, unit) io" where
  "ioEach f [] = ioRet ()"
| "ioEach f (x # xs) = ioBind (f x) (\<lambda>_. ioEach f xs)"

text \<open>An error passed on with its context, \<open>fmt.Errorf("...: %w", err)\<close>.\<close>

definition ioMapErr :: "(packError \<Rightarrow> packError) \<Rightarrow> ('w, 'a) io \<Rightarrow> ('w, 'a) io" where
  "ioMapErr g m = (\<lambda>w. case m w of
     (Ret x, w') \<Rightarrow> (Ret x, w') | (Fail e, w') \<Rightarrow> (Fail (g e), w') | (Panic p, w') \<Rightarrow> (Panic p, w'))"

lemma ioRet_apply [io_simps]: "ioRet x w = (Ret x, w)"
  by (simp add: ioRet_def)

lemma ioFail_apply [io_simps]: "ioFail e w = (Fail e, w)"
  by (simp add: ioFail_def)

lemma ioBind_ret [io_simps]: "m w = (Ret x, w') \<Longrightarrow> ioBind m f w = f x w'"
  by (simp add: ioBind_def)

lemma ioBind_fail [io_simps]: "m w = (Fail e, w') \<Longrightarrow> ioBind m f w = (Fail e, w')"
  by (simp add: ioBind_def)

lemma ioBind_panic [io_simps]: "m w = (Panic p, w') \<Longrightarrow> ioBind m f w = (Panic p, w')"
  by (simp add: ioBind_def)

lemma ioBind_ioRet [simp]: "ioBind (ioRet x) f = f x"
  by (simp add: ioBind_def ioRet_def)

lemma ioBind_ioFail [simp]: "ioBind (ioFail e) f = ioFail e"
  by (simp add: ioBind_def ioFail_def fun_eq_iff)

lemma ioBind_assoc [simp]: "ioBind (ioBind m f) g = ioBind m (\<lambda>x. ioBind (f x) g)"
  by (auto simp: ioBind_def fun_eq_iff split: prod.splits outcome.splits)

lemma ioLift_Inr [simp]: "ioLift (Inr x) = ioRet x"
  by (simp add: ioLift_def)

lemma ioLift_Inl [simp]: "ioLift (Inl e) = ioFail e"
  by (simp add: ioLift_def)

lemma ioRender_Inr [simp]: "ioRender (Inr x) = ioRet x"
  by (simp add: ioRender_def)

lemma ioRender_Inl [simp]: "ioRender (Inl e) = ioFail (RenderError e)"
  by (simp add: ioRender_def)

lemma ioBind_cases:
  assumes "ioBind m f w = (r, w')"
  obtains (returned) x w1 where "m w = (Ret x, w1)" and "f x w1 = (r, w')"
    | (failed) e where "m w = (Fail e, w')" and "r = Fail e"
    | (panicked) p where "m w = (Panic p, w')" and "r = Panic p"
  using assms by (auto simp: ioBind_def split: prod.splits outcome.splits)

lemma ioEach_append: "ioEach f (xs @ ys) = ioBind (ioEach f xs) (\<lambda>_. ioEach f ys)"
  by (induction xs) simp_all

section \<open>The database handle and its statements\<close>

text \<open>What the driver reports of a query (columns, rows, and the error that ends the
  iteration, if any) and of an exec.\<close>

record rowSet =
  rsColumns :: "string list"
  rsRows :: "goVal list list"
  rsErr :: "packError option"

record execResult =
  erRowsAffected :: "packError + int"
  erLastInsertId :: "packError + int"

text \<open>A connection: the pool, a connection pinned from it, a transaction.\<close>

datatype connRef = Pool | PinnedTo nat | TxConn nat

record 'd engine =
  egQuery :: "connRef \<Rightarrow> string \<Rightarrow> goVal list \<Rightarrow> 'd \<Rightarrow> (packError + rowSet) \<times> 'd"
  egExec :: "connRef \<Rightarrow> string \<Rightarrow> goVal list \<Rightarrow> 'd \<Rightarrow> (packError + execResult) \<times> 'd"
  egBegin :: "connRef \<Rightarrow> 'd \<Rightarrow> (packError + nat) \<times> 'd"
  egCommit :: "nat \<Rightarrow> 'd \<Rightarrow> (packError + unit) \<times> 'd"
  egRollback :: "nat \<Rightarrow> 'd \<Rightarrow> (packError + unit) \<times> 'd"
  egPin :: "'d \<Rightarrow> (packError + nat) \<times> 'd"
  egUnpin :: "nat \<Rightarrow> 'd \<Rightarrow> 'd"

record queryEvent =
  evOperation :: string
  evModel :: string
  evSQL :: string
  evArgs :: "goVal list"
  evRowsAffected :: int
  evErr :: "packError option"

datatype hookCall = BeforeQuery nat queryEvent | AfterQuery nat queryEvent

text \<open>
  The state of a program that uses \<open>pack\<close>: the session of the database, the calls made on the
  registered query hooks (by their number), the rows behind pointers, and the savepoint
  counter of each transaction.
\<close>

record 'd world =
  wDb :: 'd
  wTrace :: "hookCall list"
  wHeap :: "nat \<Rightarrow> inst"
  wSeq :: "connRef \<Rightarrow> nat"

datatype txScope = RootScope nat | SavepointScope string

record DB =
  dbConn :: connRef
  dbBeginner :: bool
  dbDialect :: dialect
  dbQueryHooks :: nat
  dbExposeQueryArgs :: bool
  dbErrDecoder :: errorDecoder
  dbScope :: "txScope option"

text \<open>\<open>Open\<close>: a handle on the pool, in no transaction. \<open>Connect\<close> puts the driver's decoder,
  if it is one, before the caller's options.\<close>

definition Open :: "dialect \<Rightarrow> (DB \<Rightarrow> DB) list \<Rightarrow> DB" where
  "Open d opts = fold (\<lambda>f db. f db) opts
     \<lparr>dbConn = Pool, dbBeginner = True, dbDialect = d, dbQueryHooks = 0, dbExposeQueryArgs = False,
      dbErrDecoder = noopErrorDecoder, dbScope = None\<rparr>"

definition WithQueryHook :: "DB \<Rightarrow> DB" where
  "WithQueryHook db = db\<lparr>dbQueryHooks := Suc (dbQueryHooks db)\<rparr>"

definition WithQueryHookArgs :: "DB \<Rightarrow> DB" where
  "WithQueryHookArgs db = db\<lparr>dbExposeQueryArgs := True\<rparr>"

definition WithErrorDecoder :: "errorDecoder \<Rightarrow> DB \<Rightarrow> DB" where
  "WithErrorDecoder ed db = db\<lparr>dbErrDecoder := ed\<rparr>"

definition Connect :: "packError option \<Rightarrow> errorDecoder option \<Rightarrow> dialect \<Rightarrow> (DB \<Rightarrow> DB) list \<Rightarrow> packError + DB" where
  "Connect openErr driverDecoder d opts =
     (case openErr of
        Some e \<Rightarrow> Inl (Wrapped ''pack: Connect'' e)
      | None \<Rightarrow>
          Inr (Open d ((case driverDecoder of None \<Rightarrow> [] | Some ed \<Rightarrow> [WithErrorDecoder ed]) @ opts)))"

text \<open>\<open>beforeQuery\<close> and \<open>afterQuery\<close>: every hook, in order of registration.\<close>

definition beforeQuery :: "DB \<Rightarrow> queryEvent \<Rightarrow> 'd world \<Rightarrow> 'd world" where
  "beforeQuery db ev w = w\<lparr>wTrace := wTrace w @ map (\<lambda>i. BeforeQuery i ev) [0..<dbQueryHooks db]\<rparr>"

definition afterQuery :: "DB \<Rightarrow> queryEvent \<Rightarrow> 'd world \<Rightarrow> 'd world" where
  "afterQuery db ev w = w\<lparr>wTrace := wTrace w @ map (\<lambda>i. AfterQuery i ev) [0..<dbQueryHooks db]\<rparr>"

definition newEvent :: "DB \<Rightarrow> string \<Rightarrow> string \<Rightarrow> string \<Rightarrow> goVal list \<Rightarrow> queryEvent" where
  "newEvent db op model sqlText args =
     \<lparr>evOperation = op, evModel = model, evSQL = sqlText,
      evArgs = (if dbExposeQueryArgs db then args else []), evRowsAffected = 0, evErr = None\<rparr>"

definition queryContext :: "'d engine \<Rightarrow> DB \<Rightarrow> string \<Rightarrow> string \<Rightarrow> string \<Rightarrow> goVal list \<Rightarrow> ('d world, rowSet) io" where
  "queryContext eg db op model sqlText args = (\<lambda>w.
     let ev = newEvent db op model sqlText args;
         w1 = beforeQuery db ev w;
         (r, d') = egQuery eg (dbConn db) sqlText args (wDb w1);
         w2 = w1\<lparr>wDb := d'\<rparr>
     in (case r of
           Inl e \<Rightarrow>
             (let e' = classifyError (dbErrDecoder db) op model e
              in (Fail e', afterQuery db (ev\<lparr>evErr := Some e'\<rparr>) w2))
         | Inr rows \<Rightarrow> (Ret rows, afterQuery db ev w2)))"

definition execContext :: "'d engine \<Rightarrow> DB \<Rightarrow> string \<Rightarrow> string \<Rightarrow> string \<Rightarrow> goVal list \<Rightarrow> ('d world, execResult) io" where
  "execContext eg db op model sqlText args = (\<lambda>w.
     let ev = newEvent db op model sqlText args;
         w1 = beforeQuery db ev w;
         (r, d') = egExec eg (dbConn db) sqlText args (wDb w1);
         w2 = w1\<lparr>wDb := d'\<rparr>
     in (case r of
           Inl e \<Rightarrow>
             (let e' = classifyError (dbErrDecoder db) op model e
              in (Fail e', afterQuery db (ev\<lparr>evErr := Some e'\<rparr>) w2))
         | Inr res \<Rightarrow>
             (Ret res, afterQuery db (case erRowsAffected res of Inr n \<Rightarrow> ev\<lparr>evRowsAffected := n\<rparr> | Inl _ \<Rightarrow> ev) w2)))"

text \<open>The effect of a statement on the session alone: what the hooks see changes nothing.\<close>

lemma queryContext_result:
  assumes "egQuery eg (dbConn db) s args (wDb w) = (r, d')"
  shows "\<exists>tr. queryContext eg db op model s args w
     = (case r of Inl e \<Rightarrow> Fail (classifyError (dbErrDecoder db) op model e) | Inr rows \<Rightarrow> Ret rows,
        w\<lparr>wDb := d', wTrace := wTrace w @ tr\<rparr>)"
  using assms by (cases r) (auto simp: queryContext_def beforeQuery_def afterQuery_def Let_def intro!: exI)

lemma execContext_result:
  assumes "egExec eg (dbConn db) s args (wDb w) = (r, d')"
  shows "\<exists>tr. execContext eg db op model s args w
     = (case r of Inl e \<Rightarrow> Fail (classifyError (dbErrDecoder db) op model e) | Inr res \<Rightarrow> Ret res,
        w\<lparr>wDb := d', wTrace := wTrace w @ tr\<rparr>)"
  using assms by (cases r) (auto simp: execContext_def beforeQuery_def afterQuery_def Let_def)

end
