(* ===== verification/PackQuery.thy ===== *)
theory PackQuery
  imports PackDb
begin

text \<open>
  Queries of \<open>pack\<close> (\<open>query.go\<close>, \<open>join.go\<close>, \<open>project.go\<close>, \<open>raw.go\<close>): the immutable builder
  \<open>Query[T]\<close>, the statement each terminal operation sends, and what it makes of the result,
  with the scanning of rows (\<open>internal/scan/scan.go\<close>, \<open>scanning.go\<close>). The names of the
  methods carry a \<open>Q\<close>.

  A model type \<open>T\<close> is a record: its table, its zero value, the hooks its pointer implements,
  and how \<open>database/sql\<close> and \<open>encoding/json\<close> put a value into one of its fields, which are
  parameters. A hook works on the world and on the row it is called on.
\<close>

section \<open>Model types\<close>

datatype hookKind = BeforeInsert | AfterInsert | BeforeUpdate | AfterUpdate | BeforeDelete
  | AfterDelete | AfterScan

type_synonym 'd hookFn = "('d world \<times> inst, unit) io"

record 'd model =
  mdName :: string
  mdTable :: schemaTable
  mdZero :: inst
  mdHook :: "hookKind \<Rightarrow> 'd hookFn option"
  mdAssign :: "field \<Rightarrow> goVal \<Rightarrow> goVal \<Rightarrow> packError + goVal"
  mdUnmarshal :: "field \<Rightarrow> string \<Rightarrow> packError + goVal"
  mdMarshal :: "goVal \<Rightarrow> packError + string"
  mdPK :: "inst \<Rightarrow> goVal"
  mdPkField :: "nat list option"

text \<open>A hook called on the row behind a pointer, and on a local row.\<close>

definition atPointer :: "nat \<Rightarrow> 'd hookFn \<Rightarrow> ('d world, unit) io" where
  "atPointer p h = (\<lambda>w. case h (w, wHeap w p) of
     (r, (w', row)) \<Rightarrow> (r, w'\<lparr>wHeap := (wHeap w')(p := row)\<rparr>))"

definition atLocal :: "inst \<Rightarrow> 'd hookFn \<Rightarrow> ('d world, inst) io" where
  "atLocal row h = (\<lambda>w. case h (w, row) of
     (Ret _, (w', row')) \<Rightarrow> (Ret row', w') | (Fail e, (w', _)) \<Rightarrow> (Fail e, w')
   | (Panic s, (w', _)) \<Rightarrow> (Panic s, w'))"

section \<open>Scanning\<close>

text \<open>\<open>scan.NewPlan\<close>: the field of each column, none for a column the table does not know.\<close>

definition NewPlan :: "schemaTable \<Rightarrow> string list \<Rightarrow> field option list" where
  "NewPlan t columns = map (stByColumn t) columns"

definition isJson :: "field \<Rightarrow> bool" where
  "isJson f \<longleftrightarrow> coSQLType (fdOptions f) = ''json'' \<or> coSQLType (fdOptions f) = ''jsonb''"

text \<open>\<open>jsonDest.Scan\<close>.\<close>

definition jsonScan :: "'d model \<Rightarrow> field \<Rightarrow> goVal \<Rightarrow> packError + goVal" where
  "jsonScan md f src =
     (case src of
        VNil \<Rightarrow> Inr (instVal (mdZero md) (fdIndex f))
      | VBytes b \<Rightarrow> mdUnmarshal md f (case b of None \<Rightarrow> [] | Some s \<Rightarrow> s)
      | VString s \<Rightarrow> mdUnmarshal md f s
      | _ \<Rightarrow> Inl (Message ''pack: json column: unsupported source type''))"

definition scanField :: "'d model \<Rightarrow> field \<Rightarrow> goVal \<Rightarrow> goVal \<Rightarrow> packError + goVal" where
  "scanField md f old src = (if isJson f then jsonScan md f src else mdAssign md f old src)"

text \<open>\<open>rows.Scan(p.dests(v)...)\<close>: the destinations in column order, unknown columns discarded.\<close>

fun scanInto :: "'d model \<Rightarrow> field option list \<Rightarrow> goVal list \<Rightarrow> inst \<Rightarrow> packError + inst" where
  "scanInto md [] [] r = Inr r"
| "scanInto md (None # fs) (v # vs) r = scanInto md fs vs r"
| "scanInto md (Some f # fs) (v # vs) r =
     rbind (scanField md f (instVal r (fdIndex f)) v) (\<lambda>x. scanInto md fs vs (setVal (fdIndex f) x r))"
| "scanInto md _ _ r = Inl (Message ''sql: expected different number of destination arguments in Scan'')"

text \<open>\<open>scan.One\<close> and \<open>scan.All\<close> on the rows that are left; \<open>sql.ErrNoRows\<close> when there is none.\<close>

definition sqlErrNoRows :: packError where
  "sqlErrNoRows = DriverError ''sql: no rows in result set''"

definition scanOne :: "'d model \<Rightarrow> field option list \<Rightarrow> goVal list list \<Rightarrow> packError option \<Rightarrow> packError + inst" where
  "scanOne md plan rows err =
     (case rows of
        [] \<Rightarrow> Inl (case err of Some e \<Rightarrow> e | None \<Rightarrow> sqlErrNoRows)
      | vs # _ \<Rightarrow> scanInto md plan vs (mdZero md))"

fun scanAll :: "'d model \<Rightarrow> field option list \<Rightarrow> goVal list list \<Rightarrow> packError option \<Rightarrow> packError + inst list" where
  "scanAll md plan [] err = (case err of Some e \<Rightarrow> Inl e | None \<Rightarrow> Inr [])"
| "scanAll md plan (vs # rows) err =
     rbind (scanInto md plan vs (mdZero md)) (\<lambda>r. rbind (scanAll md plan rows err) (\<lambda>rs. Inr (r # rs)))"

definition afterScan :: "'d model \<Rightarrow> inst \<Rightarrow> ('d world, inst) io" where
  "afterScan md row =
     (if hkAfterScan (stHooks (mdTable md)) then
        (case mdHook md AfterScan of
           None \<Rightarrow> ioRet row
         | Some h \<Rightarrow> ioMapErr (HookError ''AfterScan'' (mdName md)) (atLocal row h))
      else ioRet row)"

fun afterScanAll :: "'d model \<Rightarrow> inst list \<Rightarrow> ('d world, inst list) io" where
  "afterScanAll md [] = ioRet []"
| "afterScanAll md (r # rs) =
     ioBind (afterScan md r) (\<lambda>r'. ioBind (afterScanAll md rs) (\<lambda>rs'. ioRet (r' # rs')))"

definition scanAllRows :: "'d model \<Rightarrow> rowSet \<Rightarrow> ('d world, inst list) io" where
  "scanAllRows md rows =
     ioBind (ioLift (scanAll md (NewPlan (mdTable md) (rsColumns rows)) (rsRows rows) (rsErr rows)))
       (afterScanAll md)"

definition scanOneWithPlan :: "'d model \<Rightarrow> field option list \<Rightarrow> goVal list list \<Rightarrow> packError option \<Rightarrow> ('d world, inst) io" where
  "scanOneWithPlan md plan rows err = ioBind (ioLift (scanOne md plan rows err)) (afterScan md)"

definition scanOneRow :: "'d model \<Rightarrow> rowSet \<Rightarrow> ('d world, inst) io" where
  "scanOneRow md rows =
     scanOneWithPlan md (NewPlan (mdTable md) (rsColumns rows)) (rsRows rows) (rsErr rows)"

text \<open>\<open>errors.Is(err, sql.ErrNoRows)\<close>: along the chain of wrapped errors.\<close>

fun isNoRows :: "packError \<Rightarrow> bool" where
  "isNoRows (DriverError s) = (DriverError s = sqlErrNoRows)"
| "isNoRows ErrNoRows = True"
| "isNoRows (Violation k m op c t col e) = isNoRows e"
| "isNoRows (HookError h m e) = isNoRows e"
| "isNoRows (Wrapped s e) = isNoRows e"
| "isNoRows _ = False"

section \<open>The builder\<close>

record queryJoin =
  qjLeft :: bool
  qjTable :: table
  qjOn :: "goVal predicate"

type_synonym 'd preloadRunner = "DB \<Rightarrow> inst list \<Rightarrow> ('d world, inst list) io"

record 'd query =
  qDb :: DB
  qModel :: "'d model"
  qSqlTable :: table
  qJoins :: "queryJoin list"
  qSelectCols :: "column list"
  qSelectRaw :: "string list"
  qDistinct :: bool
  qWhere :: "goVal predicate"
  qHaving :: "goVal predicate"
  qGroupBy :: "column list"
  qOrder :: "orderTerm list"
  qLimit :: "int option"
  qOffset :: "int option"
  qForUpdate :: bool
  qForShare :: bool
  qSkipLocked :: bool
  qPreloads :: "'d preloadRunner list"
  qSkipHooks :: bool

definition modelTable :: "'d model \<Rightarrow> table" where
  "modelTable md = \<lparr>tblName = stName (mdTable md), tblAlias = stAlias (mdTable md)\<rparr>"

definition Of :: "'d model \<Rightarrow> DB \<Rightarrow> 'd query" where
  "Of md db = \<lparr>qDb = db, qModel = md, qSqlTable = modelTable md, qJoins = [], qSelectCols = [],
     qSelectRaw = [], qDistinct = False, qWhere = PredNone, qHaving = PredNone, qGroupBy = [],
     qOrder = [], qLimit = None, qOffset = None, qForUpdate = False, qForShare = False,
     qSkipLocked = False, qPreloads = [], qSkipHooks = False\<rparr>"

definition orJoin :: "'v predicate \<Rightarrow> 'v predicate \<Rightarrow> 'v predicate" where
  "orJoin a b = (if IsZero a then b else Or [a, b])"

definition QWhere :: "goVal predicate \<Rightarrow> 'd query \<Rightarrow> 'd query" where
  "QWhere p q = q\<lparr>qWhere := andJoin (qWhere q) p\<rparr>"

definition QWhereRaw :: "string \<Rightarrow> goVal list \<Rightarrow> 'd query \<Rightarrow> 'd query" where
  "QWhereRaw fragment args = QWhere (Raw fragment args)"

definition QOr :: "goVal predicate \<Rightarrow> 'd query \<Rightarrow> 'd query" where
  "QOr p q = q\<lparr>qWhere := orJoin (qWhere q) p\<rparr>"

definition QScopes :: "('d query \<Rightarrow> 'd query) list \<Rightarrow> 'd query \<Rightarrow> 'd query" where
  "QScopes scopes q = fold (\<lambda>s q. s q) scopes q"

definition appendFresh :: "'a list \<Rightarrow> 'a list \<Rightarrow> 'a list" where
  "appendFresh base extra = base @ extra"

definition QOrder :: "orderTerm list \<Rightarrow> 'd query \<Rightarrow> 'd query" where
  "QOrder terms q = q\<lparr>qOrder := appendFresh (qOrder q) terms\<rparr>"

definition QOrderRaw :: "string \<Rightarrow> 'd query \<Rightarrow> 'd query" where
  "QOrderRaw fragment q = q\<lparr>qOrder := appendFresh (qOrder q) [OrderRaw fragment]\<rparr>"

definition QLimit :: "int \<Rightarrow> 'd query \<Rightarrow> 'd query" where
  "QLimit n q = q\<lparr>qLimit := Some n\<rparr>"

definition QOffset :: "int \<Rightarrow> 'd query \<Rightarrow> 'd query" where
  "QOffset n q = q\<lparr>qOffset := Some n\<rparr>"

definition QGroupBy :: "column list \<Rightarrow> 'd query \<Rightarrow> 'd query" where
  "QGroupBy cols q = q\<lparr>qGroupBy := appendFresh (qGroupBy q) cols\<rparr>"

definition QHaving :: "goVal predicate \<Rightarrow> 'd query \<Rightarrow> 'd query" where
  "QHaving p q = q\<lparr>qHaving := andJoin (qHaving q) p\<rparr>"

definition QDistinct :: "'d query \<Rightarrow> 'd query" where
  "QDistinct q = q\<lparr>qDistinct := True\<rparr>"

definition QSelect :: "column list \<Rightarrow> 'd query \<Rightarrow> 'd query" where
  "QSelect cols q = q\<lparr>qSelectCols := appendFresh (qSelectCols q) cols\<rparr>"

definition QSelectRaw :: "string \<Rightarrow> 'd query \<Rightarrow> 'd query" where
  "QSelectRaw fragment q = q\<lparr>qSelectRaw := appendFresh (qSelectRaw q) [fragment]\<rparr>"

definition QForUpdate :: "'d query \<Rightarrow> 'd query" where
  "QForUpdate q = q\<lparr>qForUpdate := True\<rparr>"

definition QForShare :: "'d query \<Rightarrow> 'd query" where
  "QForShare q = q\<lparr>qForShare := True\<rparr>"

definition QSkipLocked :: "'d query \<Rightarrow> 'd query" where
  "QSkipLocked q = q\<lparr>qSkipLocked := True\<rparr>"

definition SkipHooks :: "'d query \<Rightarrow> 'd query" where
  "SkipHooks q = q\<lparr>qSkipHooks := True\<rparr>"

text \<open>\<open>Join[U]\<close>, \<open>LeftJoin[U]\<close> with the table of \<open>U\<close>, and \<open>On\<close>; \<open>Project[U]\<close> keeps all but the
  columns, the grouping, the preloads, \<open>SkipLocked\<close> and \<open>SkipHooks\<close>.\<close>

definition QJoin :: "'d model \<Rightarrow> goVal predicate \<Rightarrow> 'd query \<Rightarrow> 'd query" where
  "QJoin u on q = q\<lparr>qJoins := appendFresh (qJoins q) [\<lparr>qjLeft = False, qjTable = modelTable u, qjOn = on\<rparr>]\<rparr>"

definition QLeftJoin :: "'d model \<Rightarrow> goVal predicate \<Rightarrow> 'd query \<Rightarrow> 'd query" where
  "QLeftJoin u on q = q\<lparr>qJoins := appendFresh (qJoins q) [\<lparr>qjLeft = True, qjTable = modelTable u, qjOn = on\<rparr>]\<rparr>"

definition On :: "column \<Rightarrow> column \<Rightarrow> goVal predicate" where
  "On left right = EqCol left right"

definition Project :: "'d model \<Rightarrow> 'd query \<Rightarrow> 'd query" where
  "Project u q = (Of u (qDb q))\<lparr>qSqlTable := qSqlTable q, qJoins := qJoins q, qWhere := qWhere q,
     qHaving := qHaving q, qOrder := qOrder q, qLimit := qLimit q, qOffset := qOffset q,
     qDistinct := qDistinct q, qForUpdate := qForUpdate q, qForShare := qForShare q\<rparr>"

section \<open>The statement\<close>

definition selectColumns :: "'d query \<Rightarrow> column list" where
  "selectColumns q =
     (if qSelectCols q \<noteq> [] then qSelectCols q
      else map (\<lambda>f. QualifiedCol (stAlias (mdTable (qModel q))) (fdColumn f)) (stFields (mdTable (qModel q))))"

definition addJoin :: "queryJoin \<Rightarrow> goVal selectBuilder \<Rightarrow> goVal selectBuilder" where
  "addJoin j b = (if qjLeft j then LeftJoinOn (qjTable j) (qjOn j) b else Join (qjTable j) (qjOn j) b)"

definition buildSelect :: "'d query \<Rightarrow> goVal selectBuilder" where
  "buildSelect q =
     (let b = Columns (selectColumns q) (Select (qSqlTable q));
          b = (if qDistinct q then Distinct b else b);
          b = fold SelectRaw (qSelectRaw q) b;
          b = fold addJoin (qJoins q) b;
          b = (if IsZero (qWhere q) then b else Where (qWhere q) b);
          b = (if qGroupBy q \<noteq> [] then GroupBy (qGroupBy q) b else b);
          b = (if IsZero (qHaving q) then b else Having (qHaving q) b);
          b = (if qOrder q \<noteq> [] then OrderBy (qOrder q) b else b);
          b = (case qLimit q of Some n \<Rightarrow> Limit n b | None \<Rightarrow> b);
          b = (case qOffset q of Some n \<Rightarrow> Offset n b | None \<Rightarrow> b);
          b = (if qForUpdate q then ForUpdate b else b);
          b = (if qForShare q then ForShare b else b)
      in (if qSkipLocked q then SkipLocked b else b))"

section \<open>Running a query\<close>

fun runPreloads :: "'d preloadRunner list \<Rightarrow> DB \<Rightarrow> inst list \<Rightarrow> ('d world, inst list) io" where
  "runPreloads [] db rows = ioRet rows"
| "runPreloads (run # runs) db rows = ioBind (run db rows) (runPreloads runs db)"

text \<open>Every terminal operation renders, sends and reads its rows.\<close>

definition sendQuery :: "'d engine \<Rightarrow> 'd query \<Rightarrow> string \<Rightarrow> goVal selectBuilder \<Rightarrow> ('d world, rowSet) io" where
  "sendQuery eg q op b =
     ioBind (ioRender (renderSelect (dbDialect (qDb q)) b))
       (\<lambda>(sqlText, args). queryContext eg (qDb q) op (mdName (qModel q)) sqlText args)"

definition Find :: "'d engine \<Rightarrow> 'd query \<Rightarrow> ('d world, inst list) io" where
  "Find eg q =
     ioBind (sendQuery eg q ''Find'' (buildSelect q)) (\<lambda>rows.
     ioBind (scanAllRows (qModel q) rows) (\<lambda>result.
       runPreloads (qPreloads q) (qDb q) result))"

text \<open>\<open>Rows\<close>: the consumer is a step on a state of its own that says whether to go on; it gets
  each row, or the error that ends the iteration. A missing row ends it silently, which is
  tested with \<open>errors.Is\<close>.\<close>

fun streamRows :: "'d model \<Rightarrow> field option list \<Rightarrow> packError option
    \<Rightarrow> (packError + inst \<Rightarrow> 's \<Rightarrow> bool \<times> 's) \<Rightarrow> goVal list list \<Rightarrow> 's \<Rightarrow> ('d world, 's) io" where
  "streamRows md plan err yield rows s = (\<lambda>w.
     case scanOneWithPlan md plan rows err w of
       (Panic m, w') \<Rightarrow> (Panic m, w')
     | (Fail e, w') \<Rightarrow> (Ret (if isNoRows e then s else snd (yield (Inl e) s)), w')
     | (Ret row, w') \<Rightarrow>
         (case rows of
            [] \<Rightarrow> (Ret s, w')
          | _ # rest \<Rightarrow>
              (case yield (Inr row) s of
                 (True, s') \<Rightarrow> streamRows md plan err yield rest s' w'
               | (False, s') \<Rightarrow> (Ret s', w'))))"

declare streamRows.simps [simp del]

definition Rows :: "'d engine \<Rightarrow> 'd query \<Rightarrow> (packError + inst \<Rightarrow> 's \<Rightarrow> bool \<times> 's) \<Rightarrow> 's \<Rightarrow> ('d world, 's) io" where
  "Rows eg q yield s =
     (if qPreloads q \<noteq> [] then
        ioRet (snd (yield (Inl (Message (''pack: Query['' @ mdName (qModel q) @ ''].Rows cannot be combined with Preload''))) s))
      else (\<lambda>w.
        case sendQuery eg q ''Rows'' (buildSelect q) w of
          (Panic m, w') \<Rightarrow> (Panic m, w')
        | (Fail e, w') \<Rightarrow> (Ret (snd (yield (Inl e) s)), w')
        | (Ret rows, w') \<Rightarrow>
            streamRows (qModel q) (NewPlan (mdTable (qModel q)) (rsColumns rows)) (rsErr rows) yield
              (rsRows rows) s w'))"

definition noRows :: "packError \<Rightarrow> packError" where
  "noRows e = (if isNoRows e then ErrNoRows else e)"

definition First :: "'d engine \<Rightarrow> 'd query \<Rightarrow> ('d world, inst) io" where
  "First eg q =
     ioBind (sendQuery eg q ''First'' (Limit 1 (buildSelect q))) (\<lambda>rows.
     ioBind (ioMapErr noRows (scanOneRow (qModel q) rows)) (\<lambda>row.
       if qPreloads q \<noteq> [] then
         ioBind (runPreloads (qPreloads q) (qDb q) [row]) (\<lambda>wrapped. ioRet (hd wrapped))
       else ioRet row))"

text \<open>Scanning a column into an \<open>int64\<close> (\<open>convertAssign\<close>).\<close>

definition scanInt64 :: "goVal \<Rightarrow> packError + int" where
  "scanInt64 v =
     (let bad = Inl (Message ''sql: Scan error on column index 0'');
          parse = (\<lambda>s. case parseInt64 s of None \<Rightarrow> bad | Some n \<Rightarrow> Inr (sint n))
      in (case v of
            VInt t w i \<Rightarrow> if - (2 ^ 63) \<le> i \<and> i < 2 ^ 63 then Inr i else bad
          | VUint t w n \<Rightarrow> if n < 2 ^ 63 then Inr (int n) else bad
          | VString s \<Rightarrow> parse s
          | VBytes (Some s) \<Rightarrow> parse s
          | _ \<Rightarrow> bad))"

definition countBuilder :: "'d query \<Rightarrow> goVal selectBuilder" where
  "countBuilder q =
     (let b = SelectRaw ''count(*)'' (Select (qSqlTable q));
          b = (if IsZero (qWhere q) then b else Where (qWhere q) b);
          b = (if qGroupBy q \<noteq> [] then GroupBy (qGroupBy q) b else b)
      in (if IsZero (qHaving q) then b else Having (qHaving q) b))"

definition Count :: "'d engine \<Rightarrow> 'd query \<Rightarrow> ('d world, int) io" where
  "Count eg q =
     ioBind (sendQuery eg q ''Count'' (countBuilder q)) (\<lambda>rows.
       case rsRows rows of
         [] \<Rightarrow> (case rsErr rows of Some e \<Rightarrow> ioFail e | None \<Rightarrow> ioRet 0)
       | (v # _) # _ \<Rightarrow> ioLift (scanInt64 v)
       | [] # _ \<Rightarrow> ioFail (Message ''sql: expected different number of destination arguments in Scan''))"

definition existsBuilder :: "'d query \<Rightarrow> goVal selectBuilder" where
  "existsBuilder q =
     (let b = Limit 1 (SelectRaw ''1'' (Select (qSqlTable q)))
      in (if IsZero (qWhere q) then b else Where (qWhere q) b))"

text \<open>\<open>rows.Err\<close> is nil after a row was found.\<close>

definition Exists :: "'d engine \<Rightarrow> 'd query \<Rightarrow> ('d world, bool) io" where
  "Exists eg q =
     ioBind (sendQuery eg q ''Exists'' (existsBuilder q)) (\<lambda>rows.
       if rsRows rows \<noteq> [] then ioRet True
       else (case rsErr rows of Some e \<Rightarrow> ioFail e | None \<Rightarrow> ioRet False))"

definition sendExec :: "'d engine \<Rightarrow> DB \<Rightarrow> string \<Rightarrow> string \<Rightarrow> sqlError + string \<times> goVal list \<Rightarrow> ('d world, execResult) io" where
  "sendExec eg db op model stmt =
     ioBind (ioRender stmt) (\<lambda>(sqlText, args). execContext eg db op model sqlText args)"

definition QUpdate :: "'d engine \<Rightarrow> goVal assignment list \<Rightarrow> 'd query \<Rightarrow> ('d world, int) io" where
  "QUpdate eg assignments q =
     (let md = qModel q; hk = stHooks (mdTable md) in
      if \<not> qSkipHooks q \<and> (hkBeforeUpdate hk \<or> hkAfterUpdate hk) then
        ioFail (ErrSetOperationBlockedByHooks (mdName md) ''Update'')
      else
        (let b = UpdateSet assignments (Update (qSqlTable q));
             b = (if IsZero (qWhere q) then b else UpdateWhere (qWhere q) b)
         in ioBind (sendExec eg (qDb q) ''Update'' (mdName md) (renderUpdate (dbDialect (qDb q)) b))
              (\<lambda>res. ioLift (erRowsAffected res))))"

definition deleteRows :: "'d engine \<Rightarrow> 'd query \<Rightarrow> ('d world, int) io" where
  "deleteRows eg q =
     (let md = qModel q; hk = stHooks (mdTable md) in
      if \<not> qSkipHooks q \<and> (hkBeforeDelete hk \<or> hkAfterDelete hk) then
        ioFail (ErrSetOperationBlockedByHooks (mdName md) ''Delete'')
      else
        (let b = Delete (qSqlTable q);
             b = (if IsZero (qWhere q) then b else DeleteWhere (qWhere q) b)
         in ioBind (sendExec eg (qDb q) ''Delete'' (mdName md) (renderDelete (dbDialect (qDb q)) b))
              (\<lambda>res. ioLift (erRowsAffected res))))"

definition QDelete :: "'d engine \<Rightarrow> 'd query \<Rightarrow> ('d world, int) io" where
  "QDelete eg q =
     (if IsZero (qWhere q) then
        ioFail (Message (''pack: Query['' @ mdName (qModel q) @
          ''].Delete: refusing to delete with no WHERE condition; call DeleteAll to delete every row''))
      else deleteRows eg q)"

definition DeleteAll :: "'d engine \<Rightarrow> 'd query \<Rightarrow> ('d world, int) io" where
  "DeleteAll eg q = deleteRows eg q"

text \<open>\<open>pack.Raw\<close>: a statement of the caller, scanned into the model.\<close>

definition RawQuery :: "'d engine \<Rightarrow> 'd model \<Rightarrow> DB \<Rightarrow> string \<Rightarrow> goVal list \<Rightarrow> ('d world, inst list) io" where
  "RawQuery eg md db sqlText args =
     ioBind (queryContext eg db ''Raw'' (mdName md) sqlText args) (scanAllRows md)"

end
