(* ===== verification/PackSample.thy ===== *)
theory PackSample
  imports PackQuery
begin

text \<open>
  A concrete model and a concrete engine, for evaluating the operations of \<open>pack\<close>: a \<open>users\<close>
  table with an auto-increment key and two columns, and an engine that records the statements
  it gets and answers from a fixed result.
\<close>

definition userField :: "string \<Rightarrow> nat \<Rightarrow> columnOptions \<Rightarrow> field" where
  "userField column i co = \<lparr>fdGoName = column, fdColumn = column, fdIndex = [i],
     fdType = TScalar ''int64'', fdOptions = co\<rparr>"

definition userFields :: "field list" where
  "userFields = [userField ''id'' 0 (noOptions\<lparr>coPK := True, coAutoIncrement := True\<rparr>),
     userField ''age'' 1 noOptions, userField ''score'' 2 (noOptions\<lparr>coHasDefault := True\<rparr>)]"

definition noHooks :: hooks where
  "noHooks = \<lparr>hkBeforeInsert = False, hkAfterInsert = False, hkBeforeUpdate = False,
     hkAfterUpdate = False, hkBeforeDelete = False, hkAfterDelete = False, hkAfterScan = False\<rparr>"

definition userTable :: schemaTable where
  "userTable = \<lparr>stName = ''users'', stAlias = ''u'', stFields = userFields,
     stByColumn = map_of (map (\<lambda>f. (fdColumn f, f)) userFields), stPK = [hd userFields],
     stPKIsComposite = False, stRelations = [], stHooks = noHooks\<rparr>"

definition int64 :: "int \<Rightarrow> goVal" where
  "int64 i = VInt ''int64'' 64 i"

definition zeroUser :: inst where
  "zeroUser = Inst (\<lambda>_. int64 0) (\<lambda>_. [])"

definition user :: "int \<Rightarrow> int \<Rightarrow> int \<Rightarrow> inst" where
  "user i a s = setVal [2] (int64 s) (setVal [1] (int64 a) (setVal [0] (int64 i) zeroUser))"

definition userModel :: "'d model" where
  "userModel = \<lparr>mdName = ''User'', mdTable = userTable, mdZero = zeroUser, mdHook = (\<lambda>k. None),
     mdAssign = (\<lambda>f old v. Inr v), mdUnmarshal = (\<lambda>f s. Inl (Message s)),
     mdMarshal = (\<lambda>v. Inr ''null''), mdPK = (\<lambda>r. instVal r [0]), mdPkField = Some [0]\<rparr>"

type_synonym sent = "string \<times> goVal list"

definition recorder :: "rowSet \<Rightarrow> execResult \<Rightarrow> sent list engine" where
  "recorder rows res = \<lparr>egQuery = (\<lambda>c s args d. (Inr rows, d @ [(s, args)])),
     egExec = (\<lambda>c s args d. (Inr res, d @ [(s, args)])),
     egBegin = (\<lambda>c d. (Inr 0, d)), egCommit = (\<lambda>t d. (Inr (), d)), egRollback = (\<lambda>t d. (Inr (), d)),
     egPin = (\<lambda>d. (Inr 0, d)), egUnpin = (\<lambda>c d. d)\<rparr>"

definition affected :: "int \<Rightarrow> int \<Rightarrow> execResult" where
  "affected n i = \<lparr>erRowsAffected = Inr n, erLastInsertId = Inr i\<rparr>"

definition userRows :: "int list list \<Rightarrow> rowSet" where
  "userRows rs = \<lparr>rsColumns = [''id'', ''age'', ''score''], rsRows = map (map int64) rs, rsErr = None\<rparr>"

definition emptyWorld :: "'d \<Rightarrow> 'd world" where
  "emptyWorld d = \<lparr>wDb = d, wTrace = [], wHeap = (\<lambda>_. zeroUser), wSeq = (\<lambda>_. 0)\<rparr>"

definition pgDB :: DB where
  "pgDB = Open Postgres []"

definition mysqlDB :: DB where
  "mysqlDB = Open MySQL []"

lemmas sample_defs = userField_def userFields_def noHooks_def userTable_def userModel_def
  recorder_def affected_def userRows_def emptyWorld_def pgDB_def mysqlDB_def zeroUser_def

end
