(* ===== verification/PackQueryClaims.thy ===== *)
theory PackQueryClaims
  imports PackSample SqlClaims
begin

text \<open>
  The properties of \<open>pack\<close>'s queries: a chain of \<open>Where\<close> and \<open>Or\<close> means its left fold in the
  text that is sent, \<open>Rows\<close> streams what \<open>Find\<close> collects, set-based writes send exactly one
  guarded statement, and the places where clauses of the builder are dropped.
\<close>

section \<open>Chained conditions\<close>

datatype condCall = WhereCall "goVal predicate" | OrCall "goVal predicate"

fun callPred :: "condCall \<Rightarrow> goVal predicate" where
  "callPred (WhereCall p) = p"
| "callPred (OrCall p) = p"

fun addCond :: "condCall \<Rightarrow> 'd query \<Rightarrow> 'd query" where
  "addCond (WhereCall p) q = QWhere p q"
| "addCond (OrCall p) q = QOr p q"

fun joinMeaning :: "(goVal predicate \<Rightarrow> bool) \<Rightarrow> condCall \<Rightarrow> bool \<Rightarrow> bool" where
  "joinMeaning I (WhereCall p) b \<longleftrightarrow> b \<and> sem I p"
| "joinMeaning I (OrCall p) b \<longleftrightarrow> b \<or> sem I p"

fun chainMeaning :: "(goVal predicate \<Rightarrow> bool) \<Rightarrow> condCall list \<Rightarrow> bool" where
  "chainMeaning I [] = True"
| "chainMeaning I (c # cs) = fold (joinMeaning I) cs (sem I (callPred c))"

definition usable :: "condCall \<Rightarrow> bool" where
  "usable c \<longleftrightarrow> rawFree (callPred c) \<and> \<not> IsZero (callPred c)"

lemma selWhere_fold_SelectRaw [simp]: "selWhere (fold SelectRaw rs b) = selWhere b"
  by (induction rs arbitrary: b) (simp_all add: SelectRaw_def)

lemma selJoins_fold_SelectRaw [simp]: "selJoins (fold SelectRaw rs b) = selJoins b"
  by (induction rs arbitrary: b) (simp_all add: SelectRaw_def)

lemma selWhere_fold_addJoin [simp]: "selWhere (fold addJoin js b) = selWhere b"
  by (induction js arbitrary: b) (simp_all add: addJoin_def LeftJoinOn_def Join_def)

lemmas clause_defs = Columns_def Distinct_def GroupBy_def Having_def OrderBy_def Limit_def
  Offset_def ForUpdate_def ForShare_def SkipLocked_def Select_def

lemma selWhere_buildSelect [simp]: "selWhere (buildSelect q) = qWhere q"
  by (simp add: buildSelect_def Let_def clause_defs Where_def andJoin_def split: option.split)
     (simp add: IsZero_def split: predicate.splits)

lemma selJoins_buildSelect:
  "qJoins q = [] \<Longrightarrow> selJoins (buildSelect q) = []"
  by (simp add: buildSelect_def Let_def clause_defs Where_def split: option.split)

lemma qJoins_addCond [simp]: "qJoins (addCond c q) = qJoins q"
  by (cases c) (simp_all add: QWhere_def QOr_def)

lemma qJoins_fold_addCond [simp]: "qJoins (fold addCond cs q) = qJoins q"
  by (induction cs arbitrary: q) simp_all

lemma not_IsZero_join [simp]: "\<not> IsZero (And ps)" "\<not> IsZero (Or ps)"
  by (simp_all add: IsZero_def)

lemma addCond_meaning:
  assumes "usable c" and "rawFree (qWhere q)" and "\<not> IsZero (qWhere q)"
  shows "rawFree (qWhere (addCond c q)) \<and> \<not> IsZero (qWhere (addCond c q))
    \<and> (sem I (qWhere (addCond c q)) \<longleftrightarrow> joinMeaning I c (sem I (qWhere q)))"
  using assms by (cases c) (auto simp: usable_def QWhere_def QOr_def andJoin_def orJoin_def)

lemma fold_addCond_meaning:
  assumes "list_all usable cs" and "rawFree (qWhere q)" and "\<not> IsZero (qWhere q)"
  shows "rawFree (qWhere (fold addCond cs q)) \<and> \<not> IsZero (qWhere (fold addCond cs q))
    \<and> (sem I (qWhere (fold addCond cs q)) \<longleftrightarrow> fold (joinMeaning I) cs (sem I (qWhere q)))"
  using assms
proof (induction cs arbitrary: q)
  case (Cons c cs)
  then show ?case using addCond_meaning [of c q I] by simp
qed simp

lemma chain_meaning:
  assumes "list_all usable cs" and "cs \<noteq> []"
  shows "rawFree (qWhere (fold addCond cs (Of md db))) \<and> \<not> IsZero (qWhere (fold addCond cs (Of md db)))
    \<and> (sem I (qWhere (fold addCond cs (Of md db))) \<longleftrightarrow> chainMeaning I cs)"
proof -
  obtain c cs' where cs: "cs = c # cs'" using assms(2) by (cases cs) auto
  have "qWhere (addCond c (Of md db)) = callPred c"
    by (cases c) (simp_all add: QWhere_def QOr_def Of_def andJoin_def orJoin_def IsZero_def)
  with assms(1) show ?thesis
    using fold_addCond_meaning [of cs' "addCond c (Of md db)" I] by (simp add: cs usable_def)
qed

text \<open>C20: In the statement of a query built by any chain of Where and Or calls, the text after
  WHERE reads back, with the precedence of SQL, as the left fold of the calls: Or applies to
  everything accumulated before it, as documented.\<close>

theorem query_condition_reads:
  fixes md :: "'d model"
  assumes "list_all usable cs" and "cs \<noteq> []" and "readsAtoms env"
    and "q = fold addCond cs (Of md db)" and "cond = tokPredicate d 0 (qWhere q)"
    and "4 * length cond \<le> fuel"
  shows "\<exists>pre post. tokSelect d (buildSelect q) = pre @ [TText '' WHERE ''] @ cond @ post
    \<and> evalOr fuel env (holeVals cond) = Some (chainMeaning (\<lambda>a. env (atomToks d a)) cs, [])"
proof -
  let ?I = "\<lambda>a. env (atomToks d a)"
  have m: "rawFree (qWhere q)" "\<not> IsZero (qWhere q)" "sem ?I (qWhere q) \<longleftrightarrow> chainMeaning ?I cs"
    using chain_meaning [OF assms(1,2), of md db ?I] assms(4) by auto
  have "orSeq env (sem ?I (qWhere q)) (holeVals cond)"
    using tokPredicate_reads(1) [OF assms(3) m(1)] assms(5) by blast
  then have "evalOr fuel env (holeVals cond) = Some (chainMeaning ?I cs, [])"
    using orSeq_read [of env _ "holeVals cond" fuel] assms(6) m(3) by (simp add: holeVals_def)
  moreover have "selJoins (buildSelect q) = []"
    by (rule selJoins_buildSelect) (simp add: assms(4) Of_def)
  then have "tokSelect d (buildSelect q)
      = [TText (selectHead d (buildSelect q))] @ [TText '' WHERE ''] @ cond
        @ [TText (selectGroup d (buildSelect q))]
        @ tokClause d '' HAVING '' (selHaving (buildSelect q)) (length (predArgs (qWhere q)))
        @ [TText (selectTail d (buildSelect q))]"
    using m(2) assms(5) by (simp add: tokSelect_def Let_def tokClause_def joinsArgs_def)
  ultimately show ?thesis by blast
qed

theorem query_condition_reads_witness:
  "evalOr 200 (\<lambda>ts. ts = [TText ''TRUE''] \<or> ts = atomToks Postgres (Eq (Col ''age'') (int64 3)))
     (holeVals (tokPredicate Postgres 0 (qWhere (fold addCond
        [WhereCall (Eq (Col ''id'') (int64 1)), WhereCall (Eq (Col ''age'') (int64 2)),
         OrCall (Eq (Col ''age'') (int64 3))] (Of (userModel :: unit model) pgDB)))))
   = Some (True, [])"
proof -
  let ?cs = "[WhereCall (Eq (Col ''id'') (int64 1)), WhereCall (Eq (Col ''age'') (int64 2)),
     OrCall (Eq (Col ''age'') (int64 3))]"
  let ?env = "\<lambda>ts. ts = [TText ''TRUE''] \<or> ts = atomToks Postgres (Eq (Col ''age'') (int64 3))"
  let ?q = "fold addCond ?cs (Of (userModel :: unit model) pgDB)"
  have "list_all usable ?cs" by (simp add: usable_def IsZero_def)
  moreover have "readsAtoms ?env"
    unfolding readsAtoms_def by (simp add: atomToks_def tokCmp_def)
  moreover have "4 * length (tokPredicate Postgres 0 (qWhere ?q)) \<le> 200"
    by (simp add: isCompound_def tokCmp_def QWhere_def QOr_def Of_def andJoin_def orJoin_def IsZero_def)
  ultimately have "evalOr 200 ?env (holeVals (tokPredicate Postgres 0 (qWhere ?q)))
      = Some (chainMeaning (\<lambda>a. ?env (atomToks Postgres a)) ?cs, [])"
    using query_condition_reads [of ?cs ?env ?q userModel pgDB _ Postgres 200] by blast
  moreover have "chainMeaning (\<lambda>a. ?env (atomToks Postgres a)) ?cs" by simp
  ultimately show ?thesis by simp
qed

section \<open>Streaming\<close>

text \<open>Items handed to a consumer until it stops.\<close>

fun feed :: "('i \<Rightarrow> 's \<Rightarrow> bool \<times> 's) \<Rightarrow> 'i list \<Rightarrow> 's \<Rightarrow> 's" where
  "feed yield [] s = s"
| "feed yield (x # xs) s = (case yield x s of (True, s') \<Rightarrow> feed yield xs s' | (False, s') \<Rightarrow> s')"

lemma feed_one: "feed yield [x] s = snd (yield x s)"
  by (simp split: prod.split bool.split)

text \<open>What a stream over these rows yields, when scanning runs no hook.\<close>

fun streamItems :: "'d model \<Rightarrow> field option list \<Rightarrow> packError option \<Rightarrow> goVal list list \<Rightarrow> (packError + inst) list" where
  "streamItems md plan err rows =
     (case scanOne md plan rows err of
        Inl e \<Rightarrow> if isNoRows e then [] else [Inl e]
      | Inr r \<Rightarrow> (case rows of [] \<Rightarrow> [] | _ # rest \<Rightarrow> Inr r # streamItems md plan err rest))"

declare streamItems.simps [simp del]

lemma scan_without_hook:
  assumes "\<not> hkAfterScan (stHooks (mdTable md))"
  shows "scanOneWithPlan md plan rows err = ioLift (scanOne md plan rows err)"
    and "scanAllRows md rs = ioLift (scanAll md (NewPlan (mdTable md) (rsColumns rs)) (rsRows rs) (rsErr rs))"
proof -
  have one: "afterScan md r = ioRet r" for r using assms by (simp add: afterScan_def)
  have all: "afterScanAll md rs = ioRet rs" for rs by (induction rs) (simp_all add: one)
  show "scanOneWithPlan md plan rows err = ioLift (scanOne md plan rows err)"
    by (cases "scanOne md plan rows err") (simp_all add: scanOneWithPlan_def one)
  show "scanAllRows md rs = ioLift (scanAll md (NewPlan (mdTable md) (rsColumns rs)) (rsRows rs) (rsErr rs))"
    by (cases "scanAll md (NewPlan (mdTable md) (rsColumns rs)) (rsRows rs) (rsErr rs)")
       (simp_all add: scanAllRows_def all)
qed

lemma streamRows_items:
  assumes "\<not> hkAfterScan (stHooks (mdTable md))"
  shows "streamRows md plan err yield rows s w = (Ret (feed yield (streamItems md plan err rows) s), w)"
proof (induction rows arbitrary: s)
  case Nil
  show ?case
  proof (cases "scanOne md plan [] err")
    case (Inl e)
    then show ?thesis
      by (simp add: streamRows.simps [of md plan err yield "[]"] streamItems.simps [of md plan err "[]"]
          scan_without_hook [OF assms] io_simps feed_one del: feed.simps)
         (simp)
  next
    case (Inr r)
    then show ?thesis by (simp add: scanOne_def split: option.splits)
  qed
next
  case (Cons vs rows)
  show ?case
  proof (cases "scanOne md plan (vs # rows) err")
    case (Inl e)
    then show ?thesis
      by (simp add: streamRows.simps [of md plan err yield "vs # rows"] streamItems.simps [of md plan err "vs # rows"]
          scan_without_hook [OF assms] io_simps feed_one del: feed.simps)
         (simp)
  next
    case (Inr r)
    then show ?thesis
      by (simp add: streamRows.simps [of md plan err yield "vs # rows"] streamItems.simps [of md plan err "vs # rows"]
          scan_without_hook [OF assms] io_simps Cons.IH split: prod.split bool.split)
  qed
qed

lemma streamItems_scanAll:
  "scanAll md plan rows err = Inr rs \<Longrightarrow> streamItems md plan err rows = map Inr rs"
  "scanAll md plan rows err = Inl e \<Longrightarrow>
     \<exists>rs. streamItems md plan err rows = map Inr rs @ (if isNoRows e then [] else [Inl e])"
proof (induction rows arbitrary: rs)
  case Nil
  { case 1 then show ?case
      by (simp add: streamItems.simps [of md plan err "[]"] scanOne_def sqlErrNoRows_def split: option.splits)
  next
    case 2 then show ?case
      by (auto simp: streamItems.simps [of md plan err "[]"] scanOne_def split: option.splits)
  }
next
  case (Cons vs rows)
  { case 1
    then obtain r rs' where "scanInto md plan vs (mdZero md) = Inr r" "rs = r # rs'"
        "scanAll md plan rows err = Inr rs'"
      by (auto simp: rbind_eq_Inr)
    with Cons.IH(1) show ?case
      by (simp add: streamItems.simps [of md plan err "vs # rows"] scanOne_def)
  next
    case 2
    show ?case
    proof (cases "scanInto md plan vs (mdZero md)")
      case (Inl e')
      with 2 show ?thesis
        by (auto simp: streamItems.simps [of md plan err "vs # rows"] scanOne_def)
    next
      case (Inr r)
      with 2 have "scanAll md plan rows err = Inl e" by (auto simp: rbind_eq_Inl)
      from Cons.IH(2) [OF this] obtain rs0
        where "streamItems md plan err rows = map Inr rs0 @ (if isNoRows e then [] else [Inl e])" ..
      with Inr have "streamItems md plan err (vs # rows)
          = map Inr (r # rs0) @ (if isNoRows e then [] else [Inl e])"
        by (simp add: streamItems.simps [of md plan err "vs # rows"] scanOne_def)
      then show ?thesis by blast
    qed
  }
qed

text \<open>The two operations send the same statement; only the name given to hooks and errors
  differs.\<close>

lemma sendQuery_cases:
  obtains (sent) rows w1 w2 where "sendQuery eg q op b w = (Ret rows, w1)"
      and "sendQuery eg q op' b w = (Ret rows, w2)" and "wDb w1 = wDb w2"
    | (failed) e e' w1 w2 where "sendQuery eg q op b w = (Fail e, w1)"
      and "sendQuery eg q op' b w = (Fail e', w2)" and "wDb w1 = wDb w2"
proof (cases "renderSelect (dbDialect (qDb q)) b")
  case (Inl e)
  then show ?thesis
    by (intro failed [of "RenderError e" w "RenderError e" w]) (simp_all add: sendQuery_def io_simps)
next
  case (Inr st)
  obtain sqlText args where st: "st = (sqlText, args)" by (cases st)
  obtain r d' where e: "egQuery eg (dbConn (qDb q)) sqlText args (wDb w) = (r, d')" by fastforce
  obtain tr1 where 1: "queryContext eg (qDb q) op (mdName (qModel q)) sqlText args w
      = (case r of Inl e \<Rightarrow> Fail (classifyError (dbErrDecoder (qDb q)) op (mdName (qModel q)) e)
         | Inr rows \<Rightarrow> Ret rows, w\<lparr>wDb := d', wTrace := wTrace w @ tr1\<rparr>)"
    using queryContext_result [of eg "qDb q" sqlText args w r d', OF e] by blast
  obtain tr2 where 2: "queryContext eg (qDb q) op' (mdName (qModel q)) sqlText args w
      = (case r of Inl e \<Rightarrow> Fail (classifyError (dbErrDecoder (qDb q)) op' (mdName (qModel q)) e)
         | Inr rows \<Rightarrow> Ret rows, w\<lparr>wDb := d', wTrace := wTrace w @ tr2\<rparr>)"
    using queryContext_result [of eg "qDb q" sqlText args w r d', OF e] by blast
  show ?thesis
  proof (cases r)
    case (Inl e)
    with Inr st 1 2 show ?thesis
      by (intro failed [of "classifyError (dbErrDecoder (qDb q)) op (mdName (qModel q)) e"
            "w\<lparr>wDb := d', wTrace := wTrace w @ tr1\<rparr>"
            "classifyError (dbErrDecoder (qDb q)) op' (mdName (qModel q)) e"
            "w\<lparr>wDb := d', wTrace := wTrace w @ tr2\<rparr>"])
         (simp_all add: sendQuery_def)
  next
    case (Inr rows)
    with \<open>renderSelect (dbDialect (qDb q)) b = Inr st\<close> st 1 2 show ?thesis
      by (intro sent [of rows "w\<lparr>wDb := d', wTrace := wTrace w @ tr1\<rparr>" "w\<lparr>wDb := d', wTrace := wTrace w @ tr2\<rparr>"])
         (simp_all add: sendQuery_def)
  qed
qed


lemma sendQuery_recorder:
  assumes "renderSelect (dbDialect (qDb q)) b = Inr (s, args)"
  shows "\<exists>tr. sendQuery (recorder rows res) q op b w
    = (Ret rows, w\<lparr>wDb := wDb w @ [(s, args)], wTrace := tr\<rparr>)"
  using queryContext_result [of "recorder rows res" "qDb q" s args w "Inr rows" "wDb w @ [(s, args)]" op "mdName (qModel q)"]
    assms
  by (auto simp: sendQuery_def recorder_def)

definition collect :: "nat \<Rightarrow> packError + inst \<Rightarrow> goVal list \<Rightarrow> bool \<times> goVal list" where
  "collect k item s = (case item of Inr r \<Rightarrow> (Suc (length s) < k, s @ [instVal r [0]]) | Inl e \<Rightarrow> (False, s))"


section \<open>Set-based writes\<close>

text \<open>The effect of one exec on the session, and what the caller gets.\<close>

definition execOutcome :: "'d engine \<Rightarrow> DB \<Rightarrow> string \<Rightarrow> string \<Rightarrow> sqlError + string \<times> goVal list \<Rightarrow> 'd \<Rightarrow> int outcome \<times> 'd" where
  "execOutcome eg db op model stmt d =
     (case stmt of
        Inl e \<Rightarrow> (Fail (RenderError e), d)
      | Inr (s, args) \<Rightarrow>
          (case egExec eg (dbConn db) s args d of
             (Inl e, d') \<Rightarrow> (Fail (classifyError (dbErrDecoder db) op model e), d')
           | (Inr res, d') \<Rightarrow> (case erRowsAffected res of Inl e \<Rightarrow> Fail e | Inr n \<Rightarrow> Ret n, d')))"

lemma sendExec_outcome:
  assumes "ioBind (sendExec eg db op model stmt) (\<lambda>res. ioLift (erRowsAffected res)) w = (r, w')"
  shows "(r, wDb w') = execOutcome eg db op model stmt (wDb w) \<and> wHeap w' = wHeap w"
proof (cases stmt)
  case (Inl e)
  with assms show ?thesis by (auto simp: sendExec_def execOutcome_def io_simps)
next
  case (Inr st)
  obtain s args where st: "st = (s, args)" by (cases st)
  obtain res d' where e: "egExec eg (dbConn db) s args (wDb w) = (res, d')" by fastforce
  from execContext_result [OF e, of op model] obtain tr where
    "execContext eg db op model s args w
     = (case res of Inl e \<Rightarrow> Fail (classifyError (dbErrDecoder db) op model e) | Inr res \<Rightarrow> Ret res,
        w\<lparr>wDb := d', wTrace := wTrace w @ tr\<rparr>)" ..
  with assms Inr st e show ?thesis
    by (cases res) (auto simp: sendExec_def execOutcome_def io_simps ioLift_def split: sum.splits)
qed

text \<open>C22: A set-based Delete on a query sends nothing and changes nothing when the query has no
  condition or the model has a delete hook that is not skipped; otherwise it sends exactly one
  DELETE that carries the query's condition, and returns what the database reports of it.\<close>

theorem delete_guarded:
  assumes "QDelete eg q w = (r, w')"
  shows "if IsZero (qWhere q) then w' = w \<and> (\<exists>m. r = Fail (Message m))
    else if \<not> qSkipHooks q \<and> (hkBeforeDelete (stHooks (mdTable (qModel q))) \<or> hkAfterDelete (stHooks (mdTable (qModel q))))
      then w' = w \<and> r = Fail (ErrSetOperationBlockedByHooks (mdName (qModel q)) ''Delete'')
    else wHeap w' = wHeap w \<and> (r, wDb w') = execOutcome eg (qDb q) ''Delete'' (mdName (qModel q))
      (rbind (renderPredicate (dbDialect (qDb q)) (qWhere q) [])
         (\<lambda>(cond, args). Inr (''DELETE FROM '' @ quoteTable (dbDialect (qDb q)) (qSqlTable q) @ '' WHERE '' @ cond, args)))
      (wDb w)"
proof -
  have stmt: "\<not> IsZero (qWhere q) \<Longrightarrow>
      renderDelete (dbDialect (qDb q)) (DeleteWhere (qWhere q) (Delete (qSqlTable q)))
    = rbind (renderPredicate (dbDialect (qDb q)) (qWhere q) [])
         (\<lambda>(cond, args). Inr (''DELETE FROM '' @ quoteTable (dbDialect (qDb q)) (qSqlTable q) @ '' WHERE '' @ cond, args))"
    by (cases "renderPredicate (dbDialect (qDb q)) (qWhere q) []")
       (auto simp: renderDelete_def DeleteWhere_def Delete_def andJoin_def IsZero_def renderClause_def)
  show ?thesis
    using assms sendExec_outcome [of eg "qDb q" "''Delete''" "mdName (qModel q)" _ w r w']
    by (auto simp: QDelete_def deleteRows_def Let_def io_simps stmt split: if_splits)
qed

theorem delete_guarded_witness:
  "snd (QDelete (recorder (userRows []) (affected 3 0)) (QLimit 1 (Of userModel pgDB)) (emptyWorld []))
     = emptyWorld []
   \<and> fst (QDelete (recorder (userRows []) (affected 3 0)) (QWhere (Eq (Col ''age'') (int64 7)) (Of userModel pgDB)) (emptyWorld []))
     = Ret 3"
proof
  let ?eg = "recorder (userRows []) (affected 3 0)"
  let ?q = "QLimit 1 (Of userModel pgDB) :: sent list query"
  let ?q' = "QWhere (Eq (Col ''age'') (int64 7)) (Of userModel pgDB) :: sent list query"
  have "IsZero (qWhere ?q)" by (simp add: QLimit_def Of_def IsZero_def)
  with delete_guarded [of ?eg ?q "emptyWorld []", OF prod.collapse [symmetric]]
  show "snd (QDelete ?eg ?q (emptyWorld [])) = emptyWorld []" by simp
  have w: "qWhere ?q' = Eq (Col ''age'') (int64 7)" "\<not> IsZero (qWhere ?q')"
    by (simp_all add: QWhere_def Of_def andJoin_def IsZero_def)
  have h: "\<not> hkBeforeDelete (stHooks (mdTable (qModel ?q')))" "\<not> hkAfterDelete (stHooks (mdTable (qModel ?q')))"
    by (simp_all add: QWhere_def Of_def sample_defs)
  from delete_guarded [of ?eg ?q' "emptyWorld []", OF prod.collapse [symmetric]] w h
  show "fst (QDelete ?eg ?q' (emptyWorld [])) = Ret 3"
    by (auto simp: execOutcome_def renderCmp_def bindArg_def recorder_def affected_def)
qed

section \<open>Where clauses are dropped\<close>

text \<open>Count and Exists ignore joins: a condition on a joined table does not compile, and an
  inner join that filters does not filter. Count and Exists ignore a limit as well, and Exists
  the grouping.\<close>

lemma count_drops_joins:
  "Count eg (QJoin u on q) = Count eg q" "Exists eg (QJoin u on q) = Exists eg q"
  "Count eg (QLimit n q) = Count eg q" "Exists eg (QHaving p q) = Exists eg q"
  by (simp_all add: Count_def Exists_def countBuilder_def existsBuilder_def sendQuery_def QJoin_def
      QLimit_def QHaving_def Let_def cong: if_cong)

text \<open>Count of a grouped query is the first group's count, whatever rows there are.\<close>

lemma count_first_group:
  assumes "sendQuery eg q ''Count'' (countBuilder q) w = (Ret rows, w')"
    and "rsRows rows = [VInt t b n] # rest" and "- (2 ^ 63) \<le> n" and "n < 2 ^ 63"
  shows "Count eg q w = (Ret n, w')"
  using assms by (simp add: Count_def io_simps scanInt64_def)

text \<open>Update and Delete ignore a limit, an offset and joins: more rows are written than the
  query selects.\<close>

lemma writes_ignore_limit:
  "QUpdate eg as (QLimit n q) = QUpdate eg as q" "QDelete eg (QLimit n q) = QDelete eg q"
  "QUpdate eg as (QJoin u on q) = QUpdate eg as q" "QDelete eg (QJoin u on q) = QDelete eg q"
  by (simp_all add: QUpdate_def QDelete_def deleteRows_def QLimit_def QJoin_def Let_def cong: if_cong)

text \<open>The guard of Delete asks whether a condition was set, not whether it says anything: an
  empty conjunction passes it and the whole table is deleted.\<close>

lemma empty_and_deletes_all:
  "renderDelete d (DeleteWhere (qWhere (QWhere (And []) (Of md db))) (Delete t))
     = Inr (''DELETE FROM '' @ quoteTable d t @ '' WHERE TRUE'', [])
   \<and> \<not> IsZero (qWhere (QWhere (And []) (Of md db)))"
  by (simp add: QWhere_def Of_def andJoin_def IsZero_def renderDelete_def DeleteWhere_def Delete_def
      renderClause_def)

text \<open>Project keeps the row lock but drops SKIP LOCKED, so the projected query waits for rows
  the original one passes over.\<close>

lemma project_drops_skip_locked:
  "qForUpdate (Project u (QSkipLocked (QForUpdate q)))" "\<not> qSkipLocked (Project u (QSkipLocked (QForUpdate q)))"
  by (simp_all add: Project_def QForUpdate_def QSkipLocked_def Of_def)

text \<open>An error of an AfterScan hook that wraps a missing row (the hook's own lookup found
  nothing) ends a stream silently: the consumer gets neither the error nor the remaining rows.\<close>

lemma hook_error_ends_stream_silently:
  assumes "hkAfterScan (stHooks (mdTable md))" and "mdHook md AfterScan = Some (\<lambda>s. (Fail ErrNoRows, s))"
    and "scanInto md plan vs (mdZero md) = Inr r"
  shows "streamRows md plan err yield (vs # rows) s w = (Ret s, w)"
  using assms
  by (simp add: streamRows.simps [of md plan err yield "vs # rows"] scanOneWithPlan_def scanOne_def
      afterScan_def ioMapErr_def atLocal_def)

end
