(* ===== verification/PackCreate.thy ===== *)
theory PackCreate
  imports PackQuery
begin

text \<open>
  Single-row and batched writes of \<open>pack\<close>: \<open>write.go\<close> (binding values, key predicates),
  \<open>write_options.go\<close>, \<open>create.go\<close>, \<open>create_all.go\<close>, \<open>keyed.go\<close> and \<open>model.go\<close>. Rows are
  behind pointers: hooks, backfilled keys and defaults change the heap, also when the
  operation fails later.
\<close>

section \<open>Binding values\<close>

definition bindableValue :: "'d model \<Rightarrow> field \<Rightarrow> goVal \<Rightarrow> packError + goVal" where
  "bindableValue md f fv =
     (if coNullZero (fdOptions f) \<and> isZeroVal fv then Inr VNil
      else if isJson f then
        (let v = (case fv of VSlice None \<Rightarrow> VSlice (Some []) | VBytes None \<Rightarrow> VBytes (Some []) | _ \<Rightarrow> fv)
         in case mdMarshal md v of
              Inl e \<Rightarrow> Inl (Wrapped (''pack: '' @ mdName md @ ''.'' @ fdGoName f @ '': marshal jsonb'') e)
            | Inr b \<Rightarrow> Inr (VBytes (Some b)))
      else (case fv of
              VUint t w u \<Rightarrow>
                if w = 64 \<and> 2 ^ 63 - 1 < u then Inl (ErrUintOverflow (mdName md) (fdGoName f) (fdColumn f) u)
                else Inr fv
            | _ \<Rightarrow> Inr fv))"

fun bindFields :: "'d model \<Rightarrow> inst \<Rightarrow> field list \<Rightarrow> packError + goVal assignment list" where
  "bindFields md row [] = Inr []"
| "bindFields md row (f # fs) =
     rbind (bindableValue md f (instVal row (fdIndex f))) (\<lambda>v.
     rbind (bindFields md row fs) (\<lambda>as. Inr (SetVal (Col (fdColumn f)) v # as)))"

definition writeAllAssignments :: "'d model \<Rightarrow> inst \<Rightarrow> packError + goVal assignment list" where
  "writeAllAssignments md row = bindFields md row (filter (\<lambda>f. \<not> coPK (fdOptions f)) (stFields (mdTable md)))"

definition compositeKeyIsZero :: "schemaTable \<Rightarrow> inst \<Rightarrow> bool" where
  "compositeKeyIsZero t row = list_all (\<lambda>f. isZeroVal (instVal row (fdIndex f))) (stPK t)"

section \<open>Key predicates\<close>

definition pkCol :: "string \<Rightarrow> string \<Rightarrow> column" where
  "pkCol alias name = (if alias = [] then Col name else QualifiedCol alias name)"

definition pkPredicate :: "'d model \<Rightarrow> goVal \<Rightarrow> string \<Rightarrow> packError + goVal predicate" where
  "pkPredicate md ident alias =
     (let t = mdTable md in
      case stPK t of
        [] \<Rightarrow> Inl (Message (''pack: '' @ mdName md @ '' has no primary-key column mapped (embed Model[ID] or tag a field pk)''))
      | f # fs \<Rightarrow>
          if \<not> stPKIsComposite t then Inr (Eq (pkCol alias (fdColumn f)) ident)
          else (case ident of
                  VStruct vs \<Rightarrow>
                    if length vs = length (stPK t)
                    then Inr (And (map (\<lambda>(f, v). Eq (pkCol alias (fdColumn f)) v) (zip (stPK t) vs)))
                    else Inl (Message (''pack: '' @ mdName md @ '' composite key value has the wrong shape''))
                | _ \<Rightarrow> Inl (Message (''pack: '' @ mdName md @ '' composite key value has the wrong shape''))))"

definition pkPredicateFromRow :: "schemaTable \<Rightarrow> inst \<Rightarrow> goVal predicate" where
  "pkPredicateFromRow t row =
     (let preds = map (\<lambda>f. Eq (Col (fdColumn f)) (instVal row (fdIndex f))) (stPK t)
      in case preds of [p] \<Rightarrow> p | _ \<Rightarrow> And preds)"

section \<open>Writing back into a row\<close>

text \<open>\<open>SetInt\<close> and \<open>SetUint\<close> keep the low bits of the destination's width.\<close>

definition signedBits :: "nat \<Rightarrow> int \<Rightarrow> int" where
  "signedBits w v = (v + 2 ^ (w - 1)) mod 2 ^ w - 2 ^ (w - 1)"

definition assignInt64 :: "goVal \<Rightarrow> int \<Rightarrow> packError + goVal" where
  "assignInt64 dest v =
     (case dest of
        VInt t w i \<Rightarrow> Inr (VInt t w (signedBits w v))
      | VUint t w n \<Rightarrow> Inr (VUint t w (nat (v mod 2 ^ w)))
      | _ \<Rightarrow> Inl (Message ''pack: internal: LastInsertId destination has unsupported kind''))"

text \<open>\<open>returningDest\<close>: the key of an embedded \<open>Model\<close> through its address, else by index.\<close>

definition returningDest :: "'d model \<Rightarrow> field \<Rightarrow> nat list" where
  "returningDest md f =
     (if coPK (fdOptions f) then (case mdPkField md of Some path \<Rightarrow> path | None \<Rightarrow> fdIndex f) else fdIndex f)"

definition storeField :: "nat \<Rightarrow> nat list \<Rightarrow> goVal \<Rightarrow> 'd world \<Rightarrow> 'd world" where
  "storeField p path v w = w\<lparr>wHeap := (wHeap w)(p := setVal path v (wHeap w p))\<rparr>"

text \<open>\<open>rows.Scan\<close> into the returned fields of the row behind \<open>p\<close>, one destination after the
  other; \<open>assignInt64\<close> into one of them.\<close>

definition scanReturned :: "'d model \<Rightarrow> nat \<Rightarrow> field \<times> goVal \<Rightarrow> ('d world, unit) io" where
  "scanReturned md p fv = (\<lambda>w.
     let path = returningDest md (fst fv) in
     case mdAssign md (fst fv) (instVal (wHeap w p) path) (snd fv) of
       Inl e \<Rightarrow> (Fail e, w)
     | Inr x \<Rightarrow> (Ret (), storeField p path x w))"

definition scanReturning :: "'d model \<Rightarrow> nat \<Rightarrow> field list \<Rightarrow> goVal list \<Rightarrow> ('d world, unit) io" where
  "scanReturning md p fs vs =
     (if length fs = length vs then ioEach (scanReturned md p) (zip fs vs)
      else ioFail (Message ''sql: expected different number of destination arguments in Scan''))"

definition assignId :: "'d model \<Rightarrow> string \<Rightarrow> nat \<Rightarrow> int \<Rightarrow> field \<Rightarrow> ('d world, unit) io" where
  "assignId md op p ident f = (\<lambda>w.
     let path = returningDest md f in
     case assignInt64 (instVal (wHeap w p) path) ident of
       Inl e \<Rightarrow> (Fail (Wrapped (''pack: '' @ op @ ''('' @ mdName md @ '')'') e), w)
     | Inr x \<Rightarrow> (Ret (), storeField p path x w))"

section \<open>Options and hooks\<close>

record conflictSpec =
  csCols :: "column list"
  csDoNothing :: bool
  csDoUpdate :: "goVal assignment list"

record writeConfig =
  wcBatchSize :: int
  wcConflict :: "conflictSpec option"

definition WithBatchSize :: "int \<Rightarrow> writeConfig \<Rightarrow> writeConfig" where
  "WithBatchSize n c = c\<lparr>wcBatchSize := n\<rparr>"

definition OnConflictNothing :: "column list \<Rightarrow> writeConfig \<Rightarrow> writeConfig" where
  "OnConflictNothing cols c =
     c\<lparr>wcConflict := Some \<lparr>csCols = cols, csDoNothing = True, csDoUpdate = []\<rparr>\<rparr>"

definition OnConflictUpdate :: "column list \<Rightarrow> goVal assignment list \<Rightarrow> writeConfig \<Rightarrow> writeConfig" where
  "OnConflictUpdate cols assignments c =
     c\<lparr>wcConflict := Some \<lparr>csCols = cols, csDoNothing = False, csDoUpdate = assignments\<rparr>\<rparr>"

definition doNothing :: "writeConfig \<Rightarrow> bool" where
  "doNothing cfg = (case wcConflict cfg of Some s \<Rightarrow> csDoNothing s | None \<Rightarrow> False)"

definition withConflict :: "writeConfig \<Rightarrow> goVal insertBuilder \<Rightarrow> goVal insertBuilder" where
  "withConflict cfg ib =
     (case wcConflict cfg of
        None \<Rightarrow> ib
      | Some s \<Rightarrow> if csDoNothing s then OnConflictDoNothing (csCols s) ib
                  else OnConflictDoUpdate (csCols s) (csDoUpdate s) ib)"

definition hookName :: "hookKind \<Rightarrow> string" where
  "hookName k = (case k of BeforeInsert \<Rightarrow> ''BeforeInsert'' | AfterInsert \<Rightarrow> ''AfterInsert''
     | BeforeUpdate \<Rightarrow> ''BeforeUpdate'' | AfterUpdate \<Rightarrow> ''AfterUpdate'' | BeforeDelete \<Rightarrow> ''BeforeDelete''
     | AfterDelete \<Rightarrow> ''AfterDelete'' | AfterScan \<Rightarrow> ''AfterScan'')"

text \<open>One guarded hook call: the table says there is one, and the pointer implements it.\<close>

definition fireHook :: "'d model \<Rightarrow> hookKind \<Rightarrow> bool \<Rightarrow> nat \<Rightarrow> ('d world, unit) io" where
  "fireHook md k has p =
     (if has then
        (case mdHook md k of
           None \<Rightarrow> ioRet ()
         | Some h \<Rightarrow> ioMapErr (HookError (hookName k) (mdName md)) (atPointer p h))
      else ioRet ())"

definition fireAfterInsert :: "'d model \<Rightarrow> nat \<Rightarrow> ('d world, unit) io" where
  "fireAfterInsert md = fireHook md AfterInsert (hkAfterInsert (stHooks (mdTable md)))"

section \<open>Create\<close>

text \<open>The loop over the fields: what is inserted and what the database gives back.\<close>

fun createFields :: "'d model \<Rightarrow> inst \<Rightarrow> field list \<Rightarrow> packError + goVal assignment list \<times> field list" where
  "createFields md row [] = Inr ([], [])"
| "createFields md row (f # fs) =
     (let fv = instVal row (fdIndex f) in
      if coAutoIncrement (fdOptions f) \<or> coHasDefault (fdOptions f) \<and> isZeroVal fv then
        rbind (createFields md row fs) (\<lambda>(as, ret). Inr (as, f # ret))
      else
        rbind (bindableValue md f fv) (\<lambda>v.
        rbind (createFields md row fs) (\<lambda>(as, ret). Inr (SetVal (Col (fdColumn f)) v # as, ret))))"

definition fieldCols :: "field list \<Rightarrow> column list" where
  "fieldCols fs = map (\<lambda>f. Col (fdColumn f)) fs"

definition firstRow :: "packError \<Rightarrow> rowSet \<Rightarrow> packError + goVal list" where
  "firstRow none rows =
     (case rsRows rows of
        [] \<Rightarrow> Inl (case rsErr rows of Some e \<Rightarrow> e | None \<Rightarrow> none)
      | vs # _ \<Rightarrow> Inr vs)"

fun assignAutoIds :: "'d model \<Rightarrow> nat \<Rightarrow> execResult \<Rightarrow> field list \<Rightarrow> ('d world, unit) io" where
  "assignAutoIds md p res [] = ioRet ()"
| "assignAutoIds md p res (f # fs) =
     (if \<not> coAutoIncrement (fdOptions f) then assignAutoIds md p res fs
      else
        ioBind (ioLift (case erLastInsertId res of
                          Inl e \<Rightarrow> Inl (Wrapped (''pack: Create('' @ mdName md @ ''): LastInsertId'') e)
                        | Inr n \<Rightarrow> Inr n)) (\<lambda>ident.
        ioBind (assignId md ''Create'' p ident f) (\<lambda>_. assignAutoIds md p res fs)))"

definition createWithoutReturning :: "'d engine \<Rightarrow> 'd model \<Rightarrow> DB \<Rightarrow> goVal insertBuilder \<Rightarrow> nat \<Rightarrow> field list \<Rightarrow> ('d world, unit) io" where
  "createWithoutReturning eg md db ib p returning =
     ioBind (sendExec eg db ''Create'' (mdName md) (renderInsert (dbDialect db) ib)) (\<lambda>res.
     ioBind (assignAutoIds md p res returning) (\<lambda>_.
       let remaining = filter (\<lambda>f. \<not> coAutoIncrement (fdOptions f)) returning in
       if remaining = [] then fireAfterInsert md p
       else (\<lambda>w.
         (let t = mdTable md;
              b = Where (pkPredicateFromRow t (wHeap w p))
                    (Columns (fieldCols remaining) (Select \<lparr>tblName = stName t, tblAlias = []\<rparr>))
          in ioBind (ioRender (renderSelect (dbDialect db) b)) (\<lambda>(sqlText, args).
             ioBind (queryContext eg db ''Create'' (mdName md) sqlText args) (\<lambda>rows.
             ioBind (ioLift (firstRow (Message (''pack: Create('' @ mdName md @
                       ''): follow-up SELECT for default columns produced no row'')) rows)) (\<lambda>vs.
             ioBind (scanReturning md p remaining vs) (\<lambda>_. fireAfterInsert md p)))) w))))"

definition Create :: "'d engine \<Rightarrow> 'd model \<Rightarrow> DB \<Rightarrow> (writeConfig \<Rightarrow> writeConfig) list \<Rightarrow> nat \<Rightarrow> ('d world, unit) io" where
  "Create eg md db opts p =
     (let t = mdTable md;
          cfg = fold (\<lambda>f c. f c) opts \<lparr>wcBatchSize = 0, wcConflict = None\<rparr>
      in ioBind (fireHook md BeforeInsert (hkBeforeInsert (stHooks t)) p) (\<lambda>_ w.
         (let row = wHeap w p in
          if stPKIsComposite t \<and> compositeKeyIsZero t row then (Fail (ErrZeroCompositeKey (mdName md)), w)
          else
            ioBind (ioLift (createFields md row (stFields t))) (\<lambda>(assignments, returned).
              let ib = withConflict cfg (Values assignments (Insert (modelTable md)));
                  returning = (if doNothing cfg then [] else returned)
              in if returning = [] then
                   ioBind (sendExec eg db ''Create'' (mdName md) (renderInsert (dbDialect db) ib))
                     (\<lambda>_. fireAfterInsert md p)
                 else if \<not> SupportsReturning (dbDialect db) then
                   createWithoutReturning eg md db ib p returning
                 else
                   ioBind (ioRender (renderInsert (dbDialect db) (Returning (fieldCols returning) ib))) (\<lambda>(sqlText, args).
                   ioBind (queryContext eg db ''Create'' (mdName md) sqlText args) (\<lambda>rows.
                   ioBind (ioLift (firstRow (Message (''pack: Create('' @ mdName md @
                             ''): INSERT ... RETURNING produced no row'')) rows)) (\<lambda>vs.
                   ioBind (scanReturning md p returning vs) (\<lambda>_. fireAfterInsert md p))))) w)))"

section \<open>CreateAll\<close>

definition defaultCreateAllBatchSize :: int where
  "defaultCreateAllBatchSize = 1000"

definition maxPostgresParams :: int where
  "maxPostgresParams = 65535"

definition batchSizeFor :: "writeConfig \<Rightarrow> nat \<Rightarrow> nat" where
  "batchSizeFor cfg n =
     (let b = (if wcBatchSize cfg \<le> 0 then defaultCreateAllBatchSize else wcBatchSize cfg);
          b = (if 0 < n \<and> maxPostgresParams div int n < b then maxPostgresParams div int n else b)
      in nat (if b < 1 then 1 else b))"

text \<open>The loop from \<open>start\<close> by the batch size; \<open>b\<close> is positive.\<close>

function chunks :: "nat \<Rightarrow> 'a list \<Rightarrow> 'a list list" where
  "chunks b [] = []"
| "chunks b (x # xs) = take (max 1 b) (x # xs) # chunks b (drop (max 1 b) (x # xs))"
  by pat_completeness auto
termination by (relation "measure (length \<circ> snd)") (auto simp: max_def)

fun bindAll :: "'d model \<Rightarrow> (nat \<Rightarrow> inst) \<Rightarrow> field list \<Rightarrow> nat list \<Rightarrow> packError + goVal assignment list list" where
  "bindAll md heap fs [] = Inr []"
| "bindAll md heap fs (p # ps) =
     (if stPKIsComposite (mdTable md) \<and> compositeKeyIsZero (mdTable md) (heap p)
      then Inl (ErrZeroCompositeKey (mdName md))
      else rbind (bindFields md (heap p) fs) (\<lambda>as. rbind (bindAll md heap fs ps) (\<lambda>ass. Inr (as # ass))))"

definition createAllWithoutReturning :: "'d engine \<Rightarrow> 'd model \<Rightarrow> DB \<Rightarrow> goVal insertBuilder \<Rightarrow> nat list \<Rightarrow> field list \<Rightarrow> ('d world, unit) io" where
  "createAllWithoutReturning eg md db ib ps returning =
     ioBind (sendExec eg db ''CreateAll'' (mdName md) (renderInsert (dbDialect db) ib)) (\<lambda>res.
     ioBind (ioLift (case erLastInsertId res of
                       Inl e \<Rightarrow> Inl (Wrapped (''pack: CreateAll('' @ mdName md @ ''): LastInsertId'') e)
                     | Inr n \<Rightarrow> Inr n)) (\<lambda>firstID.
       ioEach (\<lambda>(i, p). ioEach (assignId md ''CreateAll'' p (firstID + int i)) returning)
         (zip [0..<length ps] ps)))"

fun scanRowsInto :: "'d model \<Rightarrow> field list \<Rightarrow> packError option \<Rightarrow> nat list \<Rightarrow> goVal list list \<Rightarrow> ('d world, unit) io" where
  "scanRowsInto md returning err [] rows = ioRet ()"
| "scanRowsInto md returning err (p # ps) [] =
     ioFail (case err of Some e \<Rightarrow> e
             | None \<Rightarrow> Message (''pack: CreateAll('' @ mdName md @ ''): INSERT ... RETURNING produced fewer rows than expected''))"
| "scanRowsInto md returning err (p # ps) (vs # rows) =
     ioBind (scanReturning md p returning vs) (\<lambda>_. scanRowsInto md returning err ps rows)"

definition scanCreateAllReturning :: "'d engine \<Rightarrow> 'd model \<Rightarrow> DB \<Rightarrow> string \<Rightarrow> goVal list \<Rightarrow> nat list \<Rightarrow> field list \<Rightarrow> ('d world, unit) io" where
  "scanCreateAllReturning eg md db sqlText args ps returning =
     ioBind (queryContext eg db ''CreateAll'' (mdName md) sqlText args) (\<lambda>rows.
       scanRowsInto md returning (rsErr rows) ps (rsRows rows))"

definition chunkInsert :: "'d model \<Rightarrow> writeConfig \<Rightarrow> goVal assignment list list \<Rightarrow> goVal insertBuilder" where
  "chunkInsert md cfg rows =
     withConflict cfg (fold Values rows (Insert \<lparr>tblName = stName (mdTable md), tblAlias = []\<rparr>))"

text \<open>One turn of the loop: a batch of rows with their assignments.\<close>

definition insertChunk :: "'d engine \<Rightarrow> 'd model \<Rightarrow> DB \<Rightarrow> writeConfig \<Rightarrow> field list \<Rightarrow> (nat \<times> goVal assignment list) list \<Rightarrow> ('d world, unit) io" where
  "insertChunk eg md db cfg returning chunk =
     (let ps = map fst chunk; ib = chunkInsert md cfg (map snd chunk)
      in ioBind
           (if returning = [] then
              ioBind (sendExec eg db ''CreateAll'' (mdName md) (renderInsert (dbDialect db) ib)) (\<lambda>_. ioRet ())
            else if SupportsReturning (dbDialect db) then
              ioBind (ioRender (renderInsert (dbDialect db) (Returning (fieldCols returning) ib))) (\<lambda>(sqlText, args).
                scanCreateAllReturning eg md db sqlText args ps returning)
            else createAllWithoutReturning eg md db ib ps returning)
           (\<lambda>_. ioEach (fireAfterInsert md) ps))"

definition CreateAll :: "'d engine \<Rightarrow> 'd model \<Rightarrow> DB \<Rightarrow> (writeConfig \<Rightarrow> writeConfig) list \<Rightarrow> nat list \<Rightarrow> ('d world, unit) io" where
  "CreateAll eg md db opts ps =
     (if ps = [] then ioRet ()
      else
        (let t = mdTable md;
             cfg = fold (\<lambda>f c. f c) opts \<lparr>wcBatchSize = defaultCreateAllBatchSize, wcConflict = None\<rparr>;
             insertFields = filter (\<lambda>f. \<not> coAutoIncrement (fdOptions f)) (stFields t);
             returningFields = (if doNothing cfg then []
                                else filter (\<lambda>f. coAutoIncrement (fdOptions f)) (stFields t))
         in ioBind (ioEach (fireHook md BeforeInsert (hkBeforeInsert (stHooks t))) ps) (\<lambda>_ w.
              ioBind (ioLift (bindAll md (wHeap w) insertFields ps)) (\<lambda>allAssignments.
                ioEach (insertChunk eg md db cfg returningFields)
                  (chunks (batchSizeFor cfg (length insertFields)) (zip ps allAssignments))) w)))"

end
