(* ===== verification/PackKeyed.thy ===== *)
theory PackKeyed
  imports PackCreate
begin

text \<open>
  The operations of \<open>pack\<close> by primary key (\<open>keyed.go\<close>): \<open>ByID\<close>, \<open>Update\<close>, \<open>Save\<close>,
  \<open>Delete\<close>; and the transactions of a handle (\<open>tx.go\<close>): \<open>BeginTx\<close> on a connection or, inside
  a transaction, as a savepoint, \<open>Commit\<close>, \<open>Rollback\<close>, \<open>Tx\<close> with its recovery of panics, and
  \<open>PinnedConn\<close>.
\<close>

section \<open>By primary key\<close>

definition ByID :: "'d engine \<Rightarrow> 'd model \<Rightarrow> DB \<Rightarrow> goVal \<Rightarrow> ('d world, inst) io" where
  "ByID eg md db ident =
     ioBind (ioLift (pkPredicate md ident (stAlias (mdTable md)))) (\<lambda>p. First eg (QWhere p (Of md db)))"

definition UpdateRow :: "'d engine \<Rightarrow> 'd model \<Rightarrow> DB \<Rightarrow> nat \<Rightarrow> ('d world, unit) io" where
  "UpdateRow eg md db p =
     (let t = mdTable md; tbl = \<lparr>tblName = stName t, tblAlias = []\<rparr> in
      ioBind (fireHook md BeforeUpdate (hkBeforeUpdate (stHooks t)) p) (\<lambda>_ w.
        (let row = wHeap w p in
         ioBind (ioLift (writeAllAssignments md row)) (\<lambda>assignments.
         ioBind (ioLift (pkPredicate md (mdPK md row) [])) (\<lambda>pk.
         ioBind (sendExec eg db ''Update'' (mdName md)
                   (renderUpdate (dbDialect db) (UpdateWhere pk (UpdateSet assignments (Update tbl))))) (\<lambda>_.
           fireHook md AfterUpdate (hkAfterUpdate (stHooks t)) p)))) w))"

text \<open>\<open>Save\<close> compares the key with the zero value of its type.\<close>

definition Save :: "'d engine \<Rightarrow> 'd model \<Rightarrow> DB \<Rightarrow> nat \<Rightarrow> ('d world, unit) io" where
  "Save eg md db p = (\<lambda>w.
     if isZeroVal (mdPK md (wHeap w p)) then Create eg md db [] p w else UpdateRow eg md db p w)"

definition fireLocal :: "'d model \<Rightarrow> hookKind \<Rightarrow> bool \<Rightarrow> inst option \<Rightarrow> ('d world, inst option) io" where
  "fireLocal md k has row =
     (case row of
        None \<Rightarrow> ioRet None
      | Some r \<Rightarrow>
          if has then
            (case mdHook md k of
               None \<Rightarrow> ioRet (Some r)
             | Some h \<Rightarrow> ioMapErr (HookError (hookName k) (mdName md)) (ioBind (atLocal r h) (\<lambda>r'. ioRet (Some r'))))
          else ioRet (Some r))"

text \<open>\<open>errors.Is(err, ErrNoRows)\<close>, the package's own sentinel.\<close>

fun isPackNoRows :: "packError \<Rightarrow> bool" where
  "isPackNoRows ErrNoRows = True"
| "isPackNoRows (Violation k m op c t col e) = isPackNoRows e"
| "isPackNoRows (HookError h m e) = isPackNoRows e"
| "isPackNoRows (Wrapped s e) = isPackNoRows e"
| "isPackNoRows _ = False"

definition sendDelete :: "'d engine \<Rightarrow> 'd model \<Rightarrow> DB \<Rightarrow> goVal \<Rightarrow> inst option \<Rightarrow> ('d world, unit) io" where
  "sendDelete eg md db ident row =
     (let t = mdTable md; hk = stHooks t in
      ioBind (fireLocal md BeforeDelete (hkBeforeDelete hk) row) (\<lambda>row1.
      ioBind (ioLift (pkPredicate md ident [])) (\<lambda>pk.
      ioBind (sendExec eg db ''Delete'' (mdName md)
                (renderDelete (dbDialect db) (DeleteWhere pk (Delete \<lparr>tblName = stName t, tblAlias = []\<rparr>)))) (\<lambda>_.
      ioBind (fireLocal md AfterDelete (hkAfterDelete hk) row1) (\<lambda>_. ioRet ())))))"

definition DeleteByID :: "'d engine \<Rightarrow> 'd model \<Rightarrow> DB \<Rightarrow> goVal \<Rightarrow> ('d world, unit) io" where
  "DeleteByID eg md db ident =
     (let hk = stHooks (mdTable md) in
      if hkBeforeDelete hk \<or> hkAfterDelete hk then
        (\<lambda>w. case ByID eg md db ident w of
           (Ret row, w') \<Rightarrow> sendDelete eg md db ident (Some row) w'
         | (Fail e, w') \<Rightarrow> if isPackNoRows e then (Ret (), w') else (Fail e, w')
         | (Panic s, w') \<Rightarrow> (Panic s, w'))
      else sendDelete eg md db ident None)"

section \<open>Transactions\<close>

definition onSession :: "('d \<Rightarrow> (packError + 'a) \<times> 'd) \<Rightarrow> ('d world, 'a) io" where
  "onSession f = (\<lambda>w. case f (wDb w) of
     (Inl e, d) \<Rightarrow> (Fail e, w\<lparr>wDb := d\<rparr>) | (Inr x, d) \<Rightarrow> (Ret x, w\<lparr>wDb := d\<rparr>))"

text \<open>\<open>savepointSeq.Add(1)\<close> of the handle's connection.\<close>

definition nextSeq :: "connRef \<Rightarrow> ('d world, nat) io" where
  "nextSeq c = (\<lambda>w. (Ret (Suc (wSeq w c)), w\<lparr>wSeq := (wSeq w)(c := Suc (wSeq w c))\<rparr>))"

definition resetSeq :: "connRef \<Rightarrow> ('d world, unit) io" where
  "resetSeq c = (\<lambda>w. (Ret (), w\<lparr>wSeq := (wSeq w)(c := 0)\<rparr>))"

definition spName :: "nat \<Rightarrow> string" where
  "spName n = ''pack_sp'' @ itoa n"

definition BeginTx :: "'d engine \<Rightarrow> DB \<Rightarrow> ('d world, DB) io" where
  "BeginTx eg db =
     (if dbBeginner db then
        ioBind (onSession (egBegin eg (dbConn db))) (\<lambda>tx.
        ioBind (resetSeq (TxConn tx)) (\<lambda>_.
          ioRet (db\<lparr>dbConn := TxConn tx, dbBeginner := False, dbScope := Some (RootScope tx)\<rparr>)))
      else if \<not> SupportsSavepoints (dbDialect db) then
        ioFail (Message (''pack: BeginTx: already inside a transaction; '' @ Name (dbDialect db) @ '' does not support savepoints''))
      else
        ioBind (nextSeq (dbConn db)) (\<lambda>n.
          let nested = db\<lparr>dbScope := None\<rparr> in
          ioBind (execContext eg nested ''SAVEPOINT'' [] (''SAVEPOINT '' @ spName n) []) (\<lambda>_.
            ioRet (nested\<lparr>dbScope := Some (SavepointScope (spName n))\<rparr>))))"

definition CommitTx :: "'d engine \<Rightarrow> DB \<Rightarrow> ('d world, unit) io" where
  "CommitTx eg db =
     (case dbScope db of
        None \<Rightarrow> ioFail (Message ''pack: Commit: db is not a transaction returned by BeginTx'')
      | Some (RootScope tx) \<Rightarrow> onSession (egCommit eg tx)
      | Some (SavepointScope name) \<Rightarrow>
          ioBind (execContext eg db ''RELEASE'' [] (''RELEASE SAVEPOINT '' @ name) []) (\<lambda>_. ioRet ()))"

definition RollbackTx :: "'d engine \<Rightarrow> DB \<Rightarrow> ('d world, unit) io" where
  "RollbackTx eg db =
     (case dbScope db of
        None \<Rightarrow> ioFail (Message ''pack: Rollback: db is not a transaction returned by BeginTx'')
      | Some (RootScope tx) \<Rightarrow> onSession (egRollback eg tx)
      | Some (SavepointScope name) \<Rightarrow>
          ioBind (execContext eg db ''ROLLBACK TO SAVEPOINT'' [] (''ROLLBACK TO SAVEPOINT '' @ name) []) (\<lambda>_. ioRet ()))"

definition InTransaction :: "DB \<Rightarrow> bool" where
  "InTransaction db \<longleftrightarrow> dbScope db \<noteq> None"

text \<open>\<open>Tx\<close>: the deferred recovery rolls back and panics again; the result of a rollback is
  dropped.\<close>

definition Tx :: "'d engine \<Rightarrow> DB \<Rightarrow> (DB \<Rightarrow> ('d world, unit) io) \<Rightarrow> ('d world, unit) io" where
  "Tx eg db fn =
     ioBind (BeginTx eg db) (\<lambda>txDB w.
       case fn txDB w of
         (Ret _, w') \<Rightarrow>
           (case CommitTx eg txDB w' of
              (Panic s, w'') \<Rightarrow> (Panic s, snd (RollbackTx eg txDB w''))
            | r \<Rightarrow> r)
       | (Fail e, w') \<Rightarrow> (Fail e, snd (RollbackTx eg txDB w'))
       | (Panic s, w') \<Rightarrow> (Panic s, snd (RollbackTx eg txDB w')))"

text \<open>\<open>PinnedConn\<close>: only a handle on the pool can pin; the connection is given back in any
  case.\<close>

definition PinnedConn :: "'d engine \<Rightarrow> DB \<Rightarrow> (DB \<Rightarrow> ('d world, unit) io) \<Rightarrow> ('d world, unit) io" where
  "PinnedConn eg db fn =
     (if \<not> (dbBeginner db \<and> dbConn db = Pool) then ioFail ErrPinnedConnUnsupported
      else
        ioBind (onSession (egPin eg)) (\<lambda>c.
        ioBind (resetSeq (PinnedTo c)) (\<lambda>_ w.
          (let pinned = db\<lparr>dbConn := PinnedTo c, dbBeginner := True, dbScope := None\<rparr>;
               (r, w') = fn pinned w
           in (r, w'\<lparr>wDb := egUnpin eg c (wDb w')\<rparr>)))))"

end
