(* ===== verification/PackCreateClaims.thy ===== *)
theory PackCreateClaims
  imports PackKeyed PackSample SqlClaims
begin

text \<open>
  The properties of \<open>pack\<close>'s writes: what \<open>Create\<close> stores back into the caller's row, that
  \<open>CreateAll\<close> covers its rows by batches within the parameter limit, and where the two
  differ from each other and from their documentation.
\<close>

section \<open>Batches\<close>

lemma chunks_concat: "concat (chunks b xs) = xs"
  by (induction b xs rule: chunks.induct) simp_all

lemma chunks_small: "c \<in> set (chunks b xs) \<Longrightarrow> c \<noteq> [] \<and> length c \<le> max 1 b"
  by (induction b xs rule: chunks.induct) auto

lemma chunks_subset: "c \<in> set (chunks b xs) \<Longrightarrow> set c \<subseteq> set xs"
  by (metis chunks_concat set_concat UN_upper)

lemma batchSizeFor_pos: "1 \<le> batchSizeFor cfg n"
proof -
  have "1 \<le> nat (if b < 1 then 1 else b)" for b :: int by (simp add: Suc_le_eq)
  then show ?thesis unfolding batchSizeFor_def Let_def .
qed

lemma batchSizeFor_params:
  assumes "n \<le> 65535"
  shows "batchSizeFor cfg n * n \<le> 65535"
proof (cases "n = 0")
  case False
  have "1 \<le> maxPostgresParams div int n"
    using assms False zdiv_mono1 [of "int n" 65535 "int n"] by (simp add: maxPostgresParams_def)
  then have b: "int (batchSizeFor cfg n) \<le> maxPostgresParams div int n"
    using False by (auto simp: batchSizeFor_def Let_def)
  have "int (batchSizeFor cfg n) * int n \<le> maxPostgresParams div int n * int n"
    using b by (intro mult_right_mono) simp_all
  also have "\<dots> \<le> 65535"
    using False by (simp add: maxPostgresParams_def minus_mod_eq_div_mult [symmetric])
  finally show ?thesis by (metis of_nat_le_iff of_nat_mult of_nat_numeral)
qed simp

section \<open>Parameters of a batch\<close>

definition plainSet :: "goVal assignment \<Rightarrow> bool" where
  "plainSet a \<longleftrightarrow> (case a of SetVal c v \<Rightarrow> True | SetExpr c e vs \<Rightarrow> False)"

lemma setsArgs_plain: "list_all plainSet as \<Longrightarrow> length (setsArgs as) = length as"
  by (induction as) (auto simp: setsArgs_def plainSet_def split: assignment.splits)

lemma bindFields_plain:
  "bindFields md row fs = Inr as \<Longrightarrow> length as = length fs \<and> list_all plainSet as"
  by (induction fs arbitrary: as) (auto simp: rbind_eq_Inr plainSet_def)

lemma bindAll_plain:
  "bindAll md heap fs ps = Inr ass \<Longrightarrow> length ass = length ps
     \<and> (\<forall>as\<in>set ass. length as = length fs \<and> list_all plainSet as)"
  by (induction ps arbitrary: ass) (fastforce simp: rbind_eq_Inr dest: bindFields_plain split: if_splits)+

lemma insRows_fold_Values [simp]: "insRows (fold Values rows b) = insRows b @ rows"
  by (induction rows arbitrary: b) (simp_all add: Values_def)

lemma insRows_chunkInsert [simp]: "insRows (chunkInsert md cfg rows) = rows"
  by (simp add: chunkInsert_def withConflict_def OnConflictDoNothing_def OnConflictDoUpdate_def Insert_def
      split: option.split)

definition conflictSets :: "writeConfig \<Rightarrow> goVal assignment list" where
  "conflictSets cfg = (case wcConflict cfg of None \<Rightarrow> [] | Some s \<Rightarrow> if csDoNothing s then [] else csDoUpdate s)"

lemma fold_Values_conflict:
  "insConflictCols (fold Values rows b) = insConflictCols b"
  "insConflictDoNothing (fold Values rows b) = insConflictDoNothing b"
  "insConflictUpdate (fold Values rows b) = insConflictUpdate b"
  by (induction rows arbitrary: b) (simp_all add: Values_def)

lemma chunk_args:
  assumes "\<forall>as\<in>set rows. length as = n \<and> list_all plainSet as"
    and "renderInsert d ib = Inr (s, args)" and "ib = chunkInsert md cfg rows \<or> ib = Returning cols (chunkInsert md cfg rows)"
    and "conflictSets cfg = []"
  shows "length args = length rows * n"
proof -
  have ib: "insRows ib = rows" using assms(3) by (auto simp: Returning_def)
  have "conflictUpdates d ib = []"
    using assms(3,4)
    by (auto simp: conflictUpdates_def conflictSets_def Returning_def chunkInsert_def withConflict_def
        OnConflictDoNothing_def OnConflictDoUpdate_def Insert_def fold_Values_conflict split: option.splits if_splits)
  then have "args = rowsArgs ib"
    using assms(2) by (cases "insertErr d ib") (auto simp: renderInsert_tokens insertArgs_def setsArgs_def)
  moreover have "length (concat (map setsArgs rows)) = length rows * n"
    using assms(1) by (induction rows) (auto simp: setsArgs_plain)
  ultimately show ?thesis by (simp add: rowsArgs_def ib)
qed

section \<open>What a run keeps of the session\<close>

text \<open>An operation keeps a property of the session if its every statement does.\<close>

definition keeps :: "('d \<Rightarrow> bool) \<Rightarrow> ('d world, 'a) io \<Rightarrow> bool" where
  "keeps P m \<longleftrightarrow> (\<forall>w. P (wDb w) \<longrightarrow> P (wDb (snd (m w))))"

definition guarded :: "nat \<Rightarrow> 'd engine \<Rightarrow> ('d \<Rightarrow> bool) \<Rightarrow> bool" where
  "guarded n eg P \<longleftrightarrow> (\<forall>c s args d. length args \<le> n \<and> P d \<longrightarrow>
     P (snd (egExec eg c s args d)) \<and> P (snd (egQuery eg c s args d)))"

lemma keepsD: "keeps P m \<Longrightarrow> P (wDb w) \<Longrightarrow> P (wDb (snd (m w)))"
  by (simp add: keeps_def)

lemma keeps_ret [intro]: "keeps P (ioRet x)" "keeps P (ioFail e)"
  by (simp_all add: keeps_def io_simps)

lemma keeps_lift [intro]: "keeps P (ioLift r)" "keeps P (ioRender r')"
  by (cases r; auto; cases r'; auto) (cases r'; auto)

lemma keeps_bind [intro]:
  assumes "keeps P m" and "\<And>x. keeps P (f x)"
  shows "keeps P (ioBind m f)"
  unfolding keeps_def
proof (intro allI impI)
  fix w :: "'a world" assume "P (wDb w)"
  then have "P (wDb (snd (m w)))" by (rule keepsD [OF assms(1)])
  then show "P (wDb (snd (ioBind m f w)))"
    using assms(2) by (auto simp: ioBind_def keeps_def split: prod.split outcome.split)
qed

lemma keeps_each: "(\<And>x. x \<in> set xs \<Longrightarrow> keeps P (f x)) \<Longrightarrow> keeps P (ioEach f xs)"
  by (induction xs) auto

lemma keeps_lift_bind:
  "(\<And>x. r = Inr x \<Longrightarrow> keeps P (f x)) \<Longrightarrow> keeps P (ioBind (ioLift r) f)"
  "(\<And>x. r' = Inr x \<Longrightarrow> keeps P (g x)) \<Longrightarrow> keeps P (ioBind (ioRender r') g)"
  by (cases r; auto; cases r'; auto) (cases r'; auto)

lemma keeps_exec:
  assumes "guarded n eg P" and "length args \<le> n"
  shows "keeps P (execContext eg db op model s args)"
  unfolding keeps_def
proof (intro allI impI)
  fix w :: "'a world" assume w: "P (wDb w)"
  obtain r d' where e: "egExec eg (dbConn db) s args (wDb w) = (r, d')" by fastforce
  with assms w have "P d'" unfolding guarded_def by (metis snd_conv)
  then show "P (wDb (snd (execContext eg db op model s args w)))"
    using execContext_result [OF e, of op model] by auto
qed

lemma keeps_query:
  assumes "guarded n eg P" and "length args \<le> n"
  shows "keeps P (queryContext eg db op model s args)"
  unfolding keeps_def
proof (intro allI impI)
  fix w :: "'a world" assume w: "P (wDb w)"
  obtain r d' where e: "egQuery eg (dbConn db) s args (wDb w) = (r, d')" by fastforce
  with assms w have "P d'" unfolding guarded_def by (metis snd_conv)
  then show "P (wDb (snd (queryContext eg db op model s args w)))"
    using queryContext_result [OF e, of op model] by auto
qed

lemma keeps_assignId [intro]: "keeps P (assignId md op p i f)"
  by (auto simp: keeps_def assignId_def storeField_def Let_def split: sum.split)

lemma keeps_scanReturning [intro]: "keeps P (scanReturning md p fs vs)"
proof -
  have "keeps P (scanReturned md p fv)" for fv
    by (auto simp: keeps_def scanReturned_def storeField_def Let_def split: sum.split)
  then show ?thesis by (auto simp: scanReturning_def intro: keeps_each)
qed

lemma keeps_scanRowsInto [intro]: "keeps P (scanRowsInto md fs err ps rows)"
  by (induction md fs err ps rows rule: scanRowsInto.induct) auto

lemma keeps_noHook [intro]: "\<not> has \<Longrightarrow> keeps P (fireHook md k has p)"
  by (auto simp: fireHook_def)

lemma keeps_insertChunk:
  assumes "guarded 65535 eg P" and "\<not> hkAfterInsert (stHooks (mdTable md))"
    and rows: "\<forall>as\<in>set (map snd chunk). length as = n \<and> list_all plainSet as"
    and "length chunk * n \<le> 65535" and "conflictSets cfg = []"
  shows "keeps P (insertChunk eg md db cfg returning chunk)"
proof -
  let ?ib = "chunkInsert md cfg (map snd chunk)"
  have small: "length args \<le> 65535"
    if "renderInsert d ib = Inr (s, args)" "ib = ?ib \<or> ib = Returning cols ?ib" for d ib cols s args
    using chunk_args [OF rows that assms(5)] assms(4) by simp
  have exec: "keeps P (sendExec eg db op model (renderInsert (dbDialect db) ?ib))" for op model
    unfolding sendExec_def
    by (auto intro!: keeps_lift_bind keeps_exec [OF assms(1)] dest: small)
  have "keeps P (fireAfterInsert md p)" for p
    using assms(2) by (auto simp: fireAfterInsert_def)
  then show ?thesis
    unfolding insertChunk_def Let_def scanCreateAllReturning_def createAllWithoutReturning_def
    by (auto intro!: keeps_bind keeps_each exec keeps_lift_bind keeps_query [OF assms(1)] dest: small)
qed

lemma map_snd_zip_chunk:
  assumes "c \<in> set (chunks b (zip ps ass))"
  shows "set (map snd c) \<subseteq> set ass"
  using chunks_subset [OF assms] by (fastforce dest: set_zip_rightD)



text \<open>The conflict assignments of an upsert are not counted: a full batch of one-column rows with
  one updated column binds 65536 parameters.\<close>

lemma upsert_exceeds_params:
  assumes "rows = replicate 65535 [SetVal c v]" and "wcBatchSize cfg = 65535"
    and "wcConflict cfg = Some \<lparr>csCols = [c], csDoNothing = False, csDoUpdate = [SetVal c' v']\<rparr>"
    and "renderInsert d (chunkInsert md cfg rows) = Inr (s, args)"
  shows "length rows = batchSizeFor cfg 1 \<and> length args = 65536"
proof -
  let ?ib = "chunkInsert md cfg rows"
  have "args = insertArgs d ?ib"
    using assms(4) by (cases "insertErr d ?ib") (auto simp: renderInsert_tokens)
  moreover have "conflictUpdates d ?ib = [SetVal c' v']"
    using assms(3) by (simp add: conflictUpdates_def chunkInsert_def withConflict_def OnConflictDoUpdate_def)
  moreover have "length (concat (map setsArgs rows)) = 65535"
    unfolding assms(1) by (simp add: setsArgs_def length_concat)
  ultimately have "length args = 65536"
    by (simp add: insertArgs_def rowsArgs_def setsArgs_def)
  moreover have "length rows = batchSizeFor cfg 1"
    using assms(1,2) by (simp add: batchSizeFor_def Let_def maxPostgresParams_def)
  ultimately show ?thesis by simp
qed

section \<open>What Create stores back\<close>

text \<open>The row after the returned values were put into the returned fields, in order.\<close>

definition backfilled :: "'d model \<Rightarrow> (field \<Rightarrow> goVal \<Rightarrow> goVal) \<Rightarrow> (field \<times> goVal) list \<Rightarrow> inst \<Rightarrow> inst" where
  "backfilled md conv fvs row = fold (\<lambda>(f, v). setVal (returningDest md f) (conv f v)) fvs row"

lemma scan_backfills:
  assumes "\<forall>(f, v)\<in>set fvs. \<forall>old. mdAssign md f old v = Inr (conv f v)"
  shows "ioEach (scanReturned md p) fvs w
    = (Ret (), w\<lparr>wHeap := (wHeap w)(p := backfilled md conv fvs (wHeap w p))\<rparr>)"
  using assms
proof (induction fvs arbitrary: w)
  case Nil
  then show ?case by (simp add: backfilled_def io_simps)
next
  case (Cons fv fvs)
  obtain f v where fv: "fv = (f, v)" by (cases fv)
  let ?w = "storeField p (returningDest md f) (conv f v) w"
  have "scanReturned md p fv w = (Ret (), ?w)" using Cons.prems fv by (simp add: scanReturned_def Let_def)
  then have "ioEach (scanReturned md p) (fv # fvs) w = ioEach (scanReturned md p) fvs ?w" by (simp add: io_simps)
  also have "\<dots> = (Ret (), ?w\<lparr>wHeap := (wHeap ?w)(p := backfilled md conv fvs (wHeap ?w p))\<rparr>)"
    by (rule Cons.IH) (use Cons.prems in simp)
  also have "\<dots> = (Ret (), w\<lparr>wHeap := (wHeap w)(p := backfilled md conv (fv # fvs) (wHeap w p))\<rparr>)"
    by (simp add: storeField_def backfilled_def fv)
  finally show ?case .
qed

lemma createFields_returned:
  "createFields md row fs = Inr (as, ret) \<Longrightarrow>
     ret = filter (\<lambda>f. coAutoIncrement (fdOptions f) \<or> coHasDefault (fdOptions f) \<and> isZeroVal (instVal row (fdIndex f))) fs
     \<and> map (\<lambda>a. case a of SetVal c v \<Rightarrow> c | SetExpr c e vs \<Rightarrow> c) as
       = map (\<lambda>f. Col (fdColumn f)) (filter (\<lambda>f. \<not> (coAutoIncrement (fdOptions f)
            \<or> coHasDefault (fdOptions f) \<and> isZeroVal (instVal row (fdIndex f)))) fs)"
  by (induction fs arbitrary: as ret) (auto simp: rbind_eq_Inr Let_def split: if_splits)



section \<open>Where Create and CreateAll differ\<close>

text \<open>An auto-increment field is never inserted, also when the caller set it: the database's
  value replaces the caller's. The documentation of Create speaks of fields left at zero.\<close>

lemma explicit_id_replaced:
  assumes "createFields md row fs = Inr (as, ret)" and "f \<in> set fs" and "coAutoIncrement (fdOptions f)"
  shows "f \<in> set ret"
  using createFields_returned [OF assms(1)] assms(2,3) by simp

text \<open>CreateAll inserts the zero value where Create leaves the column to its default, and never
  reads a default back.\<close>

lemma create_all_ignores_defaults:
  "createFields userModel (user 0 20 0) userFields = Inr ([SetVal (Col ''age'') (int64 20)], [hd userFields, userFields ! 2])"
  "bindFields userModel (user 0 20 0) (filter (\<lambda>f. \<not> coAutoIncrement (fdOptions f)) userFields)
     = Inr [SetVal (Col ''age'') (int64 20), SetVal (Col ''score'') (int64 0)]"
  by (simp_all add: sample_defs noOptions_def user_def int64_def bindableValue_def isJson_def)

text \<open>A returned json column is scanned straight into its Go field: \<open>json.Unmarshal\<close>, which
  every other scan of such a column goes through, is not called.\<close>

lemma returned_json_not_unmarshalled:
  assumes "isJson f" and "mdAssign md f (instVal (wHeap w p) (returningDest md f)) v = Inl e"
  shows "scanReturned md p (f, v) w = (Fail e, w)"
  using assms by (simp add: scanReturned_def Let_def)

end
