(* ===== verification/PackTx.thy ===== *)
theory PackTx
  imports PackKeyed PackSample
begin

text \<open>
  What \<open>Tx\<close> promises (\<open>tx.go\<close>): a body of statements, error handling, panics and nested
  \<open>Tx\<close> calls, run on savepoints of one connection, computes what nested all-or-nothing
  transactions on the contents compute. The database is a parameter; what the code relies on
  of it (savepoints nest and restore, a transaction's end decides what stays) is stated as
  \<open>savepointLaws\<close> and \<open>rootLaws\<close>, and a concrete database shows that they can hold.
\<close>

section \<open>Bodies of transactions\<close>

datatype txBody =
    Done
  | Exec string "goVal list"
  | Seq txBody txBody
  | Nested txBody
  | OnError txBody txBody
  | OnPanic txBody txBody
  | Raise packError
  | PanicWith string

definition isTxCommand :: "string \<Rightarrow> bool" where
  "isTxCommand s \<longleftrightarrow> hasPrefix s ''SAVEPOINT '' \<or> hasPrefix s ''RELEASE SAVEPOINT ''
     \<or> hasPrefix s ''ROLLBACK TO SAVEPOINT ''"

fun noCommands :: "txBody \<Rightarrow> bool" where
  "noCommands Done = True"
| "noCommands (Exec s args) = (\<not> isTxCommand s)"
| "noCommands (Seq a b) = (noCommands a \<and> noCommands b)"
| "noCommands (Nested b) = noCommands b"
| "noCommands (OnError a b) = (noCommands a \<and> noCommands b)"
| "noCommands (OnPanic a b) = (noCommands a \<and> noCommands b)"
| "noCommands (Raise e) = True"
| "noCommands (PanicWith s) = True"

definition ioCatch :: "('w, 'a) io \<Rightarrow> ('w, 'a) io \<Rightarrow> ('w, 'a) io" where
  "ioCatch m h = (\<lambda>w. case m w of (Fail e, w') \<Rightarrow> h w' | (Ret x, w') \<Rightarrow> (Ret x, w') | (Panic s, w') \<Rightarrow> (Panic s, w'))"

definition ioRecover :: "('w, 'a) io \<Rightarrow> ('w, 'a) io \<Rightarrow> ('w, 'a) io" where
  "ioRecover m h = (\<lambda>w. case m w of (Panic s, w') \<Rightarrow> h w' | (Ret x, w') \<Rightarrow> (Ret x, w') | (Fail e, w') \<Rightarrow> (Fail e, w'))"

fun runBody :: "'d engine \<Rightarrow> txBody \<Rightarrow> DB \<Rightarrow> ('d world, unit) io" where
  "runBody eg Done db = ioRet ()"
| "runBody eg (Exec s args) db = ioBind (execContext eg db ''Exec'' [] s args) (\<lambda>_. ioRet ())"
| "runBody eg (Seq a b) db = ioBind (runBody eg a db) (\<lambda>_. runBody eg b db)"
| "runBody eg (Nested b) db = Tx eg db (runBody eg b)"
| "runBody eg (OnError a b) db = ioCatch (runBody eg a db) (runBody eg b db)"
| "runBody eg (OnPanic a b) db = ioRecover (runBody eg a db) (runBody eg b db)"
| "runBody eg (Raise e) db = ioFail e"
| "runBody eg (PanicWith s) db = (\<lambda>w. (Panic s, w))"

section \<open>The abstract semantics\<close>

text \<open>What a database is to a transaction: the effect of a statement on the contents, and when
  opening or releasing a savepoint fails (PostgreSQL refuses both after a failed statement).\<close>

record 'c txSpec =
  tsEff :: "string \<Rightarrow> goVal list \<Rightarrow> 'c \<Rightarrow> packError option \<times> 'c"
  tsSave :: "'c \<Rightarrow> packError option"
  tsRelease :: "'c \<Rightarrow> packError option"

fun meaning :: "'c txSpec \<Rightarrow> (string \<Rightarrow> packError \<Rightarrow> packError) \<Rightarrow> txBody \<Rightarrow> 'c \<Rightarrow> unit outcome \<times> 'c" where
  "meaning ts cl Done c = (Ret (), c)"
| "meaning ts cl (Exec s args) c =
     (case tsEff ts s args c of (None, c') \<Rightarrow> (Ret (), c') | (Some e, c') \<Rightarrow> (Fail (cl ''Exec'' e), c'))"
| "meaning ts cl (Seq a b) c =
     (case meaning ts cl a c of (Ret _, c') \<Rightarrow> meaning ts cl b c' | r \<Rightarrow> r)"
| "meaning ts cl (Nested b) c =
     (case tsSave ts c of
        Some e \<Rightarrow> (Fail (cl ''SAVEPOINT'' e), c)
      | None \<Rightarrow>
          (case meaning ts cl b c of
             (Ret _, c') \<Rightarrow>
               (case tsRelease ts c' of None \<Rightarrow> (Ret (), c') | Some e \<Rightarrow> (Fail (cl ''RELEASE'' e), c'))
           | (r, _) \<Rightarrow> (r, c)))"
| "meaning ts cl (OnError a b) c =
     (case meaning ts cl a c of (Fail e, c') \<Rightarrow> meaning ts cl b c' | r \<Rightarrow> r)"
| "meaning ts cl (OnPanic a b) c =
     (case meaning ts cl a c of (Panic s, c') \<Rightarrow> meaning ts cl b c' | r \<Rightarrow> r)"
| "meaning ts cl (Raise e) c = (Fail e, c)"
| "meaning ts cl (PanicWith s) c = (Panic s, c)"

section \<open>What is relied on\<close>

text \<open>A view of the session: the contents as the open transaction sees them, its savepoints
  (newest first, with the contents they keep), and the committed contents.\<close>

record ('d, 'c) txView =
  tvContent :: "'d \<Rightarrow> 'c"
  tvSaves :: "'d \<Rightarrow> (string \<times> 'c) list"
  tvCommitted :: "'d \<Rightarrow> 'c"

definition sameAs :: "('d, 'c) txView \<Rightarrow> 'd \<Rightarrow> 'd \<Rightarrow> bool" where
  "sameAs v d d' \<longleftrightarrow> tvContent v d' = tvContent v d \<and> tvSaves v d' = tvSaves v d"

definition statementLaw :: "'c txSpec \<Rightarrow> ('d, 'c) txView \<Rightarrow> 'd engine \<Rightarrow> nat \<Rightarrow> bool" where
  "statementLaw ts v eg t \<longleftrightarrow>
     (\<forall>s args d r d'. egExec eg (TxConn t) s args d = (r, d') \<longrightarrow>
        tvCommitted v d' = tvCommitted v d
        \<and> (\<not> isTxCommand s \<longrightarrow> tvSaves v d' = tvSaves v d
             \<and> tsEff ts s args (tvContent v d) = (case r of Inl e \<Rightarrow> Some e | Inr _ \<Rightarrow> None, tvContent v d')))"

definition savepointLaw :: "'c txSpec \<Rightarrow> ('d, 'c) txView \<Rightarrow> 'd engine \<Rightarrow> nat \<Rightarrow> bool" where
  "savepointLaw ts v eg t \<longleftrightarrow>
     (\<forall>n d r d'. egExec eg (TxConn t) (''SAVEPOINT '' @ n) [] d = (r, d') \<longrightarrow>
          (case tsSave ts (tvContent v d) of
             Some e \<Rightarrow> r = Inl e \<and> sameAs v d d'
           | None \<Rightarrow> (\<exists>res. r = Inr res) \<and> tvContent v d' = tvContent v d
               \<and> tvSaves v d' = (n, tvContent v d) # tvSaves v d))"

definition rollbackLaw :: "('d, 'c) txView \<Rightarrow> 'd engine \<Rightarrow> nat \<Rightarrow> bool" where
  "rollbackLaw v eg t \<longleftrightarrow>
     (\<forall>n d r d' pre c rest. egExec eg (TxConn t) (''ROLLBACK TO SAVEPOINT '' @ n) [] d = (r, d') \<longrightarrow>
        tvSaves v d = pre @ (n, c) # rest \<longrightarrow> n \<notin> fst ` set pre \<longrightarrow>
          tvContent v d' = c \<and> tvSaves v d' = (n, c) # rest)"

definition releaseLaw :: "'c txSpec \<Rightarrow> ('d, 'c) txView \<Rightarrow> 'd engine \<Rightarrow> nat \<Rightarrow> bool" where
  "releaseLaw ts v eg t \<longleftrightarrow>
     (\<forall>n d r d' pre c rest. egExec eg (TxConn t) (''RELEASE SAVEPOINT '' @ n) [] d = (r, d') \<longrightarrow>
        tvSaves v d = pre @ (n, c) # rest \<longrightarrow> n \<notin> fst ` set pre \<longrightarrow>
          (case tsRelease ts (tvContent v d) of
             Some e \<Rightarrow> r = Inl e \<and> sameAs v d d'
           | None \<Rightarrow> (\<exists>res. r = Inr res) \<and> tvContent v d' = tvContent v d \<and> tvSaves v d' = rest))"

definition savepointLaws :: "'c txSpec \<Rightarrow> ('d, 'c) txView \<Rightarrow> 'd engine \<Rightarrow> nat \<Rightarrow> bool" where
  "savepointLaws ts v eg t \<longleftrightarrow>
     statementLaw ts v eg t \<and> savepointLaw ts v eg t \<and> rollbackLaw v eg t \<and> releaseLaw ts v eg t"

definition rootLaws :: "'c txSpec \<Rightarrow> ('d, 'c) txView \<Rightarrow> 'd engine \<Rightarrow> bool" where
  "rootLaws ts v eg \<longleftrightarrow>
     (\<forall>c d r d'. egBegin eg c d = (r, d') \<longrightarrow> tvCommitted v d' = tvCommitted v d
        \<and> (\<forall>t. r = Inr t \<longrightarrow> tvContent v d' = tvCommitted v d \<and> tvSaves v d' = [] \<and> savepointLaws ts v eg t))
     \<and> (\<forall>t d r d'. egCommit eg t d = (r, d') \<longrightarrow>
          tvCommitted v d' = (case r of Inr _ \<Rightarrow> tvContent v d | Inl _ \<Rightarrow> tvCommitted v d))
     \<and> (\<forall>t d r d'. egRollback eg t d = (r, d') \<longrightarrow> tvCommitted v d' = tvCommitted v d)"

section \<open>Savepoint names\<close>

lemma spName_inject [simp]: "spName m = spName n \<longleftrightarrow> m = n"
  by (simp add: spName_def)

lemma not_command [simp]:
  "isTxCommand (''SAVEPOINT '' @ n)" "isTxCommand (''RELEASE SAVEPOINT '' @ n)"
  "isTxCommand (''ROLLBACK TO SAVEPOINT '' @ n)"
  by (simp_all only: isTxCommand_def hasPrefix_append simp_thms)

definition named :: "nat \<Rightarrow> nat \<Rightarrow> (string \<times> 'c) list \<Rightarrow> bool" where
  "named m n saves \<longleftrightarrow> (\<forall>(s, c) \<in> set saves. \<exists>k. m < k \<and> k \<le> n \<and> s = spName k)"

lemma named_Nil [simp]: "named m n []"
  by (simp add: named_def)

lemma named_append [simp]: "named m n (xs @ ys) \<longleftrightarrow> named m n xs \<and> named m n ys"
  by (auto simp: named_def)

lemma named_Cons [simp]:
  "named m n ((s, c) # xs) \<longleftrightarrow> (\<exists>k. m < k \<and> k \<le> n \<and> s = spName k) \<and> named m n xs"
  by (auto simp: named_def)

lemma named_mono: "named m n xs \<Longrightarrow> m' \<le> m \<Longrightarrow> n \<le> n' \<Longrightarrow> named m' n' xs"
  by (fastforce simp: named_def)

lemma named_fresh: "named m n xs \<Longrightarrow> k \<le> m \<or> n < k \<Longrightarrow> spName k \<notin> fst ` set xs"
  by (fastforce simp: named_def)

section \<open>The refinement\<close>

definition inTx :: "DB \<Rightarrow> nat \<Rightarrow> bool" where
  "inTx db t \<longleftrightarrow> dbConn db = TxConn t \<and> \<not> dbBeginner db \<and> SupportsSavepoints (dbDialect db)"

text \<open>The classification of a driver's error is the same everywhere in a transaction.\<close>

definition classAs :: "DB \<Rightarrow> string \<Rightarrow> packError \<Rightarrow> packError" where
  "classAs db op e = classifyError (dbErrDecoder db) op [] e"

text \<open>A run refines the meaning: the same outcome and contents, the older savepoints as they
  were, and above them only savepoints numbered since.\<close>

definition refinesTo :: "('d, 'c) txView \<Rightarrow> nat \<Rightarrow> 'd world \<Rightarrow> unit outcome \<times> 'c \<Rightarrow> unit outcome \<times> 'd world \<Rightarrow> bool" where
  "refinesTo v t w m rw \<longleftrightarrow>
     (let (r, w') = rw; k = wSeq w (TxConn t); k' = wSeq w' (TxConn t) in
      m = (r, tvContent v (wDb w')) \<and> k \<le> k' \<and> tvCommitted v (wDb w') = tvCommitted v (wDb w)
      \<and> (\<exists>extra. tvSaves v (wDb w') = extra @ tvSaves v (wDb w) \<and> named k k' extra))"

lemma refinesToI:
  assumes "rw = (r, w')" and "m = (r, tvContent v (wDb w'))" and "wSeq w (TxConn t) \<le> wSeq w' (TxConn t)"
    and "tvCommitted v (wDb w') = tvCommitted v (wDb w)"
    and "tvSaves v (wDb w') = extra @ tvSaves v (wDb w)"
    and "named (wSeq w (TxConn t)) (wSeq w' (TxConn t)) extra"
  shows "refinesTo v t w m rw"
  using assms by (auto simp: refinesTo_def Let_def)

lemma refinesToE:
  assumes "refinesTo v t w m rw"
  obtains r w' extra where "rw = (r, w')" and "m = (r, tvContent v (wDb w'))"
    and "wSeq w (TxConn t) \<le> wSeq w' (TxConn t)" and "tvCommitted v (wDb w') = tvCommitted v (wDb w)"
    and "tvSaves v (wDb w') = extra @ tvSaves v (wDb w)"
    and "named (wSeq w (TxConn t)) (wSeq w' (TxConn t)) extra"
  using assms by (auto simp: refinesTo_def Let_def split: prod.splits)

lemma refinesTo_trans:
  assumes "refinesTo v t w (r1, c1) (r, w1)" and "refinesTo v t w1 m rw"
  shows "refinesTo v t w m rw"
proof -
  from assms(1) obtain e1 where 1: "wSeq w (TxConn t) \<le> wSeq w1 (TxConn t)"
      "tvCommitted v (wDb w1) = tvCommitted v (wDb w)"
      "tvSaves v (wDb w1) = e1 @ tvSaves v (wDb w)" "named (wSeq w (TxConn t)) (wSeq w1 (TxConn t)) e1"
    by (elim refinesToE) auto
  from assms(2) obtain r w' e2 where 2: "rw = (r, w')" "m = (r, tvContent v (wDb w'))"
      "wSeq w1 (TxConn t) \<le> wSeq w' (TxConn t)" "tvCommitted v (wDb w') = tvCommitted v (wDb w1)"
      "tvSaves v (wDb w') = e2 @ tvSaves v (wDb w1)" "named (wSeq w1 (TxConn t)) (wSeq w' (TxConn t)) e2"
    by (elim refinesToE) auto
  show ?thesis
  proof (rule refinesToI [OF 2(1,2)])
    show "tvSaves v (wDb w') = (e2 @ e1) @ tvSaves v (wDb w)" using 1 2 by simp
    show "named (wSeq w (TxConn t)) (wSeq w' (TxConn t)) (e2 @ e1)"
      using 1 2 by (auto intro: named_mono)
  qed (use 1 2 in auto)
qed

text \<open>Statements of a handle inside the transaction.\<close>

lemma exec_in_tx:
  assumes "inTx db t"
  obtains r d' tr where "egExec eg (TxConn t) s args (wDb w) = (r, d')"
    and "execContext eg (db\<lparr>dbScope := x\<rparr>) op [] s args w
      = (case r of Inl e \<Rightarrow> Fail (classAs db op e) | Inr res \<Rightarrow> Ret res, w\<lparr>wDb := d', wTrace := wTrace w @ tr\<rparr>)"
proof -
  let ?db = "db\<lparr>dbScope := x\<rparr>"
  obtain r d' where e: "egExec eg (TxConn t) s args (wDb w) = (r, d')" by fastforce
  with assms have "egExec eg (dbConn ?db) s args (wDb w) = (r, d')" by (simp add: inTx_def)
  from execContext_result [OF this, of op "[]"] obtain tr where
    "execContext eg ?db op [] s args w
      = (case r of Inl e \<Rightarrow> Fail (classifyError (dbErrDecoder ?db) op [] e) | Inr res \<Rightarrow> Ret res,
         w\<lparr>wDb := d', wTrace := wTrace w @ tr\<rparr>)" ..
  moreover have "classifyError (dbErrDecoder ?db) op [] = classAs db op"
    by (simp add: classAs_def fun_eq_iff)
  ultimately show ?thesis using that [OF e] by (simp only:)
qed

lemma law_committed:
  assumes "savepointLaws ts v eg t" and "egExec eg (TxConn t) s args d = (r, d')"
  shows "tvCommitted v d' = tvCommitted v d"
  using assms unfolding savepointLaws_def statementLaw_def by blast

lemma law_statement:
  assumes "savepointLaws ts v eg t" and "egExec eg (TxConn t) s args d = (r, d')" and "\<not> isTxCommand s"
  shows "tvSaves v d' = tvSaves v d
      \<and> tsEff ts s args (tvContent v d) = (case r of Inl e \<Rightarrow> Some e | Inr _ \<Rightarrow> None, tvContent v d')"
  using assms unfolding savepointLaws_def statementLaw_def by blast

lemma law_savepoint:
  assumes "savepointLaws ts v eg t" and "egExec eg (TxConn t) (''SAVEPOINT '' @ n) [] d = (r, d')"
  shows "case tsSave ts (tvContent v d) of
             Some e \<Rightarrow> r = Inl e \<and> sameAs v d d'
           | None \<Rightarrow> (\<exists>res. r = Inr res) \<and> tvContent v d' = tvContent v d
               \<and> tvSaves v d' = (n, tvContent v d) # tvSaves v d"
  using assms unfolding savepointLaws_def savepointLaw_def by blast

lemma law_rollback:
  assumes "savepointLaws ts v eg t" and "egExec eg (TxConn t) (''ROLLBACK TO SAVEPOINT '' @ n) [] d = (r, d')"
    and "tvSaves v d = pre @ (n, c) # rest" and "n \<notin> fst ` set pre"
  shows "tvContent v d' = c \<and> tvSaves v d' = (n, c) # rest"
  using assms unfolding savepointLaws_def rollbackLaw_def by blast

lemma law_release:
  assumes "savepointLaws ts v eg t" and "egExec eg (TxConn t) (''RELEASE SAVEPOINT '' @ n) [] d = (r, d')"
    and "tvSaves v d = pre @ (n, c) # rest" and "n \<notin> fst ` set pre"
  shows "case tsRelease ts (tvContent v d) of
             Some e \<Rightarrow> r = Inl e \<and> sameAs v d d'
           | None \<Rightarrow> (\<exists>res. r = Inr res) \<and> tvContent v d' = tvContent v d \<and> tvSaves v d' = rest"
  using assms unfolding savepointLaws_def releaseLaw_def by blast

definition nestedDB :: "DB \<Rightarrow> nat \<Rightarrow> DB" where
  "nestedDB db n = db\<lparr>dbScope := Some (SavepointScope (spName n))\<rparr>"

lemma inTx_nested [simp]: "inTx (nestedDB db n) t = inTx db t" "inTx (db\<lparr>dbScope := x\<rparr>) t = inTx db t"
  by (simp_all add: inTx_def nestedDB_def)

lemma classAs_nested [simp]: "classAs (nestedDB db n) = classAs db" "classAs (db\<lparr>dbScope := x\<rparr>) = classAs db"
  by (simp_all add: classAs_def nestedDB_def fun_eq_iff)

lemma begin_nested:
  assumes "inTx db t"
  obtains r d' tr where "egExec eg (TxConn t) (''SAVEPOINT '' @ spName (Suc (wSeq w (TxConn t)))) [] (wDb w) = (r, d')"
    and "BeginTx eg db w
      = (case r of Inl e \<Rightarrow> Fail (classAs db ''SAVEPOINT'' e) | Inr _ \<Rightarrow> Ret (nestedDB db (Suc (wSeq w (TxConn t)))),
         w\<lparr>wSeq := (wSeq w)(TxConn t := Suc (wSeq w (TxConn t))), wDb := d', wTrace := wTrace w @ tr\<rparr>)"
proof -
  let ?n = "Suc (wSeq w (TxConn t))"
  let ?w = "w\<lparr>wSeq := (wSeq w)(TxConn t := ?n)\<rparr>"
  let ?db = "db\<lparr>dbScope := None\<rparr>"
  let ?s = "''SAVEPOINT '' @ spName ?n"
  have b: "BeginTx eg db w = ioBind (execContext eg ?db ''SAVEPOINT'' [] ?s []) (\<lambda>_. ioRet (nestedDB db ?n)) ?w"
    using assms by (simp add: BeginTx_def inTx_def nextSeq_def io_simps nestedDB_def Let_def)
  obtain r d' tr where e: "egExec eg (TxConn t) ?s [] (wDb ?w) = (r, d')"
    and x: "execContext eg ?db ''SAVEPOINT'' [] ?s [] ?w
      = (case r of Inl e \<Rightarrow> Fail (classAs db ''SAVEPOINT'' e) | Inr res \<Rightarrow> Ret res, ?w\<lparr>wDb := d', wTrace := wTrace ?w @ tr\<rparr>)"
    by (rule exec_in_tx [OF assms])
  have "BeginTx eg db w
      = (case r of Inl e \<Rightarrow> Fail (classAs db ''SAVEPOINT'' e) | Inr _ \<Rightarrow> Ret (nestedDB db ?n),
         ?w\<lparr>wDb := d', wTrace := wTrace w @ tr\<rparr>)"
    unfolding b using x by (cases r) (simp_all add: io_simps)
  then show ?thesis using that e by (simp del: append.simps)
qed

lemma commit_nested:
  assumes "inTx db t"
  obtains r d' tr where "egExec eg (TxConn t) (''RELEASE SAVEPOINT '' @ spName n) [] (wDb w) = (r, d')"
    and "CommitTx eg (nestedDB db n) w
      = (case r of Inl e \<Rightarrow> Fail (classAs db ''RELEASE'' e) | Inr _ \<Rightarrow> Ret (), w\<lparr>wDb := d', wTrace := wTrace w @ tr\<rparr>)"
proof -
  let ?s = "''RELEASE SAVEPOINT '' @ spName n"
  obtain r d' tr where e: "egExec eg (TxConn t) ?s [] (wDb w) = (r, d')"
    and x: "execContext eg (nestedDB db n) ''RELEASE'' [] ?s [] w
      = (case r of Inl e \<Rightarrow> Fail (classAs db ''RELEASE'' e) | Inr res \<Rightarrow> Ret res, w\<lparr>wDb := d', wTrace := wTrace w @ tr\<rparr>)"
    unfolding nestedDB_def by (rule exec_in_tx [OF assms])
  have "CommitTx eg (nestedDB db n) w
      = (case r of Inl e \<Rightarrow> Fail (classAs db ''RELEASE'' e) | Inr _ \<Rightarrow> Ret (), w\<lparr>wDb := d', wTrace := wTrace w @ tr\<rparr>)"
    using x by (cases r) (simp_all add: CommitTx_def nestedDB_def io_simps)
  with e show ?thesis by (rule that)
qed

lemma rollback_nested:
  assumes "inTx db t"
  obtains r d' tr where "egExec eg (TxConn t) (''ROLLBACK TO SAVEPOINT '' @ spName n) [] (wDb w) = (r, d')"
    and "snd (RollbackTx eg (nestedDB db n) w) = w\<lparr>wDb := d', wTrace := wTrace w @ tr\<rparr>"
proof -
  let ?s = "''ROLLBACK TO SAVEPOINT '' @ spName n"
  obtain r d' tr where e: "egExec eg (TxConn t) ?s [] (wDb w) = (r, d')"
    and x: "execContext eg (nestedDB db n) ''ROLLBACK TO SAVEPOINT'' [] ?s [] w
      = (case r of Inl e \<Rightarrow> Fail (classAs db ''ROLLBACK TO SAVEPOINT'' e) | Inr res \<Rightarrow> Ret res, w\<lparr>wDb := d', wTrace := wTrace w @ tr\<rparr>)"
    unfolding nestedDB_def by (rule exec_in_tx [OF assms])
  have "snd (RollbackTx eg (nestedDB db n) w) = w\<lparr>wDb := d', wTrace := wTrace w @ tr\<rparr>"
    using x by (cases r) (simp_all add: RollbackTx_def nestedDB_def io_simps)
  with e show ?thesis by (rule that)
qed

text \<open>The end of a nested transaction, after its body.\<close>

definition endTx :: "'d engine \<Rightarrow> DB \<Rightarrow> unit outcome \<times> 'd world \<Rightarrow> unit outcome \<times> 'd world" where
  "endTx eg txDB rw =
     (case rw of
        (Ret _, w') \<Rightarrow>
          (case CommitTx eg txDB w' of
             (Panic s, w'') \<Rightarrow> (Panic s, snd (RollbackTx eg txDB w''))
           | r \<Rightarrow> r)
      | (Fail e, w') \<Rightarrow> (Fail e, snd (RollbackTx eg txDB w'))
      | (Panic s, w') \<Rightarrow> (Panic s, snd (RollbackTx eg txDB w')))"

lemma Tx_endTx: "Tx eg db fn = ioBind (BeginTx eg db) (\<lambda>txDB w. endTx eg txDB (fn txDB w))"
  by (simp add: Tx_def endTx_def)

lemma end_nested:
  assumes laws: "savepointLaws ts v eg t" and "inTx db t"
    and k: "k = Suc (wSeq w (TxConn t))" and w1: "wSeq w1 (TxConn t) = k" "tvCommitted v (wDb w1) = tvCommitted v (wDb w)"
      "tvSaves v (wDb w1) = (spName k, c) # tvSaves v (wDb w)"
    and body: "refinesTo v t w1 m rw"
  shows "refinesTo v t w
     (case m of (Ret _, c') \<Rightarrow> (case tsRelease ts c' of None \<Rightarrow> (Ret (), c') | Some e \<Rightarrow> (Fail (classAs db ''RELEASE'' e), c'))
      | (r, _) \<Rightarrow> (r, c)) (endTx eg (nestedDB db k) rw)"
proof -
  from body w1 obtain r w2 extra where b: "rw = (r, w2)" "m = (r, tvContent v (wDb w2))"
      "k \<le> wSeq w2 (TxConn t)" "tvCommitted v (wDb w2) = tvCommitted v (wDb w)"
      "tvSaves v (wDb w2) = extra @ (spName k, c) # tvSaves v (wDb w)"
      "named k (wSeq w2 (TxConn t)) extra"
    by (elim refinesToE) auto
  have fresh: "spName k \<notin> fst ` set extra" using named_fresh [OF b(6), of k] by simp
  have kept: "named (wSeq w (TxConn t)) (wSeq w2 (TxConn t)) (extra @ [(spName k, c)])"
    using b(3,6) k by (auto intro: named_mono)
  have one: "named (wSeq w (TxConn t)) (wSeq w2 (TxConn t)) [(spName k, c)]"
    using b(3) k by auto
  have undo: "refinesTo v t w (x, c) (x, snd (RollbackTx eg (nestedDB db k) w2))" for x :: "unit outcome"
  proof -
    obtain r' d' tr where e: "egExec eg (TxConn t) (''ROLLBACK TO SAVEPOINT '' @ spName k) [] (wDb w2) = (r', d')"
      "snd (RollbackTx eg (nestedDB db k) w2) = w2\<lparr>wDb := d', wTrace := wTrace w2 @ tr\<rparr>"
      by (rule rollback_nested [OF assms(2)])
    from law_rollback [OF laws e(1) b(5) fresh] law_committed [OF laws e(1)] b(3,4) one e(2) k
    show ?thesis by (intro refinesToI [where extra = "[(spName k, c)]" and w' = "w2\<lparr>wDb := d', wTrace := wTrace w2 @ tr\<rparr>"]) auto
  qed
  show ?thesis
  proof (cases r)
    case (Ret u)
    obtain r' d' tr where e: "egExec eg (TxConn t) (''RELEASE SAVEPOINT '' @ spName k) [] (wDb w2) = (r', d')"
      "CommitTx eg (nestedDB db k) w2
       = (case r' of Inl e \<Rightarrow> Fail (classAs db ''RELEASE'' e) | Inr _ \<Rightarrow> Ret (), w2\<lparr>wDb := d', wTrace := wTrace w2 @ tr\<rparr>)"
      by (rule commit_nested [OF assms(2)])
    note rel = law_release [OF laws e(1) b(5) fresh] law_committed [OF laws e(1)]
    show ?thesis
    proof (cases "tsRelease ts (tvContent v (wDb w2))")
      case None
      with rel obtain res where "r' = Inr res" "tvContent v d' = tvContent v (wDb w2)"
          "tvSaves v d' = tvSaves v (wDb w)" by auto
      with Ret None b e(2) rel(2) k show ?thesis
        by (intro refinesToI [where extra = "[]" and w' = "w2\<lparr>wDb := d', wTrace := wTrace w2 @ tr\<rparr>"]) (auto simp: endTx_def)
    next
      case (Some x)
      with rel have "r' = Inl x" "tvContent v d' = tvContent v (wDb w2)"
          "tvSaves v d' = tvSaves v (wDb w2)" by (auto simp: sameAs_def)
      with Ret Some b e(2) rel(2) k kept show ?thesis
        by (intro refinesToI [where extra = "extra @ [(spName k, c)]" and w' = "w2\<lparr>wDb := d', wTrace := wTrace w2 @ tr\<rparr>"]) (auto simp: endTx_def)
    qed
  next
    case (Fail e)
    with undo b show ?thesis by (simp add: endTx_def)
  next
    case (Panic s)
    with undo b show ?thesis by (simp add: endTx_def)
  qed
qed

text \<open>A body run in a transaction computes its meaning, at any depth of nesting.\<close>

lemma runBody_refines:
  assumes "savepointLaws ts v eg t" and "inTx db t" and "noCommands b"
  shows "refinesTo v t w (meaning ts (classAs db) b (tvContent v (wDb w))) (runBody eg b db w)"
  using assms(2,3)
proof (induction b arbitrary: db w)
  case (Exec s args)
  obtain r d' tr where e: "egExec eg (TxConn t) s args (wDb w) = (r, d')"
    and x: "execContext eg (db\<lparr>dbScope := dbScope db\<rparr>) ''Exec'' [] s args w
      = (case r of Inl e \<Rightarrow> Fail (classAs db ''Exec'' e) | Inr res \<Rightarrow> Ret res, w\<lparr>wDb := d', wTrace := wTrace w @ tr\<rparr>)"
    by (rule exec_in_tx [OF Exec.prems(1)])
  from Exec.prems(2) have "\<not> isTxCommand s" by simp
  from law_statement [OF assms(1) e this] law_committed [OF assms(1) e] x show ?case
    by (cases r) (auto simp: refinesTo_def Let_def io_simps)
next
  case (Seq a b)
  then have a: "refinesTo v t w (meaning ts (classAs db) a (tvContent v (wDb w))) (runBody eg a db w)" by simp
  from a obtain r w1 where r: "runBody eg a db w = (r, w1)"
    "meaning ts (classAs db) a (tvContent v (wDb w)) = (r, tvContent v (wDb w1))"
    by (rule refinesToE)
  from Seq have "refinesTo v t w1 (meaning ts (classAs db) b (tvContent v (wDb w1))) (runBody eg b db w1)" by simp
  with a r show ?case by (cases r) (auto simp: io_simps intro: refinesTo_trans)
next
  case (Nested b)
  let ?k = "Suc (wSeq w (TxConn t))" and ?c = "tvContent v (wDb w)"
  obtain r d' tr where e: "egExec eg (TxConn t) (''SAVEPOINT '' @ spName ?k) [] (wDb w) = (r, d')"
    and x: "BeginTx eg db w
      = (case r of Inl e \<Rightarrow> Fail (classAs db ''SAVEPOINT'' e) | Inr _ \<Rightarrow> Ret (nestedDB db ?k),
         w\<lparr>wSeq := (wSeq w)(TxConn t := ?k), wDb := d', wTrace := wTrace w @ tr\<rparr>)"
    by (rule begin_nested [OF Nested.prems(1)])
  let ?w = "w\<lparr>wSeq := (wSeq w)(TxConn t := ?k), wDb := d', wTrace := wTrace w @ tr\<rparr>"
  note sp = law_savepoint [OF assms(1) e] law_committed [OF assms(1) e]
  show ?case
  proof (cases "tsSave ts ?c")
    case (Some y)
    with sp have "r = Inl y" "tvContent v d' = ?c" "tvSaves v d' = tvSaves v (wDb w)"
      by (auto simp: sameAs_def)
    with Some x sp(2) show ?thesis by (simp add: refinesTo_def Let_def Tx_endTx io_simps)
  next
    case None
    with sp obtain res where r: "r = Inr res" "tvContent v d' = ?c"
        "tvSaves v d' = (spName ?k, ?c) # tvSaves v (wDb w)" by auto
    have "refinesTo v t ?w (meaning ts (classAs db) b ?c) (runBody eg b (nestedDB db ?k) ?w)"
      using Nested.IH [of "nestedDB db ?k" ?w] Nested.prems r(2) by simp
    from end_nested [where w = w and c = ?c, OF assms(1) Nested.prems(1) refl _ _ _ this] r sp(2) x None
    show ?thesis by (simp add: Tx_endTx io_simps)
  qed
next
  case (OnError a b)
  then have a: "refinesTo v t w (meaning ts (classAs db) a (tvContent v (wDb w))) (runBody eg a db w)" by simp
  from a obtain r w1 where r: "runBody eg a db w = (r, w1)"
    "meaning ts (classAs db) a (tvContent v (wDb w)) = (r, tvContent v (wDb w1))"
    by (rule refinesToE)
  from OnError have "refinesTo v t w1 (meaning ts (classAs db) b (tvContent v (wDb w1))) (runBody eg b db w1)" by simp
  with a r show ?case by (cases r) (auto simp: ioCatch_def intro: refinesTo_trans)
next
  case (OnPanic a b)
  then have a: "refinesTo v t w (meaning ts (classAs db) a (tvContent v (wDb w))) (runBody eg a db w)" by simp
  from a obtain r w1 where r: "runBody eg a db w = (r, w1)"
    "meaning ts (classAs db) a (tvContent v (wDb w)) = (r, tvContent v (wDb w1))"
    by (rule refinesToE)
  from OnPanic have "refinesTo v t w1 (meaning ts (classAs db) b (tvContent v (wDb w1))) (runBody eg b db w1)" by simp
  with a r show ?case by (cases r) (auto simp: ioRecover_def intro: refinesTo_trans)
qed (auto simp: io_simps intro!: refinesToI)

section \<open>All or nothing\<close>

lemma law_begin:
  assumes "rootLaws ts v eg" and "egBegin eg c d = (Inr t, d')"
  shows "tvCommitted v d' = tvCommitted v d \<and> tvContent v d' = tvCommitted v d \<and> tvSaves v d' = []
    \<and> savepointLaws ts v eg t"
  using assms unfolding rootLaws_def by blast

lemma law_commit:
  assumes "rootLaws ts v eg" and "egCommit eg t d = (r, d')"
  shows "tvCommitted v d' = (case r of Inr _ \<Rightarrow> tvContent v d | Inl _ \<Rightarrow> tvCommitted v d)"
  using assms unfolding rootLaws_def by blast

lemma law_root_rollback:
  assumes "rootLaws ts v eg" and "egRollback eg t d = (r, d')"
  shows "tvCommitted v d' = tvCommitted v d"
  using assms unfolding rootLaws_def by blast

lemma root_rollback_committed:
  assumes "rootLaws ts v eg" and "dbScope db = Some (RootScope t)"
  shows "tvCommitted v (wDb (snd (RollbackTx eg db w))) = tvCommitted v (wDb w)"
proof -
  obtain r d' where e: "egRollback eg t (wDb w) = (r, d')" by fastforce
  from law_root_rollback [OF assms(1) e] show ?thesis
    using assms(2) e by (cases r) (simp_all add: RollbackTx_def onSession_def)
qed

text \<open>C25: A transaction on a connection commits what its body means, or nothing. The body may
  hold statements, handled errors, panics and nested transactions to any depth, which run as
  savepoints of one connection: they compute nested all-or-nothing transactions, where a
  nested one that ends in an error or a panic undoes its own changes and no others.\<close>

theorem tx_all_or_nothing:
  fixes w :: "'d world"
  assumes "rootLaws ts v eg" and "dbBeginner db" and "SupportsSavepoints (dbDialect db)" and "noCommands b"
    and begun: "egBegin eg (dbConn db) (wDb w) = (Inr t, d1)"
    and run: "Tx eg db (runBody eg b) w = (r, w')"
  shows "case meaning ts (classAs db) b (tvCommitted v (wDb w)) of
      (Ret _, c) \<Rightarrow> (r = Ret () \<and> tvCommitted v (wDb w') = c)
        \<or> (\<exists>e d d'. egCommit eg t d = (Inl e, d') \<and> r = Fail e \<and> tvCommitted v (wDb w') = tvCommitted v (wDb w))
    | (Fail e, _) \<Rightarrow> r = Fail e \<and> tvCommitted v (wDb w') = tvCommitted v (wDb w)
    | (Panic s, _) \<Rightarrow> r = Panic s \<and> tvCommitted v (wDb w') = tvCommitted v (wDb w)"
proof -
  let ?db = "db\<lparr>dbConn := TxConn t, dbBeginner := False, dbScope := Some (RootScope t)\<rparr>"
  let ?w = "w\<lparr>wDb := d1, wSeq := (wSeq w)(TxConn t := 0)\<rparr>"
  note l = law_begin [OF assms(1) begun]
  have db: "inTx ?db t" "classAs ?db = classAs db"
    using assms(3) by (simp_all add: inTx_def classAs_def fun_eq_iff)
  have "BeginTx eg db w = (Ret ?db, ?w)"
    using assms(2) begun by (simp add: BeginTx_def onSession_def resetSeq_def io_simps)
  then have tx: "(r, w') = endTx eg ?db (runBody eg b ?db ?w)"
    using run by (simp add: Tx_endTx io_simps)
  have "refinesTo v t ?w (meaning ts (classAs db) b (tvCommitted v (wDb w))) (runBody eg b ?db ?w)"
    using runBody_refines [of ts v eg t ?db b ?w] l db assms(4) by simp
  then obtain r1 w1 where b: "runBody eg b ?db ?w = (r1, w1)"
      "meaning ts (classAs db) b (tvCommitted v (wDb w)) = (r1, tvContent v (wDb w1))"
      "tvCommitted v (wDb w1) = tvCommitted v (wDb w)"
    using l by (elim refinesToE) auto
  have rb: "tvCommitted v (wDb (snd (RollbackTx eg ?db w1))) = tvCommitted v (wDb w)"
    using root_rollback_committed [OF assms(1), of ?db t w1] b(3) by simp
  show ?thesis
  proof (cases r1)
    case (Ret u)
    obtain rc d2 where c: "egCommit eg t (wDb w1) = (rc, d2)" by fastforce
    have "(r, w') = (case rc of Inl e \<Rightarrow> Fail e | Inr _ \<Rightarrow> Ret (), w1\<lparr>wDb := d2\<rparr>)"
      using tx b(1) Ret c by (cases rc) (simp_all add: endTx_def CommitTx_def onSession_def)
    with law_commit [OF assms(1) c] b(2,3) Ret c show ?thesis by (cases rc) auto
  next
    case (Fail e)
    with tx b rb show ?thesis by (simp add: endTx_def)
  next
    case (Panic p)
    with tx b rb show ?thesis by (simp add: endTx_def)
  qed
qed

section \<open>A database with savepoints\<close>

text \<open>The contents are the statements applied; the statement \<open>bad\<close> fails. The laws hold of it.\<close>

type_synonym memDB = "string list \<times> string list \<times> (string \<times> string list) list"

definition memEff :: "string \<Rightarrow> goVal list \<Rightarrow> string list \<Rightarrow> packError option \<times> string list" where
  "memEff s args c = (if s = ''bad'' then (Some (DriverError s), c) else (None, c @ [s]))"

definition memExec :: "string \<Rightarrow> memDB \<Rightarrow> (packError + execResult) \<times> memDB" where
  "memExec s = (\<lambda>(com, c, sv).
     if hasPrefix s ''SAVEPOINT '' then (Inr (affected 0 0), (com, c, (trimPrefix s ''SAVEPOINT '', c) # sv))
     else if hasPrefix s ''ROLLBACK TO SAVEPOINT '' then
       (case dropWhile (\<lambda>x. fst x \<noteq> trimPrefix s ''ROLLBACK TO SAVEPOINT '') sv of
          [] \<Rightarrow> (Inl (DriverError s), (com, c, sv)) | (n, c') # rest \<Rightarrow> (Inr (affected 0 0), (com, c', (n, c') # rest)))
     else if hasPrefix s ''RELEASE SAVEPOINT '' then
       (case dropWhile (\<lambda>x. fst x \<noteq> trimPrefix s ''RELEASE SAVEPOINT '') sv of
          [] \<Rightarrow> (Inl (DriverError s), (com, c, sv)) | _ # rest \<Rightarrow> (Inr (affected 0 0), (com, c, rest)))
     else (case memEff s [] c of (None, c') \<Rightarrow> (Inr (affected 1 0), (com, c', sv)) | (Some e, c') \<Rightarrow> (Inl e, (com, c', sv))))"

definition memEngine :: "memDB engine" where
  "memEngine = \<lparr>egQuery = (\<lambda>c s args d. (Inl (DriverError s), d)), egExec = (\<lambda>c s args d. memExec s d),
     egBegin = (\<lambda>c (com, _, _). (Inr 0, (com, com, []))), egCommit = (\<lambda>t (com, c, sv). (Inr (), (c, c, []))),
     egRollback = (\<lambda>t (com, c, sv). (Inr (), (com, com, []))), egPin = (\<lambda>d. (Inr 0, d)), egUnpin = (\<lambda>c d. d)\<rparr>"

definition spView :: "(memDB, string list) txView" where
  "spView = \<lparr>tvContent = (\<lambda>(com, c, sv). c), tvSaves = (\<lambda>(com, c, sv). sv), tvCommitted = (\<lambda>(com, c, sv). com)\<rparr>"

definition memSpec :: "string list txSpec" where
  "memSpec = \<lparr>tsEff = memEff, tsSave = (\<lambda>c. None), tsRelease = (\<lambda>c. None)\<rparr>"

lemma hasPrefix_append_other:
  "\<not> hasPrefix (''ROLLBACK TO SAVEPOINT '' @ n) ''SAVEPOINT ''"
  "\<not> hasPrefix (''RELEASE SAVEPOINT '' @ n) ''SAVEPOINT ''"
  "\<not> hasPrefix (''RELEASE SAVEPOINT '' @ n) ''ROLLBACK TO SAVEPOINT ''"
  by (simp_all add: hasPrefix_def)

lemma memExec_commands:
  "memExec (''SAVEPOINT '' @ n) (com, c, sv) = (Inr (affected 0 0), (com, c, (n, c) # sv))"
  "memExec (''ROLLBACK TO SAVEPOINT '' @ n) (com, c, sv) =
     (case dropWhile (\<lambda>x. fst x \<noteq> n) sv of
        [] \<Rightarrow> (Inl (DriverError (''ROLLBACK TO SAVEPOINT '' @ n)), (com, c, sv))
      | (m, c') # rest \<Rightarrow> (Inr (affected 0 0), (com, c', (m, c') # rest)))"
  "memExec (''RELEASE SAVEPOINT '' @ n) (com, c, sv) =
     (case dropWhile (\<lambda>x. fst x \<noteq> n) sv of
        [] \<Rightarrow> (Inl (DriverError (''RELEASE SAVEPOINT '' @ n)), (com, c, sv))
      | _ # rest \<Rightarrow> (Inr (affected 0 0), (com, c, rest)))"
  by (simp_all only: memExec_def prod.case hasPrefix_append trimPrefix_append hasPrefix_append_other if_True if_False)

lemma memExec_committed: "memExec s (com, c, sv) = (r, (com', c', sv')) \<Longrightarrow> com' = com"
  by (auto simp: memExec_def memEff_def split: if_splits list.splits)

lemma memExec_statement:
  assumes "\<not> isTxCommand s" and "memExec s (com, c, sv) = (r, (com', c', sv'))"
  shows "sv' = sv \<and> memEff s args c = (case r of Inl e \<Rightarrow> Some e | Inr _ \<Rightarrow> None, c')"
  using assms by (auto simp: memExec_def memEff_def isTxCommand_def split: if_splits)

lemma dropWhile_named: "n \<notin> fst ` set pre \<Longrightarrow> dropWhile (\<lambda>x. fst x \<noteq> n) (pre @ (n, c) # rest) = (n, c) # rest"
  by (induction pre) auto

lemma mem_laws: "savepointLaws memSpec spView memEngine t"
  unfolding savepointLaws_def
proof (intro conjI)
  show "statementLaw memSpec spView memEngine t"
    unfolding statementLaw_def
    using memExec_committed memExec_statement
    by (fastforce simp: memSpec_def spView_def memEngine_def)
  show "savepointLaw memSpec spView memEngine t"
    by (auto simp: savepointLaw_def memSpec_def spView_def memEngine_def memExec_commands simp del: append.simps)
  show "rollbackLaw spView memEngine t"
    by (auto simp: rollbackLaw_def spView_def memEngine_def memExec_commands dropWhile_named simp del: append.simps)
  show "releaseLaw memSpec spView memEngine t"
    by (auto simp: releaseLaw_def memSpec_def spView_def memEngine_def memExec_commands dropWhile_named simp del: append.simps)
qed

lemma mem_root: "rootLaws memSpec spView memEngine"
  using mem_laws by (auto simp: rootLaws_def spView_def memEngine_def)

definition sampleBody :: txBody where
  "sampleBody = Seq (Exec ''a'' []) (Seq (OnError (Nested (Seq (Exec ''b'' []) (Exec ''bad'' []))) (Exec ''c'' []))
     (Nested (Exec ''d'' [])))"

theorem tx_all_or_nothing_witness:
  "tvCommitted spView (wDb (snd (Tx memEngine pgDB (runBody memEngine sampleBody) (emptyWorld ([''x''], [], [])))))
     = [''x'', ''a'', ''c'', ''d'']"
proof -
  let ?w = "emptyWorld ([''x''], [], []) :: memDB world"
  have m: "meaning memSpec (classAs pgDB) sampleBody (tvCommitted spView (wDb ?w)) = (Ret (), [''x'', ''a'', ''c'', ''d''])"
    by (simp add: sampleBody_def memSpec_def memEff_def spView_def emptyWorld_def)
  have "dbBeginner pgDB" "SupportsSavepoints (dbDialect pgDB)" "noCommands sampleBody"
    by (simp_all add: pgDB_def Open_def Postgres_def sampleBody_def isTxCommand_def hasPrefix_def)
  moreover have "egBegin memEngine (dbConn pgDB) (wDb ?w) = (Inr 0, ([''x''], [''x''], []))"
    by (simp add: memEngine_def emptyWorld_def)
  ultimately have "case meaning memSpec (classAs pgDB) sampleBody (tvCommitted spView (wDb ?w)) of
      (Ret _, c) \<Rightarrow> (fst (Tx memEngine pgDB (runBody memEngine sampleBody) ?w) = Ret ()
          \<and> tvCommitted spView (wDb (snd (Tx memEngine pgDB (runBody memEngine sampleBody) ?w))) = c)
        \<or> (\<exists>e d d'. egCommit memEngine 0 d = (Inl e, d') \<and> fst (Tx memEngine pgDB (runBody memEngine sampleBody) ?w) = Fail e
          \<and> tvCommitted spView (wDb (snd (Tx memEngine pgDB (runBody memEngine sampleBody) ?w))) = tvCommitted spView (wDb ?w))
    | (Fail e, _) \<Rightarrow> fst (Tx memEngine pgDB (runBody memEngine sampleBody) ?w) = Fail e
        \<and> tvCommitted spView (wDb (snd (Tx memEngine pgDB (runBody memEngine sampleBody) ?w))) = tvCommitted spView (wDb ?w)
    | (Panic s, _) \<Rightarrow> fst (Tx memEngine pgDB (runBody memEngine sampleBody) ?w) = Panic s
        \<and> tvCommitted spView (wDb (snd (Tx memEngine pgDB (runBody memEngine sampleBody) ?w))) = tvCommitted spView (wDb ?w)"
    by (rule tx_all_or_nothing [OF mem_root _ _ _ _ prod.collapse [symmetric]])
  then show ?thesis unfolding m by (auto simp: memEngine_def split: prod.splits)
qed

text \<open>A nested transaction whose release fails is not rolled back. Where a failed statement puts
  the transaction into a failed state that only a rollback ends (PostgreSQL), a nested body that
  swallows the error makes the release fail, and although the nested call reports the error, the
  outer transaction cannot go on; had the body returned its error, it could.\<close>

definition pgSpec :: "(bool \<times> string list) txSpec" where
  "pgSpec = \<lparr>tsEff = (\<lambda>s args (failed, c). if failed then (Some (DriverError ''25P02''), (True, c))
       else if s = ''bad'' then (Some (DriverError s), (True, c)) else (None, (False, c @ [s]))),
     tsSave = (\<lambda>(failed, c). if failed then Some (DriverError ''25P02'') else None),
     tsRelease = (\<lambda>(failed, c). if failed then Some (DriverError ''25P02'') else None)\<rparr>"

lemma failed_release_not_rolled_back:
  "fst (meaning pgSpec cl (OnError (Nested (OnError (Exec ''bad'' []) Done)) (Exec ''c'' [])) (False, []))
     = Fail (cl ''Exec'' (DriverError ''25P02''))"
  "meaning pgSpec cl (OnError (Nested (Exec ''bad'' [])) (Exec ''c'' [])) (False, []) = (Ret (), (False, [''c'']))"
  by (simp_all add: pgSpec_def)

end
