(* ===== verification/Preload.thy ===== *)
theory Preload
  imports PackSample SqlStatements
begin

text \<open>
  Batched loading of relations (\<open>pack/preload.go\<close>, \<open>rel.go\<close>): one query for the related rows
  of all parents, distributed over the parents by key. Proved: every parent gets what a lookup
  of its own key in the table of children gives, also with nested preloads.

  Go map keys are compared as \<open>any\<close>: equal dynamic types and equal values, pointers by
  address. The children a parent gets are shared by pointer between parents of one key; rows
  are values here.
\<close>

section \<open>The code\<close>

record 'd preloadSpec =
  psWhere :: "goVal predicate"
  psNested :: "'d preloadRunner list"

definition newPreloadSpec :: "'d preloadSpec" where
  "newPreloadSpec = \<lparr>psWhere = PredNone, psNested = []\<rparr>"

definition whereOption :: "goVal predicate \<Rightarrow> 'd preloadSpec \<Rightarrow> 'd preloadSpec" where
  "whereOption p s = s\<lparr>psWhere := andJoin (psWhere s) p\<rparr>"

definition nestedOption :: "'d preloadRunner \<Rightarrow> 'd preloadSpec \<Rightarrow> 'd preloadSpec" where
  "nestedOption run s = s\<lparr>psNested := psNested s @ [run]\<rparr>"

definition resolveRefColumn :: "relation \<Rightarrow> 'd model \<Rightarrow> 'd model \<Rightarrow> packError + string" where
  "resolveRefColumn rel owner target =
     (if rlRef rel \<noteq> [] then Inr (rlRef rel)
      else
        (let md = (if rlKind rel = BelongsTo then target else owner); t = mdTable md in
         if stPKIsComposite t \<or> length (stPK t) \<noteq> 1 then
           Inl (Message (''pack: relation '' @ rlGoName rel @ '': cannot default ref against a composite or missing primary key on ''
                 @ mdName md @ ''; set ref: explicitly''))
         else Inr (fdColumn (hd (stPK t)))))"

text \<open>Equality of map keys, and the dynamic types that cannot be keys (inserting one panics).\<close>

fun hasPtr :: "goVal \<Rightarrow> bool" where
  "hasPtr (VPtr (Some v)) = True"
| "hasPtr (VStruct vs) = list_ex hasPtr vs"
| "hasPtr _ = False"

definition keyEq :: "goVal \<Rightarrow> goVal \<Rightarrow> bool" where
  "keyEq a b \<longleftrightarrow> a = b \<and> \<not> hasPtr a"

fun hashable :: "goVal \<Rightarrow> bool" where
  "hashable (VBytes b) = False"
| "hashable (VSlice s) = False"
| "hashable (VStruct vs) = list_all hashable vs"
| "hashable _ = True"

text \<open>The distinct nonzero keys of the parents, in the order first seen.\<close>

fun collectKeys :: "nat list \<Rightarrow> inst list \<Rightarrow> goVal list \<Rightarrow> goVal list" where
  "collectKeys path [] keys = keys"
| "collectKeys path (p # ps) keys =
     (let v = instVal p path in
      if isZeroVal v \<or> list_ex (keyEq v) keys then collectKeys path ps keys
      else collectKeys path ps (keys @ [v]))"

definition preloadSelect :: "'d model \<Rightarrow> string \<Rightarrow> goVal list \<Rightarrow> goVal predicate \<Rightarrow> goVal selectBuilder" where
  "preloadSelect target childWhereColumn keys specWhere =
     (let alias = stAlias (mdTable target);
          inKeys = In (QualifiedCol alias childWhereColumn) keys;
          cond = (if IsZero specWhere then inKeys else And [inKeys, specWhere]);
          cols = map (\<lambda>f. QualifiedCol alias (fdColumn f)) (stFields (mdTable target))
      in Where cond (Columns cols (Select (modelTable target))))"

text \<open>The last loop: a parent with a key gets the children of that key, if there are any.\<close>

definition assignKids :: "relation \<Rightarrow> nat list \<Rightarrow> nat list \<Rightarrow> inst list \<Rightarrow> inst \<Rightarrow> inst" where
  "assignKids rel batchPath childPath children p =
     (let v = instVal p batchPath;
          kids = filter (\<lambda>c. keyEq (instVal c childPath) v) children
      in if isZeroVal v \<or> kids = [] then p
         else setRel (rlIndex rel) (if rlSlice rel then kids else [hd kids]) p)"

definition noField :: "relation \<Rightarrow> string \<Rightarrow> 'd model \<Rightarrow> packError" where
  "noField rel column md = Message (''pack: relation '' @ rlGoName rel @ '': no field mapped for column '' @ column @ '' on '' @ mdName md)"

definition runPreload :: "'d engine \<Rightarrow> 'd model \<Rightarrow> 'd model \<Rightarrow> relation \<Rightarrow> 'd preloadSpec \<Rightarrow> 'd preloadRunner" where
  "runPreload eg owner target rel spec db parents =
     (if parents = [] then ioRet []
      else
        ioBind (ioLift (resolveRefColumn rel owner target)) (\<lambda>refCol.
        let (batchColumn, childWhereColumn) =
              (if rlKind rel = BelongsTo then (rlFK rel, refCol) else (refCol, rlFK rel)) in
        ioBind (ioLift (case stByColumn (mdTable owner) batchColumn of
                          None \<Rightarrow> Inl (noField rel batchColumn owner) | Some f \<Rightarrow> Inr f)) (\<lambda>batchField.
        ioBind (ioLift (case stByColumn (mdTable target) childWhereColumn of
                          None \<Rightarrow> Inl (noField rel childWhereColumn target) | Some f \<Rightarrow> Inr f)) (\<lambda>childField.
        let path = fdIndex batchField; keys = collectKeys path parents [] in
        if \<not> list_all (\<lambda>p. isZeroVal (instVal p path) \<or> hashable (instVal p path)) parents then
          (\<lambda>w. (Panic ''runtime error: hash of unhashable type'', w))
        else if keys = [] then ioRet parents
        else
          ioBind (ioRender (renderSelect (dbDialect db) (preloadSelect target childWhereColumn keys (psWhere spec))))
            (\<lambda>(sqlText, args).
          ioBind (queryContext eg db ''Preload'' (mdName target) sqlText args) (\<lambda>rows.
          ioBind (scanAllRows target rows) (\<lambda>scanned.
          ioBind (runPreloads (psNested spec) db scanned) (\<lambda>children.
            if \<not> list_all (\<lambda>c. hashable (instVal c (fdIndex childField))) children then
              (\<lambda>w. (Panic ''runtime error: hash of unhashable type'', w))
            else ioRet (map (assignKids rel path (fdIndex childField) children) parents)))))))))"

definition QPreload :: "'d engine \<Rightarrow> 'd model \<Rightarrow> relation \<Rightarrow> ('d preloadSpec \<Rightarrow> 'd preloadSpec) list \<Rightarrow> 'd query \<Rightarrow> 'd query" where
  "QPreload eg target rel opts q =
     (let spec = fold (\<lambda>f s. f s) opts newPreloadSpec
      in q\<lparr>qPreloads := appendFresh (qPreloads q) [runPreload eg (qModel q) target rel spec]\<rparr>)"

definition PreloadOption :: "'d engine \<Rightarrow> 'd model \<Rightarrow> 'd model \<Rightarrow> relation \<Rightarrow> ('d preloadSpec \<Rightarrow> 'd preloadSpec) list \<Rightarrow> 'd preloadSpec \<Rightarrow> 'd preloadSpec" where
  "PreloadOption eg owner target rel opts =
     nestedOption (runPreload eg owner target rel (fold (\<lambda>f s. f s) opts newPreloadSpec))"

section \<open>What one parent should get\<close>

text \<open>A runner loads \<open>f\<close>: from a database in state \<open>d\<close> it maps \<open>f\<close> over the parents and leaves
  the database as it is.\<close>

definition loads :: "'d preloadRunner \<Rightarrow> DB \<Rightarrow> 'd \<Rightarrow> (inst \<Rightarrow> bool) \<Rightarrow> (inst \<Rightarrow> inst) \<Rightarrow> bool" where
  "loads run db d ok f \<longleftrightarrow> (\<forall>cs w. list_all ok cs \<and> wDb w = d \<longrightarrow>
     (\<exists>w'. run db cs w = (Ret (map f cs), w') \<and> wDb w' = d))"

definition keepsFields :: "(inst \<Rightarrow> inst) \<Rightarrow> bool" where
  "keepsFields f \<longleftrightarrow> (\<forall>c. instVal (f c) = instVal c)"

text \<open>The database answers a preload query from a table of children: the rows whose column
  equals, in the database, one of the keys, and that satisfy the extra condition.\<close>

definition answersFrom :: "'d engine \<Rightarrow> DB \<Rightarrow> 'd model \<Rightarrow> field \<Rightarrow> goVal predicate \<Rightarrow> 'd \<Rightarrow> (goVal \<Rightarrow> goVal \<Rightarrow> bool) \<Rightarrow> inst list \<Rightarrow> bool" where
  "answersFrom eg db target childField specWhere d dbEq table \<longleftrightarrow>
     (\<forall>keys. keys \<noteq> [] \<longrightarrow> (\<exists>s args rows.
        renderSelect (dbDialect db) (preloadSelect target (fdColumn childField) keys specWhere) = Inr (s, args)
        \<and> egQuery eg (dbConn db) s args d = (Inr rows, d)
        \<and> scanAll target (NewPlan (mdTable target) (rsColumns rows)) (rsRows rows) (rsErr rows)
          = Inr (filter (\<lambda>c. list_ex (dbEq (instVal c (fdIndex childField))) keys) table)))"

lemma runPreloads_load:
  assumes "list_all (\<lambda>(run, f). loads run db d ok f \<and> keepsFields f) rfs"
    and "\<And>c. ok c \<Longrightarrow> \<forall>c'. instVal c' = instVal c \<longrightarrow> ok c'"
  shows "list_all ok cs \<Longrightarrow> wDb w = d \<Longrightarrow>
    \<exists>w'. runPreloads (map fst rfs) db cs w = (Ret (map (fold snd rfs) cs), w') \<and> wDb w' = d"
  using assms(1)
proof (induction rfs arbitrary: cs w)
  case Nil
  then show ?case by (simp add: io_simps)
next
  case (Cons rf rfs)
  obtain run f where rf: "rf = (run, f)" by (cases rf)
  from Cons.prems rf obtain w1 where 1: "run db cs w = (Ret (map f cs), w1)" "wDb w1 = d"
    by (auto simp: loads_def)
  have "list_all ok (map f cs)"
    using Cons.prems(1,3) rf assms(2) by (force simp: list_all_iff keepsFields_def)
  from Cons.IH [OF this 1(2)] Cons.prems(3) obtain w' where
    "runPreloads (map fst rfs) db (map f cs) w1 = (Ret (map (fold snd rfs) (map f cs)), w')" "wDb w' = d"
    by auto
  with 1 show ?case by (auto simp: rf io_simps)
qed

lemma collectKeys_mono: "set keys \<subseteq> set (collectKeys path ps keys)"
proof (induction ps arbitrary: keys)
  case (Cons p ps)
  then show ?case using Cons.IH [of keys] Cons.IH [of "keys @ [instVal p path]"] by (auto simp: Let_def)
qed simp

lemma collectKeys_covers:
  assumes "p \<in> set ps" and "\<not> isZeroVal (instVal p path)"
  shows "instVal p path \<in> set (collectKeys path ps keys)"
  using assms(1)
proof (induction ps arbitrary: keys)
  case (Cons q ps)
  show ?case
  proof (cases "p \<in> set ps")
    case True
    then show ?thesis using Cons.IH by (simp add: Let_def)
  next
    case False
    with Cons.prems have q: "p = q" by simp
    show ?thesis
    proof (cases "list_ex (keyEq (instVal q path)) keys")
      case True
      then have "instVal q path \<in> set keys" by (auto simp: list_ex_iff keyEq_def)
      then show ?thesis using True q assms(2) collectKeys_mono [of keys path ps] by (auto simp: Let_def)
    next
      case False
      then show ?thesis
        using q assms(2) collectKeys_mono [of "keys @ [instVal q path]" path ps] by (auto simp: Let_def)
    qed
  qed
qed simp

text \<open>Fetching the children of all keys loses none of the children of one.\<close>

lemma assignKids_fetched:
  assumes "keepsFields nf" and refl: "\<And>v. dbEq v v" and "p \<in> set ps" and "keys = collectKeys path ps []"
  shows "assignKids rel path cpath (map nf (filter (\<lambda>c. list_ex (dbEq (instVal c cpath)) keys) table)) p
    = assignKids rel path cpath (map nf table) p"
proof (cases "isZeroVal (instVal p path)")
  case True
  then show ?thesis by (simp add: assignKids_def)
next
  case False
  have "instVal p path \<in> set keys"
    unfolding assms(4) using assms(3) False by (rule collectKeys_covers)
  then have "keyEq (instVal c cpath) (instVal p path) \<Longrightarrow> list_ex (dbEq (instVal c cpath)) keys" for c
    using refl by (auto simp: list_ex_iff keyEq_def)
  then have "filter (\<lambda>c. keyEq (instVal c cpath) (instVal p path)) (filter (\<lambda>c. list_ex (dbEq (instVal c cpath)) keys) table)
      = filter (\<lambda>c. keyEq (instVal c cpath) (instVal p path)) table"
    unfolding filter_filter by (intro filter_cong refl) auto
  then have "filter (\<lambda>c. keyEq (instVal c cpath) (instVal p path)) (map nf (filter (\<lambda>c. list_ex (dbEq (instVal c cpath)) keys) table))
      = filter (\<lambda>c. keyEq (instVal c cpath) (instVal p path)) (map nf table)"
    using assms(1) by (simp add: filter_map comp_def keepsFields_def)
  then show ?thesis by (simp add: assignKids_def)
qed

lemma keepsFields_assignKids: "keepsFields (assignKids rel path cpath kids)"
  by (simp add: keepsFields_def assignKids_def Let_def)

lemma keepsFields_fold:
  "list_all (\<lambda>(run, f). P run f \<and> keepsFields f) rfs \<Longrightarrow> keepsFields (fold snd rfs)"
proof (induction rfs)
  case (Cons rf rfs)
  then show ?case by (cases rf) (simp add: keepsFields_def)
qed (simp add: keepsFields_def)

definition hashKey :: "nat list \<Rightarrow> inst \<Rightarrow> bool" where
  "hashKey path c \<longleftrightarrow> isZeroVal (instVal c path) \<or> hashable (instVal c path)"

lemma assignKids_no_keys:
  "collectKeys path ps [] = [] \<Longrightarrow> map (assignKids rel path cpath kids) ps = ps"
proof (rule map_idI)
  fix p assume "collectKeys path ps [] = []" "p \<in> set ps"
  then have "isZeroVal (instVal p path)" using collectKeys_covers [of p ps path "[]"] by auto
  then show "assignKids rel path cpath kids p = p" by (simp add: assignKids_def)
qed

text \<open>A relation as its tag and the two tables resolve it.\<close>

definition joinedOn :: "relation \<Rightarrow> 'd model \<Rightarrow> 'd model \<Rightarrow> field \<Rightarrow> field \<Rightarrow> bool" where
  "joinedOn rel owner target batchField childField \<longleftrightarrow>
     (\<exists>refCol. resolveRefColumn rel owner target = Inr refCol
       \<and> stByColumn (mdTable owner) (if rlKind rel = BelongsTo then rlFK rel else refCol) = Some batchField
       \<and> stByColumn (mdTable target) (if rlKind rel = BelongsTo then refCol else rlFK rel) = Some childField
       \<and> fdColumn childField = (if rlKind rel = BelongsTo then refCol else rlFK rel))"

definition fetchAndAssign :: "'d engine \<Rightarrow> 'd model \<Rightarrow> relation \<Rightarrow> 'd preloadSpec \<Rightarrow> field \<Rightarrow> field \<Rightarrow> 'd preloadRunner" where
  "fetchAndAssign eg target rel spec bf cf db parents =
     ioBind (ioRender (renderSelect (dbDialect db) (preloadSelect target (fdColumn cf) (collectKeys (fdIndex bf) parents []) (psWhere spec))))
       (\<lambda>(sqlText, args).
     ioBind (queryContext eg db ''Preload'' (mdName target) sqlText args) (\<lambda>rows.
     ioBind (scanAllRows target rows) (\<lambda>scanned.
     ioBind (runPreloads (psNested spec) db scanned) (\<lambda>children.
       if \<not> list_all (\<lambda>c. hashable (instVal c (fdIndex cf))) children then
         (\<lambda>w. (Panic ''runtime error: hash of unhashable type'', w))
       else ioRet (map (assignKids rel (fdIndex bf) (fdIndex cf) children) parents)))))"

lemma runPreload_resolved:
  assumes "joinedOn rel owner target bf cf" and "ps \<noteq> []" and "list_all (hashKey (fdIndex bf)) ps"
  shows "runPreload eg owner target rel spec db ps =
    (if collectKeys (fdIndex bf) ps [] = [] then ioRet ps else fetchAndAssign eg target rel spec bf cf db ps)"
proof -
  from assms(1) obtain refCol where j: "resolveRefColumn rel owner target = Inr refCol"
      "stByColumn (mdTable owner) (if rlKind rel = BelongsTo then rlFK rel else refCol) = Some bf"
      "stByColumn (mdTable target) (if rlKind rel = BelongsTo then refCol else rlFK rel) = Some cf"
      "fdColumn cf = (if rlKind rel = BelongsTo then refCol else rlFK rel)"
    by (auto simp: joinedOn_def)
  have hh: "list_all (\<lambda>p. isZeroVal (instVal p (fdIndex bf)) \<or> hashable (instVal p (fdIndex bf))) ps"
    using assms(3) by (simp add: hashKey_def [abs_def])
  show ?thesis
  proof (cases "rlKind rel = BelongsTo")
    case True
    with j(2-4) have b: "stByColumn (mdTable owner) (rlFK rel) = Some bf"
        "stByColumn (mdTable target) refCol = Some cf" "fdColumn cf = refCol" by simp_all
    show ?thesis
      unfolding runPreload_def fetchAndAssign_def Let_def if_not_P [OF assms(2)] if_P [OF True] prod.case
        j(1) b ioLift_Inr ioBind_ioRet option.case by (simp add: hh)
  next
    case False
    with j(2-4) have b: "stByColumn (mdTable owner) refCol = Some bf"
        "stByColumn (mdTable target) (rlFK rel) = Some cf" "fdColumn cf = rlFK rel" by simp_all
    show ?thesis
      unfolding runPreload_def fetchAndAssign_def Let_def if_not_P [OF assms(2)] if_not_P [OF False] prod.case
        j(1) b ioLift_Inr ioBind_ioRet option.case by (simp add: hh)
  qed
qed

lemma preload_loads:
  assumes "joinedOn rel owner target bf cf" and "\<not> hkAfterScan (stHooks (mdTable target))"
    and ans: "answersFrom eg db target cf (psWhere spec) d dbEq table" and refl: "\<And>v. dbEq v v"
    and "psNested spec = map fst rfs" and nested: "list_all (\<lambda>(run, f). loads run db d ok f \<and> keepsFields f) rfs"
    and ok: "\<And>c c'. ok c \<Longrightarrow> instVal c' = instVal c \<Longrightarrow> ok c'" "list_all ok table"
    and hash: "list_all (\<lambda>c. hashable (instVal c (fdIndex cf))) table"
  shows "loads (runPreload eg owner target rel spec) db d (hashKey (fdIndex bf))
    (assignKids rel (fdIndex bf) (fdIndex cf) (map (fold snd rfs) table))"
  unfolding loads_def
proof (intro allI impI)
  fix ps and w :: "'a world" assume "list_all (hashKey (fdIndex bf)) ps \<and> wDb w = d"
  then have h: "list_all (hashKey (fdIndex bf)) ps" and w: "wDb w = d" by auto
  let ?keys = "collectKeys (fdIndex bf) ps []"
  let ?nf = "fold snd rfs"
  let ?kids = "filter (\<lambda>c. list_ex (dbEq (instVal c (fdIndex cf))) ?keys) table"
  have kf: "keepsFields ?nf" using nested by (rule keepsFields_fold)
  show "\<exists>w'. runPreload eg owner target rel spec db ps w
      = (Ret (map (assignKids rel (fdIndex bf) (fdIndex cf) (map ?nf table)) ps), w') \<and> wDb w' = d"
  proof (cases "?keys = []")
    case True
    then show ?thesis
      using w assignKids_no_keys [OF True, of rel "fdIndex cf" "map ?nf table"]
        runPreload_resolved [OF assms(1) _ h, of eg spec db]
      by (cases "ps = []") (simp_all add: runPreload_def io_simps)
  next
    case False
    then have ps: "ps \<noteq> []" by auto
    from ans False obtain s args rows where a:
      "renderSelect (dbDialect db) (preloadSelect target (fdColumn cf) ?keys (psWhere spec)) = Inr (s, args)"
      "egQuery eg (dbConn db) s args d = (Inr rows, d)"
      "scanAll target (NewPlan (mdTable target) (rsColumns rows)) (rsRows rows) (rsErr rows) = Inr ?kids"
      unfolding answersFrom_def by blast
    from queryContext_result [of eg db s args w "Inr rows" d "''Preload''" "mdName target"] a(2) w obtain tr where
      q: "queryContext eg db ''Preload'' (mdName target) s args w = (Ret rows, w\<lparr>wDb := d, wTrace := wTrace w @ tr\<rparr>)"
      by auto
    let ?w = "w\<lparr>wDb := d, wTrace := wTrace w @ tr\<rparr>"
    have scan: "scanAllRows target rows ?w = (Ret ?kids, ?w)"
    proof -
      have "afterScanAll target cs = ioRet cs" for cs
        using assms(2) by (induction cs) (simp_all add: afterScan_def)
      then show ?thesis by (simp add: scanAllRows_def a(3) io_simps)
    qed
    have "list_all ok ?kids" using ok(2) by (auto simp: list_all_iff)
    then obtain w' where n: "runPreloads (psNested spec) db ?kids ?w = (Ret (map ?nf ?kids), w')" "wDb w' = d"
      using runPreloads_load [OF nested, of ?kids ?w] ok(1) assms(5) by auto
    have kh: "list_all (\<lambda>c. hashable (instVal c (fdIndex cf))) (map ?nf ?kids)"
      using hash kf by (auto simp: list_all_iff keepsFields_def)
    have "map (assignKids rel (fdIndex bf) (fdIndex cf) (map ?nf ?kids)) ps
        = map (assignKids rel (fdIndex bf) (fdIndex cf) (map ?nf table)) ps"
      by (intro map_cong refl assignKids_fetched kf) simp_all
    moreover have "runPreload eg owner target rel spec db ps w
        = (Ret (map (assignKids rel (fdIndex bf) (fdIndex cf) (map ?nf ?kids)) ps), w')"
      unfolding runPreload_resolved [OF assms(1) ps h] if_not_P [OF False]
      using a(1) q scan n kh by (simp add: fetchAndAssign_def io_simps)
    ultimately show ?thesis using n(2) by simp
  qed
qed

section \<open>Batching is invisible\<close>

text \<open>The reference: one parent, its own key looked up in the whole table of related rows.\<close>

definition loadOne :: "relation \<Rightarrow> nat list \<Rightarrow> nat list \<Rightarrow> inst list \<Rightarrow> inst \<Rightarrow> inst" where
  "loadOne rel batchPath childPath table p =
     (case filter (\<lambda>c. keyEq (instVal c childPath) (instVal p batchPath)) table of
        [] \<Rightarrow> p
      | c # cs \<Rightarrow>
          if isZeroVal (instVal p batchPath) then p
          else setRel (rlIndex rel) (if rlSlice rel then c # cs else [c]) p)"


definition postFields :: "field list" where
  "postFields = [userField ''id'' 0 (noOptions\<lparr>coPK := True\<rparr>), userField ''user_id'' 1 noOptions]"

definition postModel :: "'d model" where
  "postModel = userModel\<lparr>mdName := ''Post'', mdTable := userTable\<lparr>stName := ''posts'', stAlias := ''p'',
     stFields := postFields, stByColumn := map_of (map (\<lambda>f. (fdColumn f, f)) postFields),
     stPK := [hd postFields]\<rparr>\<rparr>"

definition postsOfUser :: relation where
  "postsOfUser = \<lparr>rlGoName = ''Posts'', rlIndex = [3], rlKind = HasMany, rlTarget = ''Post'', rlSlice = True,
     rlFK = ''user_id'', rlRef = []\<rparr>"

definition post :: "int \<Rightarrow> int \<Rightarrow> inst" where
  "post i u = setVal [1] (int64 u) (setVal [0] (int64 i) zeroUser)"

text \<open>Answers any query with the posts whose second column is an argument.\<close>

definition postEngine :: "(int \<times> int) list \<Rightarrow> unit engine" where
  "postEngine posts = \<lparr>egQuery = (\<lambda>c s args d. (Inr \<lparr>rsColumns = [''id'', ''user_id''],
       rsRows = map (\<lambda>(i, u). [int64 i, int64 u]) (filter (\<lambda>(i, u). list_ex (\<lambda>k. int64 u = k) args) posts), rsErr = None\<rparr>, d)),
     egExec = (\<lambda>c s args d. (Inl (DriverError s), d)), egBegin = (\<lambda>c d. (Inr 0, d)), egCommit = (\<lambda>t d. (Inr (), d)),
     egRollback = (\<lambda>t d. (Inr (), d)), egPin = (\<lambda>d. (Inr 0, d)), egUnpin = (\<lambda>c d. d)\<rparr>"

lemma postEngine_answers:
  "answersFrom (postEngine posts) pgDB (postModel :: unit model) (postFields ! 1) PredNone () (=)
     (map (\<lambda>(i, u). post i u) posts)"
  unfolding answersFrom_def
proof (intro allI impI)
  fix keys :: "goVal list" assume keys: "keys \<noteq> []"
  let ?b = "preloadSelect (postModel :: unit model) (fdColumn (postFields ! 1)) keys PredNone"
  let ?rows = "\<lparr>rsColumns = [''id'', ''user_id''],
       rsRows = map (\<lambda>(i, u). [int64 i, int64 u]) (filter (\<lambda>(i, u). list_ex (\<lambda>k. int64 u = k) keys) posts), rsErr = None\<rparr>"
  have sel: "selectErr Postgres ?b = None" "selectArgs ?b = keys"
    using keys by (simp_all add: selectErr_def lockErr_def selectArgs_def joinsArgs_def preloadSelect_def Where_def Columns_def
        Select_def Let_def andJoin_def IsZero_def)
  then have r: "renderSelect (dbDialect pgDB) ?b = Inr (flatten Postgres (tokSelect Postgres ?b), keys)"
    by (simp add: renderSelect_tokens pgDB_def Open_def)
  have plan: "NewPlan (mdTable (postModel :: unit model)) (rsColumns ?rows) = [Some (postFields ! 0), Some (postFields ! 1)]"
    by (simp add: NewPlan_def postModel_def sample_defs postFields_def)
  have "scanAll (postModel :: unit model) [Some (postFields ! 0), Some (postFields ! 1)]
      (map (\<lambda>(i, u). [int64 i, int64 u]) ps) None = Inr (map (\<lambda>(i, u). post i u) ps)" for ps
    by (induction ps) (auto simp: scanField_def isJson_def postFields_def postModel_def sample_defs noOptions_def post_def)
  moreover have "map (\<lambda>(i, u). post i u) (filter (\<lambda>(i, u). list_ex (\<lambda>k. int64 u = k) keys) posts)
      = filter (\<lambda>c. list_ex ((=) (instVal c (fdIndex (postFields ! 1)))) keys) (map (\<lambda>(i, u). post i u) posts)"
    by (induction posts) (auto simp: post_def postFields_def userField_def)
  ultimately have "scanAll (postModel :: unit model) (NewPlan (mdTable (postModel :: unit model)) (rsColumns ?rows)) (rsRows ?rows) (rsErr ?rows)
      = Inr (filter (\<lambda>c. list_ex ((=) (instVal c (fdIndex (postFields ! 1)))) keys) (map (\<lambda>(i, u). post i u) posts))"
    unfolding plan by simp
  with r show "\<exists>s args rows.
      renderSelect (dbDialect pgDB) ?b = Inr (s, args)
      \<and> egQuery (postEngine posts) (dbConn pgDB) s args () = (Inr rows, ())
      \<and> scanAll (postModel :: unit model) (NewPlan (mdTable (postModel :: unit model)) (rsColumns rows)) (rsRows rows) (rsErr rows)
        = Inr (filter (\<lambda>c. list_ex ((=) (instVal c (fdIndex (postFields ! 1)))) keys) (map (\<lambda>(i, u). post i u) posts))"
    by (intro exI [of _ "flatten Postgres (tokSelect Postgres ?b)"] exI [of _ keys] exI [of _ ?rows])
       (simp add: postEngine_def)
qed


section \<open>Keys of different Go types never meet\<close>

text \<open>The database matches a key with a column whatever Go types hold them; the map lookup does
  not: a pointer foreign key, or a 32-bit one to a 64-bit key, loads nothing, without an error.\<close>

lemma mixed_key_types_load_nothing:
  "loadOne rel [0] [1] [setVal [1] (VInt ''int32'' 32 7) r] (setVal [0] (VInt ''int64'' 64 7) p) = setVal [0] (VInt ''int64'' 64 7) p"
  "loadOne rel [0] [1] [setVal [1] (VPtr (Some (VInt ''int64'' 64 7))) r] (setVal [0] (VInt ''int64'' 64 7) p) = setVal [0] (VInt ''int64'' 64 7) p"
  by (simp_all add: loadOne_def keyEq_def)

end
