(* ===== verification/PackCols.thy ===== *)
theory PackCols
  imports PackQuery
begin

text \<open>
  Typed columns and relations (\<open>pack/col.go\<close>, \<open>predicate.go\<close>, \<open>rel.go\<close>): a selector function
  takes the address of a field inside a zero struct, and its offset is looked up among the
  mapped fields. The layout (the offset of the i-th field of a struct, \<open>StructField.Offset\<close>)
  is a parameter.
\<close>

definition ColIn :: "column \<Rightarrow> goVal list \<Rightarrow> goVal predicate" where
  "ColIn c vs = In c vs"

definition ColBetween :: "column \<Rightarrow> goVal \<Rightarrow> goVal \<Rightarrow> goVal predicate" where
  "ColBetween c lo hi = Between c lo hi"

type_synonym layout = "goField list \<Rightarrow> nat \<Rightarrow> nat"

fun fieldOffset :: "layout \<Rightarrow> goField list \<Rightarrow> nat list \<Rightarrow> nat" where
  "fieldOffset lay fs [] = 0"
| "fieldOffset lay fs (i # is) = lay fs i + fieldOffset lay (structFields (gfType (fs ! i))) is"

fun findFieldByOffset :: "layout \<Rightarrow> goField list \<Rightarrow> field list \<Rightarrow> nat \<Rightarrow> field option" where
  "findFieldByOffset lay fs [] off = None"
| "findFieldByOffset lay fs (f # rest) off =
     (if fieldOffset lay fs (fdIndex f) = off then Some f else findFieldByOffset lay fs rest off)"

fun findRelationByOffset :: "layout \<Rightarrow> goField list \<Rightarrow> relation list \<Rightarrow> nat \<Rightarrow> relation option" where
  "findRelationByOffset lay fs [] off = None"
| "findRelationByOffset lay fs (r # rest) off =
     (if fieldOffset lay fs (rlIndex r) = off then Some r else findRelationByOffset lay fs rest off)"

text \<open>\<open>Field\<close>: the column of the selected offset, a panic when no mapped field is there.\<close>

definition FieldOf :: "layout \<Rightarrow> goField list \<Rightarrow> schemaTable \<Rightarrow> nat \<Rightarrow> string + column" where
  "FieldOf lay fs t off =
     (case findFieldByOffset lay fs (stFields t) off of
        None \<Rightarrow> Inl ''pack: Field selector does not resolve to a mapped field''
      | Some f \<Rightarrow> Inr (QualifiedCol (stAlias t) (fdColumn f)))"

definition RelationOf :: "layout \<Rightarrow> goField list \<Rightarrow> schemaTable \<Rightarrow> nat \<Rightarrow> string + relation" where
  "RelationOf lay fs t off =
     (case findRelationByOffset lay fs (stRelations t) off of
        None \<Rightarrow> Inl ''pack: Relation selector does not resolve to a mapped relation''
      | Some r \<Rightarrow> Inr r)"

text \<open>Where no two mapped fields share an offset, a selector resolves to its own column.\<close>

lemma FieldOf_selects:
  assumes "inj_on (\<lambda>f. fieldOffset lay fs (fdIndex f)) (set (stFields t))" and "f \<in> set (stFields t)"
  shows "FieldOf lay fs t (fieldOffset lay fs (fdIndex f)) = Inr (QualifiedCol (stAlias t) (fdColumn f))"
proof -
  have "inj_on (\<lambda>f. fieldOffset lay fs (fdIndex f)) (set gs) \<Longrightarrow> f \<in> set gs \<Longrightarrow>
      findFieldByOffset lay fs gs (fieldOffset lay fs (fdIndex f)) = Some f" for gs
    by (induction gs) (auto simp: inj_on_def)
  then show ?thesis using assms by (simp add: FieldOf_def)
qed

text \<open>A field of size zero shares its offset with the field after it: the selector of the later
  field resolves to the column of the earlier one.\<close>

lemma zero_size_field_shadows:
  assumes "stFields t = f # g # rest" and "fieldOffset lay fs (fdIndex g) = fieldOffset lay fs (fdIndex f)"
  shows "FieldOf lay fs t (fieldOffset lay fs (fdIndex g)) = Inr (QualifiedCol (stAlias t) (fdColumn f))"
  using assms by (simp add: FieldOf_def)

end
