(* ===== verification/Migrate.thy ===== *)
theory Migrate
  imports PackKeyed PackSample "HOL-Library.AList" "HOL-Library.List_Lexorder" "HOL-Library.Char_ord"
begin

text \<open>
  Schema migrations (\<open>pack/migrate\<close>): the \<open>Migrator\<close> and its operations on tables, columns,
  indexes and constraints, the introspection of the database, SQLite's rebuild of a table, the
  registry of migrations and the runner \<open>Up\<close> and \<open>Down\<close>. They run on the handle and the engine
  of \<open>PackDb\<close> and send the statements of \<open>SqlDdl\<close>.

  A model is given by the name of its type and by what \<open>schema.For\<close> says of it. The dialects'
  view of a field type (its reflected kind) is the parameter \<open>mgKind\<close> of the migrator.
\<close>

section \<open>Models, options, results\<close>

record modelType =
  mtName :: string
  mtSchema :: "schemaError list + schemaTable"

record migrator =
  mgDb :: DB
  mgDdl :: ddl
  mgKind :: "goTy \<Rightarrow> goType"

definition ioPanic :: "string \<Rightarrow> ('w, 'a) io" where
  "ioPanic s = (\<lambda>w. (Panic s, w))"

text \<open>\<open>New\<close>: the type assertion on the handle's dialect is the function \<open>dd\<close>.\<close>

definition newMigrator :: "(dialect \<Rightarrow> ddl option) \<Rightarrow> (goTy \<Rightarrow> goType) \<Rightarrow> DB \<Rightarrow> ('w, migrator) io" where
  "newMigrator dd kind db =
     (case dd (dbDialect db) of
        None \<Rightarrow> ioPanic (''pack/migrate: dialect '' @ Name (dbDialect db) @ '' does not implement dialect.DDL'')
      | Some g \<Rightarrow> ioRet \<lparr>mgDb = db, mgDdl = g, mgKind = kind\<rparr>)"

definition schemaForOrPanic :: "modelType \<Rightarrow> ('w, schemaTable) io" where
  "schemaForOrPanic mt =
     (case mtSchema mt of
        Inl errs \<Rightarrow> ioPanic (''pack/migrate: '' @ mtName mt @ '' is not a valid model'')
      | Inr t \<Rightarrow> ioRet t)"

definition fieldByGoName :: "schemaTable \<Rightarrow> string \<Rightarrow> field option" where
  "fieldByGoName t goName = find (\<lambda>f. fdGoName f = goName) (stFields t)"

definition fieldByGoNameOrPanic :: "modelType \<Rightarrow> schemaTable \<Rightarrow> string \<Rightarrow> ('w, field) io" where
  "fieldByGoNameOrPanic mt t goName =
     (case fieldByGoName t goName of
        None \<Rightarrow> ioPanic (''pack/migrate: '' @ mtName mt @ '' has no field named '' @ goName)
      | Some f \<Rightarrow> ioRet f)"

definition resolveColumnName :: "schemaTable \<Rightarrow> string \<Rightarrow> string" where
  "resolveColumnName t name = (case fieldByGoName t name of Some f \<Rightarrow> fdColumn f | None \<Rightarrow> name)"

definition relationByGoName :: "schemaTable \<Rightarrow> string \<Rightarrow> relation option" where
  "relationByGoName t goName = find (\<lambda>r. rlGoName r = goName) (stRelations t)"

definition toColumnSpec :: "columnOptions \<Rightarrow> columnSpec" where
  "toColumnSpec co = \<lparr>csPrimaryKey = coPK co, csAutoIncrement = coAutoIncrement co, csNotNull = coNotNull co,
     csUnique = coUnique co, csHasDefault = coHasDefault co, csDefault = coDefault co, csSQLType = coSQLType co\<rparr>"

definition sqlTable :: "schemaTable \<Rightarrow> table" where
  "sqlTable t = \<lparr>tblName = stName t, tblAlias = []\<rparr>"

definition quoteJoin :: "dialect \<Rightarrow> string list \<Rightarrow> string" where
  "quoteJoin d names = join '', '' (map (QuoteIdent d) names)"

text \<open>A schema statement, its error returned as it is.\<close>

definition ioDdl :: "ddlError + 'a \<Rightarrow> ('w, 'a) io" where
  "ioDdl r = (case r of Inl e \<Rightarrow> ioFail (DdlError e) | Inr x \<Rightarrow> ioRet x)"

definition runDDL :: "'d engine \<Rightarrow> DB \<Rightarrow> string \<Rightarrow> string \<Rightarrow> ddlError + string \<Rightarrow> ('d world, unit) io" where
  "runDDL eg db op name stmt =
     ioBind (ioDdl stmt) (\<lambda>sqlText. ioBind (execContext eg db op name sqlText []) (\<lambda>_. ioRet ()))"

text \<open>The options of the drop operations, of \<open>CreateIndex\<close> and of \<open>CreateConstraint\<close>.\<close>

definition WithoutIfExists :: "bool \<Rightarrow> bool" where
  "WithoutIfExists withoutIfExists = True"

definition WithUniqueIndex :: "bool \<Rightarrow> bool" where
  "WithUniqueIndex unique = True"

definition WithConstraintName :: "string \<Rightarrow> string \<Rightarrow> string" where
  "WithConstraintName name old = name"

definition applyOptions :: "('c \<Rightarrow> 'c) list \<Rightarrow> 'c \<Rightarrow> 'c" where
  "applyOptions opts c = fold (\<lambda>f c. f c) opts c"

section \<open>Existence checks\<close>

text \<open>Scanning a column into a \<open>bool\<close> (\<open>driver.Bool.ConvertValue\<close>) and into a
  \<open>string\<close> (\<open>convertAssign\<close> of \<open>database/sql\<close>; values of other types are taken to fail).\<close>

definition scanBool :: "goVal \<Rightarrow> packError + bool" where
  "scanBool v =
     (let bad = Inl (Message ''sql: Scan error on column index 0'');
          parse = (\<lambda>s. case parseBool s of None \<Rightarrow> bad | Some b \<Rightarrow> Inr b)
      in (case v of
            VBool b \<Rightarrow> Inr b
          | VInt t w i \<Rightarrow> if i = 1 then Inr True else if i = 0 then Inr False else bad
          | VUint t w n \<Rightarrow> if n = 1 then Inr True else if n = 0 then Inr False else bad
          | VString s \<Rightarrow> parse s
          | VBytes (Some s) \<Rightarrow> parse s
          | _ \<Rightarrow> bad))"

definition scanString :: "goVal \<Rightarrow> packError + string" where
  "scanString v =
     (case v of
        VString s \<Rightarrow> Inr s
      | VBytes (Some s) \<Rightarrow> Inr s
      | VBytes None \<Rightarrow> Inr []
      | VBool b \<Rightarrow> Inr (if b then ''true'' else ''false'')
      | VInt t w i \<Rightarrow> Inr (if i < 0 then CHR ''-'' # itoa (nat (- i)) else itoa (nat i))
      | VUint t w n \<Rightarrow> Inr (itoa n)
      | _ \<Rightarrow> Inl (Message ''sql: Scan error on column index 0''))"

definition wrongCount :: packError where
  "wrongCount = Message ''sql: expected different number of destination arguments in Scan''"

text \<open>\<open>queryExists\<close>; \<open>rows.Err\<close> is nil once a row was found.\<close>

definition queryExists :: "'d engine \<Rightarrow> DB \<Rightarrow> string \<Rightarrow> string \<Rightarrow> string \<times> string list \<Rightarrow> ('d world, bool) io" where
  "queryExists eg db op name q =
     ioBind (queryContext eg db op name (fst q) (map VString (snd q))) (\<lambda>rows.
       case rsRows rows of
         [] \<Rightarrow> (case rsErr rows of Some e \<Rightarrow> ioFail e | None \<Rightarrow> ioRet False)
       | [v] # _ \<Rightarrow> ioLift (scanBool v)
       | _ \<Rightarrow> ioFail wrongCount)"

definition HasTable :: "'d engine \<Rightarrow> migrator \<Rightarrow> modelType \<Rightarrow> ('d world, bool) io" where
  "HasTable eg m mt =
     ioBind (schemaForOrPanic mt) (\<lambda>t.
       queryExists eg (mgDb m) ''HasTable'' (mtName mt) (HasTableSQL (mgDdl m) (stName t)))"

definition hasColumnByName :: "'d engine \<Rightarrow> migrator \<Rightarrow> modelType \<Rightarrow> schemaTable \<Rightarrow> string \<Rightarrow> ('d world, bool) io" where
  "hasColumnByName eg m mt t column =
     queryExists eg (mgDb m) ''HasColumn'' (mtName mt) (HasColumnSQL (mgDdl m) (stName t) column)"

definition HasColumn :: "'d engine \<Rightarrow> migrator \<Rightarrow> modelType \<Rightarrow> string \<Rightarrow> ('d world, bool) io" where
  "HasColumn eg m mt name =
     ioBind (schemaForOrPanic mt) (\<lambda>t. hasColumnByName eg m mt t (resolveColumnName t name))"

definition HasIndex :: "'d engine \<Rightarrow> migrator \<Rightarrow> modelType \<Rightarrow> string \<Rightarrow> ('d world, bool) io" where
  "HasIndex eg m mt name =
     ioBind (schemaForOrPanic mt) (\<lambda>t.
       queryExists eg (mgDb m) ''HasIndex'' (mtName mt) (HasIndexSQL (mgDdl m) (stName t) name))"

definition HasConstraint :: "'d engine \<Rightarrow> migrator \<Rightarrow> modelType \<Rightarrow> string \<Rightarrow> ('d world, bool) io" where
  "HasConstraint eg m mt name =
     ioBind (schemaForOrPanic mt) (\<lambda>t.
       queryExists eg (mgDb m) ''HasConstraint'' (mtName mt) (HasConstraintSQL (mgDdl m) (stName t) name))"

section \<open>Tables\<close>

definition modelColumns :: "migrator \<Rightarrow> schemaTable \<Rightarrow> createTableBuilder \<Rightarrow> createTableBuilder" where
  "modelColumns m t b =
     fold (\<lambda>f. ColumnDef (fdColumn f) (mgKind m (fdType f)) (toColumnSpec (fdOptions f))) (stFields t) b"

definition MCreateTable :: "'d engine \<Rightarrow> migrator \<Rightarrow> modelType list \<Rightarrow> ('d world, unit) io" where
  "MCreateTable eg m =
     ioEach (\<lambda>mt. ioBind (schemaForOrPanic mt) (\<lambda>t.
       runDDL eg (mgDb m) ''CreateTable'' (mtName mt)
         (renderCreateTable (dbDialect (mgDb m)) (Some (mgDdl m)) (modelColumns m t (CreateTable (sqlTable t))))))"

text \<open>The four drop operations: nothing to do when the check finds nothing, unless told not to
  check.\<close>

definition dropUnless :: "(bool \<Rightarrow> bool) list \<Rightarrow> ('d world, bool) io \<Rightarrow> ('d world, unit) io \<Rightarrow> ('d world, unit) io" where
  "dropUnless opts present act =
     (if applyOptions opts False then act
      else ioBind present (\<lambda>e. if e then act else ioRet ()))"

definition MDropTable :: "'d engine \<Rightarrow> migrator \<Rightarrow> modelType \<Rightarrow> (bool \<Rightarrow> bool) list \<Rightarrow> ('d world, unit) io" where
  "MDropTable eg m mt opts =
     ioBind (schemaForOrPanic mt) (\<lambda>t.
       dropUnless opts (HasTable eg m mt)
         (runDDL eg (mgDb m) ''DropTable'' (mtName mt) (Inr (renderDropTable (dbDialect (mgDb m)) (sqlTable t)))))"

definition MRenameTable :: "'d engine \<Rightarrow> migrator \<Rightarrow> modelType \<Rightarrow> string \<Rightarrow> ('d world, unit) io" where
  "MRenameTable eg m mt newName =
     ioBind (schemaForOrPanic mt) (\<lambda>t.
       runDDL eg (mgDb m) ''RenameTable'' (mtName mt)
         (Inr (renderRenameTable (dbDialect (mgDb m)) (sqlTable t) newName)))"

section \<open>Columns\<close>

definition MAddColumn :: "'d engine \<Rightarrow> migrator \<Rightarrow> modelType \<Rightarrow> string \<Rightarrow> ('d world, unit) io" where
  "MAddColumn eg m mt name =
     ioBind (schemaForOrPanic mt) (\<lambda>t.
     ioBind (fieldByGoNameOrPanic mt t name) (\<lambda>f.
       runDDL eg (mgDb m) ''AddColumn'' (mtName mt)
         (renderAddColumn (dbDialect (mgDb m)) (Some (mgDdl m)) (sqlTable t) (fdColumn f) (mgKind m (fdType f))
           (toColumnSpec (fdOptions f)))))"

definition MDropColumn :: "'d engine \<Rightarrow> migrator \<Rightarrow> modelType \<Rightarrow> string \<Rightarrow> (bool \<Rightarrow> bool) list \<Rightarrow> ('d world, unit) io" where
  "MDropColumn eg m mt name opts =
     ioBind (schemaForOrPanic mt) (\<lambda>t.
       let column = resolveColumnName t name in
       dropUnless opts (hasColumnByName eg m mt t column)
         (runDDL eg (mgDb m) ''DropColumn'' (mtName mt)
           (Inr (renderDropColumn (dbDialect (mgDb m)) (sqlTable t) column))))"

definition MRenameColumn :: "'d engine \<Rightarrow> migrator \<Rightarrow> modelType \<Rightarrow> string \<Rightarrow> string \<Rightarrow> ('d world, unit) io" where
  "MRenameColumn eg m mt name newName =
     ioBind (schemaForOrPanic mt) (\<lambda>t.
       runDDL eg (mgDb m) ''RenameColumn'' (mtName mt)
         (Inr (renderRenameColumn (dbDialect (mgDb m)) (sqlTable t) (resolveColumnName t name) newName)))"

section \<open>Indexes and constraints\<close>

definition MCreateIndex :: "'d engine \<Rightarrow> migrator \<Rightarrow> modelType \<Rightarrow> string \<Rightarrow> string list \<Rightarrow> (bool \<Rightarrow> bool) list \<Rightarrow> ('d world, unit) io" where
  "MCreateIndex eg m mt name names opts =
     ioBind (schemaForOrPanic mt) (\<lambda>t.
       let b = CreateIndex (sqlTable t) name (map (resolveColumnName t) names);
           b = (if applyOptions opts False then Unique b else b)
       in runDDL eg (mgDb m) ''CreateIndex'' (mtName mt) (Inr (renderCreateIndex (dbDialect (mgDb m)) b)))"

definition MDropIndex :: "'d engine \<Rightarrow> migrator \<Rightarrow> modelType \<Rightarrow> string \<Rightarrow> (bool \<Rightarrow> bool) list \<Rightarrow> ('d world, unit) io" where
  "MDropIndex eg m mt name opts =
     ioBind (schemaForOrPanic mt) (\<lambda>t.
       dropUnless opts (HasIndex eg m mt name)
         (runDDL eg (mgDb m) ''DropIndex'' (mtName mt)
           (renderDropIndex (dbDialect (mgDb m)) (Some (mgDdl m)) (sqlTable t) name)))"

definition MRenameIndex :: "'d engine \<Rightarrow> migrator \<Rightarrow> modelType \<Rightarrow> string \<Rightarrow> string \<Rightarrow> ('d world, unit) io" where
  "MRenameIndex eg m mt oldName newName =
     ioBind (schemaForOrPanic mt) (\<lambda>t.
       runDDL eg (mgDb m) ''RenameIndex'' (mtName mt)
         (renderRenameIndex (dbDialect (mgDb m)) (Some (mgDdl m)) (sqlTable t) oldName newName))"

text \<open>\<open>types\<close> leads from the name of a relation's target to the model.\<close>

definition MCreateConstraint ::
    "'d engine \<Rightarrow> (string \<Rightarrow> modelType) \<Rightarrow> migrator \<Rightarrow> modelType \<Rightarrow> string \<Rightarrow> (string \<Rightarrow> string) list \<Rightarrow> ('d world, unit) io" where
  "MCreateConstraint eg types m mt relationName opts =
     ioBind (schemaForOrPanic mt) (\<lambda>t.
       case relationByGoName t relationName of
         None \<Rightarrow> ioFail (ErrRelationNotFound (mtName mt) relationName)
       | Some rel \<Rightarrow>
           if rlKind rel \<noteq> BelongsTo then
             ioFail (ErrConstraintWrongRelationKind (mtName mt) relationName (rlKind rel))
           else
             ioBind (schemaForOrPanic (types (rlTarget rel))) (\<lambda>target.
             ioBind (if rlRef rel \<noteq> [] then ioRet (rlRef rel)
                     else (case stPK target of
                             [k] \<Rightarrow> ioRet (fdColumn k)
                           | _ \<Rightarrow> ioFail (Message (''pack/migrate: CreateConstraint('' @ mtName mt @ '', '' @ relationName @ '')''))))
               (\<lambda>ref.
                 let name = applyOptions opts [];
                     name = (if name = [] then ''fk_'' @ stName t @ ''_'' @ rlFK rel else name)
                 in runDDL eg (mgDb m) ''CreateConstraint'' (mtName mt)
                      (renderCreateConstraint (dbDialect (mgDb m))
                        \<lparr>ccTable = sqlTable t, ccName = name, ccLocalCols = [rlFK rel],
                         ccRefTable = stName target, ccRefCols = [ref]\<rparr>))))"

definition MDropConstraint :: "'d engine \<Rightarrow> migrator \<Rightarrow> modelType \<Rightarrow> string \<Rightarrow> (bool \<Rightarrow> bool) list \<Rightarrow> ('d world, unit) io" where
  "MDropConstraint eg m mt name opts =
     ioBind (schemaForOrPanic mt) (\<lambda>t.
       dropUnless opts (HasConstraint eg m mt name)
         (runDDL eg (mgDb m) ''DropConstraint'' (mtName mt)
           (renderDropConstraint (dbDialect (mgDb m)) (sqlTable t) name)))"

section \<open>Introspection\<close>

fun scanEach :: "(goVal list \<Rightarrow> packError + 'a) \<Rightarrow> goVal list list \<Rightarrow> packError option \<Rightarrow> packError + 'a list" where
  "scanEach f [] err = (case err of Some e \<Rightarrow> Inl e | None \<Rightarrow> Inr [])"
| "scanEach f (vs # rows) err = rbind (f vs) (\<lambda>x. rbind (scanEach f rows err) (\<lambda>xs. Inr (x # xs)))"

definition scanName :: "goVal list \<Rightarrow> packError + string" where
  "scanName vs = (case vs of [v] \<Rightarrow> scanString v | _ \<Rightarrow> Inl wrongCount)"

definition GetTables :: "'d engine \<Rightarrow> migrator \<Rightarrow> ('d world, string list) io" where
  "GetTables eg m =
     ioBind (queryContext eg (mgDb m) ''GetTables'' [] (fst (GetTablesSQL (mgDdl m)))
               (map VString (snd (GetTablesSQL (mgDdl m)))))
       (\<lambda>rows. ioLift (scanEach scanName (rsRows rows) (rsErr rows)))"

record columnMeta =
  cmName :: string
  cmSQLType :: string
  cmNullable :: bool
  cmPrimaryKey :: bool

definition scanColumnMeta :: "goVal list \<Rightarrow> packError + columnMeta" where
  "scanColumnMeta vs =
     (case vs of
        [n, t, u, k] \<Rightarrow>
          rbind (scanString n) (\<lambda>n. rbind (scanString t) (\<lambda>t. rbind (scanBool u) (\<lambda>u. rbind (scanBool k) (\<lambda>k.
            Inr \<lparr>cmName = n, cmSQLType = t, cmNullable = u, cmPrimaryKey = k\<rparr>))))
      | _ \<Rightarrow> Inl wrongCount)"

definition ColumnTypes :: "'d engine \<Rightarrow> migrator \<Rightarrow> modelType \<Rightarrow> ('d world, columnMeta list) io" where
  "ColumnTypes eg m mt =
     ioBind (schemaForOrPanic mt) (\<lambda>t.
     ioBind (queryContext eg (mgDb m) ''ColumnTypes'' (mtName mt) (fst (ColumnTypesSQL (mgDdl m) (stName t)))
               (map VString (snd (ColumnTypesSQL (mgDdl m) (stName t)))))
       (\<lambda>rows. ioLift (scanEach scanColumnMeta (rsRows rows) (rsErr rows))))"

definition CurrentDatabase :: "'d engine \<Rightarrow> migrator \<Rightarrow> ('d world, string) io" where
  "CurrentDatabase eg m =
     ioBind (queryContext eg (mgDb m) ''CurrentDatabase'' [] (CurrentDatabaseSQL (mgDdl m)) []) (\<lambda>rows.
       case rsRows rows of
         [] \<Rightarrow> (case rsErr rows of Some e \<Rightarrow> ioFail e | None \<Rightarrow> ioRet [])
       | vs # _ \<Rightarrow> ioLift (scanName vs))"

section \<open>Altering a column\<close>

definition captureIndexSQL :: "'d engine \<Rightarrow> DB \<Rightarrow> string \<Rightarrow> ('d world, string list) io" where
  "captureIndexSQL eg tx name =
     ioBind (queryContext eg tx ''Raw'' []
               ''SELECT sql FROM sqlite_master WHERE type = 'index' AND tbl_name = ?1 AND sql IS NOT NULL'' [VString name])
       (\<lambda>rows. ioLift (scanEach scanName (rsRows rows) (rsErr rows)))"

definition scanViolation :: "string list \<Rightarrow> goVal list \<Rightarrow> packError + (string \<times> goVal) list" where
  "scanViolation cols vs =
     (if length vs = length cols then Inr (fold (\<lambda>(c, v). AList.update c v) (zip cols vs) [])
      else Inl wrongCount)"

definition scanForeignKeyCheckRows :: "rowSet \<Rightarrow> packError + (string \<times> goVal) list list" where
  "scanForeignKeyCheckRows rows = scanEach (scanViolation (rsColumns rows)) (rsRows rows) (rsErr rows)"

definition rawExec :: "'d engine \<Rightarrow> DB \<Rightarrow> string \<Rightarrow> string \<Rightarrow> string \<Rightarrow> ('d world, unit) io" where
  "rawExec eg db op name sqlText = ioBind (execContext eg db op name sqlText []) (\<lambda>_. ioRet ())"

definition tmpName :: "schemaTable \<Rightarrow> string" where
  "tmpName t = stName t @ ''__pack_rebuild''"

definition copyRowsSQL :: "dialect \<Rightarrow> schemaTable \<Rightarrow> string" where
  "copyRowsSQL d t =
     (let colList = quoteJoin d (map fdColumn (stFields t))
      in ''INSERT INTO '' @ QuoteIdent d (tmpName t) @ '' ('' @ colList @ '') SELECT '' @ colList
           @ '' FROM '' @ QuoteIdent d (stName t))"

definition rebuildTable :: "'d engine \<Rightarrow> migrator \<Rightarrow> modelType \<Rightarrow> schemaTable \<Rightarrow> DB \<Rightarrow> ('d world, unit) io" where
  "rebuildTable eg m mt t tx =
     (let d = dbDialect tx; tmp = \<lparr>tblName = tmpName t, tblAlias = []\<rparr> in
      ioBind (captureIndexSQL eg tx (stName t)) (\<lambda>indexSQL.
      ioBind (runDDL eg tx ''CreateTable'' (mtName mt)
                (renderCreateTable d (Some (mgDdl m)) (modelColumns m t (CreateTable tmp)))) (\<lambda>_.
      ioBind (rawExec eg tx ''Raw'' (mtName mt) (copyRowsSQL d t)) (\<lambda>_.
      ioBind (rawExec eg tx ''DropTable'' (mtName mt) (renderDropTable d (sqlTable t))) (\<lambda>_.
      ioBind (rawExec eg tx ''RenameTable'' (mtName mt) (renderRenameTable d tmp (stName t))) (\<lambda>_.
        ioEach (rawExec eg tx ''Raw'' (mtName mt)) indexSQL))))))"

definition alterColumnViaRebuild :: "'d engine \<Rightarrow> migrator \<Rightarrow> modelType \<Rightarrow> schemaTable \<Rightarrow> ('d world, unit) io" where
  "alterColumnViaRebuild eg m mt t =
     (if InTransaction (mgDb m) then ioFail ErrAlterColumnRequiresTopLevelConnection
      else PinnedConn eg (mgDb m) (\<lambda>pinned.
        ioBind (rawExec eg pinned ''PRAGMA'' [] ''PRAGMA foreign_keys = OFF'') (\<lambda>_.
        ioBind (Tx eg pinned (rebuildTable eg m mt t)) (\<lambda>_.
        ioBind (queryContext eg pinned ''PRAGMA'' [] ''PRAGMA foreign_key_check'' []) (\<lambda>rows.
        ioBind (ioLift (scanForeignKeyCheckRows rows)) (\<lambda>violations.
          if violations \<noteq> [] then ioFail (ErrForeignKeyCheckFailed (stName t) violations)
          else rawExec eg pinned ''PRAGMA'' [] ''PRAGMA foreign_keys = ON''))))))"

definition MAlterColumn :: "'d engine \<Rightarrow> migrator \<Rightarrow> modelType \<Rightarrow> string \<Rightarrow> ('d world, unit) io" where
  "MAlterColumn eg m mt name =
     ioBind (schemaForOrPanic mt) (\<lambda>t.
     ioBind (fieldByGoNameOrPanic mt t name) (\<lambda>f.
       case AlterColumnSQL (mgDdl m) (stName t) (fdColumn f) (mgKind m (fdType f)) (toColumnSpec (fdOptions f)) of
         Inl ErrRequiresTableRebuild \<Rightarrow> alterColumnViaRebuild eg m mt t
       | Inl e \<Rightarrow> ioFail (DdlError e)
       | Inr sqlText \<Rightarrow> rawExec eg (mgDb m) ''AlterColumn'' (mtName mt) sqlText))"

section \<open>The registry and the runner\<close>

record 'd migration =
  mgrID :: string
  mgrMigrate :: "migrator \<Rightarrow> ('d world, unit) io"
  mgrRollback :: "migrator \<Rightarrow> ('d world, unit) io"

definition RegisterMigration :: "'d migration \<Rightarrow> 'd migration list \<Rightarrow> 'd migration list" where
  "RegisterMigration m registered = registered @ [m]"

text \<open>\<open>Registered\<close>: the copy sorted by ID. The order of migrations with the same ID is that of
  registration here; \<open>sort.Slice\<close> leaves it open.\<close>

definition Registered :: "'d migration list \<Rightarrow> 'd migration list" where
  "Registered registered = sort_key mgrID registered"

definition findRegistered :: "'d migration list \<Rightarrow> string \<Rightarrow> 'd migration option" where
  "findRegistered registered ident = find (\<lambda>m. mgrID m = ident) (Registered registered)"

text \<open>The type \<open>schemaMigrationRow\<close> and its model: \<open>schema.For\<close> of the struct, and \<open>convertAssign\<close>
  into its two fields.\<close>

definition schemaMigrationRow :: goTy where
  "schemaMigrationRow = TStruct ''schemaMigrationRow''
     [GoField ''ID'' False True (Some ''id,pk'') (TScalar ''string''),
      GoField ''AppliedAt'' False True (Some ''applied_at,not_null'') (TScalar ''int64'')]"

definition migrationMethods :: methods where
  "migrationMethods = \<lparr>meTableName = Some ''schema_migrations'', meScalarStruct = (\<lambda>t. False),
     meValueHook = (\<lambda>m. False), mePointerHook = (\<lambda>m. False)\<rparr>"

definition migrationRowType :: modelType where
  "migrationRowType = \<lparr>mtName = ''schemaMigrationRow'', mtSchema = build migrationMethods schemaMigrationRow\<rparr>"

definition idField :: field where
  "idField = \<lparr>fdGoName = ''ID'', fdColumn = ''id'', fdIndex = [0], fdType = TScalar ''string'',
     fdOptions = noOptions\<lparr>coPK := True\<rparr>\<rparr>"

definition appliedAtField :: field where
  "appliedAtField = \<lparr>fdGoName = ''AppliedAt'', fdColumn = ''applied_at'', fdIndex = [1], fdType = TScalar ''int64'',
     fdOptions = noOptions\<lparr>coNotNull := True\<rparr>\<rparr>"

definition migrationTable :: schemaTable where
  "migrationTable = \<lparr>stName = ''schema_migrations'', stAlias = ''schema_migrations'',
     stFields = [idField, appliedAtField], stByColumn = [''id'' \<mapsto> idField, ''applied_at'' \<mapsto> appliedAtField],
     stPK = [idField], stPKIsComposite = False, stRelations = [], stHooks = noHooks\<rparr>"

definition migrationRow :: "string \<Rightarrow> int \<Rightarrow> inst" where
  "migrationRow ident at = Inst ((\<lambda>_. VNil)([0] := VString ident, [1] := int64 at)) (\<lambda>_. [])"

definition migrationAssign :: "field \<Rightarrow> goVal \<Rightarrow> goVal \<Rightarrow> packError + goVal" where
  "migrationAssign f old v =
     (if fdIndex f = [0] then rbind (scanString v) (\<lambda>s. Inr (VString s))
      else rbind (scanInt64 v) (\<lambda>n. Inr (int64 n)))"

definition migrationModel :: "'d model" where
  "migrationModel = \<lparr>mdName = ''schemaMigrationRow'', mdTable = migrationTable, mdZero = migrationRow [] 0,
     mdHook = (\<lambda>k. None), mdAssign = migrationAssign, mdUnmarshal = (\<lambda>f s. Inl (Message s)),
     mdMarshal = (\<lambda>v. Inr []), mdPK = (\<lambda>r. instVal r [0]), mdPkField = None\<rparr>"

definition rowID :: "inst \<Rightarrow> string" where
  "rowID r = (case instVal r [0] of VString s \<Rightarrow> s | _ \<Rightarrow> [])"

definition ensureMigrationsTable :: "'d engine \<Rightarrow> migrator \<Rightarrow> ('d world, unit) io" where
  "ensureMigrationsTable eg m =
     ioBind (HasTable eg m migrationRowType) (\<lambda>has.
       if has then ioRet () else MCreateTable eg m [migrationRowType])"

definition appliedIDs :: "'d engine \<Rightarrow> DB \<Rightarrow> ('d world, string set) io" where
  "appliedIDs eg db = ioBind (Find eg (Of migrationModel db)) (\<lambda>rows. ioRet (set (map rowID rows)))"

text \<open>One turn of the loop of \<open>Up\<close>. The clock is a parameter: \<open>now\<close> is what \<open>time.Now().UnixNano()\<close>
  reads in this turn (\<open>clk i\<close> in turn \<open>i\<close>). The row is a local variable behind the pointer \<open>p\<close>.\<close>

definition runMigration :: "'d engine \<Rightarrow> DB \<Rightarrow> migrator \<Rightarrow> nat \<Rightarrow> 'd migration \<Rightarrow> int \<Rightarrow> ('d world, unit) io" where
  "runMigration eg db m p mig now =
     ioBind (ioMapErr (Wrapped (''pack/migrate: migrating '' @ mgrID mig)) (mgrMigrate mig m)) (\<lambda>_ w.
       ioMapErr (Wrapped (''pack/migrate: recording '' @ mgrID mig))
         (Create eg migrationModel db [] p)
         (w\<lparr>wHeap := (wHeap w)(p := migrationRow (mgrID mig) now)\<rparr>))"

definition Up :: "'d engine \<Rightarrow> (dialect \<Rightarrow> ddl option) \<Rightarrow> (goTy \<Rightarrow> goType) \<Rightarrow> (nat \<Rightarrow> int) \<Rightarrow> nat \<Rightarrow> 'd migration list \<Rightarrow> DB \<Rightarrow> ('d world, unit) io" where
  "Up eg dd kind clk p registered db =
     ioBind (newMigrator dd kind db) (\<lambda>m.
     ioBind (ensureMigrationsTable eg m) (\<lambda>_.
     ioBind (appliedIDs eg db) (\<lambda>applied.
       ioEach (\<lambda>(i, mig). if mgrID mig \<in> applied then ioRet () else runMigration eg db m p mig (clk i))
         (enumerate 0 (Registered registered)))))"

definition Down :: "'d engine \<Rightarrow> (dialect \<Rightarrow> ddl option) \<Rightarrow> (goTy \<Rightarrow> goType) \<Rightarrow> 'd migration list \<Rightarrow> DB \<Rightarrow> ('d world, unit) io" where
  "Down eg dd kind registered db =
     ioBind (newMigrator dd kind db) (\<lambda>m.
     ioBind (ensureMigrationsTable eg m) (\<lambda>_ w.
       case First eg (QOrder [Desc (QualifiedCol ''schema_migrations'' ''applied_at'')] (Of migrationModel db)) w of
         (Panic s, w') \<Rightarrow> (Panic s, w')
       | (Fail e, w') \<Rightarrow> if isPackNoRows e then (Ret (), w') else (Fail e, w')
       | (Ret row, w') \<Rightarrow>
           (case findRegistered registered (rowID row) of
              None \<Rightarrow> (Fail (Message (''pack/migrate: schema_migrations records '' @ rowID row
                @ '' as applied, but no migration with that ID is registered'')), w')
            | Some mig \<Rightarrow>
                ioBind (ioMapErr (Wrapped (''pack/migrate: rolling back '' @ mgrID mig)) (mgrRollback mig m)) (\<lambda>_.
                ioBind (ioMapErr (Wrapped (''pack/migrate: removing record for '' @ mgrID mig))
                          (QDelete eg (QWhere (Eq (QualifiedCol ''schema_migrations'' ''id'') (VString (rowID row)))
                            (Of migrationModel db)))) (\<lambda>_. ioRet ())) w')))"

end
