(* ===== verification/MigrateClaims.thy ===== *)
theory MigrateClaims
  imports Migrate PackQueryClaims "HOL-Library.Multiset"
begin

text \<open>
  What the runner of \<open>pack/migrate\<close> promises: \<open>Up\<close> applies the pending migrations in the order
  of their IDs, records each one it has applied and stops at the first failure; what SQLite's
  rebuild of a table sends, and what it leaves behind when it fails. The database is a
  parameter; what is relied on of it is \<open>trackLaws\<close>, and a concrete database shows that the
  laws can hold.
\<close>

section \<open>The table of applied migrations\<close>

text \<open>The model of \<open>schemaMigrationRow\<close> is what \<open>schema.For\<close> builds from the struct.\<close>

lemma migrationRowType_schema: "mtSchema migrationRowType = Inr migrationTable"
proof -
  have "fold (\<lambda>f m. m(fdColumn f \<mapsto> f)) [idField, appliedAtField] Map.empty
      = [''id'' \<mapsto> idField, ''applied_at'' \<mapsto> appliedAtField]"
    by (simp add: idField_def appliedAtField_def)
  then show ?thesis
    by (simp add: migrationRowType_def build_def schemaMigrationRow_def migrationMethods_def migrationTable_def
        walk0_def walkField_def walkStructTag_def ParseFieldTag_def ParseStructTag_def structOption_def
        parseColumnTag_def columnOption_def columnName_def resolveTableName_def isCompositeKeyCandidate_def
        detectHooks_def detectHook_def isOptionLike_def bareColumnOptions_def prefixColumnOptions_def
        hasPrefix_def trimPrefix_def noStructOptions_def noOptions_def toSnakeCase_def idField_def
        appliedAtField_def noHooks_def)
qed

definition migrationInsert :: "string \<Rightarrow> int \<Rightarrow> goVal insertBuilder" where
  "migrationInsert ident at =
     Values [SetVal (Col ''id'') (VString ident), SetVal (Col ''applied_at'') (int64 at)] 
       (Insert \<lparr>tblName = ''schema_migrations'', tblAlias = ''schema_migrations''\<rparr>)"

lemma create_migration:
  assumes "wHeap w p = migrationRow ident at"
  shows "Create eg migrationModel db [] p w
     = ioBind (sendExec eg db ''Create'' ''schemaMigrationRow'' (renderInsert (dbDialect db) (migrationInsert ident at)))
         (\<lambda>_. ioRet ()) w"
proof -
  let ?t = "mdTable (migrationModel :: 'a model)"
  have f: "createFields (migrationModel :: 'a model) (migrationRow ident at) (stFields ?t)
      = Inr ([SetVal (Col ''id'') (VString ident), SetVal (Col ''applied_at'') (int64 at)], [])"
    by (simp add: migrationModel_def migrationTable_def idField_def appliedAtField_def noOptions_def migrationRow_def
        bindableValue_def isJson_def int64_def)
  have t: "stHooks ?t = noHooks" "\<not> stPKIsComposite ?t" "mdName (migrationModel :: 'a model) = ''schemaMigrationRow''"
      "modelTable (migrationModel :: 'a model) = \<lparr>tblName = ''schema_migrations'', tblAlias = ''schema_migrations''\<rparr>"
    by (simp_all add: migrationModel_def migrationTable_def modelTable_def)
  show ?thesis
    using assms f
    by (simp add: Create_def Let_def fireHook_def fireAfterInsert_def t noHooks_def
        withConflict_def doNothing_def migrationInsert_def io_simps)
qed

lemma migrationInsert_renders:
  obtains s args where "renderInsert d (migrationInsert ident at) = Inr (s, args)"
proof -
  have "insertErr d (migrationInsert ident at) = None"
    by (simp add: insertErr_def migrationInsert_def Values_def Insert_def rowsErr_def setsErr_def conflictUpdates_def)
  then show ?thesis using that by (simp add: renderInsert_tokens)
qed

lemma migrationFind_renders:
  obtains s args where "renderSelect (dbDialect db) (buildSelect (Of (migrationModel :: 'd model) db)) = Inr (s, args)"
proof -
  have "selectErr (dbDialect db) (buildSelect (Of (migrationModel :: 'd model) db)) = None"
    by (simp add: selectErr_def buildSelect_def Of_def Let_def IsZero_def Select_def Columns_def lockErr_def)
  then show ?thesis using that by (simp add: renderSelect_tokens)
qed

section \<open>What is relied on\<close>

text \<open>A view of the database: the recorded migrations, if their table exists, and everything
  else. Any statement may fail; a write that fails changes nothing.\<close>

record ('d, 's) trackView =
  tkRecorded :: "'d \<Rightarrow> (string \<times> int) list option"
  tkRest :: "'d \<Rightarrow> 's"

definition sameView :: "('d, 's) trackView \<Rightarrow> 'd \<Rightarrow> 'd \<Rightarrow> bool" where
  "sameView v d d' \<longleftrightarrow> tkRecorded v d' = tkRecorded v d \<and> tkRest v d' = tkRest v d"

definition recordedIDs :: "('d, 's) trackView \<Rightarrow> 'd \<Rightarrow> string list" where
  "recordedIDs v d = (case tkRecorded v d of None \<Rightarrow> [] | Some l \<Rightarrow> map fst l)"

definition existsLaw :: "('d, 's) trackView \<Rightarrow> 'd engine \<Rightarrow> DB \<Rightarrow> ddl \<Rightarrow> bool" where
  "existsLaw v eg db g \<longleftrightarrow>
     (\<forall>d r d'. egQuery eg (dbConn db) (fst (HasTableSQL g ''schema_migrations''))
          (map VString (snd (HasTableSQL g ''schema_migrations''))) d = (r, d') \<longrightarrow>
        sameView v d d'
        \<and> (case r of Inl e \<Rightarrow> True
           | Inr rows \<Rightarrow> \<exists>x. rsRows rows = [[x]] \<and> scanBool x = Inr (tkRecorded v d \<noteq> None)))"

definition createLaw :: "('d, 's) trackView \<Rightarrow> 'd engine \<Rightarrow> DB \<Rightarrow> migrator \<Rightarrow> bool" where
  "createLaw v eg db m \<longleftrightarrow>
     (\<forall>s d r d'. renderCreateTable (dbDialect db) (Some (mgDdl m))
            (modelColumns m migrationTable (CreateTable (sqlTable migrationTable))) = Inr s \<longrightarrow>
        egExec eg (dbConn db) s [] d = (r, d') \<longrightarrow>
        tkRest v d' = tkRest v d \<and> tkRecorded v d' = (case r of Inl e \<Rightarrow> tkRecorded v d | Inr _ \<Rightarrow> Some []))"

definition findLaw :: "('d, 's) trackView \<Rightarrow> 'd engine \<Rightarrow> DB \<Rightarrow> bool" where
  "findLaw v eg db \<longleftrightarrow>
     (\<forall>s args d r d'. renderSelect (dbDialect db) (buildSelect (Of (migrationModel :: 'd model) db)) = Inr (s, args) \<longrightarrow>
        egQuery eg (dbConn db) s args d = (r, d') \<longrightarrow>
        sameView v d d'
        \<and> (\<forall>rows. r = Inr rows \<and> rsErr rows = None \<longrightarrow> rsColumns rows = [''id'', ''applied_at'']
             \<and> list_all2 (\<lambda>vs x. \<exists>a b n. vs = [a, b] \<and> scanString a = Inr (fst x) \<and> scanInt64 b = Inr n)
                 (rsRows rows) (case tkRecorded v d of None \<Rightarrow> [] | Some l \<Rightarrow> l)))"

definition insertLaw :: "('d, 's) trackView \<Rightarrow> 'd engine \<Rightarrow> DB \<Rightarrow> bool" where
  "insertLaw v eg db \<longleftrightarrow>
     (\<forall>ident at s args d r d'. renderInsert (dbDialect db) (migrationInsert ident at) = Inr (s, args) \<longrightarrow>
        egExec eg (dbConn db) s args d = (r, d') \<longrightarrow>
        tkRest v d' = tkRest v d
        \<and> tkRecorded v d' = (case r of Inl e \<Rightarrow> tkRecorded v d | Inr _ \<Rightarrow> map_option (\<lambda>l. l @ [(ident, at)]) (tkRecorded v d)))"

definition trackLaws :: "('d, 's) trackView \<Rightarrow> 'd engine \<Rightarrow> migrator \<Rightarrow> bool" where
  "trackLaws v eg m \<longleftrightarrow> existsLaw v eg (mgDb m) (mgDdl m) \<and> createLaw v eg (mgDb m) m
     \<and> findLaw v eg (mgDb m) \<and> insertLaw v eg (mgDb m)"

text \<open>A migration acts on the rest of the database, and leaves the records alone.\<close>

definition actsOn :: "('d, 's) trackView \<Rightarrow> migrator \<Rightarrow> ('d migration \<Rightarrow> 's \<Rightarrow> unit outcome \<times> 's) \<Rightarrow> 'd migration \<Rightarrow> bool" where
  "actsOn v m act mig \<longleftrightarrow>
     (\<forall>w r w'. mgrMigrate mig m w = (r, w') \<longrightarrow>
        tkRecorded v (wDb w') = tkRecorded v (wDb w) \<and> (r, tkRest v (wDb w')) = act mig (tkRest v (wDb w)))"

definition appliedTo :: "('m \<Rightarrow> 's \<Rightarrow> unit outcome \<times> 's) \<Rightarrow> 'm list \<Rightarrow> 's \<Rightarrow> 's" where
  "appliedTo act ms s = fold (\<lambda>m s. snd (act m s)) ms s"

lemma appliedTo_simps [simp]:
  "appliedTo act [] s = s" "appliedTo act (m # ms) s = appliedTo act ms (snd (act m s))"
  by (simp_all add: appliedTo_def)

section \<open>One migration\<close>

lemma runMigration_steps:
  assumes laws: "trackLaws v eg m" and db: "db = mgDb m" and act: "actsOn v m act mig"
    and run: "runMigration eg db m p mig now w = (r, w')"
  shows "tkRest v (wDb w') = snd (act mig (tkRest v (wDb w)))
    \<and> (if r = Ret () then fst (act mig (tkRest v (wDb w))) = Ret ()
          \<and> tkRecorded v (wDb w') = map_option (\<lambda>l. l @ [(mgrID mig, now)]) (tkRecorded v (wDb w))
       else tkRecorded v (wDb w') = tkRecorded v (wDb w))"
proof -
  obtain r1 w1 where g: "mgrMigrate mig m w = (r1, w1)" by fastforce
  with act have a: "tkRecorded v (wDb w1) = tkRecorded v (wDb w)"
      "act mig (tkRest v (wDb w)) = (r1, tkRest v (wDb w1))"
    unfolding actsOn_def by metis+
  show ?thesis
  proof (cases r1)
    case (Ret u)
    let ?w = "w1\<lparr>wHeap := (wHeap w1)(p := migrationRow (mgrID mig) now)\<rparr>"
    obtain s args where st: "renderInsert (dbDialect db) (migrationInsert (mgrID mig) now) = Inr (s, args)"
      by (rule migrationInsert_renders)
    obtain r2 d2 where e: "egExec eg (dbConn db) s args (wDb w1) = (r2, d2)" by fastforce
    then have e': "egExec eg (dbConn db) s args (wDb ?w) = (r2, d2)" by simp
    obtain tr where x: "execContext eg db ''Create'' ''schemaMigrationRow'' s args ?w
        = (case r2 of Inl e \<Rightarrow> Fail (classifyError (dbErrDecoder db) ''Create'' ''schemaMigrationRow'' e) | Inr res \<Rightarrow> Ret res,
           ?w\<lparr>wDb := d2, wTrace := wTrace ?w @ tr\<rparr>)"
      using execContext_result [OF e'] by blast
    have l: "tkRest v d2 = tkRest v (wDb w1)"
        "tkRecorded v d2 = (case r2 of Inl e \<Rightarrow> tkRecorded v (wDb w1)
            | Inr _ \<Rightarrow> map_option (\<lambda>l. l @ [(mgrID mig, now)]) (tkRecorded v (wDb w1)))"
      using laws st e db unfolding trackLaws_def insertLaw_def by blast+
    have "(r, w') = ioMapErr (Wrapped (''pack/migrate: recording '' @ mgrID mig)) (Create eg migrationModel db [] p) ?w"
      using run g Ret by (simp add: runMigration_def ioMapErr_def io_simps)
    then show ?thesis
      using x l a Ret
      by (cases r2) (auto simp: create_migration [of ?w p "mgrID mig" now] ioMapErr_def sendExec_def st io_simps)
  next
    case (Fail e)
    with run g a show ?thesis by (auto simp: runMigration_def ioMapErr_def io_simps)
  next
    case (Panic q)
    with run g a show ?thesis by (auto simp: runMigration_def ioMapErr_def io_simps)
  qed
qed

section \<open>The loop\<close>

text \<open>How far a run over \<open>ms\<close> got: \<open>k\<close> migrations applied and recorded, and at most one more
  begun.\<close>

definition ranTo :: "('m \<Rightarrow> 's \<Rightarrow> unit outcome \<times> 's) \<Rightarrow> 'm list \<Rightarrow> 's \<Rightarrow> nat \<Rightarrow> bool \<Rightarrow> 's \<Rightarrow> bool" where
  "ranTo act ms s k finished s' \<longleftrightarrow> k \<le> length ms
     \<and> (\<forall>i<k. fst (act (ms ! i) (appliedTo act (take i ms) s)) = Ret ())
     \<and> (if finished then k = length ms \<and> s' = appliedTo act ms s
        else s' = appliedTo act (take k ms) s \<or> k < length ms \<and> s' = appliedTo act (take (Suc k) ms) s)"

lemma ranTo_Nil: "ranTo act [] s 0 b s"
  by (simp add: ranTo_def)

lemma ranTo_stop: "ranTo act (m # ms) s 0 False (snd (act m s))"
  by (simp add: ranTo_def)

lemma ranTo_Cons:
  assumes "fst (act m s) = Ret ()" and "ranTo act ms (snd (act m s)) k b s'"
  shows "ranTo act (m # ms) s (Suc k) b s'"
proof -
  have "fst (act ((m # ms) ! i) (appliedTo act (take i (m # ms)) s)) = Ret ()" if "i < Suc k" for i
    using that assms by (cases i) (simp_all add: ranTo_def)
  then show ?thesis using assms(2) by (auto simp: ranTo_def)
qed

lemma up_loop:
  assumes laws: "trackLaws v eg m"
  shows "\<forall>mig\<in>set migs. actsOn v m act mig \<Longrightarrow> tkRecorded v (wDb w) = Some l \<Longrightarrow>
    ioEach (\<lambda>(i, mig). if mgrID mig \<in> applied then ioRet () else runMigration eg (mgDb m) m p mig (clk i))
      (enumerate n migs) w = (r, w') \<Longrightarrow>
    \<exists>k l'. tkRecorded v (wDb w') = Some (l @ l')
      \<and> map fst l' = map mgrID (take k (filter (\<lambda>mig. mgrID mig \<notin> applied) migs))
      \<and> ranTo act (filter (\<lambda>mig. mgrID mig \<notin> applied) migs) (tkRest v (wDb w)) k (r = Ret ()) (tkRest v (wDb w'))"
proof (induction migs arbitrary: n w l)
  case Nil
  then show ?case by (auto simp: io_simps intro!: exI [of _ 0] exI [of _ "[]"] ranTo_Nil)
next
  case (Cons mig migs)
  show ?case
  proof (cases "mgrID mig \<in> applied")
    case True
    with Cons.IH [of w l "Suc n"] Cons.prems show ?thesis by simp
  next
    case False
    obtain r1 w1 where g: "runMigration eg (mgDb m) m p mig (clk n) w = (r1, w1)" by fastforce
    note st = runMigration_steps [OF laws refl _ g, of act] Cons.prems
    show ?thesis
    proof (cases "r1 = Ret ()")
      case True
      with st have a: "tkRest v (wDb w1) = snd (act mig (tkRest v (wDb w)))" "fst (act mig (tkRest v (wDb w))) = Ret ()"
          "tkRecorded v (wDb w1) = Some (l @ [(mgrID mig, clk n)])" by simp_all
      from Cons.IH [of w1 "l @ [(mgrID mig, clk n)]" "Suc n"] Cons.prems g True a(3) False
      obtain k l' where k: "tkRecorded v (wDb w') = Some ((l @ [(mgrID mig, clk n)]) @ l')"
          "map fst l' = map mgrID (take k (filter (\<lambda>mig. mgrID mig \<notin> applied) migs))"
          "ranTo act (filter (\<lambda>mig. mgrID mig \<notin> applied) migs) (tkRest v (wDb w1)) k (r = Ret ()) (tkRest v (wDb w'))"
        by (auto simp: io_simps)
      show ?thesis
        using k(1,2) False ranTo_Cons [of act mig "tkRest v (wDb w)", OF a(2)] k(3) a(1)
        by (intro exI [of _ "Suc k"] exI [of _ "(mgrID mig, clk n) # l'"]) simp
    next
      case no: False
      with Cons.prems g False have "r \<noteq> Ret () \<and> w' = w1"
        by (cases r1) (auto simp: io_simps)
      with st no False show ?thesis
        by (intro exI [of _ 0] exI [of _ "[]"]) (simp add: ranTo_stop)
    qed
  qed
qed

section \<open>Reading the records\<close>

lemma scan_records:
  assumes "list_all2 (\<lambda>vs x. \<exists>a b n. vs = [a, b] \<and> scanString a = Inr (fst x) \<and> scanInt64 b = Inr n) rows l"
  obtains rs where "scanAll (migrationModel :: 'd model) [Some idField, Some appliedAtField] rows None = Inr rs"
    and "map rowID rs = map fst l"
proof -
  have one: "scanInto (migrationModel :: 'd model) [Some idField, Some appliedAtField] [a, b] (migrationRow [] 0)
      = Inr (migrationRow i n)" if "scanString a = Inr i" "scanInt64 b = Inr n" for a b i n
    using that
    by (simp add: scanField_def isJson_def idField_def appliedAtField_def noOptions_def migrationModel_def migrationAssign_def
        migrationRow_def setVal_def fun_eq_iff)
  have z: "mdZero (migrationModel :: 'd model) = migrationRow [] 0" by (simp add: migrationModel_def)
  have i: "rowID (migrationRow i n) = i" for i n by (simp add: rowID_def migrationRow_def)
  from assms have "\<exists>rs. scanAll (migrationModel :: 'd model) [Some idField, Some appliedAtField] rows None = Inr rs
      \<and> map rowID rs = map fst l"
    by (induction rows l rule: list_all2_induct) (auto simp: one z i simp del: scanInto.simps)
  then show ?thesis using that by blast
qed

lemma scanAll_err: "scanAll md plan rows (Some e) \<noteq> Inr xs"
  by (induction rows arbitrary: xs) (auto simp: rbind_eq_Inr)

lemma find_records:
  assumes law: "findLaw v eg db" and run: "appliedIDs eg db w = (r, w')"
  shows "sameView v (wDb w) (wDb w') \<and> (\<forall>ids. r = Ret ids \<longrightarrow> ids = set (recordedIDs v (wDb w)))"
proof -
  let ?md = "migrationModel :: 'a model"
  obtain s args where st: "renderSelect (dbDialect db) (buildSelect (Of ?md db)) = Inr (s, args)"
    by (rule migrationFind_renders)
  obtain q d' where e: "egQuery eg (dbConn db) s args (wDb w) = (q, d')" by fastforce
  have l: "sameView v (wDb w) d'"
      "\<And>rows. q = Inr rows \<Longrightarrow> rsErr rows = None \<Longrightarrow> rsColumns rows = [''id'', ''applied_at'']
         \<and> list_all2 (\<lambda>vs x. \<exists>a b n. vs = [a, b] \<and> scanString a = Inr (fst x) \<and> scanInt64 b = Inr n)
             (rsRows rows) (case tkRecorded v (wDb w) of None \<Rightarrow> [] | Some l \<Rightarrow> l)"
    using law st e unfolding findLaw_def by blast+
  obtain tr where x: "sendQuery eg (Of ?md db) ''Find'' (buildSelect (Of ?md db)) w
      = (case q of Inl e \<Rightarrow> Fail (classifyError (dbErrDecoder db) ''Find'' (mdName ?md) e) | Inr rows \<Rightarrow> Ret rows,
         w\<lparr>wDb := d', wTrace := wTrace w @ tr\<rparr>)"
    using queryContext_result [OF e, of "''Find''" "mdName ?md"] st by (auto simp: sendQuery_def Of_def)
  show ?thesis
  proof (cases q)
    case (Inl e)
    with x run l(1) show ?thesis by (auto simp: appliedIDs_def Find_def io_simps)
  next
    case (Inr rows)
    have hook: "\<not> hkAfterScan (stHooks (mdTable ?md))"
      by (simp add: migrationModel_def migrationTable_def noHooks_def)
    have f: "Find eg (Of ?md db) w
        = ioLift (scanAll ?md (NewPlan migrationTable (rsColumns rows)) (rsRows rows) (rsErr rows)) (w\<lparr>wDb := d', wTrace := wTrace w @ tr\<rparr>)"
      using x Inr hook
      by (cases "scanAll ?md (NewPlan migrationTable (rsColumns rows)) (rsRows rows) (rsErr rows)")
         (simp_all add: Find_def io_simps scan_without_hook Of_def migrationModel_def)
    show ?thesis
    proof (cases "rsErr rows")
      case None
      obtain rs where rs: "scanAll ?md [Some idField, Some appliedAtField] (rsRows rows) None = Inr rs"
          "map rowID rs = map fst (case tkRecorded v (wDb w) of None \<Rightarrow> [] | Some l \<Rightarrow> l)"
        by (rule scan_records [OF conjunct2 [OF l(2) [OF Inr None]], where 'd = 'a])
      have "Find eg (Of ?md db) w = (Ret rs, w\<lparr>wDb := d', wTrace := wTrace w @ tr\<rparr>)"
        using f None l(2) [OF Inr None] rs(1) by (simp add: NewPlan_def migrationTable_def io_simps)
      moreover have "map rowID rs = recordedIDs v (wDb w)"
        using rs(2) by (simp add: recordedIDs_def split: option.split)
      ultimately show ?thesis
        using run l(1) by (auto simp: appliedIDs_def io_simps simp flip: set_map)
    next
      case (Some e)
      with f scanAll_err [of ?md "NewPlan migrationTable (rsColumns rows)" "rsRows rows" e] obtain e' where "Find eg (Of ?md db) w = (Fail e', w\<lparr>wDb := d', wTrace := wTrace w @ tr\<rparr>)"
        by (cases "scanAll ?md (NewPlan migrationTable (rsColumns rows)) (rsRows rows) (rsErr rows)")
           (auto simp: io_simps)
      with run l(1) show ?thesis by (auto simp: appliedIDs_def io_simps)
    qed
  qed
qed

lemma queryExists_law:
  assumes law: "existsLaw v eg db g"
    and run: "queryExists eg db op name (HasTableSQL g ''schema_migrations'') w = (r, w')"
  shows "sameView v (wDb w) (wDb w') \<and> (\<forall>b. r = Ret b \<longrightarrow> b = (tkRecorded v (wDb w) \<noteq> None))"
proof -
  let ?q = "HasTableSQL g ''schema_migrations''"
  obtain q d' where e: "egQuery eg (dbConn db) (fst ?q) (map VString (snd ?q)) (wDb w) = (q, d')" by fastforce
  note l = law [unfolded existsLaw_def, rule_format, OF e]
  obtain tr where x: "queryContext eg db op name (fst ?q) (map VString (snd ?q)) w
      = (case q of Inl e \<Rightarrow> Fail (classifyError (dbErrDecoder db) op name e) | Inr rows \<Rightarrow> Ret rows,
         w\<lparr>wDb := d', wTrace := wTrace w @ tr\<rparr>)"
    using queryContext_result [OF e, of op name] by blast
  show ?thesis
    using run x l by (cases q) (auto simp: queryExists_def io_simps)
qed

lemma ensure_records:
  assumes laws: "trackLaws v eg m" and run: "ensureMigrationsTable eg m w = (r, w')"
  shows "tkRest v (wDb w') = tkRest v (wDb w) \<and> recordedIDs v (wDb w') = recordedIDs v (wDb w)
    \<and> (r = Ret () \<longrightarrow> tkRecorded v (wDb w') \<noteq> None)"
proof -
  have laws': "existsLaw v eg (mgDb m) (mgDdl m)" "createLaw v eg (mgDb m) m"
    using laws by (simp_all add: trackLaws_def)
  obtain q w1 where h: "HasTable eg m migrationRowType w = (q, w1)" by fastforce
  then have x: "sameView v (wDb w) (wDb w1) \<and> (\<forall>b. q = Ret b \<longrightarrow> b = (tkRecorded v (wDb w) \<noteq> None))"
    by (intro queryExists_law [OF laws'(1), of "''HasTable''" "mtName migrationRowType"])
       (simp add: HasTable_def schemaForOrPanic_def migrationRowType_schema migrationTable_def)
  show ?thesis
  proof (cases "q = Ret False")
    case True
    then have none: "tkRecorded v (wDb w1) = None" using x by (auto simp: sameView_def)
    let ?c = "renderCreateTable (dbDialect (mgDb m)) (Some (mgDdl m)) (modelColumns m migrationTable (CreateTable (sqlTable migrationTable)))"
    have c: "(r, w') = ioBind (runDDL eg (mgDb m) ''CreateTable'' (mtName migrationRowType) ?c) (\<lambda>_. ioRet ()) w1"
    proof -
      have "ensureMigrationsTable eg m w = MCreateTable eg m [migrationRowType] w1"
        using h True by (simp add: ensureMigrationsTable_def ioBind_ret [of _ w False w1])
      with run show ?thesis by (simp add: MCreateTable_def schemaForOrPanic_def migrationRowType_schema)
    qed
    show ?thesis
    proof (cases ?c)
      case (Inl e)
      with c x none show ?thesis by (auto simp: runDDL_def ioDdl_def io_simps sameView_def recordedIDs_def)
    next
      case (Inr s)
      obtain q2 d2 where e: "egExec eg (dbConn (mgDb m)) s [] (wDb w1) = (q2, d2)" by fastforce
      note l = laws'(2) [unfolded createLaw_def, rule_format, OF Inr e]
      obtain tr where "execContext eg (mgDb m) ''CreateTable'' (mtName migrationRowType) s [] w1
          = (case q2 of Inl e \<Rightarrow> Fail (classifyError (dbErrDecoder (mgDb m)) ''CreateTable'' (mtName migrationRowType) e) | Inr res \<Rightarrow> Ret res,
             w1\<lparr>wDb := d2, wTrace := wTrace w1 @ tr\<rparr>)"
        using execContext_result [OF e] by blast
      with c Inr l x none show ?thesis
        by (cases q2) (auto simp: runDDL_def ioDdl_def io_simps sameView_def recordedIDs_def)
    qed
  next
    case False
    have "ensureMigrationsTable eg m w = (case q of Ret _ \<Rightarrow> Ret () | Fail e \<Rightarrow> Fail e | Panic s \<Rightarrow> Panic s, w1)"
      using h False by (cases q) (auto simp: ensureMigrationsTable_def ioBind_ret [of _ w True w1] io_simps)
    then show ?thesis
      using run x False by (cases q) (auto simp: sameView_def recordedIDs_def)
  qed
qed

section \<open>Up\<close>

definition pendingOf :: "'d migration list \<Rightarrow> string list \<Rightarrow> 'd migration list" where
  "pendingOf registered ids = filter (\<lambda>mig. mgrID mig \<notin> set ids) (Registered registered)"

lemma pendingOf_sorted: "sorted (map mgrID (pendingOf registered ids))"
  unfolding pendingOf_def Registered_def by (rule sorted_filter) simp

lemma pendingOf_mset:
  "mset (pendingOf registered ids) = filter_mset (\<lambda>mig. mgrID mig \<notin> set ids) (mset registered)"
  by (simp add: pendingOf_def Registered_def)

lemma ranTo_none: "ranTo act ms s 0 False s"
  by (simp add: ranTo_def)

lemma up_ran:
  assumes dd: "dd (dbDialect db) = Some g" and m: "m = \<lparr>mgDb = db, mgDdl = g, mgKind = kind\<rparr>"
    and laws: "trackLaws v eg m" and acts: "\<forall>mig\<in>set registered. actsOn v m act mig"
    and run: "Up eg dd kind clk p registered db w = (r, w')"
  shows "\<exists>k. recordedIDs v (wDb w') = recordedIDs v (wDb w) @ map mgrID (take k (pendingOf registered (recordedIDs v (wDb w))))
    \<and> ranTo act (pendingOf registered (recordedIDs v (wDb w))) (tkRest v (wDb w)) k (r = Ret ()) (tkRest v (wDb w'))"
proof -
  let ?old = "recordedIDs v (wDb w)"
  have db: "db = mgDb m" using m by simp
  let ?F = "\<lambda>applied. ioEach (\<lambda>(i, mig). if mgrID mig \<in> applied then ioRet () else runMigration eg (mgDb m) m p mig (clk i))
      (enumerate 0 (Registered registered))"
  obtain r1 w1 where e: "ensureMigrationsTable eg m w = (r1, w1)" by fastforce
  note ens = ensure_records [OF laws e]
  have up: "(r, w') = ioBind (ensureMigrationsTable eg m) (\<lambda>_. ioBind (appliedIDs eg db) ?F) w"
    using run dd unfolding m by (simp add: Up_def newMigrator_def cong: if_cong)
  show ?thesis
  proof (cases r1)
    case (Ret u)
    with ens obtain l where l: "tkRecorded v (wDb w1) = Some l" by auto
    then have old: "map fst l = ?old" using ens by (simp add: recordedIDs_def)
    obtain r2 w2 where a: "appliedIDs eg db w1 = (r2, w2)" by fastforce
    have "findLaw v eg db" using laws db by (simp add: trackLaws_def)
    note fnd = find_records [OF this a]
    show ?thesis
    proof (cases r2)
      case (Ret ids)
      with fnd ens have ids: "ids = set ?old" "tkRecorded v (wDb w2) = Some l" "tkRest v (wDb w2) = tkRest v (wDb w)"
        using l by (auto simp: sameView_def)
      have "?F ids w2 = (r, w')"
        using up e a \<open>r1 = Ret u\<close> Ret by (simp add: io_simps)
      from up_loop [OF laws _ ids(2) this, of act] acts
      obtain k l' where "tkRecorded v (wDb w') = Some (l @ l')"
          "map fst l' = map mgrID (take k (pendingOf registered ?old))"
          "ranTo act (pendingOf registered ?old) (tkRest v (wDb w2)) k (r = Ret ()) (tkRest v (wDb w'))"
        by (auto simp: pendingOf_def Registered_def ids(1))
      then show ?thesis
        using old ids(3) by (intro exI [of _ k]) (simp add: recordedIDs_def)
    next
      case (Fail x)
      then show ?thesis
        using up e a \<open>r1 = Ret u\<close> ens fnd
        by (intro exI [of _ 0]) (simp add: io_simps ranTo_none sameView_def recordedIDs_def)
    next
      case (Panic x)
      then show ?thesis
        using up e a \<open>r1 = Ret u\<close> ens fnd
        by (intro exI [of _ 0]) (simp add: io_simps ranTo_none sameView_def recordedIDs_def)
    qed
  next
    case (Fail x)
    then show ?thesis using up e ens by (intro exI [of _ 0]) (simp add: io_simps ranTo_none)
  next
    case (Panic x)
    then show ?thesis using up e ens by (intro exI [of _ 0]) (simp add: io_simps ranTo_none)
  qed
qed

text \<open>C27: Up applies the registered migrations that are not recorded, in the order of their IDs,
  and records each one after it has applied it. When it returns without an error all of them
  were applied, each once, and are recorded; when anything fails, the records name exactly an
  initial segment of them, each of which succeeded, and at most the next one was begun.\<close>

theorem up_in_order:
  assumes "dd (dbDialect db) = Some g" and "trackLaws v eg \<lparr>mgDb = db, mgDdl = g, mgKind = kind\<rparr>"
    and "\<forall>mig\<in>set registered. actsOn v \<lparr>mgDb = db, mgDdl = g, mgKind = kind\<rparr> act mig"
    and "Up eg dd kind clk p registered db w = (r, w')"
  shows "\<exists>pending k. sorted (map mgrID pending)
    \<and> mset pending = filter_mset (\<lambda>mig. mgrID mig \<notin> set (recordedIDs v (wDb w))) (mset registered)
    \<and> recordedIDs v (wDb w') = recordedIDs v (wDb w) @ map mgrID (take k pending)
    \<and> (\<forall>i<k. fst (act (pending ! i) (appliedTo act (take i pending) (tkRest v (wDb w)))) = Ret ())
    \<and> k \<le> length pending
    \<and> (if r = Ret () then k = length pending \<and> tkRest v (wDb w') = appliedTo act pending (tkRest v (wDb w))
       else tkRest v (wDb w') = appliedTo act (take k pending) (tkRest v (wDb w))
         \<or> k < length pending \<and> tkRest v (wDb w') = appliedTo act (take (Suc k) pending) (tkRest v (wDb w)))"
proof -
  let ?p = "pendingOf registered (recordedIDs v (wDb w))"
  from up_ran [OF assms(1) refl assms(2-4)]
  obtain k where "recordedIDs v (wDb w') = recordedIDs v (wDb w) @ map mgrID (take k ?p)"
      "ranTo act ?p (tkRest v (wDb w)) k (r = Ret ()) (tkRest v (wDb w'))" by blast
  then show ?thesis
    using pendingOf_sorted [of registered "recordedIDs v (wDb w)"] pendingOf_mset [of registered "recordedIDs v (wDb w)"]
    by (intro exI [of _ ?p] exI [of _ k]) (auto simp: ranTo_def)
qed

section \<open>Progress\<close>

text \<open>A connection on which no statement fails.\<close>

definition reliable :: "'d engine \<Rightarrow> DB \<Rightarrow> bool" where
  "reliable eg db \<longleftrightarrow>
     (\<forall>s args d. (\<exists>rows. fst (egQuery eg (dbConn db) s args d) = Inr rows \<and> rsErr rows = None)
        \<and> (\<exists>res. fst (egExec eg (dbConn db) s args d) = Inr res))"

lemma reliable_query:
  assumes "reliable eg db"
  obtains rows tr d' where "egQuery eg (dbConn db) s args (wDb w) = (Inr rows, d')" and "rsErr rows = None"
    and "queryContext eg db op name s args w = (Ret rows, w\<lparr>wDb := d', wTrace := wTrace w @ tr\<rparr>)"
proof -
  obtain q d' where e: "egQuery eg (dbConn db) s args (wDb w) = (q, d')" by fastforce
  with assms obtain rows where "q = Inr rows" "rsErr rows = None" unfolding reliable_def by (metis fst_conv)
  with e queryContext_result [OF e, of op name] that show ?thesis by auto
qed

lemma reliable_exec:
  assumes "reliable eg db"
  obtains res w' where "execContext eg db op name s args w = (Ret res, w')"
proof -
  obtain q d' where e: "egExec eg (dbConn db) s args (wDb w) = (q, d')" by fastforce
  with assms obtain res where "q = Inr res" unfolding reliable_def by (metis fst_conv)
  with execContext_result [OF e, of op name] that show ?thesis by auto
qed

lemma ensure_returns:
  assumes laws: "trackLaws v eg m" and ok: "reliable eg (mgDb m)"
    and c: "renderCreateTable (dbDialect (mgDb m)) (Some (mgDdl m))
        (modelColumns m migrationTable (CreateTable (sqlTable migrationTable))) = Inr s"
  obtains w' where "ensureMigrationsTable eg m w = (Ret (), w')"
proof -
  let ?q = "HasTableSQL (mgDdl m) ''schema_migrations''"
  obtain rows tr d' where x: "egQuery eg (dbConn (mgDb m)) (fst ?q) (map VString (snd ?q)) (wDb w) = (Inr rows, d')"
    "queryContext eg (mgDb m) ''HasTable'' (mtName migrationRowType) (fst ?q) (map VString (snd ?q)) w
       = (Ret rows, w\<lparr>wDb := d', wTrace := wTrace w @ tr\<rparr>)"
    using reliable_query [OF ok] by metis
  have "existsLaw v eg (mgDb m) (mgDdl m)" using laws by (simp add: trackLaws_def)
  from this [unfolded existsLaw_def, rule_format, OF x(1)]
  obtain y where y: "rsRows rows = [[y]]" "scanBool y = Inr (tkRecorded v (wDb w) \<noteq> None)" by auto
  let ?w = "w\<lparr>wDb := d', wTrace := wTrace w @ tr\<rparr>"
  have h: "HasTable eg m migrationRowType w = (Ret (tkRecorded v (wDb w) \<noteq> None), ?w)"
    using x(2) y
    by (simp add: HasTable_def schemaForOrPanic_def migrationRowType_schema migrationTable_def queryExists_def io_simps)
  show ?thesis
  proof (cases "tkRecorded v (wDb w) = None")
    case True
    obtain res w2 where "execContext eg (mgDb m) ''CreateTable'' (mtName migrationRowType) s [] ?w = (Ret res, w2)"
      by (rule reliable_exec [OF ok])
    then have "ensureMigrationsTable eg m w = (Ret (), w2)"
      using h True c
      by (simp add: ensureMigrationsTable_def ioBind_ret [of _ w False ?w] MCreateTable_def schemaForOrPanic_def
          migrationRowType_schema runDDL_def ioDdl_def io_simps)
    then show ?thesis by (rule that)
  next
    case False
    then have "ensureMigrationsTable eg m w = (Ret (), ?w)"
      using h by (simp add: ensureMigrationsTable_def ioBind_ret [of _ w True ?w] io_simps)
    then show ?thesis by (rule that)
  qed
qed

lemma applied_returns:
  assumes law: "findLaw v eg db" and ok: "reliable eg db"
  obtains ids w' where "appliedIDs eg db w = (Ret ids, w')"
proof -
  let ?md = "migrationModel :: 'a model"
  obtain s args where st: "renderSelect (dbDialect db) (buildSelect (Of ?md db)) = Inr (s, args)"
    by (rule migrationFind_renders)
  obtain rows tr d' where x: "egQuery eg (dbConn db) s args (wDb w) = (Inr rows, d')" "rsErr rows = None"
    "queryContext eg db ''Find'' (mdName ?md) s args w = (Ret rows, w\<lparr>wDb := d', wTrace := wTrace w @ tr\<rparr>)"
    using reliable_query [OF ok] by metis
  have l: "rsColumns rows = [''id'', ''applied_at''] \<and>
      list_all2 (\<lambda>vs x. \<exists>a b n. vs = [a, b] \<and> scanString a = Inr (fst x) \<and> scanInt64 b = Inr n)
             (rsRows rows) (case tkRecorded v (wDb w) of None \<Rightarrow> [] | Some l \<Rightarrow> l)"
    using law [unfolded findLaw_def, rule_format, OF st x(1)] x(2) by blast
  have hook: "\<not> hkAfterScan (stHooks (mdTable ?md))" by (simp add: migrationModel_def migrationTable_def noHooks_def)
  obtain rs where "scanAll ?md [Some idField, Some appliedAtField] (rsRows rows) None = Inr rs"
    by (rule scan_records [OF conjunct2 [OF l], where 'd = 'a])
  with scan_without_hook(2) [OF hook, of rows] have "scanAllRows ?md rows = ioRet rs"
    using x(2) l by (simp add: migrationModel_def NewPlan_def migrationTable_def)
  then show ?thesis
    using that x(3) st by (simp add: appliedIDs_def Find_def sendQuery_def Of_def io_simps)
qed

lemma runMigration_returns:
  assumes ok: "reliable eg db" and act: "actsOn v m act mig"
    and good: "fst (act mig (tkRest v (wDb w))) = Ret ()"
  obtains w' where "runMigration eg db m p mig now w = (Ret (), w')"
proof -
  obtain r1 w1 where g: "mgrMigrate mig m w = (r1, w1)" by fastforce
  with act good have r1: "r1 = Ret ()" unfolding actsOn_def by (metis fst_conv)
  let ?w = "w1\<lparr>wHeap := (wHeap w1)(p := migrationRow (mgrID mig) now)\<rparr>"
  obtain s args where st: "renderInsert (dbDialect db) (migrationInsert (mgrID mig) now) = Inr (s, args)"
    by (rule migrationInsert_renders)
  obtain res w2 where "execContext eg db ''Create'' ''schemaMigrationRow'' s args ?w = (Ret res, w2)"
    by (rule reliable_exec [OF ok])
  then have "runMigration eg db m p mig now w = (Ret (), w2)"
    using g r1 by (simp add: runMigration_def create_migration [of ?w p "mgrID mig" now] ioMapErr_def sendExec_def st io_simps)
  then show ?thesis by (rule that)
qed

text \<open>The migrations of a list all succeed, each after those before it.\<close>

fun allSucceed :: "('m \<Rightarrow> 's \<Rightarrow> unit outcome \<times> 's) \<Rightarrow> 'm list \<Rightarrow> 's \<Rightarrow> bool" where
  "allSucceed act [] s = True"
| "allSucceed act (m # ms) s = (fst (act m s) = Ret () \<and> allSucceed act ms (snd (act m s)))"

lemma loop_returns:
  assumes laws: "trackLaws v eg m" and ok: "reliable eg (mgDb m)"
  shows "\<forall>mig\<in>set migs. actsOn v m act mig \<Longrightarrow>
    allSucceed act (filter (\<lambda>mig. mgrID mig \<notin> applied) migs) (tkRest v (wDb w)) \<Longrightarrow>
    \<exists>w'. ioEach (\<lambda>(i, mig). if mgrID mig \<in> applied then ioRet () else runMigration eg (mgDb m) m p mig (clk i))
      (enumerate n migs) w = (Ret (), w')"
proof (induction migs arbitrary: n w)
  case Nil
  then show ?case by (simp add: io_simps)
next
  case (Cons mig migs)
  show ?case
  proof (cases "mgrID mig \<in> applied")
    case True
    with Cons show ?thesis by simp
  next
    case False
    then have a: "actsOn v m act mig" "fst (act mig (tkRest v (wDb w))) = Ret ()"
        "allSucceed act (filter (\<lambda>mig. mgrID mig \<notin> applied) migs) (snd (act mig (tkRest v (wDb w))))"
      using Cons.prems by simp_all
    obtain w1 where g: "runMigration eg (mgDb m) m p mig (clk n) w = (Ret (), w1)"
      by (rule runMigration_returns [OF ok a(1,2)])
    have "tkRest v (wDb w1) = snd (act mig (tkRest v (wDb w)))"
      using runMigration_steps [OF laws refl a(1) g] by simp
    with Cons.IH [of w1 "Suc n"] Cons.prems a(3) g False show ?thesis by (simp add: io_simps)
  qed
qed

text \<open>C28: Up reaches the end: when no statement fails, the dialect has a type for the columns of
  the table of records, and every pending migration succeeds after those before it, Up returns
  without an error and every registered migration is recorded.\<close>

theorem up_completes:
  assumes "dd (dbDialect db) = Some g" and "trackLaws v eg \<lparr>mgDb = db, mgDdl = g, mgKind = kind\<rparr>"
    and "\<forall>mig\<in>set registered. actsOn v \<lparr>mgDb = db, mgDdl = g, mgKind = kind\<rparr> act mig"
    and "reliable eg db"
    and "ColumnDefinition g (kind (TScalar ''string'')) (toColumnSpec (noOptions\<lparr>coPK := True\<rparr>)) = Inr c1"
    and "ColumnDefinition g (kind (TScalar ''int64'')) (toColumnSpec (noOptions\<lparr>coNotNull := True\<rparr>)) = Inr c2"
    and "allSucceed act (pendingOf registered (recordedIDs v (wDb w))) (tkRest v (wDb w))"
  shows "\<exists>w'. Up eg dd kind clk p registered db w = (Ret (), w')
    \<and> mgrID ` set registered \<subseteq> set (recordedIDs v (wDb w'))
    \<and> tkRest v (wDb w') = appliedTo act (pendingOf registered (recordedIDs v (wDb w))) (tkRest v (wDb w))"
proof -
  let ?m = "\<lparr>mgDb = db, mgDdl = g, mgKind = kind\<rparr>" and ?old = "recordedIDs v (wDb w)"
  have "\<exists>s. renderCreateTable (dbDialect db) (Some g) (modelColumns ?m migrationTable (CreateTable (sqlTable migrationTable))) = Inr s"
    using assms(5,6)
    by (simp add: renderCreateTable_def asDDL_def modelColumns_def migrationTable_def ColumnDef_def CreateTable_def
        idField_def appliedAtField_def)
  then obtain s where c: "renderCreateTable (dbDialect (mgDb ?m)) (Some (mgDdl ?m))
      (modelColumns ?m migrationTable (CreateTable (sqlTable migrationTable))) = Inr s" by auto
  have ok: "reliable eg (mgDb ?m)" using assms(4) by simp
  obtain w1 where e: "ensureMigrationsTable eg ?m w = (Ret (), w1)"
    by (rule ensure_returns [OF assms(2) ok c])
  have f: "findLaw v eg db" using assms(2) by (simp add: trackLaws_def)
  obtain ids w2 where a: "appliedIDs eg db w1 = (Ret ids, w2)"
    by (rule applied_returns [OF f assms(4)])
  have ids: "ids = set ?old" "tkRest v (wDb w2) = tkRest v (wDb w)"
    using ensure_records [OF assms(2) e] find_records [OF f a] by (auto simp: sameView_def)
  have "\<exists>w'. ioEach (\<lambda>(i, mig). if mgrID mig \<in> ids then ioRet () else runMigration eg (mgDb ?m) ?m p mig (clk i))
      (enumerate 0 (Registered registered)) w2 = (Ret (), w')"
    using assms(3,7) ids by (intro loop_returns [OF assms(2) ok]) (auto simp: pendingOf_def Registered_def)
  then obtain w' where "Up eg dd kind clk p registered db w = (Ret (), w')"
    using assms(1) e a by (auto simp: Up_def newMigrator_def io_simps cong: if_cong)
  moreover from up_ran [OF assms(1) refl assms(2,3) this]
  obtain k where k: "recordedIDs v (wDb w') = ?old @ map mgrID (take k (pendingOf registered ?old))"
      "ranTo act (pendingOf registered ?old) (tkRest v (wDb w)) k True (tkRest v (wDb w'))" by auto
  moreover have "mgrID ` set registered \<subseteq> set (recordedIDs v (wDb w'))"
    using k by (auto simp: ranTo_def pendingOf_def Registered_def)
  ultimately show ?thesis by (auto simp: ranTo_def)
qed

section \<open>A database of migrations\<close>

text \<open>The records and the list of statements applied. The laws hold of it, and migrations of one
  statement act on it.\<close>

type_synonym trackDB = "(string \<times> int) list option \<times> string list"

definition trackEngine :: "trackDB engine" where
  "trackEngine = \<lparr>egQuery = (\<lambda>c s args d.
       (Inr (if args \<noteq> [] then \<lparr>rsColumns = [[]], rsRows = [[VBool (fst d \<noteq> None)]], rsErr = None\<rparr>
             else \<lparr>rsColumns = [''id'', ''applied_at''],
                    rsRows = map (\<lambda>x. [VString (fst x), int64 (signedBits 64 (snd x))]) (case fst d of None \<Rightarrow> [] | Some l \<Rightarrow> l),
                    rsErr = None\<rparr>), d)),
     egExec = (\<lambda>c s args d.
       (Inr (affected 1 0),
        case args of [VString i, VInt t w n] \<Rightarrow> (map_option (\<lambda>l. l @ [(i, n)]) (fst d), snd d)
        | _ \<Rightarrow> if hasPrefix s ''CREATE TABLE '' then (Some [], snd d) else (fst d, snd d @ [s]))),
     egBegin = (\<lambda>c d. (Inr 0, d)), egCommit = (\<lambda>t d. (Inr (), d)), egRollback = (\<lambda>t d. (Inr (), d)),
     egPin = (\<lambda>d. (Inr 0, d)), egUnpin = (\<lambda>c d. d)\<rparr>"

definition recordView :: "(trackDB, string list) trackView" where
  "recordView = \<lparr>tkRecorded = fst, tkRest = snd\<rparr>"

definition sqliteDB :: DB where
  "sqliteDB = Open SQLite []"

definition sqliteKind :: "goTy \<Rightarrow> goType" where
  "sqliteKind t = (if t = TScalar ''string'' then GoString else GoInt64)"

definition sqliteMigrator :: migrator where
  "sqliteMigrator = \<lparr>mgDb = sqliteDB, mgDdl = SQLiteDDL, mgKind = sqliteKind\<rparr>"

definition alter :: "string \<Rightarrow> trackDB migration" where
  "alter ident = \<lparr>mgrID = ident, mgrMigrate = (\<lambda>m. rawExec trackEngine (mgDb m) ''Raw'' [] (''ALTER '' @ ident)),
     mgrRollback = (\<lambda>m. ioRet ())\<rparr>"

definition alterAct :: "trackDB migration \<Rightarrow> string list \<Rightarrow> unit outcome \<times> string list" where
  "alterAct mig s = (Ret (), s @ [''ALTER '' @ mgrID mig])"

lemma alter_acts: "actsOn recordView m alterAct (alter ident)"
  by (auto simp: actsOn_def alter_def alterAct_def recordView_def rawExec_def execContext_def trackEngine_def
      affected_def beforeQuery_def afterQuery_def hasPrefix_def ioRet_def ioBind_def Let_def)

lemma track_reliable: "reliable trackEngine db"
  by (auto simp: reliable_def trackEngine_def)

lemma track_laws: "trackLaws recordView trackEngine sqliteMigrator"
proof -
  have args: "args = []" if "renderSelect (dbDialect sqliteDB) (buildSelect (Of (migrationModel :: trackDB model) sqliteDB)) = Inr (s, args)"
    for s args
  proof -
    have "selectArgs (buildSelect (Of (migrationModel :: trackDB model) sqliteDB)) = []" by code_simp
    with that show ?thesis
      by (cases "selectErr (dbDialect sqliteDB) (buildSelect (Of (migrationModel :: trackDB model) sqliteDB))")
         (simp_all add: renderSelect_tokens)
  qed
  have ins: "args = [VString i, int64 t]" if "renderInsert (dbDialect sqliteDB) (migrationInsert i t) = Inr (s, args)" for i t s args
  proof -
    have "insertArgs (dbDialect sqliteDB) (migrationInsert i t) = [VString i, int64 t]"
      by (simp add: insertArgs_def rowsArgs_def setsArgs_def conflictUpdates_def migrationInsert_def Values_def Insert_def)
    with that show ?thesis
      by (cases "insertErr (dbDialect sqliteDB) (migrationInsert i t)") (simp_all add: renderInsert_tokens)
  qed
  have bits: "- (2 ^ 63) \<le> signedBits 64 n \<and> signedBits 64 n < 2 ^ 63" for n
    by (simp add: signedBits_def)
  have "existsLaw recordView trackEngine sqliteDB SQLiteDDL"
    by (simp add: existsLaw_def SQLiteDDL_def trackEngine_def recordView_def sameView_def scanBool_def)
  moreover have "createLaw recordView trackEngine sqliteDB sqliteMigrator"
    using renderCreateTable_ok
    by (fastforce simp: createLaw_def sqliteMigrator_def trackEngine_def recordView_def hasPrefix_def)
  moreover have "findLaw recordView trackEngine sqliteDB"
    using args bits
    by (auto simp: findLaw_def trackEngine_def recordView_def sameView_def list_all2_map1 scanString_def scanInt64_def
        int64_def intro!: list_all2_refl)
  moreover have "insertLaw recordView trackEngine sqliteDB"
    using ins by (fastforce simp: insertLaw_def trackEngine_def recordView_def int64_def)
  ultimately show ?thesis by (simp add: trackLaws_def sqliteMigrator_def)
qed

definition threeAlters :: "trackDB migration list" where
  "threeAlters = [alter ''c'', alter ''a'', alter ''b'']"

definition oneApplied :: "trackDB world" where
  "oneApplied = emptyWorld (Some [(''a'', 1)], [''x''])"

lemma oneApplied_view [simp]:
  "recordedIDs recordView (wDb oneApplied) = [''a'']" "tkRest recordView (wDb oneApplied) = [''x'']"
  by (simp_all add: oneApplied_def emptyWorld_def recordedIDs_def recordView_def)

lemma threeAlters_pending: "pendingOf threeAlters [''a''] = [alter ''b'', alter ''c'']"
  by (simp add: pendingOf_def Registered_def threeAlters_def alter_def list_le_def list_less_def less_char_def)

lemma threeAlters_act: "\<forall>mig\<in>set threeAlters. actsOn recordView \<lparr>mgDb = sqliteDB, mgDdl = SQLiteDDL, mgKind = sqliteKind\<rparr> alterAct mig"
  by (simp add: threeAlters_def alter_acts)

theorem up_in_order_witness:
  "\<exists>pending k. mset pending = {#alter ''c'', alter ''b''#}
     \<and> recordedIDs recordView (wDb (snd (Up trackEngine (\<lambda>d. Some SQLiteDDL) sqliteKind int 5 threeAlters sqliteDB oneApplied)))
       = ''a'' # map mgrID (take k pending)"
proof -
  have c: "filter_mset (\<lambda>mig. mgrID mig \<notin> set [''a'']) (mset threeAlters) = {#alter ''c'', alter ''b''#}"
    by (simp add: threeAlters_def alter_def)
  from up_in_order [OF refl track_laws [unfolded sqliteMigrator_def] threeAlters_act prod.collapse [symmetric],
      where clk = int and p = 5 and w = oneApplied]
  show ?thesis unfolding oneApplied_view c by auto
qed

theorem up_completes_witness:
  "fst (Up trackEngine (\<lambda>d. Some SQLiteDDL) sqliteKind int 5 threeAlters sqliteDB oneApplied) = Ret ()
   \<and> snd (wDb (snd (Up trackEngine (\<lambda>d. Some SQLiteDDL) sqliteKind int 5 threeAlters sqliteDB oneApplied)))
     = [''x'', ''ALTER b'', ''ALTER c'']"
proof -
  have t: "ColumnDefinition SQLiteDDL (sqliteKind (TScalar ''string'')) (toColumnSpec (noOptions\<lparr>coPK := True\<rparr>)) = Inr ''TEXT''"
    "ColumnDefinition SQLiteDDL (sqliteKind (TScalar ''int64'')) (toColumnSpec (noOptions\<lparr>coNotNull := True\<rparr>)) = Inr ''INTEGER NOT NULL''"
    by (simp_all add: SQLiteDDL_def sqliteKind_def toColumnSpec_def noOptions_def sqliteColumnDefinition_def columnType_def
        sqliteBaseType_def specSuffix_def isIntegerKind_def wideInteger_def narrowInteger_def)
  have "allSucceed alterAct (pendingOf threeAlters (recordedIDs recordView (wDb oneApplied))) (tkRest recordView (wDb oneApplied))"
    by (simp add: threeAlters_pending alterAct_def)
  from up_completes [OF refl track_laws [unfolded sqliteMigrator_def] threeAlters_act track_reliable t this, of int 5]
  obtain w' where u: "Up trackEngine (\<lambda>d. Some SQLiteDDL) sqliteKind int 5 threeAlters sqliteDB oneApplied = (Ret (), w')"
    and "tkRest recordView (wDb w') = appliedTo alterAct [alter ''b'', alter ''c''] [''x'']"
    unfolding oneApplied_view threeAlters_pending by blast
  then have "snd (wDb w') = [''x'', ''ALTER b'', ''ALTER c'']"
    by (simp add: alterAct_def alter_def recordView_def)
  with u show ?thesis by simp
qed

section \<open>What goes wrong\<close>

text \<open>Migrations registered twice under one ID both run: the set of applied IDs is read once,
  before the loop. With a unique ID column the second one has changed the schema when its
  record fails.\<close>

lemma duplicate_ids_both_run: "pendingOf [alter ''a'', (alter ''a'')\<lparr>mgrRollback := h\<rparr>] []
    = [alter ''a'', (alter ''a'')\<lparr>mgrRollback := h\<rparr>]"
  by (simp add: pendingOf_def Registered_def alter_def)

text \<open>A rebuild that fails leaves foreign keys off: after the rollback nothing is sent before the
  pinned connection goes back to the pool, where other requests then use it without
  enforcement.\<close>

lemma failed_rebuild_leaves_foreign_keys_off:
  assumes "dbScope (mgDb m) = None" and "dbBeginner (mgDb m)" and "dbConn (mgDb m) = Pool"
    and "egPin eg (wDb w) = (Inr c, d1)"
    and "rawExec eg ((mgDb m)\<lparr>dbConn := PinnedTo c, dbBeginner := True, dbScope := None\<rparr>) ''PRAGMA'' [] ''PRAGMA foreign_keys = OFF''
          (w\<lparr>wDb := d1, wSeq := (wSeq w)(PinnedTo c := 0)\<rparr>) = (Ret (), w1)"
    and "Tx eg ((mgDb m)\<lparr>dbConn := PinnedTo c, dbBeginner := True, dbScope := None\<rparr>) (rebuildTable eg m mt t) w1 = (Fail e, w2)"
  shows "alterColumnViaRebuild eg m mt t w = (Fail e, w2\<lparr>wDb := egUnpin eg c (wDb w2)\<rparr>)"
  using assms
  by (simp add: alterColumnViaRebuild_def InTransaction_def PinnedConn_def onSession_def resetSeq_def io_simps Let_def)

end
