(* ===== verification/Async.thy ===== *)
theory Async
  imports Jobs "HOL-Library.Multiset"
begin

text \<open>
  The in-process job backends: \<open>jobs/backend/inline\<close>, which runs a job in the caller, and
  \<open>jobs/backend/async\<close>, a pool of worker goroutines on a buffered channel with delayed jobs and
  a concurrency limit per key.

  The async backend is a machine whose steps are what goroutines do between two synchronisations:
  a send or receive on a channel, a critical section of the mutex, a change of a wait group, the
  firing of a timer. Goroutines blocked in \<open>send\<close> (the caller of \<open>Enqueue\<close> or a fired timer) are
  the list \<open>asSending\<close>. A step that is not possible is \<open>None\<close>. Instants are nanoseconds.
\<close>

section \<open>The inline backend\<close>

definition inlineEnqueue ::
    "('f \<Rightarrow> 'j) \<Rightarrow> (bytes \<Rightarrow> 'j \<Rightarrow> 'j option) \<Rightarrow> ('j \<Rightarrow> string option) \<Rightarrow> 'f registry \<Rightarrow> enqueued \<Rightarrow> jobError option" where
  "inlineEnqueue mk unmarshal perform r e = Dispatch mk unmarshal perform r e"

section \<open>State\<close>

record slot =
  slCount :: int
  slExpiresAt :: int

datatype worker =
    WIdle
  | WGot enqueued
  | WRunning enqueued
  | WReleasing enqueued
  | WExited

record async =
  asNow :: int
  asCap :: nat
  asQueue :: "enqueued list"
  asStopped :: bool
  asWorkers :: "worker list"
  asSending :: "enqueued list"
  asTimers :: "(int \<times> enqueued) list"
  asInFlight :: int
  asSlots :: "string \<rightharpoonup> slot"

definition defaultQueueSize :: nat where
  "defaultQueueSize = 64"

definition requeueDelayMin :: int where
  "requeueDelayMin = 50000000"

definition requeueDelayJitter :: int where
  "requeueDelayJitter = 150000000"

definition asyncQueueSize :: "nat \<Rightarrow> async \<Rightarrow> async" where
  "asyncQueueSize n s = s\<lparr>asCap := n, asQueue := []\<rparr>"

definition newAsync :: "int \<Rightarrow> nat \<Rightarrow> (async \<Rightarrow> async) list \<Rightarrow> async" where
  "newAsync now workers opts =
     (let s = fold (\<lambda>f s. f s) opts
            \<lparr>asNow = now, asCap = defaultQueueSize, asQueue = [], asStopped = False, asWorkers = [],
             asSending = [], asTimers = [], asInFlight = 0, asSlots = Map.empty\<rparr>
      in s\<lparr>asWorkers := replicate workers WIdle\<rparr>)"

section \<open>The critical sections\<close>

definition tryAcquire :: "int \<Rightarrow> string \<Rightarrow> int \<Rightarrow> int \<Rightarrow> (string \<rightharpoonup> slot) \<Rightarrow> bool \<times> (string \<rightharpoonup> slot)" where
  "tryAcquire now key limit duration slots =
     (let fresh = \<lparr>slCount = 0, slExpiresAt = 0\<rparr>;
          (s, slots) = (case slots key of
                          None \<Rightarrow> (fresh, slots(key \<mapsto> fresh))
                        | Some s \<Rightarrow> if slExpiresAt s < now then (fresh, slots(key \<mapsto> fresh)) else (s, slots))
      in if limit \<le> slCount s then (False, slots)
         else (True, slots(key \<mapsto> \<lparr>slCount = slCount s + 1, slExpiresAt = now + duration\<rparr>)))"

definition release :: "string \<Rightarrow> (string \<rightharpoonup> slot) \<Rightarrow> (string \<rightharpoonup> slot)" where
  "release key slots =
     (case slots key of
        None \<Rightarrow> slots
      | Some s \<Rightarrow>
          if slCount s - 1 \<le> 0 then slots(key := None)
          else slots(key \<mapsto> s\<lparr>slCount := slCount s - 1\<rparr>))"

section \<open>Steps\<close>

text \<open>\<open>AEnqueue\<close>: the call up to the send. \<open>ATimer i\<close>: timer \<open>i\<close> fires. \<open>ASend i\<close>, \<open>ADrop i\<close>: a
  blocked send puts its job on the channel, or sees the backend stopped. \<open>AHand i k\<close>: the channel
  hands the job of a blocked send to a waiting worker. \<open>ARecv k\<close>, \<open>AExit k\<close>: the select of a
  worker. \<open>ADispatch k delay\<close>: the test of the concurrency slot, with the delay drawn when it is
  full. \<open>AFinish k\<close>: the job has run and \<open>inFlight.Done\<close> is called, before \<open>ARelease k\<close> gives the
  slot back (deferred calls run last in, first out). \<open>ATick d\<close>: time passes.\<close>

datatype action =
    AEnqueue enqueued
  | ATimer nat
  | ASend nat
  | ADrop nat
  | AHand nat nat
  | ARecv nat
  | AExit nat
  | ADispatch nat int
  | AFinish nat
  | ARelease nat
  | AClose
  | ATick int

definition dropAt :: "nat \<Rightarrow> 'a list \<Rightarrow> 'a list" where
  "dropAt i xs = take i xs @ drop (Suc i) xs"

definition asyncEnqueue :: "enqueued \<Rightarrow> async \<Rightarrow> async" where
  "asyncEnqueue e s =
     (let s1 = s\<lparr>asInFlight := asInFlight s + 1\<rparr>
      in (case eqScheduledAt e of
            None \<Rightarrow> s1\<lparr>asSending := asSending s1 @ [e]\<rparr>
          | Some at \<Rightarrow>
              if at - asNow s \<le> 0 then s1\<lparr>asSending := asSending s1 @ [e]\<rparr>
              else s1\<lparr>asTimers := asTimers s1 @ [(at, e)]\<rparr>))"

definition asyncDispatch :: "nat \<Rightarrow> enqueued \<Rightarrow> int \<Rightarrow> async \<Rightarrow> async" where
  "asyncDispatch k e delay s =
     (if eqConcurrencyKey e = [] then s\<lparr>asWorkers := (asWorkers s)[k := WRunning e]\<rparr>
      else
        (let (ok, slots) = tryAcquire (asNow s) (eqConcurrencyKey e) (eqConcurrencyLimit e) (eqConcurrencyDuration e) (asSlots s)
         in if ok then s\<lparr>asSlots := slots, asWorkers := (asWorkers s)[k := WRunning e]\<rparr>
            else s\<lparr>asSlots := slots, asTimers := asTimers s @ [(asNow s + delay, e)], asWorkers := (asWorkers s)[k := WIdle]\<rparr>))"

definition asyncFinish :: "nat \<Rightarrow> enqueued \<Rightarrow> async \<Rightarrow> async" where
  "asyncFinish k e s =
     s\<lparr>asInFlight := asInFlight s - 1,
       asWorkers := (asWorkers s)[k := (if eqConcurrencyKey e = [] then WIdle else WReleasing e)]\<rparr>"

fun asyncStep :: "async \<Rightarrow> action \<Rightarrow> async option" where
  "asyncStep s (AEnqueue e) = Some (asyncEnqueue e s)"
| "asyncStep s (ATimer i) =
     (if i < length (asTimers s) \<and> fst (asTimers s ! i) \<le> asNow s
      then Some (s\<lparr>asTimers := dropAt i (asTimers s), asSending := asSending s @ [snd (asTimers s ! i)]\<rparr>) else None)"
| "asyncStep s (ASend i) =
     (if i < length (asSending s) \<and> length (asQueue s) < asCap s
      then Some (s\<lparr>asSending := dropAt i (asSending s), asQueue := asQueue s @ [asSending s ! i]\<rparr>) else None)"
| "asyncStep s (ADrop i) =
     (if i < length (asSending s) \<and> asStopped s
      then Some (s\<lparr>asSending := dropAt i (asSending s), asInFlight := asInFlight s - 1\<rparr>) else None)"
| "asyncStep s (AHand i k) =
     (if i < length (asSending s) \<and> asQueue s = [] \<and> k < length (asWorkers s) \<and> asWorkers s ! k = WIdle
      then Some (s\<lparr>asSending := dropAt i (asSending s), asWorkers := (asWorkers s)[k := WGot (asSending s ! i)]\<rparr>) else None)"
| "asyncStep s (ARecv k) =
     (if k < length (asWorkers s) \<and> asWorkers s ! k = WIdle \<and> asQueue s \<noteq> []
      then Some (s\<lparr>asQueue := tl (asQueue s), asWorkers := (asWorkers s)[k := WGot (hd (asQueue s))]\<rparr>) else None)"
| "asyncStep s (AExit k) =
     (if k < length (asWorkers s) \<and> asWorkers s ! k = WIdle \<and> asStopped s
      then Some (s\<lparr>asWorkers := (asWorkers s)[k := WExited]\<rparr>) else None)"
| "asyncStep s (ADispatch k delay) =
     (if k < length (asWorkers s) \<and> requeueDelayMin \<le> delay \<and> delay < requeueDelayMin + requeueDelayJitter
      then (case asWorkers s ! k of WGot e \<Rightarrow> Some (asyncDispatch k e delay s) | _ \<Rightarrow> None) else None)"
| "asyncStep s (AFinish k) =
     (if k < length (asWorkers s)
      then (case asWorkers s ! k of WRunning e \<Rightarrow> Some (asyncFinish k e s) | _ \<Rightarrow> None) else None)"
| "asyncStep s (ARelease k) =
     (if k < length (asWorkers s)
      then (case asWorkers s ! k of
              WReleasing e \<Rightarrow> Some (s\<lparr>asSlots := release (eqConcurrencyKey e) (asSlots s), asWorkers := (asWorkers s)[k := WIdle]\<rparr>)
            | _ \<Rightarrow> None) else None)"
| "asyncStep s AClose = (if asStopped s then None else Some (s\<lparr>asStopped := True\<rparr>))"
| "asyncStep s (ATick d) = (if 0 \<le> d then Some (s\<lparr>asNow := asNow s + d\<rparr>) else None)"

fun asyncRun :: "action list \<Rightarrow> async \<Rightarrow> async option" where
  "asyncRun [] s = Some s"
| "asyncRun (a # as) s = (case asyncStep s a of None \<Rightarrow> None | Some s' \<Rightarrow> asyncRun as s')"

inductive asyncReach :: "async \<Rightarrow> async \<Rightarrow> bool" for s0 where
  start: "asyncReach s0 s0"
| move: "asyncReach s0 s \<Longrightarrow> asyncStep s a = Some s' \<Longrightarrow> asyncReach s0 s'"

lemma asyncRun_reach: "asyncReach s0 s \<Longrightarrow> asyncRun as s = Some s' \<Longrightarrow> asyncReach s0 s'"
  by (induction as arbitrary: s) (auto split: option.splits intro: asyncReach.move)

text \<open>\<open>Drain\<close> returns when the counter is zero (or its context is done); \<open>Close\<close> when every worker
  has left.\<close>

definition asyncDrained :: "async \<Rightarrow> bool" where
  "asyncDrained s \<longleftrightarrow> asInFlight s = 0"

definition asyncClosed :: "async \<Rightarrow> bool" where
  "asyncClosed s \<longleftrightarrow> asStopped s \<and> list_all (\<lambda>w. w = WExited) (asWorkers s)"

end
