(* ===== verification/AsyncClaims.thy ===== *)
theory AsyncClaims
  imports Async
begin

text \<open>
  Properties of the async backend: no job is lost or run twice, the wait group counts exactly the
  jobs that are not finished, the limit of a key holds as long as no lease runs out, and a backend
  that is left alone drains. Then the two ways its slots and its shutdown go wrong.
\<close>

section \<open>Where the jobs are\<close>

fun jobAt :: "worker \<Rightarrow> enqueued multiset" where
  "jobAt (WGot e) = {#e#}"
| "jobAt (WRunning e) = {#e#}"
| "jobAt _ = {#}"

definition atWorkers :: "worker list \<Rightarrow> enqueued multiset" where
  "atWorkers ws = \<Sum>\<^sub># (image_mset jobAt (mset ws))"

definition unfinished :: "async \<Rightarrow> enqueued multiset" where
  "unfinished s = mset (asSending s) + image_mset snd (mset (asTimers s)) + mset (asQueue s) + atWorkers (asWorkers s)"

text \<open>What an action takes in, and what it ends (finished or dropped at shutdown).\<close>

fun accepts :: "action \<Rightarrow> enqueued multiset" where
  "accepts (AEnqueue e) = {#e#}"
| "accepts _ = {#}"

fun ends :: "async \<Rightarrow> action \<Rightarrow> enqueued multiset" where
  "ends s (AFinish k) = jobAt (asWorkers s ! k)"
| "ends s (ADrop i) = {#asSending s ! i#}"
| "ends s _ = {#}"

fun endedBy :: "action list \<Rightarrow> async \<Rightarrow> enqueued multiset" where
  "endedBy [] s = {#}"
| "endedBy (a # as) s = ends s a + (case asyncStep s a of None \<Rightarrow> {#} | Some s' \<Rightarrow> endedBy as s')"

lemma mset_dropAt: "i < length xs \<Longrightarrow> mset xs = add_mset (xs ! i) (mset (dropAt i xs))"
  by (metis dropAt_def id_take_nth_drop mset_append mset.simps(2) union_mset_add_mset_right)

lemma length_dropAt [simp]: "i < length xs \<Longrightarrow> length (dropAt i xs) = length xs - 1"
  by (simp add: dropAt_def)

lemma atWorkers_update:
  "k < length ws \<Longrightarrow> atWorkers (ws[k := w]) + jobAt (ws ! k) = atWorkers ws + jobAt w"
proof -
  assume k: "k < length ws"
  then obtain R where R: "mset ws = add_mset (ws ! k) R" by (meson multi_member_split nth_mem_mset)
  with k have "mset (ws[k := w]) = add_mset w R" by (simp add: mset_update)
  with R show ?thesis by (simp add: atWorkers_def)
qed

lemma unfinished_step:
  assumes "asyncStep s a = Some s'"
  shows "unfinished s' + ends s a = unfinished s + accepts a"
proof -
  have take1: "i < length xs \<Longrightarrow> mset xs = mset (dropAt i xs) + {#xs ! i#}" for i and xs :: "enqueued list"
    by (simp add: mset_dropAt)
  have take2: "i < length xs \<Longrightarrow> image_mset snd (mset xs) = image_mset snd (mset (dropAt i xs)) + {#snd (xs ! i)#}"
    for i and xs :: "(int \<times> enqueued) list" by (subst mset_dropAt) simp_all
  note upd = atWorkers_update [of _ "asWorkers s"]
  show ?thesis
  proof (cases a)
    case (AEnqueue e)
    then show ?thesis using assms
      by (auto simp: asyncEnqueue_def unfinished_def Let_def split: option.splits if_splits)
  next
    case (ATimer i)
    then show ?thesis using assms take2 [of i "asTimers s"] by (auto simp: unfinished_def split: if_splits)
  next
    case (ASend i)
    then show ?thesis using assms take1 [of i "asSending s"] by (auto simp: unfinished_def split: if_splits)
  next
    case (ADrop i)
    then show ?thesis using assms take1 [of i "asSending s"] by (auto simp: unfinished_def split: if_splits)
  next
    case (AHand i k)
    then show ?thesis using assms take1 [of i "asSending s"] upd [of k "WGot (asSending s ! i)"]
      by (auto simp: unfinished_def split: if_splits)
  next
    case (ARecv k)
    then show ?thesis using assms upd [of k "WGot (hd (asQueue s))"]
      by (cases "asQueue s") (auto simp: unfinished_def split: if_splits)
  next
    case (AExit k)
    then show ?thesis using assms upd [of k WExited] by (auto simp: unfinished_def split: if_splits)
  next
    case (ADispatch k d)
    then obtain e where e: "k < length (asWorkers s)" "asWorkers s ! k = WGot e" "s' = asyncDispatch k e d s"
      using assms by (auto split: if_splits worker.splits)
    then show ?thesis using ADispatch upd [of k "WRunning e"] upd [of k WIdle]
      by (auto simp: asyncDispatch_def unfinished_def split: prod.splits)
  next
    case (AFinish k)
    then obtain e where e: "k < length (asWorkers s)" "asWorkers s ! k = WRunning e" "s' = asyncFinish k e s"
      using assms by (auto split: if_splits worker.splits)
    then show ?thesis using AFinish upd [of k "WReleasing e"] upd [of k WIdle]
      by (auto simp: asyncFinish_def unfinished_def)
  next
    case (ARelease k)
    then show ?thesis using assms upd [of k WIdle] by (auto simp: unfinished_def split: if_splits worker.splits)
  next
    case AClose
    then show ?thesis using assms by (auto simp: unfinished_def split: if_splits)
  next
    case (ATick d)
    then show ?thesis using assms by (auto simp: unfinished_def split: if_splits)
  qed
qed

lemma inFlight_step:
  assumes "asyncStep s a = Some s'"
  shows "asInFlight s' + int (size (ends s a)) = asInFlight s + int (size (accepts a))"
  using assms
  by (cases a) (auto simp: asyncEnqueue_def asyncDispatch_def asyncFinish_def Let_def
      split: if_splits option.splits worker.splits prod.splits)

lemma unfinished_run:
  "asyncRun as s = Some s' \<Longrightarrow> unfinished s' + endedBy as s = unfinished s + (\<Sum>a\<leftarrow>as. accepts a)"
proof (induction as arbitrary: s)
  case (Cons a as)
  then obtain s1 where s1: "asyncStep s a = Some s1" "asyncRun as s1 = Some s'" by (auto split: option.splits)
  have "unfinished s' + (ends s a + endedBy as s1) = (unfinished s' + endedBy as s1) + ends s a" by simp
  also have "\<dots> = (unfinished s1 + ends s a) + (\<Sum>a\<leftarrow>as. accepts a)"
    using Cons.IH [OF s1(2)] by simp
  also have "\<dots> = unfinished s + accepts a + (\<Sum>a\<leftarrow>as. accepts a)"
    using unfinished_step [OF s1(1)] by simp
  finally show ?case using s1(1) by (simp add: ac_simps)
qed simp

lemma inFlight_reach:
  assumes "asyncReach s0 s" and "asInFlight s0 = int (size (unfinished s0))"
  shows "asInFlight s = int (size (unfinished s))"
  using assms
proof (induction rule: asyncReach.induct)
  case (move s a s')
  have "int (size (unfinished s')) + int (size (ends s a)) = int (size (unfinished s)) + int (size (accepts a))"
    using arg_cong [OF unfinished_step [OF move.hyps(2)], of "\<lambda>m. int (size m)"] by simp
  with inFlight_step [OF move.hyps(2)] move.IH move.prems show ?case by simp
qed

lemma fold_queueSize:
  "\<exists>c q. fold (\<lambda>f s. f s) (map asyncQueueSize cs) s = s\<lparr>asCap := c, asQueue := q\<rparr> \<and> (asQueue s = [] \<longrightarrow> q = [])"
proof (induction cs arbitrary: s)
  case Nil
  then show ?case by (intro exI [of _ "asCap s"] exI [of _ "asQueue s"]) simp
next
  case (Cons c cs)
  from Cons [of "asyncQueueSize c s"] show ?case by (auto simp: asyncQueueSize_def)
qed

lemma newAsync_facts:
  shows "unfinished (newAsync now n (map asyncQueueSize cs)) = {#}"
    and "asInFlight (newAsync now n (map asyncQueueSize cs)) = 0"
    and "asSlots (newAsync now n (map asyncQueueSize cs)) = Map.empty"
    and "asWorkers (newAsync now n (map asyncQueueSize cs)) = replicate n WIdle"
    and "asStopped (newAsync now n (map asyncQueueSize cs)) = False"
proof -
  let ?z = "\<lparr>asNow = now, asCap = defaultQueueSize, asQueue = [], asStopped = False, asWorkers = [],
       asSending = [], asTimers = [], asInFlight = 0, asSlots = Map.empty\<rparr>"
  obtain c where "fold (\<lambda>f s. f s) (map asyncQueueSize cs) ?z = ?z\<lparr>asCap := c\<rparr>"
    using fold_queueSize [of cs ?z] by auto
  then have s: "newAsync now n (map asyncQueueSize cs) = ?z\<lparr>asCap := c, asWorkers := replicate n WIdle\<rparr>"
    by (simp add: newAsync_def Let_def)
  have "atWorkers (replicate n WIdle) = {#}" by (simp add: atWorkers_def)
  then show "unfinished (newAsync now n (map asyncQueueSize cs)) = {#}" by (simp add: s unfinished_def)
  show "asInFlight (newAsync now n (map asyncQueueSize cs)) = 0"
    "asSlots (newAsync now n (map asyncQueueSize cs)) = Map.empty"
    "asWorkers (newAsync now n (map asyncQueueSize cs)) = replicate n WIdle"
    "asStopped (newAsync now n (map asyncQueueSize cs)) = False" by (simp_all add: s)
qed

text \<open>C29: Whatever the workers, timers and callers do, every job the async backend accepted is in
  exactly one place: still unfinished, or ended exactly once (by running, or dropped by a send
  that saw the backend stopped). The wait group counts exactly the unfinished jobs, so it never
  goes negative, and Drain returns only when every accepted job has ended.\<close>

theorem async_conserves_jobs:
  assumes "asyncRun as (newAsync now n (map asyncQueueSize cs)) = Some s"
  shows "unfinished s + endedBy as (newAsync now n (map asyncQueueSize cs)) = (\<Sum>a\<leftarrow>as. accepts a)
    \<and> asInFlight s = int (size (unfinished s))
    \<and> (asyncDrained s \<longleftrightarrow> endedBy as (newAsync now n (map asyncQueueSize cs)) = (\<Sum>a\<leftarrow>as. accepts a))"
proof -
  let ?s0 = "newAsync now n (map asyncQueueSize cs)"
  have u: "unfinished s + endedBy as ?s0 = (\<Sum>a\<leftarrow>as. accepts a)"
    using unfinished_run [OF assms] by (simp add: newAsync_facts)
  moreover have "asInFlight s = int (size (unfinished s))"
    by (rule inFlight_reach [OF asyncRun_reach [OF asyncReach.start assms]]) (simp add: newAsync_facts)
  moreover from this have "asyncDrained s \<longleftrightarrow> unfinished s = {#}" by (simp add: asyncDrained_def)
  ultimately show ?thesis by (metis add_cancel_left_left)
qed

section \<open>The concurrency limit\<close>

text \<open>The workers that hold a slot of a key: running its job, or about to give the slot back.\<close>

fun holds :: "string \<Rightarrow> worker \<Rightarrow> bool" where
  "holds key (WRunning e) = (eqConcurrencyKey e = key)"
| "holds key (WReleasing e) = (eqConcurrencyKey e = key)"
| "holds key _ = False"

definition holders :: "string \<Rightarrow> async \<Rightarrow> nat" where
  "holders key s = size (filter_mset (holds key) (mset (asWorkers s)))"

text \<open>No lease has run out while a job holds a slot of its key.\<close>

definition leasesHold :: "async \<Rightarrow> bool" where
  "leasesHold s \<longleftrightarrow> (\<forall>key sl. asSlots s key = Some sl \<and> 0 < holders key s \<longrightarrow> asNow s \<le> slExpiresAt sl)"

definition counts :: "slot option \<Rightarrow> nat \<Rightarrow> bool" where
  "counts sl h \<longleftrightarrow> (case sl of None \<Rightarrow> h = 0 | Some sl \<Rightarrow> slCount sl = int h)"

definition slotsCount :: "async \<Rightarrow> bool" where
  "slotsCount s \<longleftrightarrow> (\<forall>key. key \<noteq> [] \<longrightarrow> counts (asSlots s key) (holders key s))"

definition followsPolicy :: "(string \<Rightarrow> int) \<Rightarrow> async \<Rightarrow> bool" where
  "followsPolicy pol s \<longleftrightarrow> (\<forall>e\<in>#unfinished s. eqConcurrencyLimit e = pol (eqConcurrencyKey e))"

text \<open>Runs in which no lease runs out, and each key has one limit.\<close>

inductive leasedReach :: "(string \<Rightarrow> int) \<Rightarrow> async \<Rightarrow> async \<Rightarrow> bool" for pol s0 where
  leased_start: "leasedReach pol s0 s0"
| leased_move: "leasedReach pol s0 s \<Longrightarrow> leasesHold s \<Longrightarrow> asyncStep s a = Some s' \<Longrightarrow>
    (\<forall>e. a = AEnqueue e \<longrightarrow> eqConcurrencyLimit e = pol (eqConcurrencyKey e)) \<Longrightarrow> leasedReach pol s0 s'"

lemma holders_update:
  assumes "k < length (asWorkers s)"
  shows "size (filter_mset (holds key) (mset ((asWorkers s)[k := w]))) + (if holds key (asWorkers s ! k) then 1 else 0)
    = holders key s + (if holds key w then 1 else 0)"
proof -
  obtain R where R: "mset (asWorkers s) = add_mset (asWorkers s ! k) R"
    using assms by (meson multi_member_split nth_mem_mset)
  with assms have "mset ((asWorkers s)[k := w]) = add_mset w R" by (simp add: mset_update)
  with R show ?thesis by (simp add: holders_def)
qed

lemma holders_workers:
  "asWorkers s' = (asWorkers s)[k := w] \<Longrightarrow> k < length (asWorkers s) \<Longrightarrow>
   holders key s' + (if holds key (asWorkers s ! k) then 1 else 0) = holders key s + (if holds key w then 1 else 0)"
  using holders_update [of k s key w] by (simp add: holders_def)

lemma holders_same: "asWorkers s' = asWorkers s \<Longrightarrow> holders key s' = holders key s"
  by (simp add: holders_def)

text \<open>A step changes the slots or who holds one only at a dispatch, a finish or a release.\<close>

lemma quiet_step:
  assumes "asyncStep s a = Some s'" and "\<nexists>k d. a = ADispatch k d" and "\<nexists>k. a = ARelease k"
    and "key \<noteq> []"
  shows "asSlots s' = asSlots s" and "holders key s' = holders key s"
proof -
  show "asSlots s' = asSlots s"
    using assms(1-3) by (cases a) (auto simp: asyncEnqueue_def asyncFinish_def Let_def split: if_splits option.splits worker.splits)
  show "holders key s' = holders key s"
  proof (cases a)
    case (AHand i k)
    then show ?thesis using assms(1) holders_workers [of s' s k "WGot (asSending s ! i)" key] by (auto split: if_splits)
  next
    case (ARecv k)
    then show ?thesis using assms(1) holders_workers [of s' s k "WGot (hd (asQueue s))" key] by (auto split: if_splits)
  next
    case (AExit k)
    then show ?thesis using assms(1) holders_workers [of s' s k WExited key] by (auto split: if_splits)
  next
    case (AFinish k)
    then obtain e where e: "k < length (asWorkers s)" "asWorkers s ! k = WRunning e" "s' = asyncFinish k e s"
      using assms(1) by (auto split: if_splits worker.splits)
    then show ?thesis
      using holders_workers [of s' s k WIdle key] holders_workers [of s' s k "WReleasing e" key] assms(4)
      by (auto simp: asyncFinish_def split: if_splits)
  qed (use assms in \<open>auto simp: asyncEnqueue_def Let_def intro!: holders_same split: if_splits option.splits\<close>)
qed

lemma jobAt_unfinished:
  assumes "k < length (asWorkers s)" and "e \<in># jobAt (asWorkers s ! k)"
  shows "e \<in># unfinished s"
proof -
  obtain R where "mset (asWorkers s) = add_mset (asWorkers s ! k) R"
    using assms(1) by (meson multi_member_split nth_mem_mset)
  with assms(2) show ?thesis by (simp add: unfinished_def atWorkers_def)
qed

definition withinLimit :: "(string \<Rightarrow> int) \<Rightarrow> async \<Rightarrow> bool" where
  "withinLimit pol s \<longleftrightarrow> (\<forall>key. key \<noteq> [] \<longrightarrow> int (holders key s) \<le> max 0 (pol key))"

definition slotsOk :: "(string \<Rightarrow> int) \<Rightarrow> async \<Rightarrow> bool" where
  "slotsOk pol s \<longleftrightarrow> slotsCount s \<and> followsPolicy pol s \<and> withinLimit pol s"

lemma followsPolicy_step:
  assumes "followsPolicy pol s" and "asyncStep s a = Some s'"
    and "\<forall>e. a = AEnqueue e \<longrightarrow> eqConcurrencyLimit e = pol (eqConcurrencyKey e)"
  shows "followsPolicy pol s'"
  unfolding followsPolicy_def
proof
  fix e assume "e \<in># unfinished s'"
  then have "e \<in># unfinished s + accepts a" using unfinished_step [OF assms(2)] by (metis UnCI set_mset_union)
  then show "eqConcurrencyLimit e = pol (eqConcurrencyKey e)"
    using assms(1,3) by (cases a) (auto simp: followsPolicy_def)
qed

text \<open>What the slots say after a test of a key, when they counted right and no lease had run out.\<close>

lemma tryAcquire_counts:
  assumes "counts (slots key) h" and "\<And>sl. slots key = Some sl \<Longrightarrow> 0 < h \<Longrightarrow> now \<le> slExpiresAt sl"
  shows "fst (tryAcquire now key l d slots) = (int h < l)"
    and "counts (snd (tryAcquire now key l d slots) key) (h + (if int h < l then 1 else 0))"
proof -
  have t: "slots key = Some sl \<Longrightarrow> slExpiresAt sl < now \<Longrightarrow> h = 0" for sl
    using assms(2) [of sl] by fastforce
  show "fst (tryAcquire now key l d slots) = (int h < l)"
    using assms(1) t by (auto simp: tryAcquire_def counts_def Let_def split: option.splits if_splits)
  show "counts (snd (tryAcquire now key l d slots) key) (h + (if int h < l then 1 else 0))"
    using assms(1) t by (auto simp: tryAcquire_def counts_def Let_def split: option.splits if_splits)
qed

lemma tryAcquire_other: "key' \<noteq> key \<Longrightarrow> snd (tryAcquire now key l d slots) key' = slots key'"
  by (auto simp: tryAcquire_def Let_def split: option.splits)

lemma release_counts:
  assumes "counts (slots key) h" and "0 < h"
  shows "counts (release key slots key) (h - 1)"
  using assms by (auto simp: release_def counts_def split: option.splits)

lemma slotsOk_dispatch:
  assumes ok: "slotsOk pol s" and leases: "leasesHold s"
    and k: "k < length (asWorkers s)" "asWorkers s ! k = WGot e"
  shows "slotsCount (asyncDispatch k e d s) \<and> withinLimit pol (asyncDispatch k e d s)"
proof -
  let ?s = "asyncDispatch k e d s" and ?key = "eqConcurrencyKey e"
  have lim: "eqConcurrencyLimit e = pol ?key"
    using ok jobAt_unfinished [OF k(1), of e] k(2) by (auto simp: slotsOk_def followsPolicy_def)
  have h: "holders key (s\<lparr>asWorkers := (asWorkers s)[k := WRunning e]\<rparr>) = holders key s + (if ?key = key then 1 else 0)"
    "holders key (s\<lparr>asWorkers := (asWorkers s)[k := WIdle]\<rparr>) = holders key s" for key
    using holders_workers [of "s\<lparr>asWorkers := (asWorkers s)[k := WRunning e]\<rparr>" s k "WRunning e" key]
      holders_workers [of "s\<lparr>asWorkers := (asWorkers s)[k := WIdle]\<rparr>" s k WIdle key] k by auto
  show ?thesis
  proof (cases "?key = []")
    case True
    then have "asSlots ?s = asSlots s" "\<And>key. key \<noteq> [] \<Longrightarrow> holders key ?s = holders key s"
      using h(1) by (simp_all add: asyncDispatch_def)
    then show ?thesis using ok by (simp add: slotsOk_def slotsCount_def withinLimit_def)
  next
    case False
    let ?t = "tryAcquire (asNow s) ?key (eqConcurrencyLimit e) (eqConcurrencyDuration e) (asSlots s)"
    have pre: "counts (asSlots s ?key) (holders ?key s)"
        "\<And>sl. asSlots s ?key = Some sl \<Longrightarrow> 0 < holders ?key s \<Longrightarrow> asNow s \<le> slExpiresAt sl"
      using ok leases False by (auto simp: slotsOk_def slotsCount_def leasesHold_def)
    note t = tryAcquire_counts [of "asSlots s" ?key "holders ?key s" "asNow s", OF pre, where l = "eqConcurrencyLimit e" and d = "eqConcurrencyDuration e"]
    have sl: "asSlots ?s = snd ?t"
      using False by (simp add: asyncDispatch_def split: prod.split)
    have hs: "holders key ?s = holders key s + (if ?key = key \<and> int (holders ?key s) < pol ?key then 1 else 0)" for key
    proof (cases "fst ?t")
      case True
      then have "asWorkers ?s = (asWorkers s)[k := WRunning e]"
        using False by (cases ?t) (auto simp: asyncDispatch_def)
      then show ?thesis using h(1) [of key] True t(1) lim by (auto simp: holders_def)
    next
      case no: False
      then have "asWorkers ?s = (asWorkers s)[k := WIdle]"
        using False by (cases ?t) (auto simp: asyncDispatch_def)
      then show ?thesis using h(2) [of key] no t(1) lim by (auto simp: holders_def)
    qed
    have "counts (asSlots ?s key) (holders key ?s)" if "key \<noteq> []" for key
    proof (cases "key = ?key")
      case True
      with t(2) lim show ?thesis by (auto simp: sl hs)
    next
      case diff: False
      with tryAcquire_other [OF diff] ok that show ?thesis by (simp add: sl hs slotsOk_def slotsCount_def)
    qed
    moreover have "int (holders key ?s) \<le> max 0 (pol key)" if "key \<noteq> []" for key
      using ok that by (auto simp: hs slotsOk_def withinLimit_def)
    ultimately show ?thesis by (simp add: slotsCount_def withinLimit_def)
  qed
qed

lemma slotsOk_release:
  assumes ok: "slotsOk pol s" and k: "k < length (asWorkers s)" "asWorkers s ! k = WReleasing e"
  defines "s' \<equiv> s\<lparr>asSlots := release (eqConcurrencyKey e) (asSlots s), asWorkers := (asWorkers s)[k := WIdle]\<rparr>"
  shows "slotsCount s' \<and> withinLimit pol s'"
proof -
  let ?key = "eqConcurrencyKey e"
  have h: "holders key s' + (if ?key = key then 1 else 0) = holders key s" for key
    using holders_workers [of s' s k WIdle key] k by (simp add: s'_def)
  have "counts (asSlots s' key) (holders key s')" if "key \<noteq> []" for key
  proof (cases "key = ?key")
    case True
    have pre: "counts (asSlots s ?key) (holders ?key s)"
      using ok that True by (simp add: slotsOk_def slotsCount_def)
    have "holders ?key s' = holders ?key s - 1" "0 < holders ?key s" using h [of ?key] by simp_all
    with release_counts [of "asSlots s" ?key "holders ?key s", OF pre this(2)] True show ?thesis by (simp add: s'_def)
  next
    case False
    have "release ?key (asSlots s) key = asSlots s key" using False by (auto simp: release_def split: option.split)
    with False h [of key] ok that show ?thesis by (auto simp: s'_def slotsOk_def slotsCount_def)
  qed
  moreover have "int (holders key s') \<le> max 0 (pol key)" if "key \<noteq> []" for key
    using h [of key] ok that by (force simp: slotsOk_def withinLimit_def)
  ultimately show ?thesis by (simp add: slotsCount_def withinLimit_def)
qed

lemma slotsOk_step:
  assumes ok: "slotsOk pol s" and leases: "leasesHold s" and step: "asyncStep s a = Some s'"
    and pol: "\<forall>e. a = AEnqueue e \<longrightarrow> eqConcurrencyLimit e = pol (eqConcurrencyKey e)"
  shows "slotsOk pol s'"
proof -
  have f: "followsPolicy pol s'" using followsPolicy_step [OF _ step pol] ok by (simp add: slotsOk_def)
  have "slotsCount s' \<and> withinLimit pol s'"
  proof (cases "(\<exists>k d. a = ADispatch k d) \<or> (\<exists>k. a = ARelease k)")
    case True
    then show ?thesis
      using step slotsOk_dispatch [OF ok leases] slotsOk_release [OF ok] by (auto split: if_splits worker.splits)
  next
    case False
    then show ?thesis
      using quiet_step [OF step] ok by (auto simp: slotsOk_def slotsCount_def withinLimit_def)
  qed
  with f show ?thesis by (simp add: slotsOk_def)
qed

text \<open>C30: As long as no lease runs out while its job holds the slot, the jobs of a key that hold
  a slot never exceed the key's limit.\<close>

theorem async_limit_respected:
  assumes "leasedReach pol (newAsync now n (map asyncQueueSize cs)) s" and "key \<noteq> []"
  shows "int (holders key s) \<le> max 0 (pol key)"
proof -
  let ?s0 = "newAsync now n (map asyncQueueSize cs)"
  have "holders key ?s0 = 0" for key by (simp add: holders_def newAsync_facts)
  then have "slotsOk pol ?s0"
    by (simp add: counts_def slotsOk_def slotsCount_def followsPolicy_def withinLimit_def newAsync_facts)
  with assms(1) have "slotsOk pol s"
    by (induction rule: leasedReach.induct) (blast intro: slotsOk_step)+
  with assms(2) show ?thesis by (simp add: slotsOk_def withinLimit_def)
qed

section \<open>Draining\<close>

text \<open>With or without leases that ran out, a slot never counts more than the workers that hold
  it: once they have let go, the key can be acquired.\<close>

definition underCount :: "async \<Rightarrow> bool" where
  "underCount s \<longleftrightarrow> (\<forall>key sl. key \<noteq> [] \<longrightarrow> asSlots s key = Some sl \<longrightarrow> slCount sl \<le> int (holders key s))"

lemma underCount_dispatch:
  assumes u: "underCount s" and k: "k < length (asWorkers s)" "asWorkers s ! k = WGot e"
  shows "underCount (asyncDispatch k e d s)"
proof -
  let ?s = "asyncDispatch k e d s" and ?key = "eqConcurrencyKey e"
  let ?t = "tryAcquire (asNow s) ?key (eqConcurrencyLimit e) (eqConcurrencyDuration e) (asSlots s)"
  have w: "asWorkers ?s = (asWorkers s)[k := (if ?key = [] \<or> fst ?t then WRunning e else WIdle)]"
    by (cases ?t) (auto simp: asyncDispatch_def)
  have h: "holders key ?s = holders key s + (if ?key = key \<and> (?key = [] \<or> fst ?t) then 1 else 0)" for key
    using holders_workers [OF w k(1), of key] k(2) by auto
  have sl: "asSlots ?s = (if ?key = [] then asSlots s else snd ?t)"
    by (cases ?t) (auto simp: asyncDispatch_def)
  have own: "slCount x \<le> int (holders ?key s) + (if fst ?t then 1 else 0)"
    if "snd ?t ?key = Some x" "?key \<noteq> []" for x
    using that u by (auto simp: underCount_def tryAcquire_def Let_def split: option.splits if_splits)
  show ?thesis
    unfolding underCount_def
  proof (intro allI impI)
    fix key x assume a: "key \<noteq> []" "asSlots ?s key = Some x"
    show "slCount x \<le> int (holders key ?s)"
    proof (cases "key = ?key")
      case True
      with own [of x] a sl h [of ?key] show ?thesis by (cases "fst ?t") simp_all
    next
      case False
      then have "asSlots s key = Some x" using a(2) sl tryAcquire_other [OF False] by (simp split: if_splits)
      with u a(1) h [of key] False show ?thesis by (fastforce simp: underCount_def)
    qed
  qed
qed

lemma underCount_release:
  assumes u: "underCount s" and k: "k < length (asWorkers s)" "asWorkers s ! k = WReleasing e"
  shows "underCount (s\<lparr>asSlots := release (eqConcurrencyKey e) (asSlots s), asWorkers := (asWorkers s)[k := WIdle]\<rparr>)"
proof -
  let ?s = "s\<lparr>asSlots := release (eqConcurrencyKey e) (asSlots s), asWorkers := (asWorkers s)[k := WIdle]\<rparr>"
  have h: "holders key ?s + (if eqConcurrencyKey e = key then 1 else 0) = holders key s" for key
    using holders_workers [of ?s s k WIdle key] k by simp
  show ?thesis
    unfolding underCount_def
  proof (intro allI impI)
    fix key x assume a: "key \<noteq> []" "asSlots ?s key = Some x"
    then obtain y where "asSlots s key = Some y" "slCount x = slCount y - (if eqConcurrencyKey e = key then 1 else 0)"
      by (cases "eqConcurrencyKey e = key") (auto simp: release_def split: option.splits if_splits)
    moreover have "slCount y \<le> int (holders key s)" if "asSlots s key = Some y" for y
      using u a(1) that by (simp add: underCount_def)
    ultimately show "slCount x \<le> int (holders key ?s)" using h [of key] by (fastforce split: if_splits)
  qed
qed

lemma underCount_step:
  assumes u: "underCount s" and step: "asyncStep s a = Some s'"
  shows "underCount s'"
proof (cases "(\<exists>k d. a = ADispatch k d) \<or> (\<exists>k. a = ARelease k)")
  case True
  then show ?thesis
    using step underCount_dispatch [OF u] underCount_release [OF u] by (auto split: if_splits worker.splits)
next
  case False
  then show ?thesis using quiet_step [OF step] u by (simp add: underCount_def)
qed

lemma underCount_run: "asyncRun as s = Some s' \<Longrightarrow> underCount s \<Longrightarrow> underCount s'"
  by (induction as arbitrary: s) (auto split: option.splits dest: underCount_step)

text \<open>Workers leave only when the backend was stopped.\<close>

definition exitsStopped :: "async \<Rightarrow> bool" where
  "exitsStopped s \<longleftrightarrow> WExited \<in> set (asWorkers s) \<longrightarrow> asStopped s"

lemma exitsStopped_step:
  assumes "exitsStopped s" and "asyncStep s a = Some s'"
  shows "exitsStopped s' \<and> length (asWorkers s') = length (asWorkers s)"
proof (cases a)
  case (AEnqueue e)
  then show ?thesis using assms
    by (auto simp: exitsStopped_def asyncEnqueue_def Let_def split: option.splits if_splits)
qed (use assms in \<open>auto simp: exitsStopped_def asyncDispatch_def asyncFinish_def dest!: set_update_subset_insert [THEN subsetD]
    split: if_splits worker.splits prod.splits\<close>)

lemma exitsStopped_run:
  "asyncRun as s = Some s' \<Longrightarrow> exitsStopped s \<Longrightarrow> exitsStopped s' \<and> length (asWorkers s') = length (asWorkers s)"
proof (induction as arbitrary: s)
  case (Cons a as)
  then obtain s1 where "asyncStep s a = Some s1" "asyncRun as s1 = Some s'" by (auto split: option.splits)
  with exitsStopped_step [OF Cons.prems(2), of a s1] Cons.IH [of s1] show ?case by simp
qed simp

text \<open>How much is left to do.\<close>

fun weight :: "worker \<Rightarrow> nat" where
  "weight (WGot e) = 3"
| "weight (WRunning e) = 2"
| "weight (WReleasing e) = 1"
| "weight _ = 0"

definition workLeft :: "async \<Rightarrow> nat" where
  "workLeft s = 6 * length (asTimers s) + 5 * length (asSending s) + 4 * length (asQueue s)
     + sum_list (map weight (asWorkers s))"

lemma weight_update:
  assumes "k < length ws"
  shows "sum_list (map weight (ws[k := w])) + weight (ws ! k) = sum_list (map weight ws) + weight w"
proof -
  obtain R where "mset ws = add_mset (ws ! k) R" using assms by (meson multi_member_split nth_mem_mset)
  moreover from this assms have "mset (ws[k := w]) = add_mset w R" by (simp add: mset_update)
  ultimately have "\<Sum>\<^sub># (image_mset weight (mset ws)) = weight (ws ! k) + \<Sum>\<^sub># (image_mset weight R)"
    "\<Sum>\<^sub># (image_mset weight (mset (ws[k := w]))) = weight w + \<Sum>\<^sub># (image_mset weight R)" by simp_all
  then show ?thesis by (simp add: sum_mset_sum_list flip: mset_map)
qed

definition acquirable :: "async \<Rightarrow> bool" where
  "acquirable s \<longleftrightarrow> (\<forall>e\<in>#unfinished s. eqConcurrencyKey e = [] \<or> 1 \<le> eqConcurrencyLimit e)"

definition alive :: "async \<Rightarrow> bool" where
  "alive s \<longleftrightarrow> underCount s \<and> acquirable s \<and> \<not> asStopped s \<and> asWorkers s \<noteq> [] \<and> WExited \<notin> set (asWorkers s)"

lemma dispatch_runs:
  assumes "alive s" and k: "k < length (asWorkers s)" "asWorkers s ! k = WGot e"
    and free: "\<And>key. holders key s = 0"
  shows "asWorkers (asyncDispatch k e d s) = (asWorkers s)[k := WRunning e]
    \<and> asTimers (asyncDispatch k e d s) = asTimers s \<and> asSending (asyncDispatch k e d s) = asSending s
    \<and> asQueue (asyncDispatch k e d s) = asQueue s"
proof (cases "eqConcurrencyKey e = []")
  case False
  let ?t = "tryAcquire (asNow s) (eqConcurrencyKey e) (eqConcurrencyLimit e) (eqConcurrencyDuration e) (asSlots s)"
  have "1 \<le> eqConcurrencyLimit e"
    using assms(1) jobAt_unfinished [OF k(1), of e] k(2) False by (auto simp: alive_def acquirable_def)
  moreover have "slCount x \<le> 0" if "asSlots s (eqConcurrencyKey e) = Some x" for x
    using assms(1) that False free by (fastforce simp: alive_def underCount_def)
  ultimately have "fst ?t"
    by (cases "asSlots s (eqConcurrencyKey e)") (force simp: tryAcquire_def Let_def)+
  with False show ?thesis by (cases ?t) (auto simp: asyncDispatch_def)
qed (simp add: asyncDispatch_def)

definition plain :: "action \<Rightarrow> bool" where
  "plain a \<longleftrightarrow> accepts a = {#} \<and> a \<noteq> AClose \<and> (\<forall>i. a \<noteq> ADrop i)"

lemma plain_step:
  assumes "alive s" and "plain a" and step: "asyncStep s a = Some s'"
  shows "alive s'"
proof -
  have "unfinished s' \<subseteq># unfinished s"
    using unfinished_step [OF step] assms(2) by (metis add.right_neutral mset_subset_eq_add_left plain_def)
  then have "acquirable s'" using assms(1) mset_subset_eqD by (fastforce simp: acquirable_def alive_def)
  moreover have "asStopped s' = asStopped s"
    using step assms(2) by (cases a) (auto simp: plain_def asyncDispatch_def asyncFinish_def Let_def
        split: if_splits worker.splits prod.splits)
  moreover have "exitsStopped s' \<and> length (asWorkers s') = length (asWorkers s)"
    using assms(1) by (intro exitsStopped_step [OF _ step]) (simp add: alive_def exitsStopped_def)
  ultimately show ?thesis
    using assms(1) underCount_step [OF _ step] by (auto simp: alive_def exitsStopped_def)
qed

lemma plain_run:
  "alive s \<Longrightarrow> list_all plain as \<Longrightarrow> asyncRun as s = Some s' \<Longrightarrow> alive s'"
proof (induction as arbitrary: s)
  case (Cons a as)
  then obtain s1 where "asyncStep s a = Some s1" "asyncRun as s1 = Some s'" by (auto split: option.splits)
  with Cons plain_step [of s a s1] show ?case by simp
qed simp

text \<open>While work is left there is a next move: let a running job finish, a holder let go, a worker
  start its job, hand an idle worker a job from the queue or from a blocked send, or wait for a
  timer.\<close>

lemma next_move:
  assumes s: "alive s" and left: "0 < workLeft s"
  obtains as s' where "list_all plain as" and "asyncRun as s = Some s'" and "workLeft s' < workLeft s"
proof -
  note W = weight_update [of _ "asWorkers s"] and found = that
  have single: thesis if "plain a" "asyncStep s a = Some s'" "workLeft s' < workLeft s" for a s'
    using that by (intro found [of "[a]" s']) simp_all
  consider (running) k e where "k < length (asWorkers s)" "asWorkers s ! k = WRunning e"
    | (releasing) k e where "k < length (asWorkers s)" "asWorkers s ! k = WReleasing e"
    | (got) k e where "k < length (asWorkers s)" "asWorkers s ! k = WGot e" "\<And>key. holders key s = 0"
    | (idle) "\<forall>w\<in>set (asWorkers s). w = WIdle"
  proof (cases "\<exists>w\<in>set (asWorkers s). \<exists>e. w = WRunning e \<or> w = WReleasing e")
    case True
    then show ?thesis using running releasing by (auto simp: in_set_conv_nth)
  next
    case no: False
    then have "holds key w = False" if "w \<in> set (asWorkers s)" for key w using that by (cases w) auto
    then have free: "holders key s = 0" for key by (auto simp: holders_def filter_mset_eq_conv)
    show ?thesis
    proof (cases "\<exists>w\<in>set (asWorkers s). \<exists>e. w = WGot e")
      case True
      then show ?thesis using got free by (auto simp: in_set_conv_nth)
    next
      case False
      have "w = WIdle" if "w \<in> set (asWorkers s)" for w
      proof -
        have "w \<noteq> WExited" using that s by (auto simp: alive_def simp del: list.set_sel)
        moreover have "w \<noteq> WRunning e" "w \<noteq> WReleasing e" "w \<noteq> WGot e" for e using that no False by blast+
        ultimately show ?thesis by (cases w) blast+
      qed
      then show ?thesis using idle by blast
    qed
  qed
  then show thesis
  proof cases
    case (running k e)
    then show thesis using W [of k "WReleasing e"] W [of k WIdle]
      by (intro single [of "AFinish k" "asyncFinish k e s"]) (auto simp: plain_def asyncFinish_def workLeft_def)
  next
    case (releasing k e)
    then show thesis using W [of k WIdle]
      by (intro single [of "ARelease k"]) (auto simp: plain_def workLeft_def)
  next
    case (got k e)
    then show thesis using dispatch_runs [OF s got, of requeueDelayMin] W [of k "WRunning e"]
      by (intro single [of "ADispatch k requeueDelayMin" "asyncDispatch k e requeueDelayMin s"])
         (auto simp: plain_def workLeft_def requeueDelayMin_def requeueDelayJitter_def)
  next
    case idle
    then have w0: "0 < length (asWorkers s)" "asWorkers s ! 0 = WIdle" using s by (auto simp: alive_def)
    have z: "sum_list (map weight (asWorkers s)) = 0" using idle by auto
    consider (queue) "asQueue s \<noteq> []" | (sending) "asQueue s = []" "asSending s \<noteq> []"
      | (timer) "asQueue s = []" "asSending s = []" "asTimers s \<noteq> []"
      using left z by (auto simp: workLeft_def)
    then show thesis
    proof cases
      case queue
      then show thesis using w0 W [of 0 "WGot (hd (asQueue s))"]
        by (intro single [of "ARecv 0"]) (auto simp: plain_def workLeft_def neq_Nil_conv)
    next
      case sending
      then show thesis using w0 W [of 0 "WGot (asSending s ! 0)"]
        by (intro single [of "AHand 0 0"]) (auto simp: plain_def workLeft_def neq_Nil_conv)
    next
      case timer
      let ?d = "max 0 (fst (asTimers s ! 0) - asNow s)"
      show thesis using timer
        by (intro found [of "[ATick ?d, ATimer 0]"]) (auto simp: plain_def workLeft_def neq_Nil_conv)
    qed
  qed
qed

lemma no_work_unfinished:
  assumes "workLeft s = 0"
  shows "unfinished s = {#}"
proof -
  have "\<forall>w\<in>set (asWorkers s). weight w = 0" using assms by (simp add: workLeft_def sum_list_eq_0_iff)
  then have "\<forall>w\<in>set (asWorkers s). jobAt w = {#}" by (metis jobAt.simps(3-5) weight.elims zero_neq_numeral)
  then have "atWorkers (asWorkers s) = {#}" by (simp add: atWorkers_def)
  with assms show ?thesis by (simp add: unfinished_def workLeft_def)
qed

lemma asyncRun_append:
  "asyncRun (as @ bs) s = (case asyncRun as s of None \<Rightarrow> None | Some s' \<Rightarrow> asyncRun bs s')"
  by (induction as arbitrary: s) (auto split: option.split)

lemma can_finish:
  "alive s \<Longrightarrow> \<exists>bs s'. list_all plain bs \<and> asyncRun bs s = Some s' \<and> unfinished s' = {#}"
proof (induction "workLeft s" arbitrary: s rule: less_induct)
  case less
  show ?case
  proof (cases "workLeft s")
    case 0
    then show ?thesis by (intro exI [of _ "[]"] exI [of _ s]) (simp add: no_work_unfinished)
  next
    case (Suc n)
    then obtain as s1 where a: "list_all plain as" "asyncRun as s = Some s1" "workLeft s1 < workLeft s"
      using next_move [OF less.prems] by (metis zero_less_Suc)
    obtain bs s2 where "list_all plain bs" "asyncRun bs s1 = Some s2" "unfinished s2 = {#}"
      using less.hyps [OF a(3) plain_run [OF less.prems a(1,2)]] by blast
    with a show ?thesis by (intro exI [of _ "as @ bs"] exI [of _ s2]) (simp add: asyncRun_append)
  qed
qed

text \<open>C31: The async backend can always drain: from any state it reaches with at least one worker
  and before it is closed, whatever leases ran out, some continuation without new jobs and
  without dropping any runs every unfinished job to its end, provided each waiting job with a
  concurrency key has a limit of at least one.\<close>

theorem async_can_drain:
  assumes "asyncRun as (newAsync now n (map asyncQueueSize cs)) = Some s" and "0 < n" and "\<not> asStopped s"
    and "\<forall>e\<in>#unfinished s. eqConcurrencyKey e = [] \<or> 1 \<le> eqConcurrencyLimit e"
  shows "\<exists>bs s'. list_all plain bs \<and> asyncRun bs s = Some s' \<and> asyncDrained s' \<and> endedBy bs s = unfinished s"
proof -
  let ?s0 = "newAsync now n (map asyncQueueSize cs)"
  have "underCount ?s0" "exitsStopped ?s0"
    by (simp_all add: underCount_def exitsStopped_def newAsync_facts)
  then have "underCount s" "exitsStopped s" "length (asWorkers s) = n"
    using underCount_run [OF assms(1)] exitsStopped_run [OF assms(1)] by (simp_all add: newAsync_facts)
  with assms(2-4) have "alive s" by (auto simp: alive_def acquirable_def exitsStopped_def)
  then obtain bs s' where b: "list_all plain bs" "asyncRun bs s = Some s'" "unfinished s' = {#}"
    using can_finish by blast
  have "asInFlight s = int (size (unfinished s))"
    by (rule inFlight_reach [OF asyncRun_reach [OF asyncReach.start assms(1)]]) (simp add: newAsync_facts)
  then have "asInFlight s' = int (size (unfinished s'))"
    by (rule inFlight_reach [OF asyncRun_reach [OF asyncReach.start b(2)]])
  moreover have "(\<Sum>a\<leftarrow>bs. accepts a) = {#}" using b(1) by (induction bs) (auto simp: plain_def)
  ultimately show ?thesis
    using b unfinished_run [OF b(2)] by (intro exI [of _ bs] exI [of _ s']) (simp add: asyncDrained_def)
qed

section \<open>Sample runs\<close>

definition keyed :: "string \<Rightarrow> enqueued" where
  "keyed kind = \<lparr>eqKind = kind, eqArgs = [], eqQueue = [], eqScheduledAt = None, eqMaxAttempts = 25,
     eqConcurrencyKey = ''k'', eqConcurrencyLimit = 1, eqConcurrencyDuration = 10\<rparr>"

definition freshAsync :: async where
  "freshAsync = newAsync 0 2 (map asyncQueueSize [1])"

definition startA :: "action list" where
  "startA = [AEnqueue (keyed ''a''), AHand 0 0, ADispatch 0 requeueDelayMin, AEnqueue (keyed ''b''), ASend 0]"

definition asyncAfter :: "action list \<Rightarrow> async" where
  "asyncAfter as = (case asyncRun as freshAsync of Some s \<Rightarrow> s | None \<Rightarrow> freshAsync)"

lemmas async_sample = freshAsync_def newAsync_def asyncQueueSize_def startA_def asyncAfter_def asyncEnqueue_def
  asyncDispatch_def asyncFinish_def tryAcquire_def release_def keyed_def dropAt_def requeueDelayMin_def
  requeueDelayJitter_def numeral_2_eq_2

lemma startA_runs: "asyncRun startA freshAsync = Some (asyncAfter startA)"
  by (simp add: async_sample Let_def)

theorem async_conserves_jobs_witness:
  "unfinished (asyncAfter startA) + endedBy startA freshAsync = {#keyed ''a'', keyed ''b''#}
     \<and> asInFlight (asyncAfter startA) = 2"
proof -
  have "unfinished (asyncAfter startA) + endedBy startA freshAsync = (\<Sum>a\<leftarrow>startA. accepts a)"
    using async_conserves_jobs [OF startA_runs [unfolded freshAsync_def]] by (simp add: freshAsync_def)
  moreover have "asInFlight (asyncAfter startA) = 2" by (simp add: async_sample Let_def)
  ultimately show ?thesis by (simp add: startA_def)
qed

theorem async_can_drain_witness:
  "\<exists>bs s'. list_all plain bs \<and> asyncRun bs (asyncAfter startA) = Some s' \<and> asyncDrained s'
     \<and> endedBy bs (asyncAfter startA) = {#keyed ''a'', keyed ''b''#}"
proof -
  have u: "unfinished (asyncAfter startA) = {#keyed ''a'', keyed ''b''#}"
    by (simp add: async_sample Let_def unfinished_def atWorkers_def)
  moreover have "\<not> asStopped (asyncAfter startA)" by (simp add: async_sample Let_def)
  ultimately show ?thesis
    using async_can_drain [OF startA_runs [unfolded freshAsync_def]] by (simp add: keyed_def)
qed

definition one :: "string \<Rightarrow> int" where
  "one key = 1"

theorem async_limit_respected_witness:
  "int (holders ''k'' (asyncAfter (take 3 startA))) \<le> 1"
proof -
  let ?at = "\<lambda>i. asyncAfter (take i startA)"
  have "leasedReach one freshAsync (?at 0)" by (simp add: asyncAfter_def leased_start)
  then have "leasedReach one freshAsync (?at 1)"
    by (rule leased_move [where a = "AEnqueue (keyed ''a'')"]) (simp_all add: async_sample Let_def leasesHold_def one_def)
  then have "leasedReach one freshAsync (?at 2)"
    by (rule leased_move [where a = "AHand 0 0"]) (simp_all add: async_sample Let_def leasesHold_def one_def)
  then have "leasedReach one freshAsync (?at 3)"
    by (rule leased_move [where a = "ADispatch 0 requeueDelayMin"])
       (simp_all add: async_sample numeral_3_eq_3 Let_def leasesHold_def one_def)
  from async_limit_respected [OF this [unfolded freshAsync_def], of "''k''"] show ?thesis
    by (simp add: one_def)
qed

section \<open>What goes wrong\<close>

text \<open>A lease that runs out costs a live one. The second job takes the key over from the first,
  whose lease ran out; when the first ends it gives back the second's slot, and a third job
  starts beside the second, whose lease holds, with a limit of one.\<close>

definition overAdmission :: "action list" where
  "overAdmission = [AEnqueue (keyed ''a''), AHand 0 0, ADispatch 0 requeueDelayMin, ATick 11,
     AEnqueue (keyed ''b''), AHand 0 1, ADispatch 1 requeueDelayMin, AFinish 0, ARelease 0,
     AEnqueue (keyed ''c''), AHand 0 0, ADispatch 0 requeueDelayMin]"

lemma expired_lease_over_admits:
  "asWorkers (asyncAfter overAdmission) = [WRunning (keyed ''c''), WRunning (keyed ''b'')]"
  "asNow (asyncAfter overAdmission) = 11" "slExpiresAt (the (asSlots (asyncAfter overAdmission) ''k'')) = 21"
  by (simp_all add: overAdmission_def async_sample Let_def)

text \<open>A job still queued when the workers leave stays counted: a Drain after Close waits for its
  context. (Close is documented to drop queued jobs.)\<close>

lemma closed_step:
  assumes "asyncClosed s" and "asyncStep s a = Some s'"
  shows "asyncClosed s' \<and> length (asQueue s) \<le> length (asQueue s')"
proof -
  have "asWorkers s ! k = WExited" if "k < length (asWorkers s)" for k
    using assms(1) that by (simp add: asyncClosed_def list_all_length)
  then show ?thesis
    using assms by (cases a) (auto simp: asyncClosed_def asyncEnqueue_def Let_def split: if_splits option.splits)
qed

lemma closed_backend_never_drains:
  assumes "asyncRun as (newAsync now n (map asyncQueueSize cs)) = Some s" and "asyncClosed s" and "asQueue s \<noteq> []"
    and "asyncReach s s'"
  shows "\<not> asyncDrained s'"
proof -
  have "asyncClosed s' \<and> length (asQueue s) \<le> length (asQueue s')"
    using assms(4,2) by (induction rule: asyncReach.induct) (auto dest: closed_step)
  moreover have "asInFlight s' = int (size (unfinished s'))"
    using inFlight_reach [OF asyncRun_reach [OF asyncReach.start assms(1)]]
    by (intro inFlight_reach [OF assms(4)]) (simp add: newAsync_facts)
  moreover from calculation(1) assms(3) have "unfinished s' \<noteq> {#}" by (auto simp: unfinished_def)
  ultimately show ?thesis by (simp add: asyncDrained_def)
qed

lemma closed_backend_example:
  "asyncClosed (asyncAfter [AEnqueue (keyed ''a''), ASend 0, AClose, AExit 0, AExit 1])"
  "asQueue (asyncAfter [AEnqueue (keyed ''a''), ASend 0, AClose, AExit 0, AExit 1]) = [keyed ''a'']"
  by (simp_all add: async_sample Let_def asyncClosed_def)

end
