(* ===== verification/Bind.thy ===== *)
theory Bind
  imports Http
begin

text \<open>
  Request binding (\<open>bind.go\<close>): the reflection loop over a struct's tagged fields, the conversion
  of strings into scalar fields, the four sources (path, query, form, decoded body) and their
  order in \<open>DefaultBinder.Bind\<close>.

  A Go type is a tree, with the defined name where there is one; a value is a tree of the same
  shape. Methods of user types (\<open>Unmarshaler\<close>) are the parameter \<open>um\<close>; \<open>strconv.ParseFloat\<close>, the
  JSON and XML decoders and the parsing of forms and media types are parameters too. A
  conversion returns its error, if any, and the value the field then has: it can have changed
  before the error.
\<close>

section \<open>Types and values\<close>

datatype bty =
    TyString | TyBool | TyInt nat | TyUint nat | TyFloat nat
  | TyPtr bty
  | TySlice bty
  | TyNamed string bty
  | TyStruct "sfield list"
  | TyOther string
and sfield = SField (sfName: string) (sfExported: bool) (sfTags: "(string \<times> string) list") (sfType: bty)

datatype bval =
    BvString string | BvBool bool | BvInt int | BvUint nat | BvFloat string
  | BvPtr "bval option"
  | BvSlice "bval list option"
  | BvStruct "bval list"
  | BvOther string

fun underlying :: "bty \<Rightarrow> bty" where
  "underlying (TyNamed n t) = underlying t"
| "underlying t = t"

text \<open>The zero value, \<open>reflect.Zero\<close>.\<close>

fun zeroOf :: "bty \<Rightarrow> bval" and zeroFields :: "sfield list \<Rightarrow> bval list" where
  "zeroOf TyString = BvString []"
| "zeroOf TyBool = BvBool False"
| "zeroOf (TyInt n) = BvInt 0"
| "zeroOf (TyUint n) = BvUint 0"
| "zeroOf (TyFloat n) = BvFloat ''0''"
| "zeroOf (TyPtr t) = BvPtr None"
| "zeroOf (TySlice t) = BvSlice None"
| "zeroOf (TyNamed n t) = zeroOf t"
| "zeroOf (TyStruct fs) = BvStruct (zeroFields fs)"
| "zeroOf (TyOther k) = BvOther k"
| "zeroFields [] = []"
| "zeroFields (SField n e tags ty # fs) = zeroOf ty # zeroFields fs"

text \<open>What it is for a value to be of a type; integers are within the width.\<close>

fun wellTyped :: "bty \<Rightarrow> bval \<Rightarrow> bool" and wellFields :: "sfield list \<Rightarrow> bval list \<Rightarrow> bool" where
  "wellTyped TyString v = (case v of BvString s \<Rightarrow> True | _ \<Rightarrow> False)"
| "wellTyped TyBool v = (case v of BvBool b \<Rightarrow> True | _ \<Rightarrow> False)"
| "wellTyped (TyInt n) v = (case v of BvInt i \<Rightarrow> - (2 ^ (n - 1)) \<le> i \<and> i < 2 ^ (n - 1) | _ \<Rightarrow> False)"
| "wellTyped (TyUint n) v = (case v of BvUint m \<Rightarrow> m < 2 ^ n | _ \<Rightarrow> False)"
| "wellTyped (TyFloat n) v = (case v of BvFloat x \<Rightarrow> True | _ \<Rightarrow> False)"
| "wellTyped (TyPtr t) v = (case v of BvPtr None \<Rightarrow> True | BvPtr (Some x) \<Rightarrow> wellTyped t x | _ \<Rightarrow> False)"
| "wellTyped (TySlice t) v =
     (case v of BvSlice None \<Rightarrow> True | BvSlice (Some xs) \<Rightarrow> list_all (wellTyped t) xs | _ \<Rightarrow> False)"
| "wellTyped (TyNamed n t) v = wellTyped t v"
| "wellTyped (TyStruct fs) v = (case v of BvStruct vs \<Rightarrow> wellFields fs vs | _ \<Rightarrow> False)"
| "wellTyped (TyOther k) v = (case v of BvOther x \<Rightarrow> True | _ \<Rightarrow> False)"
| "wellFields [] vs = (vs = [])"
| "wellFields (SField n e tags ty # fs) vs = (case vs of [] \<Rightarrow> False | v # ws \<Rightarrow> wellTyped ty v \<and> wellFields fs ws)"

section \<open>Errors and conversions\<close>

datatype bindError =
    InvalidValue string string
  | UnsupportedKind bty
  | NotStructPointer string
  | FieldError string string string bindError
  | InvalidContentType string
  | UnsupportedContentType string
  | FormError string string
  | BodyTooLarge string
  | BodyError string string
  | UserError string

text \<open>\<open>strconv.ParseInt(s, 10, bits)\<close> and \<open>strconv.ParseUint(s, 10, bits)\<close>: \<open>None\<close> is any error.\<close>

definition parseDigits :: "string \<Rightarrow> nat option" where
  "parseDigits s = (if s = [] \<or> \<not> list_all isDigit s then None else Some (digitsVal 0 s))"

definition parseIntBits :: "nat \<Rightarrow> string \<Rightarrow> int option" where
  "parseIntBits bits s =
     (let inRange = (\<lambda>i. if - (2 ^ (bits - 1)) \<le> i \<and> i < 2 ^ (bits - 1) then Some i else None) in
      case s of
        c # ds \<Rightarrow>
          if c = CHR ''-'' then Option.bind (parseDigits ds) (\<lambda>n. inRange (- int n))
          else if c = CHR ''+'' then Option.bind (parseDigits ds) (\<lambda>n. inRange (int n))
          else Option.bind (parseDigits s) (\<lambda>n. inRange (int n))
      | [] \<Rightarrow> None)"

definition parseUintBits :: "nat \<Rightarrow> string \<Rightarrow> nat option" where
  "parseUintBits bits s = Option.bind (parseDigits s) (\<lambda>n. if n < 2 ^ bits then Some n else None)"

type_synonym unmarshalers = "bty \<Rightarrow> (string \<Rightarrow> bval \<Rightarrow> bindError option \<times> bval) option"

definition converted :: "string \<Rightarrow> string \<Rightarrow> bval \<Rightarrow> ('a \<Rightarrow> bval) \<Rightarrow> 'a option \<Rightarrow> bindError option \<times> bval" where
  "converted what s old mk r = (case r of None \<Rightarrow> (Some (InvalidValue what s), old) | Some x \<Rightarrow> (None, mk x))"

text \<open>The switch on the kind.\<close>

definition setKind :: "(nat \<Rightarrow> string \<Rightarrow> string option) \<Rightarrow> bty \<Rightarrow> string \<Rightarrow> bval \<Rightarrow> bindError option \<times> bval" where
  "setKind pf ty s old =
     (case ty of
        TyString \<Rightarrow> (None, BvString s)
      | TyBool \<Rightarrow> converted ''bool'' s old BvBool (parseBool s)
      | TyInt n \<Rightarrow> converted ''integer'' s old BvInt (parseIntBits n s)
      | TyUint n \<Rightarrow> converted ''unsigned integer'' s old BvUint (parseUintBits n s)
      | TyFloat n \<Rightarrow> converted ''float'' s old BvFloat (pf n s)
      | t \<Rightarrow> (Some (UnsupportedKind t), old))"

text \<open>\<open>setScalar\<close>: through pointers (a nil pointer gets a new value first), then the method of the
  type if it has one, then by kind. \<open>full\<close> is the type the method belongs to.\<close>

fun setScalarAs ::
    "unmarshalers \<Rightarrow> (nat \<Rightarrow> string \<Rightarrow> string option) \<Rightarrow> bty \<Rightarrow> bty \<Rightarrow> string \<Rightarrow> bval \<Rightarrow> bindError option \<times> bval" where
  "setScalarAs um pf full (TyNamed n t) s old = setScalarAs um pf full t s old"
| "setScalarAs um pf full (TyPtr t) s old =
     (let (e, x) = setScalarAs um pf t t s (case old of BvPtr (Some x) \<Rightarrow> x | _ \<Rightarrow> zeroOf t)
      in (e, BvPtr (Some x)))"
| "setScalarAs um pf full ty s old =
     (case um full of Some f \<Rightarrow> f s old | None \<Rightarrow> setKind pf ty s old)"

definition setScalar ::
    "unmarshalers \<Rightarrow> (nat \<Rightarrow> string \<Rightarrow> string option) \<Rightarrow> bty \<Rightarrow> string \<Rightarrow> bval \<Rightarrow> bindError option \<times> bval" where
  "setScalar um pf ty s old = setScalarAs um pf ty ty s old"

text \<open>The elements of a new slice, up to the first error.\<close>

fun setElems ::
    "unmarshalers \<Rightarrow> (nat \<Rightarrow> string \<Rightarrow> string option) \<Rightarrow> bty \<Rightarrow> string list \<Rightarrow> bindError + bval list" where
  "setElems um pf t [] = Inr []"
| "setElems um pf t (s # ss) =
     (case setScalar um pf t s (zeroOf t) of
        (Some e, _) \<Rightarrow> Inl e
      | (None, x) \<Rightarrow> rbind (setElems um pf t ss) (\<lambda>xs. Inr (x # xs)))"

definition setField ::
    "unmarshalers \<Rightarrow> (nat \<Rightarrow> string \<Rightarrow> string option) \<Rightarrow> bty \<Rightarrow> string list \<Rightarrow> bval \<Rightarrow> bindError option \<times> bval" where
  "setField um pf ty values old =
     (case values of
        [] \<Rightarrow> (None, old)
      | s # _ \<Rightarrow>
          (case underlying ty of
             TySlice t \<Rightarrow>
               (case setElems um pf t values of
                  Inl e \<Rightarrow> (Some e, old)
                | Inr xs \<Rightarrow> (None, BvSlice (Some xs)))
           | _ \<Rightarrow> setScalar um pf ty s old))"

section \<open>The loop over the fields\<close>

definition tagLookup :: "string \<Rightarrow> sfield \<Rightarrow> string option" where
  "tagLookup tag f = map_of (sfTags f) tag"

text \<open>The values that the loop finds for a field: \<open>None\<close> when it goes on without.\<close>

definition valuesFor :: "string \<Rightarrow> (string \<Rightarrow> string list option) \<Rightarrow> sfield \<Rightarrow> (string \<times> string list) option" where
  "valuesFor tag lookup f =
     (if \<not> sfExported f then None
      else case tagLookup tag f of
        None \<Rightarrow> None
      | Some name \<Rightarrow>
          if name = [] \<or> name = ''-'' then None
          else (case lookup name of None \<Rightarrow> None | Some values \<Rightarrow> Some (name, values)))"

fun bindFieldList ::
    "unmarshalers \<Rightarrow> (nat \<Rightarrow> string \<Rightarrow> string option) \<Rightarrow> string \<Rightarrow> (string \<Rightarrow> string list option)
       \<Rightarrow> sfield list \<Rightarrow> bval list \<Rightarrow> bindError option \<times> bval list" where
  "bindFieldList um pf tag lookup (f # fs) (x # xs) =
     (case valuesFor tag lookup f of
        None \<Rightarrow> (let (e, ys) = bindFieldList um pf tag lookup fs xs in (e, x # ys))
      | Some (name, values) \<Rightarrow>
          (case setField um pf (sfType f) values x of
             (Some e, y) \<Rightarrow> (Some (FieldError (sfName f) tag name e), y # xs)
           | (None, y) \<Rightarrow> (let (e, ys) = bindFieldList um pf tag lookup fs xs in (e, y # ys))))"
| "bindFieldList um pf tag lookup fs xs = (None, xs)"

text \<open>The destination: not a pointer or nil, or a pointer to a value of a type.\<close>

datatype target = NoPointer | Pointer bty bval

definition bindTagSource ::
    "unmarshalers \<Rightarrow> (nat \<Rightarrow> string \<Rightarrow> string option) \<Rightarrow> target \<Rightarrow> string \<Rightarrow> (string \<Rightarrow> string list option)
       \<Rightarrow> bindError option \<times> target" where
  "bindTagSource um pf dst tag lookup =
     (case dst of
        NoPointer \<Rightarrow> (Some (NotStructPointer ''bind: destination must be a non-nil pointer to a struct''), dst)
      | Pointer ty v \<Rightarrow>
          (case (underlying ty, v) of
             (TyStruct fs, BvStruct xs) \<Rightarrow>
               (let (e, ys) = bindFieldList um pf tag lookup fs xs in (e, Pointer ty (BvStruct ys)))
           | _ \<Rightarrow> (Some (NotStructPointer ''bind: destination must point to a struct''), dst)))"

section \<open>Sources\<close>

text \<open>What the binder reads of a request. \<open>rqBody\<close> is \<open>None\<close> for a nil body; \<open>rqForm\<close> and
  \<open>rqMultipart\<close> are the results of \<open>ParseForm\<close> and \<open>ParseMultipartForm\<close>.\<close>

record bindRequest =
  rqPathValue :: "string \<Rightarrow> string"
  rqQuery :: "string \<Rightarrow> string list option"
  rqBody :: "bytes option"
  rqContentLength :: int
  rqContentType :: string
  rqForm :: "string + (string \<Rightarrow> string list option)"
  rqMultipart :: "string + (string \<Rightarrow> string list option)"

text \<open>The libraries: \<open>mime.ParseMediaType\<close>, and the decoders reading at most so many bytes of a
  body into the destination.\<close>

datatype decodeError = TooManyBytes | Malformed string

record codecs =
  cdMediaType :: "string \<Rightarrow> string option"
  cdJSON :: "int \<Rightarrow> bytes \<Rightarrow> target \<Rightarrow> decodeError option \<times> target"
  cdXML :: "int \<Rightarrow> bytes \<Rightarrow> target \<Rightarrow> decodeError option \<times> target"
  cdFloat :: "nat \<Rightarrow> string \<Rightarrow> string option"

definition MaxBodyBytes :: int where
  "MaxBodyBytes = 4194304"

definition present :: "string list option \<Rightarrow> string list option" where
  "present v = (case v of Some (x # xs) \<Rightarrow> Some (x # xs) | _ \<Rightarrow> None)"

definition BindPathParams :: "unmarshalers \<Rightarrow> codecs \<Rightarrow> bindRequest \<Rightarrow> target \<Rightarrow> bindError option \<times> target" where
  "BindPathParams um cd r dst =
     bindTagSource um (cdFloat cd) dst ''param''
       (\<lambda>name. if rqPathValue r name = [] then None else Some [rqPathValue r name])"

definition BindQueryParams :: "unmarshalers \<Rightarrow> codecs \<Rightarrow> bindRequest \<Rightarrow> target \<Rightarrow> bindError option \<times> target" where
  "BindQueryParams um cd r dst =
     bindTagSource um (cdFloat cd) dst ''query'' (\<lambda>name. present (rqQuery r name))"

definition bodyDecodeError :: "string \<Rightarrow> decodeError \<Rightarrow> bindError" where
  "bodyDecodeError kind e = (case e of TooManyBytes \<Rightarrow> BodyTooLarge kind | Malformed s \<Rightarrow> BodyError kind s)"

definition bindForm ::
    "unmarshalers \<Rightarrow> codecs \<Rightarrow> string \<Rightarrow> string + (string \<Rightarrow> string list option) \<Rightarrow> target \<Rightarrow> bindError option \<times> target" where
  "bindForm um cd what form dst =
     (case form of
        Inl e \<Rightarrow> (Some (FormError what e), dst)
      | Inr values \<Rightarrow> bindTagSource um (cdFloat cd) dst ''form'' (\<lambda>name. present (values name)))"

definition decodeBody ::
    "string \<Rightarrow> (int \<Rightarrow> bytes \<Rightarrow> target \<Rightarrow> decodeError option \<times> target) \<Rightarrow> bytes \<Rightarrow> target \<Rightarrow> bindError option \<times> target" where
  "decodeBody kind dec body dst =
     (case dec MaxBodyBytes body dst of (e, dst') \<Rightarrow> (map_option (bodyDecodeError kind) e, dst'))"

definition BindBody :: "unmarshalers \<Rightarrow> codecs \<Rightarrow> bindRequest \<Rightarrow> target \<Rightarrow> bindError option \<times> target" where
  "BindBody um cd r dst =
     (let body = (case rqBody r of None \<Rightarrow> [] | Some b \<Rightarrow> b) in
      case cdMediaType cd (rqContentType r) of
        None \<Rightarrow> (Some (InvalidContentType (rqContentType r)), dst)
      | Some mt \<Rightarrow>
          if mt = ''application/json'' then decodeBody ''JSON'' (cdJSON cd) body dst
          else if mt = ''application/xml'' \<or> mt = ''text/xml'' then decodeBody ''XML'' (cdXML cd) body dst
          else if mt = ''application/x-www-form-urlencoded'' then bindForm um cd ''form'' (rqForm r) dst
          else if mt = ''multipart/form-data'' then bindForm um cd ''multipart form'' (rqMultipart r) dst
          else (Some (UnsupportedContentType mt), dst))"

definition bindThen :: "bindError option \<times> target \<Rightarrow> (target \<Rightarrow> bindError option \<times> target) \<Rightarrow> bindError option \<times> target" where
  "bindThen r k = (case r of (Some e, dst) \<Rightarrow> (Some e, dst) | (None, dst) \<Rightarrow> k dst)"

text \<open>\<open>DefaultBinder.Bind\<close>.\<close>

definition bindAllSources :: "unmarshalers \<Rightarrow> codecs \<Rightarrow> bindRequest \<Rightarrow> target \<Rightarrow> bindError option \<times> target" where
  "bindAllSources um cd r dst =
     bindThen (BindPathParams um cd r dst) (\<lambda>dst.
     bindThen (BindQueryParams um cd r dst) (\<lambda>dst.
       if rqBody r = None \<or> rqContentLength r = 0 then (None, dst) else BindBody um cd r dst))"

end
