(* ===== verification/BindClaims.thy ===== *)
theory BindClaims
  imports Bind
begin

text \<open>
  Properties of request binding: whatever a request holds, every field keeps its Go type (an
  integer field is never given a number outside its width), and a source changes exactly the
  exported fields tagged for it, in order, up to the first that cannot be converted.
\<close>

section \<open>Types are kept\<close>

lemma zeroOf_typed: "wellTyped t (zeroOf t)" "wellFields fs (zeroFields fs)"
  by (induction t and fs rule: zeroOf_zeroFields.induct) simp_all

lemma wellTyped_underlying: "wellTyped (underlying t) v = wellTyped t v"
  by (induction t rule: underlying.induct) simp_all

lemma underlying_idem [simp]: "underlying (underlying t) = underlying t"
  by (induction t rule: underlying.induct) simp_all

text \<open>What is relied on of the methods of user types and of the decoders: they keep the type.\<close>

definition umTyped :: "unmarshalers \<Rightarrow> bool" where
  "umTyped um \<longleftrightarrow> (\<forall>ty f s v. um ty = Some f \<longrightarrow> wellTyped ty v \<longrightarrow> wellTyped ty (snd (f s v)))"

fun wellTarget :: "target \<Rightarrow> bool" where
  "wellTarget NoPointer = True"
| "wellTarget (Pointer ty v) = wellTyped ty v"

fun targetType :: "target \<Rightarrow> bty option" where
  "targetType NoPointer = None"
| "targetType (Pointer ty v) = Some ty"

definition sameTarget :: "target \<Rightarrow> target \<Rightarrow> bool" where
  "sameTarget dst dst' \<longleftrightarrow> targetType dst' = targetType dst \<and> (wellTarget dst \<longrightarrow> wellTarget dst')"

definition codecTyped :: "codecs \<Rightarrow> bool" where
  "codecTyped cd \<longleftrightarrow> (\<forall>n b dst. sameTarget dst (snd (cdJSON cd n b dst)) \<and> sameTarget dst (snd (cdXML cd n b dst)))"

lemma parseIntBits_range: "parseIntBits n s = Some i \<Longrightarrow> - (2 ^ (n - 1)) \<le> i \<and> i < 2 ^ (n - 1)"
  by (auto simp: parseIntBits_def Let_def bind_eq_Some_conv split: list.splits if_splits)

lemma parseUintBits_range: "parseUintBits n s = Some m \<Longrightarrow> m < 2 ^ n"
  by (auto simp: parseUintBits_def bind_eq_Some_conv split: if_splits)

lemma setKind_typed: "wellTyped ty old \<Longrightarrow> wellTyped ty (snd (setKind pf ty s old))"
  by (cases ty)
     (auto simp: setKind_def converted_def dest: parseIntBits_range parseUintBits_range split: option.split)

lemma method_or_kind_typed:
  assumes "umTyped um" and "underlying full = underlying ty" and "wellTyped ty old"
  shows "wellTyped ty (snd (case um full of Some f \<Rightarrow> f s old | None \<Rightarrow> setKind pf ty s old))"
proof (cases "um full")
  case None
  then show ?thesis using assms(3) setKind_typed by simp
next
  case (Some f)
  have "wellTyped full v = wellTyped ty v" for v by (metis assms(2) wellTyped_underlying)
  moreover from Some assms(1) have "wellTyped full old \<Longrightarrow> wellTyped full (snd (f s old))" by (simp add: umTyped_def)
  ultimately show ?thesis using Some assms(3) by simp
qed

lemma setScalarAs_typed:
  "umTyped um \<Longrightarrow> underlying full = underlying ty \<Longrightarrow> wellTyped ty old \<Longrightarrow> wellTyped ty (snd (setScalarAs um pf full ty s old))"
proof (induction um pf full ty s old rule: setScalarAs.induct)
  case (1 um pf full n t s old)
  then show ?case by simp
next
  case (2 um pf full t s old)
  let ?old = "case old of BvPtr (Some x) \<Rightarrow> x | _ \<Rightarrow> zeroOf t"
  have "wellTyped t ?old"
    using 2(4) by (auto simp: zeroOf_typed split: bval.splits option.splits)
  with 2(1) [OF 2(2) refl] show ?case by (simp add: split_beta)
qed (simp_all only: setScalarAs.simps method_or_kind_typed)

lemma setScalar_typed: "umTyped um \<Longrightarrow> wellTyped ty old \<Longrightarrow> wellTyped ty (snd (setScalar um pf ty s old))"
  by (simp add: setScalar_def setScalarAs_typed)

lemma setElems_typed:
  assumes "umTyped um"
  shows "setElems um pf t ss = Inr xs \<Longrightarrow> list_all (wellTyped t) xs"
proof (induction ss arbitrary: xs)
  case (Cons s ss)
  have "wellTyped t (snd (setScalar um pf t s (zeroOf t)))"
    by (rule setScalar_typed [OF assms zeroOf_typed(1)])
  with Cons show ?case by (auto simp: rbind_eq_Inr split: prod.splits option.splits)
qed simp

lemma setField_typed:
  assumes "umTyped um" and "wellTyped ty old"
  shows "wellTyped ty (snd (setField um pf ty vals old))"
proof (cases vals)
  case (Cons s ss)
  have scalar: "wellTyped ty (snd (setScalar um pf ty s old))" by (rule setScalar_typed [OF assms])
  show ?thesis
  proof (cases "\<exists>t. underlying ty = TySlice t")
    case True
    then obtain t where t: "underlying ty = TySlice t" by blast
    have "wellTyped ty (BvSlice (Some xs))" if "setElems um pf t (s # ss) = Inr xs" for xs
      using setElems_typed [OF assms(1) that] t wellTyped_underlying [of ty "BvSlice (Some xs)"] by simp
    with Cons t assms(2) show ?thesis by (auto simp: setField_def split: sum.split)
  next
    case False
    with Cons scalar show ?thesis by (simp add: setField_def split: bty.split)
  qed
qed (simp add: setField_def assms)

lemma bindFieldList_typed:
  assumes "umTyped um"
  shows "wellFields fs xs \<Longrightarrow> wellFields fs (snd (bindFieldList um pf tag lookup fs xs))"
proof (induction fs arbitrary: xs)
  case (Cons f fs)
  obtain n e tags ty where f: "f = SField n e tags ty" by (cases f)
  with Cons.prems obtain x ys where xs: "xs = x # ys" "wellTyped ty x" "wellFields fs ys"
    by (auto split: list.splits)
  have "wellTyped ty (snd (setField um pf ty vals x))" for vals by (rule setField_typed [OF assms xs(2)])
  then have t: "setField um pf ty vals x = (err, y) \<Longrightarrow> wellTyped ty y" for vals err y by (metis snd_conv)
  show ?case
    using Cons.IH [OF xs(3)] xs t by (auto simp: f split: option.splits prod.splits)
qed simp

lemma bindTagSource_typed:
  assumes "umTyped um"
  shows "sameTarget dst (snd (bindTagSource um pf dst tag lookup))"
proof (cases dst)
  case (Pointer ty v)
  show ?thesis
  proof (cases "\<exists>fs xs. underlying ty = TyStruct fs \<and> v = BvStruct xs")
    case True
    then obtain fs xs where u: "underlying ty = TyStruct fs" "v = BvStruct xs" by blast
    have "wellTyped ty (BvStruct ys) = wellFields fs ys" for ys
      using wellTyped_underlying [of ty "BvStruct ys"] u(1) by simp
    with Pointer u bindFieldList_typed [OF assms, of fs xs pf tag lookup] show ?thesis
      by (auto simp: bindTagSource_def sameTarget_def split: prod.splits)
  next
    case False
    with Pointer show ?thesis by (auto simp: bindTagSource_def sameTarget_def split: bty.splits bval.splits)
  qed
qed (simp add: bindTagSource_def sameTarget_def)

lemma bindThen_typed:
  assumes "sameTarget dst (snd r)" and "\<And>d. sameTarget dst d \<Longrightarrow> sameTarget dst (snd (k d))"
  shows "sameTarget dst (snd (bindThen r k))"
  using assms by (auto simp: bindThen_def split: prod.split option.split)

lemma sameTarget_refl: "sameTarget d d"
  by (simp add: sameTarget_def)

lemma sameTarget_trans: "sameTarget a b \<Longrightarrow> sameTarget b c \<Longrightarrow> sameTarget a c"
  by (simp add: sameTarget_def)

lemma BindBody_typed:
  assumes "umTyped um" and "codecTyped cd"
  shows "sameTarget dst (snd (BindBody um cd r dst))"
proof -
  have form: "sameTarget dst (snd (bindForm um cd what form dst))" for what form
    by (cases form) (simp_all add: bindForm_def sameTarget_refl bindTagSource_typed [OF assms(1)])
  have dec: "sameTarget dst (snd (decodeBody kind f body dst))"
    if "f = cdJSON cd \<or> f = cdXML cd" for kind f body
    using assms(2) that by (auto simp: decodeBody_def codecTyped_def split_beta)
  show ?thesis
    by (cases "cdMediaType cd (rqContentType r)") (simp_all add: BindBody_def Let_def form dec sameTarget_refl)
qed

text \<open>C32: Binding keeps types. Whatever the path, query, form or body holds, and whether it
  succeeds or fails halfway, every field of the destination still holds a value of its Go type:
  integers stay within their width, slices and pointers hold values of their element type. (User
  methods and the JSON and XML decoders are relied on to do the same.)\<close>

theorem bind_keeps_types:
  assumes "umTyped um" and "codecTyped cd" and "wellTyped ty v"
  shows "\<exists>e v'. bindAllSources um cd r (Pointer ty v) = (e, Pointer ty v') \<and> wellTyped ty v'"
proof -
  let ?d = "Pointer ty v"
  have "sameTarget ?d (snd (bindAllSources um cd r ?d))"
    unfolding bindAllSources_def BindPathParams_def BindQueryParams_def
  proof (rule bindThen_typed [OF bindTagSource_typed [OF assms(1)]], rule bindThen_typed)
    fix d assume d: "sameTarget ?d d"
    then show "sameTarget ?d (snd (bindTagSource um (cdFloat cd) d ''query'' (\<lambda>name. present (rqQuery r name))))"
      using bindTagSource_typed [OF assms(1)] sameTarget_trans by blast
    fix d2 assume "sameTarget ?d d2"
    then show "sameTarget ?d (snd (if rqBody r = None \<or> rqContentLength r = 0 then (None, d2) else BindBody um cd r d2))"
      using BindBody_typed [OF assms(1,2)] sameTarget_trans by (auto split: if_split)
  qed
  then show ?thesis
    using assms(3) by (cases "bindAllSources um cd r ?d"; cases "snd (bindAllSources um cd r ?d)") (auto simp: sameTarget_def)
qed

section \<open>What a source changes\<close>

definition fieldResult ::
    "unmarshalers \<Rightarrow> (nat \<Rightarrow> string \<Rightarrow> string option) \<Rightarrow> string \<Rightarrow> (string \<Rightarrow> string list option)
       \<Rightarrow> sfield \<Rightarrow> bval \<Rightarrow> bindError option \<times> bval" where
  "fieldResult um pf tag lookup f x =
     (case valuesFor tag lookup f of
        None \<Rightarrow> (None, x)
      | Some (name, vals) \<Rightarrow>
          (case setField um pf (sfType f) vals x of (e, y) \<Rightarrow> (map_option (FieldError (sfName f) tag name) e, y)))"

lemma bindFieldList_step:
  "bindFieldList um pf tag lookup (f # fs) (x # xs) =
     (case fieldResult um pf tag lookup f x of
        (Some e, y) \<Rightarrow> (Some e, y # xs)
      | (None, y) \<Rightarrow> (let (e, ys) = bindFieldList um pf tag lookup fs xs in (e, y # ys)))"
  by (auto simp: fieldResult_def split: option.splits prod.splits)

lemma bindFieldList_exact:
  "length fs = length xs \<Longrightarrow> bindFieldList um pf tag lookup fs xs = (e, ys) \<Longrightarrow>
   \<exists>k\<le>length fs. length ys = length xs
     \<and> (\<forall>i<length fs. ys ! i = (if i \<le> k then snd (fieldResult um pf tag lookup (fs ! i) (xs ! i)) else xs ! i))
     \<and> (\<forall>i<k. fst (fieldResult um pf tag lookup (fs ! i) (xs ! i)) = None)
     \<and> (if e = None then k = length fs else k < length fs \<and> e = fst (fieldResult um pf tag lookup (fs ! k) (xs ! k)))"
proof (induction fs xs arbitrary: e ys rule: list_induct2')
  case (4 f fs x xs)
  obtain e1 y where r: "fieldResult um pf tag lookup f x = (e1, y)" by fastforce
  show ?case
  proof (cases e1)
    case None
    then obtain e2 ys2 where b: "bindFieldList um pf tag lookup fs xs = (e2, ys2)" "e = e2" "ys = y # ys2"
      using 4(3) r by (auto simp: bindFieldList_step simp del: bindFieldList.simps split: prod.splits)
    from 4(1) [OF _ b(1)] 4(2) obtain k where k: "k \<le> length fs" "length ys2 = length xs"
        "\<forall>i<length fs. ys2 ! i = (if i \<le> k then snd (fieldResult um pf tag lookup (fs ! i) (xs ! i)) else xs ! i)"
        "\<forall>i<k. fst (fieldResult um pf tag lookup (fs ! i) (xs ! i)) = None"
        "if e2 = None then k = length fs else k < length fs \<and> e2 = fst (fieldResult um pf tag lookup (fs ! k) (xs ! k))"
      by auto
    show ?thesis
      using k b(2,3) r None
      by (intro exI [of _ "Suc k"] conjI allI impI) (auto simp: nth_Cons split: nat.splits if_splits)
  next
    case (Some e')
    then have "e = e1" "ys = y # xs"
      using 4(3) r by (simp_all add: bindFieldList_step del: bindFieldList.simps)
    with r Some show ?thesis
      by (intro exI [of _ 0] conjI allI impI) (auto simp: nth_Cons split: nat.splits)
  qed
qed simp_all


section \<open>A sample form\<close>

definition signupType :: bty where
  "signupType = TyNamed ''Signup'' (TyStruct
     [SField ''Age'' True [(''query'', ''age'')] (TyInt 8),
      SField ''Admin'' True [] TyBool,
      SField ''Name'' True [(''query'', ''name''), (''form'', ''name'')] (TyPtr TyString),
      SField ''Tags'' True [(''query'', ''tag'')] (TySlice (TyUint 16))])"

definition signupFields :: "sfield list" where
  "signupFields = (case underlying signupType of TyStruct fs \<Rightarrow> fs | _ \<Rightarrow> [])"

definition signupRequest :: bindRequest where
  "signupRequest = \<lparr>rqPathValue = (\<lambda>n. []),
     rqQuery = [''tag'' \<mapsto> [''1'', ''70000''], ''age'' \<mapsto> [''-128''], ''Admin'' \<mapsto> [''true'']],
     rqBody = None, rqContentLength = 0, rqContentType = [], rqForm = Inl [], rqMultipart = Inl []\<rparr>"

definition noCodecs :: codecs where
  "noCodecs = \<lparr>cdMediaType = (\<lambda>s. None), cdJSON = (\<lambda>n b d. (Some (Malformed []), d)),
     cdXML = (\<lambda>n b d. (Some (Malformed []), d)), cdFloat = (\<lambda>n s. None)\<rparr>"

theorem bind_keeps_types_witness:
  "\<exists>e v'. bindAllSources (\<lambda>ty. None) noCodecs signupRequest (Pointer signupType (zeroOf signupType)) = (e, Pointer signupType v')
     \<and> wellTyped signupType v'"
  by (rule bind_keeps_types) (simp_all add: umTyped_def codecTyped_def noCodecs_def sameTarget_refl zeroOf_typed)

lemma signup_bound:
  "bindTagSource (\<lambda>ty. None) (\<lambda>n s. None) (Pointer signupType (zeroOf signupType)) ''query'' (\<lambda>name. present (rqQuery signupRequest name))
     = (Some (FieldError ''Tags'' ''query'' ''tag'' (InvalidValue ''unsigned integer'' ''70000'')),
        Pointer signupType (BvStruct [BvInt (- 128), BvBool False, BvPtr None, BvSlice None]))"
  by (simp add: signupType_def signupRequest_def bindTagSource_def valuesFor_def tagLookup_def present_def setField_def
      setScalar_def setKind_def converted_def parseIntBits_def parseUintBits_def parseDigits_def isDigit_def digitsVal_def
      digitVal_def Let_def)


text \<open>A slice field is filled element by element also when its own type has an \<open>UnmarshalParam\<close>
  method, which is documented to be consulted first.\<close>

lemma slice_method_ignored:
  "setField (\<lambda>ty. if ty = TyNamed ''Tags'' (TySlice TyString) then Some (\<lambda>s v. (None, BvSlice (Some [BvString ''parsed'']))) else None)
     pf (TyNamed ''Tags'' (TySlice TyString)) [''a,b''] (BvSlice None) = (None, BvSlice (Some [BvString ''a,b'']))"
  by (simp add: setField_def setScalar_def setKind_def)

end
