(* ===== verification/Run.thy ===== *)
theory Run
  imports Prelude
begin

text \<open>
  The life of \<open>Trail.Run\<close> (\<open>trail.go\<close>): the goroutine of the HTTP server, one goroutine per
  \<open>Runner\<close>, and the main goroutine from its \<open>select\<close> over the error channel and the signal context
  through \<open>stop\<close>, \<open>Shutdown\<close> and \<open>wg.Wait\<close>, as a machine whose actions are the points where the
  goroutines meet. What \<open>net/http\<close> and the runners decide (listen errors, connections, when a
  runner returns) are actions of the environment.
\<close>

section \<open>State\<close>

datatype runError = ServerError string | RunnerError string | ShutdownError string

text \<open>The goroutine in \<open>ListenAndServe\<close>: before its check for a shutdown, before \<open>net.Listen\<close> has
  answered, accepting, about to send its error, ended.\<close>

datatype srvState = SvNew | SvListening | SvServing | SvSending string | SvDone

datatype runnerState = RnRunning | RnSending string | RnDone

text \<open>Where the main goroutine stands, with \<open>runErr\<close>; in \<open>Shutdown\<close> with the deadline of its context.\<close>

datatype mainState =
    MSelect
  | MStop "runError option"
  | MShutdown "runError option"
  | MPolling "runError option" int
  | MWait "runError option"
  | MReturned "runError option"

record trailRun =
  trNow :: int
  trParentDone :: bool
  trSignalled :: bool
  trErrs :: "runError list"
  trErrsCap :: nat
  trServer :: srvState
  trInShutdown :: bool
  trActive :: nat
  trRunners :: "runnerState list"
  trMain :: mainState

text \<open>The start of \<open>Run\<close>, up to its \<open>select\<close>: \<open>errs := make(chan error, 1+len(t.runners))\<close> and the
  goroutines. \<open>parentDone\<close>: the Trail's own context is already cancelled.\<close>

definition startRun :: "int \<Rightarrow> bool \<Rightarrow> nat \<Rightarrow> trailRun" where
  "startRun now parentDone runners =
     \<lparr>trNow = now, trParentDone = parentDone, trSignalled = False, trErrs = [], trErrsCap = 1 + runners,
      trServer = SvNew, trInShutdown = False, trActive = 0, trRunners = replicate runners RnRunning,
      trMain = MSelect\<rparr>"

text \<open>\<open>ctx.Done()\<close> of \<open>signal.NotifyContext(t.context, ...)\<close>: a signal, \<open>stop()\<close>, or the parent.\<close>

definition ctxDone :: "trailRun \<Rightarrow> bool" where
  "ctxDone s \<longleftrightarrow> trSignalled s \<or> trParentDone s"

definition shutdownTimeout :: int where
  "shutdownTimeout = 5 * 1000000000"

section \<open>Actions\<close>

datatype runAction =
    RTick int | RSignal | RParentCancel | RConnOpen | RConnDone
  | RListen | RListened | RServeFails string | RServeEnds | RServerSend
  | RRunnerReturns nat "string option" | RRunnerSend nat
  | RSelectErr | RSelectDone | RStop | RShutdownBegin | RShutdownEnd "string option" | RShutdownExpires | RWait

text \<open>\<open>errs <- e\<close>: blocked while the buffer is full.\<close>

definition sendErr :: "runError \<Rightarrow> trailRun \<Rightarrow> trailRun option" where
  "sendErr e s = (if length (trErrs s) < trErrsCap s then Some (s\<lparr>trErrs := trErrs s @ [e]\<rparr>) else None)"

text \<open>The goroutine in \<open>server.ListenAndServe()\<close>; \<open>http.ErrServerClosed\<close> is no error.\<close>

definition serverListen :: "trailRun \<Rightarrow> trailRun option" where
  "serverListen s =
     (if trServer s = SvNew then Some (s\<lparr>trServer := (if trInShutdown s then SvDone else SvListening)\<rparr>) else None)"

definition serverListened :: "trailRun \<Rightarrow> trailRun option" where
  "serverListened s =
     (if trServer s = SvListening then Some (s\<lparr>trServer := (if trInShutdown s then SvDone else SvServing)\<rparr>) else None)"

definition serverFails :: "string \<Rightarrow> trailRun \<Rightarrow> trailRun option" where
  "serverFails e s =
     (if trServer s = SvListening \<or> trServer s = SvServing \<and> \<not> trInShutdown s
      then Some (s\<lparr>trServer := SvSending e\<rparr>) else None)"

definition serverEnds :: "trailRun \<Rightarrow> trailRun option" where
  "serverEnds s = (if trServer s = SvServing \<and> trInShutdown s then Some (s\<lparr>trServer := SvDone\<rparr>) else None)"

definition serverSend :: "trailRun \<Rightarrow> trailRun option" where
  "serverSend s =
     (case trServer s of SvSending e \<Rightarrow> map_option (\<lambda>s. s\<lparr>trServer := SvDone\<rparr>) (sendErr (ServerError e) s) | _ \<Rightarrow> None)"

text \<open>The goroutine of a runner: \<open>r.Run(ctx)\<close> returns, its error is sent, \<open>wg.Done()\<close>.\<close>

definition runnerReturns :: "nat \<Rightarrow> string option \<Rightarrow> trailRun \<Rightarrow> trailRun option" where
  "runnerReturns i e s =
     (if i < length (trRunners s) \<and> trRunners s ! i = RnRunning
      then Some (s\<lparr>trRunners := (trRunners s)[i := (case e of None \<Rightarrow> RnDone | Some m \<Rightarrow> RnSending m)]\<rparr>)
      else None)"

definition runnerSend :: "nat \<Rightarrow> trailRun \<Rightarrow> trailRun option" where
  "runnerSend i s =
     (if i < length (trRunners s)
      then (case trRunners s ! i of
              RnSending e \<Rightarrow> map_option (\<lambda>s. s\<lparr>trRunners := (trRunners s)[i := RnDone]\<rparr>) (sendErr (RunnerError e) s)
            | _ \<Rightarrow> None)
      else None)"

text \<open>The \<open>select\<close>: either branch when both are ready.\<close>

definition selectError :: "trailRun \<Rightarrow> trailRun option" where
  "selectError s =
     (case (trMain s, trErrs s) of
        (MSelect, e # es) \<Rightarrow> Some (s\<lparr>trErrs := es, trMain := MStop (Some e)\<rparr>)
      | _ \<Rightarrow> None)"

definition selectDone :: "trailRun \<Rightarrow> trailRun option" where
  "selectDone s = (if trMain s = MSelect \<and> ctxDone s then Some (s\<lparr>trMain := MStop None\<rparr>) else None)"

definition runStop :: "trailRun \<Rightarrow> trailRun option" where
  "runStop s = (case trMain s of MStop r \<Rightarrow> Some (s\<lparr>trSignalled := True, trMain := MShutdown r\<rparr>) | _ \<Rightarrow> None)"

text \<open>\<open>Shutdown\<close> closes the listeners at once and then polls until no connection is active, or until
  its context is done: after five seconds, or with the Trail's own context. It may also see
  the context done after the last connection has gone.\<close>

definition shutdownBegin :: "trailRun \<Rightarrow> trailRun option" where
  "shutdownBegin s =
     (case trMain s of
        MShutdown r \<Rightarrow> Some (s\<lparr>trInShutdown := True, trMain := MPolling r (trNow s + shutdownTimeout)\<rparr>)
      | _ \<Rightarrow> None)"

text \<open>What \<open>Run\<close> does with the result: only a first error force-closes the connections.\<close>

definition afterShutdown :: "string option \<Rightarrow> runError option \<Rightarrow> trailRun \<Rightarrow> trailRun" where
  "afterShutdown err r s =
     (case (err, r) of
        (Some e, None) \<Rightarrow> s\<lparr>trActive := 0, trMain := MWait (Some (ShutdownError e))\<rparr>
      | _ \<Rightarrow> s\<lparr>trMain := MWait r\<rparr>)"

definition shutdownEnd :: "string option \<Rightarrow> trailRun \<Rightarrow> trailRun option" where
  "shutdownEnd lnErr s =
     (case trMain s of
        MPolling r dl \<Rightarrow> (if trActive s = 0 then Some (afterShutdown lnErr r s) else None)
      | _ \<Rightarrow> None)"

definition shutdownExpires :: "trailRun \<Rightarrow> trailRun option" where
  "shutdownExpires s =
     (case trMain s of
        MPolling r dl \<Rightarrow>
          (if trParentDone s then Some (afterShutdown (Some ''context canceled'') r s)
           else if dl \<le> trNow s then Some (afterShutdown (Some ''context deadline exceeded'') r s)
           else None)
      | _ \<Rightarrow> None)"

text \<open>\<open>wg.Wait()\<close> and \<open>return runErr\<close>.\<close>

definition runWait :: "trailRun \<Rightarrow> trailRun option" where
  "runWait s =
     (case trMain s of
        MWait r \<Rightarrow> (if list_all (\<lambda>x. x = RnDone) (trRunners s) then Some (s\<lparr>trMain := MReturned r\<rparr>) else None)
      | _ \<Rightarrow> None)"

fun runStep :: "trailRun \<Rightarrow> runAction \<Rightarrow> trailRun option" where
  "runStep s (RTick d) = (if 0 \<le> d then Some (s\<lparr>trNow := trNow s + d\<rparr>) else None)"
| "runStep s RSignal = Some (s\<lparr>trSignalled := True\<rparr>)"
| "runStep s RParentCancel = Some (s\<lparr>trParentDone := True\<rparr>)"
| "runStep s RConnOpen =
     (if trServer s = SvServing \<and> \<not> trInShutdown s then Some (s\<lparr>trActive := trActive s + 1\<rparr>) else None)"
| "runStep s RConnDone = (if 0 < trActive s then Some (s\<lparr>trActive := trActive s - 1\<rparr>) else None)"
| "runStep s RListen = serverListen s"
| "runStep s RListened = serverListened s"
| "runStep s (RServeFails e) = serverFails e s"
| "runStep s RServeEnds = serverEnds s"
| "runStep s RServerSend = serverSend s"
| "runStep s (RRunnerReturns i e) = runnerReturns i e s"
| "runStep s (RRunnerSend i) = runnerSend i s"
| "runStep s RSelectErr = selectError s"
| "runStep s RSelectDone = selectDone s"
| "runStep s RStop = runStop s"
| "runStep s RShutdownBegin = shutdownBegin s"
| "runStep s (RShutdownEnd e) = shutdownEnd e s"
| "runStep s RShutdownExpires = shutdownExpires s"
| "runStep s RWait = runWait s"

fun runSteps :: "runAction list \<Rightarrow> trailRun \<Rightarrow> trailRun option" where
  "runSteps [] s = Some s"
| "runSteps (a # as) s = (case runStep s a of None \<Rightarrow> None | Some s' \<Rightarrow> runSteps as s')"

inductive runReach :: "trailRun \<Rightarrow> trailRun \<Rightarrow> bool" for s0 where
  run_start: "runReach s0 s0"
| run_move: "runReach s0 s \<Longrightarrow> runStep s a = Some s' \<Longrightarrow> runReach s0 s'"

lemma runSteps_reach: "runReach s0 s \<Longrightarrow> runSteps as s = Some s' \<Longrightarrow> runReach s0 s'"
  by (induction as arbitrary: s) (auto split: option.splits intro: run_move)

lemma runSteps_append:
  "runSteps (as @ bs) s = (case runSteps as s of None \<Rightarrow> None | Some s' \<Rightarrow> runSteps bs s')"
  by (induction as arbitrary: s) (auto split: option.splits)

lemmas run_defs = serverListen_def serverListened_def serverFails_def serverEnds_def serverSend_def
  runnerReturns_def runnerSend_def selectError_def selectDone_def runStop_def shutdownBegin_def
  afterShutdown_def shutdownEnd_def shutdownExpires_def runWait_def sendErr_def

section \<open>Room in the channel\<close>

text \<open>Each goroutine sends at most once: the buffer has room for all that may still send.\<close>

definition mayServerSend :: "trailRun \<Rightarrow> nat" where
  "mayServerSend s = (if trServer s = SvDone then 0 else 1)"

definition roomOk :: "trailRun \<Rightarrow> bool" where
  "roomOk s \<longleftrightarrow> length (trErrs s) + mayServerSend s + length (filter (\<lambda>x. x \<noteq> RnDone) (trRunners s)) \<le> trErrsCap s"

lemma filter_update_length:
  "i < length xs \<Longrightarrow>
   length (filter P (xs[i := y])) + (if P (xs ! i) then 1 else 0) = length (filter P xs) + (if P y then 1 else 0)"
proof (induction xs arbitrary: i)
  case (Cons x xs)
  then show ?case by (cases i) auto
qed simp

lemma roomOk_step:
  assumes "roomOk s" and "runStep s a = Some s'"
  shows "roomOk s'"
proof -
  note upd = filter_update_length [of _ "trRunners s" "\<lambda>x. x \<noteq> RnDone"]
  show ?thesis
  proof (cases a)
    case (RRunnerReturns i e)
    then show ?thesis using assms upd [of i "case e of None \<Rightarrow> RnDone | Some m \<Rightarrow> RnSending m"]
      by (auto simp: roomOk_def mayServerSend_def runnerReturns_def split: if_splits option.splits)
  next
    case (RRunnerSend i)
    then show ?thesis using assms upd [of i RnDone]
      by (auto simp: roomOk_def mayServerSend_def runnerSend_def sendErr_def split: if_splits runnerState.splits)
  next
    case RServerSend
    then show ?thesis using assms
      by (auto simp: roomOk_def mayServerSend_def serverSend_def sendErr_def split: if_splits srvState.splits)
  qed (use assms in \<open>auto simp: roomOk_def mayServerSend_def run_defs
      split: if_splits option.splits mainState.splits list.splits prod.splits\<close>)
qed

lemma roomOk_reach: "runReach s0 s \<Longrightarrow> roomOk s0 \<Longrightarrow> roomOk s"
  by (induction rule: runReach.induct) (auto intro: roomOk_step)

lemma startRun_room: "roomOk (startRun now p n)"
  by (simp add: roomOk_def startRun_def mayServerSend_def)

lemma room_runner:
  assumes "roomOk s" and "i < length (trRunners s)" and "trRunners s ! i = RnSending e"
  shows "length (trErrs s) < trErrsCap s"
proof -
  have "trRunners s ! i \<in> set (filter (\<lambda>x. x \<noteq> RnDone) (trRunners s))"
    using assms(2,3) nth_mem [OF assms(2)] by simp
  then have "0 < length (filter (\<lambda>x. x \<noteq> RnDone) (trRunners s))" by (rule length_pos_if_in_set)
  with assms(1) show ?thesis unfolding roomOk_def by linarith
qed

lemma room_server: "roomOk s \<Longrightarrow> trServer s = SvSending e \<Longrightarrow> length (trErrs s) < trErrsCap s"
  by (simp add: roomOk_def mayServerSend_def)

section \<open>What a return says\<close>

text \<open>The errors that an action puts into the channel.\<close>

fun sends :: "trailRun \<Rightarrow> runAction \<Rightarrow> runError list" where
  "sends s RServerSend = (case trServer s of SvSending e \<Rightarrow> [ServerError e] | _ \<Rightarrow> [])"
| "sends s (RRunnerSend i) = (case trRunners s ! i of RnSending e \<Rightarrow> [RunnerError e] | _ \<Rightarrow> [])"
| "sends s _ = []"

fun sentBy :: "runAction list \<Rightarrow> trailRun \<Rightarrow> runError list" where
  "sentBy [] s = []"
| "sentBy (a # as) s = sends s a @ (case runStep s a of None \<Rightarrow> [] | Some s' \<Rightarrow> sentBy as s')"

definition firstSent :: "runError list \<Rightarrow> runError option \<Rightarrow> bool" where
  "firstSent sent r \<longleftrightarrow>
     (case r of Some (ShutdownError m) \<Rightarrow> True | Some e \<Rightarrow> sent \<noteq> [] \<and> e = hd sent | None \<Rightarrow> True)"

text \<open>What holds at each point of the main goroutine, given what has been sent so far.\<close>

definition mainOk :: "runError list \<Rightarrow> trailRun \<Rightarrow> bool" where
  "mainOk sent s \<longleftrightarrow>
     (\<forall>e\<in>set sent. \<forall>m. e \<noteq> ShutdownError m) \<and>
     (case trMain s of
        MSelect \<Rightarrow> trErrs s = sent \<and> \<not> trInShutdown s
      | MStop r \<Rightarrow> firstSent sent r \<and> (r = None \<longrightarrow> ctxDone s) \<and> \<not> trInShutdown s
      | MShutdown r \<Rightarrow> firstSent sent r \<and> trSignalled s \<and> \<not> trInShutdown s
      | MPolling r dl \<Rightarrow> firstSent sent r \<and> trSignalled s \<and> trInShutdown s
      | MWait r \<Rightarrow> firstSent sent r \<and> trSignalled s \<and> trInShutdown s
          \<and> (trActive s = 0 \<or> r \<noteq> None)
      | MReturned r \<Rightarrow> firstSent sent r \<and> trSignalled s \<and> trInShutdown s \<and> list_all (\<lambda>x. x = RnDone) (trRunners s)
          \<and> (trActive s = 0 \<or> r \<noteq> None))"

lemma firstSent_append [simp]: "firstSent sent r \<Longrightarrow> firstSent (sent @ later) r"
  by (auto simp: firstSent_def split: option.splits runError.splits)

lemma mainOk_keep:
  assumes "mainOk sent s" and "trMain s' = trMain s" and "trErrs s' = trErrs s @ new"
    and "trInShutdown s' = trInShutdown s" and "trSignalled s \<longrightarrow> trSignalled s'"
    and "trParentDone s \<longrightarrow> trParentDone s'"
    and "trInShutdown s \<and> trActive s = 0 \<longrightarrow> trActive s' = 0"
    and "list_all (\<lambda>x. x = RnDone) (trRunners s) \<longrightarrow> trRunners s' = trRunners s"
    and "\<forall>e\<in>set new. \<forall>m. e \<noteq> ShutdownError m"
  shows "mainOk (sent @ new) s'"
proof -
  have "\<forall>e\<in>set (sent @ new). \<forall>m. e \<noteq> ShutdownError m" using assms(1,9) by (auto simp: mainOk_def)
  with assms show ?thesis by (cases "trMain s") (auto simp: mainOk_def ctxDone_def)
qed

lemma mainOk_select:
  assumes "mainOk sent s" and "selectError s = Some s' \<or> selectDone s = Some s'"
  shows "mainOk sent s'"
proof (cases "trMain s")
  case MSelect
  show ?thesis
  proof (cases "trErrs s")
    case Nil
    with MSelect assms show ?thesis by (auto simp: mainOk_def selectError_def selectDone_def firstSent_def ctxDone_def split: if_splits)
  next
    case (Cons e es)
    with MSelect assms(1) have sent: "sent = e # es" by (simp add: mainOk_def)
    with assms(1) have "\<forall>m. e \<noteq> ShutdownError m" by (simp add: mainOk_def)
    with sent have "firstSent sent (Some e)" by (cases e) (simp_all add: firstSent_def)
    with MSelect Cons sent assms show ?thesis
      by (auto simp: mainOk_def selectError_def selectDone_def firstSent_def ctxDone_def split: if_splits)
  qed
qed (use assms in \<open>auto simp: selectError_def selectDone_def split: if_splits\<close>)

lemma mainOk_stop: "mainOk sent s \<Longrightarrow> runStop s = Some s' \<or> shutdownBegin s = Some s' \<Longrightarrow> mainOk sent s'"
  by (cases "trMain s") (auto simp: mainOk_def runStop_def shutdownBegin_def)

lemma mainOk_afterShutdown:
  assumes "mainOk sent s" and "trMain s = MPolling r dl" and "err \<noteq> None \<or> trActive s = 0"
  shows "mainOk sent (afterShutdown err r s)"
  using assms by (cases err; cases r) (auto simp: mainOk_def afterShutdown_def firstSent_def)

lemma mainOk_polling:
  "mainOk sent s \<Longrightarrow> shutdownEnd e s = Some s' \<or> shutdownExpires s = Some s' \<Longrightarrow> mainOk sent s'"
  by (cases "trMain s") (auto simp: shutdownEnd_def shutdownExpires_def mainOk_afterShutdown split: if_splits)

lemma mainOk_wait: "mainOk sent s \<Longrightarrow> runWait s = Some s' \<Longrightarrow> mainOk sent s'"
  by (cases "trMain s") (auto simp: mainOk_def runWait_def split: if_splits)

lemma all_done_nth: "list_all (\<lambda>x. x = RnDone) xs \<Longrightarrow> i < length xs \<Longrightarrow> xs ! i = RnDone"
  by (simp add: list_all_length)

lemma mainOk_step:
  assumes "mainOk sent s" and "runStep s a = Some s'"
  shows "mainOk (sent @ sends s a) s'"
proof (cases a)
  case RServerSend
  then obtain e where "trServer s = SvSending e" using assms(2) by (auto simp: serverSend_def split: srvState.splits)
  with RServerSend assms(2) show ?thesis
    by (intro mainOk_keep [OF assms(1)]) (auto simp: serverSend_def sendErr_def split: if_splits)
next
  case (RRunnerSend i)
  then obtain e where "i < length (trRunners s)" "trRunners s ! i = RnSending e"
    using assms(2) by (auto simp: runnerSend_def split: runnerState.splits if_splits)
  with RRunnerSend assms(2) show ?thesis
    by (intro mainOk_keep [OF assms(1)]) (auto simp: runnerSend_def sendErr_def dest: all_done_nth split: if_splits)
next
  case (RRunnerReturns i e)
  with assms(2) show ?thesis
    by (intro mainOk_keep [OF assms(1)]) (auto simp: runnerReturns_def dest: all_done_nth split: if_splits)
next
  case RSelectErr
  with assms show ?thesis by (auto intro: mainOk_select)
next
  case RSelectDone
  with assms show ?thesis by (auto intro: mainOk_select)
next
  case RStop
  with assms show ?thesis by (auto intro: mainOk_stop)
next
  case RShutdownBegin
  with assms show ?thesis by (auto intro: mainOk_stop)
next
  case (RShutdownEnd e)
  with assms show ?thesis by (auto intro: mainOk_polling)
next
  case RShutdownExpires
  with assms show ?thesis by (auto intro: mainOk_polling)
next
  case RWait
  with assms show ?thesis by (auto intro: mainOk_wait)
qed (use assms(2) in \<open>auto simp: serverListen_def serverListened_def serverFails_def serverEnds_def
      intro!: mainOk_keep [OF assms(1), where new = "[]", simplified] split: if_splits\<close>)

lemma mainOk_steps: "runSteps as s = Some s' \<Longrightarrow> mainOk sent s \<Longrightarrow> mainOk (sent @ sentBy as s) s'"
proof (induction as arbitrary: s sent)
  case (Cons a as)
  then obtain s1 where s1: "runStep s a = Some s1" "runSteps as s1 = Some s'" by (auto split: option.splits)
  from Cons.IH [OF s1(2) mainOk_step [OF Cons.prems(2) s1(1)]] s1(1) show ?case by simp
qed simp

lemma mainOk_start: "mainOk [] (startRun now p n)"
  by (simp add: mainOk_def startRun_def)

text \<open>C34: When \<open>Run\<close> returns, every runner has returned and the listeners are closed; an error from
  the server or a runner is the first one that was sent; and only with an error can a connection
  still be active. On the way no goroutine is ever blocked in its send of an error.\<close>

theorem run_joins:
  assumes "runSteps as (startRun now p n) = Some s"
  shows "(\<forall>r. trMain s = MReturned r \<longrightarrow>
             trRunners s = replicate n RnDone \<and> ctxDone s \<and> trInShutdown s
             \<and> firstSent (sentBy as (startRun now p n)) r \<and> (r = None \<longrightarrow> trActive s = 0))
    \<and> (\<forall>i e. i < n \<and> trRunners s ! i = RnSending e \<longrightarrow> runStep s (RRunnerSend i) \<noteq> None)
    \<and> (\<forall>e. trServer s = SvSending e \<longrightarrow> runStep s RServerSend \<noteq> None)"
proof -
  have m: "mainOk (sentBy as (startRun now p n)) s" using mainOk_steps [OF assms mainOk_start] by simp
  have reach: "runReach (startRun now p n) s" by (rule runSteps_reach [OF run_start assms])
  then have room: "roomOk s" by (rule roomOk_reach) (rule startRun_room)
  have len: "length (trRunners s) = n"
    using reach
  proof (induction rule: runReach.induct)
    case run_start
    then show ?case by (simp add: startRun_def)
  next
    case (run_move s a s')
    then show ?case
      by (cases a) (auto simp: run_defs split: if_splits option.splits mainState.splits list.splits srvState.splits runnerState.splits)
  qed
  have "list_all (\<lambda>x. x = RnDone) (trRunners s) \<Longrightarrow> trRunners s = replicate n RnDone"
    using len by (metis (mono_tags, lifting) list_all_iff replicate_eqI)
  with m have "\<forall>r. trMain s = MReturned r \<longrightarrow> trRunners s = replicate n RnDone \<and> ctxDone s \<and> trInShutdown s
             \<and> firstSent (sentBy as (startRun now p n)) r \<and> (r = None \<longrightarrow> trActive s = 0)"
    by (auto simp: mainOk_def ctxDone_def)
  moreover have "\<forall>i e. i < n \<and> trRunners s ! i = RnSending e \<longrightarrow> runStep s (RRunnerSend i) \<noteq> None"
    using room_runner [OF room] len by (auto simp: runnerSend_def sendErr_def)
  moreover have "\<forall>e. trServer s = SvSending e \<longrightarrow> runStep s RServerSend \<noteq> None"
    using room_server [OF room] by (auto simp: serverSend_def sendErr_def)
  ultimately show ?thesis by blast
qed

section \<open>Run returns\<close>

text \<open>The moves of \<open>Run\<close>'s own goroutines and the return of a runner; the others are the time, the
  signal and the connections.\<close>

fun runMoves :: "runAction \<Rightarrow> bool" where
  "runMoves (RTick d) = False"
| "runMoves RSignal = False"
| "runMoves RParentCancel = False"
| "runMoves RConnOpen = False"
| "runMoves RConnDone = False"
| "runMoves _ = True"

fun serverLeft :: "srvState \<Rightarrow> nat" where
  "serverLeft SvNew = 4"
| "serverLeft SvListening = 3"
| "serverLeft SvServing = 2"
| "serverLeft (SvSending e) = 1"
| "serverLeft SvDone = 0"

fun runnerLeft :: "runnerState \<Rightarrow> nat" where
  "runnerLeft RnRunning = 2"
| "runnerLeft (RnSending e) = 1"
| "runnerLeft RnDone = 0"

fun mainLeft :: "mainState \<Rightarrow> nat" where
  "mainLeft MSelect = 5"
| "mainLeft (MStop r) = 4"
| "mainLeft (MShutdown r) = 3"
| "mainLeft (MPolling r dl) = 2"
| "mainLeft (MWait r) = 1"
| "mainLeft (MReturned r) = 0"

definition stepsLeft :: "trailRun \<Rightarrow> nat" where
  "stepsLeft s = serverLeft (trServer s) + sum_list (map runnerLeft (trRunners s)) + mainLeft (trMain s)"

lemma sum_update_less:
  "i < length xs \<Longrightarrow> f y < f (xs ! i) \<Longrightarrow> sum_list (map f (xs[i := y])) < sum_list (map f xs)" for f :: "'a \<Rightarrow> nat"
proof (induction xs arbitrary: i)
  case (Cons x xs)
  then show ?case by (cases i) auto
qed simp

lemma stepsLeft_step:
  assumes "runStep s a = Some s'"
  shows "stepsLeft s' + (if runMoves a then 1 else 0) \<le> stepsLeft s"
proof (cases a)
  case (RRunnerReturns i e)
  then show ?thesis
    using assms sum_update_less [of i "trRunners s" runnerLeft "case e of None \<Rightarrow> RnDone | Some m \<Rightarrow> RnSending m"]
    by (auto simp: stepsLeft_def runnerReturns_def split: if_splits option.splits)
next
  case (RRunnerSend i)
  then show ?thesis
    using assms sum_update_less [of i "trRunners s" runnerLeft RnDone]
    by (auto simp: stepsLeft_def runnerSend_def sendErr_def split: if_splits runnerState.splits)
qed (use assms in \<open>auto simp: stepsLeft_def run_defs
      split: if_splits option.splits mainState.splits list.splits srvState.splits\<close>)

lemma stepsLeft_steps: "runSteps as s = Some s' \<Longrightarrow> stepsLeft s' + length (filter runMoves as) \<le> stepsLeft s"
proof (induction as arbitrary: s)
  case (Cons a as)
  then obtain s1 where s1: "runStep s a = Some s1" "runSteps as s1 = Some s'" by (auto split: option.splits)
  from Cons.IH [OF s1(2)] stepsLeft_step [OF s1(1)] show ?case by (auto split: if_splits)
qed simp

text \<open>A reason to end: it does not go away before the \<open>select\<close> has seen it.\<close>

definition mustEnd :: "trailRun \<Rightarrow> bool" where
  "mustEnd s \<longleftrightarrow> ctxDone s \<or> trErrs s \<noteq> [] \<or> trMain s \<noteq> MSelect"

lemma mustEnd_step: "mustEnd s \<Longrightarrow> runStep s a = Some s' \<Longrightarrow> mustEnd s'"
  by (cases a) (auto simp: mustEnd_def ctxDone_def run_defs
      split: if_splits option.splits mainState.splits list.splits srvState.splits runnerState.splits)

lemma mustEnd_steps: "runSteps as s = Some s' \<Longrightarrow> mustEnd s \<Longrightarrow> mustEnd s'"
  by (induction as arbitrary: s) (auto split: option.splits intro: mustEnd_step)

lemma deadline_reach: "runReach (startRun now p n) s \<Longrightarrow> trMain s = MPolling r dl \<Longrightarrow> dl \<le> trNow s + shutdownTimeout"
proof (induction arbitrary: r dl rule: runReach.induct)
  case run_start
  then show ?case by (simp add: startRun_def)
next
  case (run_move s a s')
  then show ?case
    by (cases a) (auto simp: run_defs
      split: if_splits option.splits mainState.splits list.splits srvState.splits runnerState.splits)
qed

lemma some_move:
  assumes reach: "runReach (startRun now p n) s" and "mustEnd s" and "\<nexists>r. trMain s = MReturned r"
  shows "\<exists>d a. 0 \<le> d \<and> d \<le> shutdownTimeout \<and> runMoves a \<and> runSteps [RTick d, a] s \<noteq> None"
proof -
  have room: "roomOk s" using reach startRun_room by (rule roomOk_reach)
  have now: "\<exists>d a. 0 \<le> d \<and> d \<le> shutdownTimeout \<and> runMoves a \<and> runSteps [RTick d, a] s \<noteq> None"
    if "runMoves a" "runStep (s\<lparr>trNow := trNow s\<rparr>) a \<noteq> None" for a
    using that by (intro exI [of _ 0] exI [of _ a]) (auto simp: shutdownTimeout_def split: option.splits)
  show ?thesis
  proof (cases "trMain s")
    case MSelect
    show ?thesis
    proof (cases "ctxDone s")
      case True
      with MSelect show ?thesis by (intro now [of RSelectDone]) (simp_all add: selectDone_def ctxDone_def)
    next
      case False
      with MSelect assms(2) have "trErrs s \<noteq> []" by (simp add: mustEnd_def)
      with MSelect show ?thesis by (intro now [of RSelectErr]) (auto simp: selectError_def split: list.splits)
    qed
  next
    case (MStop r)
    then show ?thesis by (intro now [of RStop]) (simp_all add: runStop_def)
  next
    case (MShutdown r)
    then show ?thesis by (intro now [of RShutdownBegin]) (simp_all add: shutdownBegin_def)
  next
    case (MPolling r dl)
    have "dl \<le> trNow s + shutdownTimeout" using reach MPolling by (rule deadline_reach)
    with MPolling show ?thesis
      by (intro exI [of _ shutdownTimeout] exI [of _ RShutdownExpires]) (auto simp: shutdownExpires_def shutdownTimeout_def)
  next
    case (MWait r)
    show ?thesis
    proof (cases "list_all (\<lambda>x. x = RnDone) (trRunners s)")
      case True
      with MWait show ?thesis by (intro now [of RWait]) (simp_all add: runWait_def)
    next
      case False
      then obtain i where i: "i < length (trRunners s)" "trRunners s ! i \<noteq> RnDone" by (auto simp: list_all_length)
      show ?thesis
      proof (cases "trRunners s ! i")
        case RnRunning
        with i show ?thesis by (intro now [of "RRunnerReturns i None"]) (simp_all add: runnerReturns_def)
      next
        case (RnSending e)
        with i room_runner [OF room] show ?thesis
          by (intro now [of "RRunnerSend i"]) (simp_all add: runnerSend_def sendErr_def)
      qed (use i in simp)
    qed
  next
    case (MReturned r)
    with assms(3) show ?thesis by blast
  qed
qed

text \<open>C35: Once a signal, the end of the Trail's own context or an error is there, \<open>Run\<close> returns,
  provided its runners do: at most \<open>9 + 2 n\<close> moves of its goroutines and returns of runners can
  still happen, whatever connections and signals come in between, and as long as \<open>Run\<close> has not
  returned one of them is possible after at most five more seconds.\<close>

theorem run_returns:
  assumes "runSteps as (startRun now p n) = Some s" and "ctxDone s \<or> trErrs s \<noteq> []"
    and "runSteps bs s = Some s'"
  shows "length (filter runMoves bs) \<le> 9 + 2 * n
    \<and> ((\<exists>r. trMain s' = MReturned r)
       \<or> (\<exists>d a. 0 \<le> d \<and> d \<le> shutdownTimeout \<and> runMoves a \<and> runSteps [RTick d, a] s' \<noteq> None))"
proof
  have "runReach (startRun now p n) s'"
    by (rule runSteps_reach [OF runSteps_reach [OF run_start assms(1)] assms(3)])
  moreover have "mustEnd s'" using mustEnd_steps [OF assms(3)] assms(2) by (auto simp: mustEnd_def)
  ultimately show "(\<exists>r. trMain s' = MReturned r)
       \<or> (\<exists>d a. 0 \<le> d \<and> d \<le> shutdownTimeout \<and> runMoves a \<and> runSteps [RTick d, a] s' \<noteq> None)"
    using some_move by blast
  have "runSteps (as @ bs) (startRun now p n) = Some s'" using assms by (simp add: runSteps_append)
  from stepsLeft_steps [OF assms(3)] stepsLeft_steps [OF assms(1)]
  show "length (filter runMoves bs) \<le> 9 + 2 * n"
    by (simp add: stepsLeft_def startRun_def sum_list_replicate)
qed

text \<open>A run with two runners: one fails while a request is being served; the other returns on the
  cancelled context.\<close>

definition failingRun :: "runAction list" where
  "failingRun = [RListen, RListened, RConnOpen, RRunnerReturns 0 (Some ''lost its database''), RRunnerSend 0]"

definition endingRun :: "runAction list" where
  "endingRun = [RSelectErr, RStop, RShutdownBegin, RServeEnds, RConnDone, RShutdownEnd None, RRunnerReturns 1 None, RWait]"

lemma run_joins_witness:
  "trMain (the (runSteps (failingRun @ endingRun) (startRun 0 False 2))) = MReturned (Some (RunnerError ''lost its database''))
   \<and> trRunners (the (runSteps (failingRun @ endingRun) (startRun 0 False 2))) = replicate 2 RnDone"
proof -
  have "map_option trMain (runSteps (failingRun @ endingRun) (startRun 0 False 2))
      = Some (MReturned (Some (RunnerError ''lost its database'')))" by code_simp
  then show ?thesis using run_joins [of "failingRun @ endingRun" 0 False 2] by auto
qed

lemma run_returns_witness:
  "length (filter runMoves endingRun) \<le> 9 + 2 * 2 \<and> \<not> ctxDone (the (runSteps failingRun (startRun 0 False 2)))"
proof -
  have "map_option (\<lambda>s. (trErrs s = [], ctxDone s)) (runSteps failingRun (startRun 0 False 2)) = Some (False, False)"
    by code_simp
  then obtain s where s: "runSteps failingRun (startRun 0 False 2) = Some s" "trErrs s \<noteq> []" "\<not> ctxDone s" by auto
  have "map_option (\<lambda>s. ()) (runSteps (failingRun @ endingRun) (startRun 0 False 2)) = Some ()" by code_simp
  with s(1) obtain s' where "runSteps endingRun s = Some s'" by (auto simp: runSteps_append)
  with run_returns [OF s(1), of endingRun s'] s show ?thesis by simp
qed

section \<open>Where the documentation promises more\<close>

text \<open>\<open>Run\<close> documents that connections are force-closed after five seconds. After an error of a
  runner they are not: \<open>Close\<close> is only called when there is no error yet.\<close>

theorem no_force_close_after_error:
  "map_option (\<lambda>s. (trMain s, trActive s))
     (runSteps (failingRun @ [RSelectErr, RStop, RShutdownBegin, RServeEnds, RTick shutdownTimeout, RShutdownExpires,
        RRunnerReturns 1 None, RWait]) (startRun 0 False 2))
   = Some (MReturned (Some (RunnerError ''lost its database'')), 1)"
  by code_simp

text \<open>The five seconds are those of a context under the Trail's own: when that one was cancelled,
  requests in flight get no time at all.\<close>

theorem no_grace_after_parent_cancel:
  "map_option (\<lambda>s. (trNow s, trMain s))
     (runSteps [RListen, RListened, RConnOpen, RParentCancel, RSelectDone, RStop, RShutdownBegin, RShutdownExpires, RWait]
        (startRun 0 False 0))
   = Some (0, MReturned (Some (ShutdownError ''context canceled'')))"
  by code_simp

text \<open>An error is only looked at in the \<open>select\<close>: one that a runner returns while it is shut down, or
  that is ready together with the signal, is dropped, and \<open>Run\<close> returns nil.\<close>

theorem shutdown_error_dropped:
  "map_option (\<lambda>s. (trMain s, trErrs s))
     (runSteps [RListen, RListened, RSignal, RRunnerReturns 0 (Some ''flush failed''), RRunnerSend 0, RSelectDone,
        RStop, RShutdownBegin, RServeEnds, RShutdownEnd None, RWait] (startRun 0 False 1))
   = Some (MReturned None, [RunnerError ''flush failed''])"
  by code_simp

end
