(* ===== verification/Paths.thy ===== *)
theory Paths
  imports Prelude
begin

text \<open>
  The parts of \<open>path\<close>, \<open>strings\<close> and \<open>regexp\<close> that the asset pipeline and the renderers call: lexical
  paths, glob patterns, replacement of substrings, and regular expressions that are sequences of
  single characters and greedy repetitions of a class, matched the way \<open>regexp\<close> does (leftmost
  match, first choice by greed).
\<close>

section \<open>Slash-separated paths\<close>

text \<open>\<open>path.Clean\<close>: the components that stay, latest first.\<close>

fun cleanParts :: "bool \<Rightarrow> string list \<Rightarrow> string list \<Rightarrow> string list" where
  "cleanParts rooted acc [] = rev acc"
| "cleanParts rooted acc (p # ps) =
     (if p = [] \<or> p = ''.'' then cleanParts rooted acc ps
      else if p = ''..'' then
        (case acc of
           [] \<Rightarrow> cleanParts rooted (if rooted then [] else [p]) ps
         | q # qs \<Rightarrow> cleanParts rooted (if q = ''..'' then p # acc else qs) ps)
      else cleanParts rooted (p # acc) ps)"

definition pathClean :: "string \<Rightarrow> string" where
  "pathClean s =
     (let rooted = hasPrefix s ''/'';
          out = (if rooted then ''/'' else []) @ join ''/'' (cleanParts rooted [] (splitOn (CHR ''/'') s))
      in if out = [] then ''.'' else out)"

definition pathJoin :: "string list \<Rightarrow> string" where
  "pathJoin elems = (case filter (\<lambda>e. e \<noteq> []) elems of [] \<Rightarrow> [] | es \<Rightarrow> pathClean (join ''/'' es))"

text \<open>\<open>path.Split\<close>: up to and after the last slash.\<close>

definition pathSplit :: "string \<Rightarrow> string \<times> string" where
  "pathSplit s =
     (let file = rev (takeWhile (\<lambda>c. c \<noteq> CHR ''/'') (rev s)) in (take (length s - length file) s, file))"

definition pathDir :: "string \<Rightarrow> string" where
  "pathDir s = pathClean (fst (pathSplit s))"

definition pathBase :: "string \<Rightarrow> string" where
  "pathBase s =
     (let t = rev (dropWhile (\<lambda>c. c = CHR ''/'') (rev s)) in
      if s = [] then ''.'' else if t = [] then ''/'' else snd (pathSplit t))"

text \<open>\<open>path.Ext\<close>: from the last dot of the last component.\<close>

definition pathExt :: "string \<Rightarrow> string" where
  "pathExt s =
     (let file = rev (snd (pathSplit s)); ext = takeWhile (\<lambda>c. c \<noteq> CHR ''.'') file in
      if length ext < length file then CHR ''.'' # rev ext else [])"

definition trimSuffix :: "string \<Rightarrow> string \<Rightarrow> string" where
  "trimSuffix s suf = (if hasSuffix s suf then take (length s - length suf) s else s)"

lemma pathSplit_append: "fst (pathSplit s) @ snd (pathSplit s) = s"
proof -
  let ?f = "takeWhile (\<lambda>c. c \<noteq> CHR ''/'') (rev s)"
  have "rev s = ?f @ dropWhile (\<lambda>c. c \<noteq> CHR ''/'') (rev s)" by simp
  then have "s = rev (dropWhile (\<lambda>c. c \<noteq> CHR ''/'') (rev s)) @ rev ?f" by (metis rev_append rev_rev_ident)
  then show ?thesis
    by (metis (no_types, lifting) append_eq_conv_conj add_diff_cancel_right' fst_conv length_append pathSplit_def snd_conv)
qed

lemma pathExt_suffix: "\<exists>base. s = base @ pathExt s"
proof -
  let ?file = "rev (snd (pathSplit s))"
  let ?ext = "takeWhile (\<lambda>c. c \<noteq> CHR ''.'') ?file"
  show ?thesis
  proof (cases "length ?ext < length ?file")
    case True
    then have "dropWhile (\<lambda>c. c \<noteq> CHR ''.'') ?file \<noteq> []"
      by (metis append_Nil2 less_irrefl takeWhile_dropWhile_id)
    then obtain r where r: "dropWhile (\<lambda>c. c \<noteq> CHR ''.'') ?file = CHR ''.'' # r"
      by (cases "dropWhile (\<lambda>c. c \<noteq> CHR ''.'') ?file") (auto simp: dropWhile_eq_Cons_conv)
    then have "?file = ?ext @ CHR ''.'' # r" by (metis takeWhile_dropWhile_id)
    then have "snd (pathSplit s) = rev r @ CHR ''.'' # rev ?ext"
      by (metis append.assoc append_Cons append_Nil rev.simps(2) rev_append rev_rev_ident)
    with True have "s = (fst (pathSplit s) @ rev r) @ pathExt s"
      using pathSplit_append [of s] by (simp add: pathExt_def Let_def)
    then show ?thesis by blast
  qed (simp add: pathExt_def Let_def)
qed

section \<open>Glob patterns\<close>

datatype globTok = GlobStar | GlobAny | GlobClass bool "(char \<times> char) list" | GlobChar char

text \<open>One character of a class, possibly escaped; something must follow it.\<close>

fun globEsc :: "string \<Rightarrow> (char \<times> string) option" where
  "globEsc [] = None"
| "globEsc (c # s) =
     (if c = CHR ''-'' \<or> c = CHR '']'' then None
      else if c = CHR 0x5C then (case s of d # e # t \<Rightarrow> Some (d, e # t) | _ \<Rightarrow> None)
      else if s = [] then None else Some (c, s))"

lemma globEsc_shorter: "globEsc s = Some (c, t) \<Longrightarrow> length t < length s"
  by (cases s) (auto split: if_splits list.splits)

function globRanges :: "(char \<times> char) list \<Rightarrow> string \<Rightarrow> ((char \<times> char) list \<times> string) option" where
  "globRanges acc s =
     (if acc \<noteq> [] \<and> hasPrefix s '']'' then Some (rev acc, tl s)
      else case globEsc s of
        None \<Rightarrow> None
      | Some (lo, t) \<Rightarrow>
          if hasPrefix t ''-'' then
            (case globEsc (tl t) of None \<Rightarrow> None | Some (hi, u) \<Rightarrow> globRanges ((lo, hi) # acc) u)
          else globRanges ((lo, lo) # acc) t)"
  by pat_completeness auto
termination
  by (relation "measure (length \<circ> snd)") (auto dest!: globEsc_shorter)

declare globRanges.simps [simp del]

lemma globRanges_shorter: "globRanges acc s = Some (rs, t) \<Longrightarrow> length t < length s"
proof (induction acc s rule: globRanges.induct)
  case (1 acc s)
  show ?case
  proof (cases "acc \<noteq> [] \<and> hasPrefix s '']''")
    case True
    with 1(3) have "t = tl s" by (simp add: globRanges.simps [of acc s])
    with True show ?thesis by (cases s) (simp_all add: hasPrefix_def)
  next
    case False
    with 1(3) obtain lo t1 where t1: "globEsc s = Some (lo, t1)"
      by (auto simp: globRanges.simps [of acc s] split: option.splits)
    show ?thesis
    proof (cases "hasPrefix t1 ''-''")
      case True
      with 1(3) False t1 obtain hi u where u: "globEsc (tl t1) = Some (hi, u)"
        by (auto simp: globRanges.simps [of acc s] split: option.splits)
      with True False t1 1(3) have "globRanges ((lo, hi) # acc) u = Some (rs, t)"
        by (auto simp: globRanges.simps [of acc s])
      from 1(1) [OF False t1 refl True u refl this] globEsc_shorter [OF u] globEsc_shorter [OF t1]
      show ?thesis by simp
    next
      case no: False
      with False t1 1(3) have "globRanges ((lo, lo) # acc) t1 = Some (rs, t)"
        by (auto simp: globRanges.simps [of acc s])
      from 1(2) [OF False t1 refl no this] globEsc_shorter [OF t1] show ?thesis by simp
    qed
  qed
qed

text \<open>\<open>None\<close> is \<open>path.ErrBadPattern\<close>.\<close>

function parseGlob :: "string \<Rightarrow> globTok list option" where
  "parseGlob [] = Some []"
| "parseGlob (c # s) =
     (if c = CHR ''*'' then map_option (Cons GlobStar) (parseGlob s)
      else if c = CHR ''?'' then map_option (Cons GlobAny) (parseGlob s)
      else if c = CHR 0x5C then
        (case s of [] \<Rightarrow> None | d # t \<Rightarrow> map_option (Cons (GlobChar d)) (parseGlob t))
      else if c = CHR ''['' then
        (case globRanges [] (if hasPrefix s ''^'' then tl s else s) of
           None \<Rightarrow> None
         | Some (rs, t) \<Rightarrow> map_option (Cons (GlobClass (hasPrefix s ''^'') rs)) (parseGlob t))
      else map_option (Cons (GlobChar c)) (parseGlob s))"
  by pat_completeness auto
termination
proof (relation "measure length")
  fix c :: char and s :: string and x :: "(char \<times> char) list \<times> string" and rs t
  assume "globRanges [] (if hasPrefix s ''^'' then tl s else s) = Some x" and "(rs, t) = x"
  then have "length t < length (if hasPrefix s ''^'' then tl s else s)" by (auto dest: globRanges_shorter)
  also have "\<dots> \<le> length s" by simp
  finally show "(t, c # s) \<in> measure length" by simp
qed auto

definition inClass :: "char \<Rightarrow> (char \<times> char) list \<Rightarrow> bool" where
  "inClass c rs \<longleftrightarrow> list_ex (\<lambda>(lo, hi). (of_char lo :: nat) \<le> of_char c \<and> (of_char c :: nat) \<le> of_char hi) rs"

fun globMatch :: "globTok list \<Rightarrow> string \<Rightarrow> bool" where
  "globMatch [] s = (s = [])"
| "globMatch (GlobStar # ts) [] = globMatch ts []"
| "globMatch (GlobStar # ts) (c # s) = (globMatch ts (c # s) \<or> c \<noteq> CHR ''/'' \<and> globMatch (GlobStar # ts) s)"
| "globMatch (GlobAny # ts) s = (case s of [] \<Rightarrow> False | c # s' \<Rightarrow> c \<noteq> CHR ''/'' \<and> globMatch ts s')"
| "globMatch (GlobClass neg rs # ts) s = (case s of [] \<Rightarrow> False | c # s' \<Rightarrow> inClass c rs \<noteq> neg \<and> globMatch ts s')"
| "globMatch (GlobChar d # ts) s = (case s of [] \<Rightarrow> False | c # s' \<Rightarrow> c = d \<and> globMatch ts s')"

definition pathMatch :: "string \<Rightarrow> string \<Rightarrow> bool option" where
  "pathMatch pattern name = map_option (\<lambda>ts. globMatch ts name) (parseGlob pattern)"

section \<open>Replacement\<close>

text \<open>\<open>strings.ReplaceAll\<close> with a non-empty old string.\<close>

fun replaceAll :: "string \<Rightarrow> string \<Rightarrow> string \<Rightarrow> string" where
  "replaceAll old new [] = []"
| "replaceAll old new (c # s) =
     (if old \<noteq> [] \<and> hasPrefix (c # s) old then new @ replaceAll old new (drop (length old - 1) s)
      else c # replaceAll old new s)"

section \<open>Regular expressions\<close>

text \<open>A class of characters once, greedily at least so often, or optionally. A match is the text
  of each item and the rest.\<close>

datatype reItem = ReOne "char \<Rightarrow> bool" | ReMany nat "char \<Rightarrow> bool" | ReOpt "char \<Rightarrow> bool"

fun reChoices :: "reItem \<Rightarrow> string \<Rightarrow> nat list" where
  "reChoices (ReOne p) s = (case s of [] \<Rightarrow> [] | c # t \<Rightarrow> if p c then [1] else [])"
| "reChoices (ReMany m p) s = rev [m..<Suc (length (takeWhile p s))]"
| "reChoices (ReOpt p) s = (case s of [] \<Rightarrow> [0] | c # t \<Rightarrow> if p c then [1, 0] else [0])"

fun firstSome :: "'a option list \<Rightarrow> 'a option" where
  "firstSome [] = None"
| "firstSome (x # xs) = (case x of None \<Rightarrow> firstSome xs | Some y \<Rightarrow> Some y)"

fun reMatch :: "reItem list \<Rightarrow> string \<Rightarrow> (string list \<times> string) option" where
  "reMatch [] s = Some ([], s)"
| "reMatch (i # is) s =
     firstSome (map (\<lambda>k. map_option (\<lambda>(ms, rest). (take k s # ms, rest)) (reMatch is (drop k s))) (reChoices i s))"

definition reLit :: "string \<Rightarrow> reItem list" where
  "reLit s = map (\<lambda>c. ReOne (\<lambda>d. d = c)) s"

definition reSpace :: "char \<Rightarrow> bool" where
  "reSpace c \<longleftrightarrow> c \<in> {CHR '' '', CHR 0x09, CHR 0x0A, CHR 0x0C, CHR 0x0D}"

text \<open>The pieces of a text: matches of the expression (left to right, not overlapping) and the
  characters between them. \<open>skip\<close> counts the characters that belong to the last match.\<close>

fun reScan :: "reItem list \<Rightarrow> nat \<Rightarrow> string \<Rightarrow> (string list + char) list" where
  "reScan re skip [] = []"
| "reScan re (Suc skip) (c # s) = reScan re skip s"
| "reScan re 0 (c # s) =
     (case reMatch re (c # s) of
        Some (ms, rest) \<Rightarrow> (if concat ms = [] then Inr c # reScan re 0 s
                            else Inl ms # reScan re (length (concat ms) - 1) s)
      | None \<Rightarrow> Inr c # reScan re 0 s)"

definition reFindAll :: "reItem list \<Rightarrow> string \<Rightarrow> string list list" where
  "reFindAll re s = concat (map (case_sum (\<lambda>ms. [ms]) (\<lambda>c. [])) (reScan re 0 s))"

definition reReplace :: "reItem list \<Rightarrow> (string list \<Rightarrow> string) \<Rightarrow> string \<Rightarrow> string" where
  "reReplace re f s = concat (map (case_sum f (\<lambda>c. [c])) (reScan re 0 s))"

lemma firstSome_eq: "firstSome xs = Some y \<Longrightarrow> Some y \<in> set xs"
  by (induction xs) (auto split: option.splits)

lemma reMatch_concat: "reMatch is s = Some (ms, rest) \<Longrightarrow> concat ms @ rest = s \<and> length ms = length is"
proof (induction "is" arbitrary: s ms rest)
  case (Cons i "is")
  from Cons.prems obtain k ms' where "reMatch is (drop k s) = Some (ms', rest)" "ms = take k s # ms'"
    by (auto dest!: firstSome_eq simp: eq_commute [of "Some _"])
  with Cons.IH show ?case by fastforce
qed simp

lemma reScan_text: "concat (map (case_sum concat (\<lambda>c. [c])) (reScan re skip s)) = drop skip s"
proof (induction re skip s rule: reScan.induct)
  case (3 re c s)
  show ?case
  proof (cases "reMatch re (c # s)")
    case (Some m)
    obtain ms rest where m: "m = (ms, rest)" by (cases m)
    with Some have t: "concat ms @ rest = c # s" by (simp add: reMatch_concat)
    show ?thesis
    proof (cases "concat ms = []")
      case False
      then obtain x xs where x: "concat ms = x # xs" by (cases "concat ms") auto
      with t have "xs @ rest = s" "x = c" by simp_all
      with 3(3) [OF Some m [symmetric] False] Some m False x show ?thesis by (auto simp del: concat_eq_Nil_conv)
    qed (use 3 Some m in simp)
  qed (use 3 in simp)
qed simp_all

text \<open>Replacing every match by itself gives the text back.\<close>

lemma reReplace_self: "reReplace re concat s = s"
  using reScan_text [of re 0 s] by (simp add: reReplace_def)

end
