(* ===== verification/Fs.thy ===== *)
theory Fs
  imports Paths "HOL-Library.List_Lexorder" "HOL-Library.Char_ord"
begin

text \<open>
  File systems as the framework reads them (\<open>io/fs\<close>) and \<open>MergeFS\<close> (\<open>merge_fs.go\<close>), which puts the
  trees of a host and of its mounted features on top of each other.
\<close>

section \<open>io/fs\<close>

datatype dirEntry = DirEntry (deName: string) (deIsDir: bool)

datatype fsNode = FileNode bytes | DirNode "dirEntry list"

fun isDirNode :: "fsNode \<Rightarrow> bool" where
  "isDirNode (DirNode es) = True"
| "isDirNode (FileNode d) = False"

text \<open>\<open>Open\<close> and \<open>fs.ReadDir\<close>. An error is a text; \<open>Inl None\<close> is a nil file without an error.\<close>

record fileSystem =
  fsOpen :: "string \<Rightarrow> string option + fsNode"
  fsReadDir :: "string \<Rightarrow> string option + dirEntry list"

text \<open>\<open>fs.ReadDir\<close> and \<open>fs.ReadFile\<close> on a file system that only has \<open>Open\<close>.\<close>

definition plainFS :: "(string \<Rightarrow> string option + fsNode) \<Rightarrow> fileSystem" where
  "plainFS open =
     \<lparr>fsOpen = open,
      fsReadDir = (\<lambda>name. case open name of
          Inl e \<Rightarrow> Inl e
        | Inr (FileNode d) \<Rightarrow> Inl (Some ''not implemented'')
        | Inr (DirNode es) \<Rightarrow> Inr (sort_key deName es))\<rparr>"

definition fsReadFile :: "fileSystem \<Rightarrow> string \<Rightarrow> string option + bytes" where
  "fsReadFile fs name =
     (case fsOpen fs name of
        Inl e \<Rightarrow> Inl e
      | Inr (DirNode es) \<Rightarrow> Inl (Some ''is a directory'')
      | Inr (FileNode d) \<Rightarrow> Inr d)"

text \<open>\<open>fs.Glob(fsys, dir + "/" + pattern)\<close> for a directory without wildcards; a directory that
  cannot be read has no matches.\<close>

definition fsGlob :: "fileSystem \<Rightarrow> string \<Rightarrow> string \<Rightarrow> string list option" where
  "fsGlob fs dir pattern =
     (case parseGlob pattern of
        None \<Rightarrow> None
      | Some ts \<Rightarrow>
          (case fsReadDir fs dir of
             Inl e \<Rightarrow> Some []
           | Inr es \<Rightarrow> Some (map (\<lambda>e. pathJoin [dir, deName e]) (filter (\<lambda>e. globMatch ts (deName e)) es))))"

section \<open>MergeFS\<close>

fun mergedOpen :: "fileSystem list \<Rightarrow> string \<Rightarrow> string option \<Rightarrow> string option + fsNode" where
  "mergedOpen [] name firstErr = Inl firstErr"
| "mergedOpen (root # roots) name firstErr =
     (case fsOpen root name of
        Inr f \<Rightarrow> Inr f
      | Inl e \<Rightarrow> mergedOpen roots name (if firstErr = None then e else firstErr))"

text \<open>The entries seen so far: the first of a name stays.\<close>

definition addSeen :: "dirEntry list \<Rightarrow> dirEntry list \<Rightarrow> dirEntry list" where
  "addSeen seen es = fold (\<lambda>e seen. if deName e \<in> deName ` set seen then seen else seen @ [e]) es seen"

fun mergedReadDir ::
    "fileSystem list \<Rightarrow> string \<Rightarrow> dirEntry list \<Rightarrow> string option \<Rightarrow> bool \<Rightarrow> string option + dirEntry list" where
  "mergedReadDir [] name seen firstErr found =
     (if \<not> found then (case firstErr of None \<Rightarrow> Inr [] | Some e \<Rightarrow> Inl (Some e)) else Inr (sort_key deName seen))"
| "mergedReadDir (root # roots) name seen firstErr found =
     (case fsReadDir root name of
        Inl e \<Rightarrow> mergedReadDir roots name seen (if firstErr = None then e else firstErr) found
      | Inr es \<Rightarrow> mergedReadDir roots name (addSeen seen es) firstErr True)"

definition MergeFS :: "fileSystem list \<Rightarrow> fileSystem" where
  "MergeFS roots =
     \<lparr>fsOpen = (\<lambda>name. mergedOpen roots name None),
      fsReadDir = (\<lambda>name. mergedReadDir roots name [] None False)\<rparr>"

section \<open>What a listing says about opening\<close>

definition child :: "string \<Rightarrow> string \<Rightarrow> string" where
  "child dir name = (if dir = ''.'' then name else dir @ ''/'' @ name)"

definition listed :: "fileSystem \<Rightarrow> string \<Rightarrow> string \<Rightarrow> bool \<Rightarrow> bool" where
  "listed fs dir name d \<longleftrightarrow> (case fsReadDir fs dir of Inl e \<Rightarrow> False | Inr es \<Rightarrow> DirEntry name d \<in> set es)"

definition opens :: "fileSystem \<Rightarrow> string \<Rightarrow> bool \<Rightarrow> bool" where
  "opens fs name d \<longleftrightarrow> (case fsOpen fs name of Inl e \<Rightarrow> False | Inr f \<Rightarrow> isDirNode f = d)"

text \<open>A tree: what a directory lists is what opens in it, with the right kind.\<close>

definition treeFS :: "fileSystem \<Rightarrow> bool" where
  "treeFS fs \<longleftrightarrow> (\<forall>dir name d. name \<noteq> ''.'' \<longrightarrow> listed fs dir name d = opens fs (child dir name) d)"

lemma addSeen_Nil [simp]: "addSeen seen [] = seen"
  by (simp add: addSeen_def)

lemma addSeen_Cons:
  "addSeen seen (e # es) = addSeen (if deName e \<in> deName ` set seen then seen else seen @ [e]) es"
  by (simp add: addSeen_def)

lemma addSeen_set:
  "set (addSeen seen es) = set seen \<union> {e. find (\<lambda>x. deName x = deName e) es = Some e \<and> deName e \<notin> deName ` set seen}"
proof (induction es arbitrary: seen)
  case (Cons e es)
  show ?case by (auto simp: addSeen_Cons Cons.IH)
qed simp

lemma addSeen_names: "deName ` set (addSeen seen es) = deName ` set seen \<union> deName ` set es"
proof (induction es arbitrary: seen)
  case (Cons e es)
  show ?case by (auto simp: addSeen_Cons Cons.IH)
qed simp

definition firstListed :: "fileSystem list \<Rightarrow> string \<Rightarrow> string \<Rightarrow> dirEntry option" where
  "firstListed roots dir name =
     find (\<lambda>x. deName x = name) (concat (map (\<lambda>r. case fsReadDir r dir of Inl e \<Rightarrow> [] | Inr es \<Rightarrow> es) roots))"

lemma find_in_append: "find P (xs @ ys) = (case find P xs of None \<Rightarrow> find P ys | Some x \<Rightarrow> Some x)"
  by (induction xs) auto

lemma find_name: "find (\<lambda>x. deName x = name) es = Some e \<Longrightarrow> deName e = name \<and> e \<in> set es"
  by (auto simp: find_Some_iff)

lemma find_None_name: "find (\<lambda>x. deName x = name) es = None \<longleftrightarrow> name \<notin> deName ` set es"
  by (auto simp: find_None_iff)

lemma name_found: "name \<in> deName ` set es \<longleftrightarrow> find (\<lambda>x. deName x = name) es \<noteq> None"
  by (simp add: find_None_name)

lemma mergedReadDir_entries:
  assumes "mergedReadDir roots dir seen err found = Inr es"
  shows "set es \<subseteq> set seen \<union> {e. firstListed roots dir (deName e) = Some e \<and> deName e \<notin> deName ` set seen}"
    and "found \<Longrightarrow> set seen \<union> {e. firstListed roots dir (deName e) = Some e \<and> deName e \<notin> deName ` set seen} \<subseteq> set es"
  using assms
proof (induction roots arbitrary: seen err found)
  case Nil
  { case 1 then show ?case by (auto simp: firstListed_def split: if_splits option.splits) }
  { case 2 then show ?case by (auto simp: firstListed_def split: if_splits option.splits) }
next
  case (Cons root roots)
  have rest: "set (addSeen seen xs) \<union> {e. firstListed roots dir (deName e) = Some e \<and> deName e \<notin> deName ` set (addSeen seen xs)}
    = set seen \<union> {e. firstListed (root # roots) dir (deName e) = Some e \<and> deName e \<notin> deName ` set seen}"
    if r: "fsReadDir root dir = Inr xs" for xs seen
  proof -
    have f: "firstListed (root # roots) dir n
        = (case find (\<lambda>x. deName x = n) xs of None \<Rightarrow> firstListed roots dir n | Some x \<Rightarrow> Some x)" for n
      by (simp add: firstListed_def r find_in_append split: option.split)
    note names = addSeen_names [of seen xs]
    show ?thesis
    proof (rule set_eqI)
      fix e
      show "e \<in> set (addSeen seen xs) \<union> {e. firstListed roots dir (deName e) = Some e \<and> deName e \<notin> deName ` set (addSeen seen xs)}
        \<longleftrightarrow> e \<in> set seen \<union> {e. firstListed (root # roots) dir (deName e) = Some e \<and> deName e \<notin> deName ` set seen}"
        unfolding Un_iff mem_Collect_eq names f name_found [of "deName e" xs]
        by (cases "find (\<lambda>x. deName x = deName e) xs") (auto simp: addSeen_set)
    qed
  qed
  { case 1
    then show ?case
    proof (cases "fsReadDir root dir")
      case (Inl e)
      with 1 Cons.IH(1) show ?thesis by (fastforce simp: firstListed_def)
    next
      case (Inr xs)
      with 1 have "mergedReadDir roots dir (addSeen seen xs) err True = Inr es" by simp
      from Cons.IH(1) [OF this] rest [OF Inr] show ?thesis by (rule ord_le_eq_trans)
    qed }
  { case 2
    then show ?case
    proof (cases "fsReadDir root dir")
      case (Inl e)
      with 2 Cons.IH(2) show ?thesis by (fastforce simp: firstListed_def)
    next
      case (Inr xs)
      with 2 have "mergedReadDir roots dir (addSeen seen xs) err True = Inr es" by simp
      from rest [OF Inr, symmetric] Cons.IH(2) [OF TrueI this] show ?thesis by (rule ord_eq_le_trans)
    qed }
qed

lemma mergedReadDir_found: "found \<Longrightarrow> \<exists>es. mergedReadDir roots dir seen err found = Inr es"
  by (induction roots arbitrary: seen err) (auto split: sum.splits)

lemma mergedReadDir_missing:
  "(\<forall>r\<in>set roots. \<exists>e. fsReadDir r dir = Inl e) \<Longrightarrow> mergedReadDir roots dir [] err False = Inr es \<Longrightarrow> es = []"
  by (induction roots arbitrary: err) (auto split: option.splits if_splits)

lemma mergedReadDir_listing:
  assumes "r \<in> set roots" and "fsReadDir r dir = Inr xs"
  shows "\<exists>es. mergedReadDir roots dir [] err False = Inr es \<and> set es = {e. firstListed roots dir (deName e) = Some e}"
  using assms
proof (induction roots arbitrary: err)
  case (Cons root roots)
  show ?case
  proof (cases "fsReadDir root dir")
    case (Inl e)
    with Cons.prems have "r \<in> set roots" by auto
    from Cons.IH [OF this Cons.prems(2)] Inl show ?thesis by (auto simp: firstListed_def)
  next
    case (Inr ys)
    then obtain es where es: "mergedReadDir (root # roots) dir [] err False = Inr es"
      using mergedReadDir_found [of True roots dir "addSeen [] ys" err] by auto
    then have merged: "mergedReadDir roots dir (addSeen [] ys) err True = Inr es" using Inr by simp
    have eq: "e \<in> set es \<longleftrightarrow> firstListed (root # roots) dir (deName e) = Some e" for e
    proof -
      have "firstListed (root # roots) dir n
          = (case find (\<lambda>x. deName x = n) ys of None \<Rightarrow> firstListed roots dir n | Some x \<Rightarrow> Some x)" for n
        by (simp add: firstListed_def Inr find_in_append split: option.split)
      moreover have "e \<in> set es \<longleftrightarrow> e \<in> set (addSeen [] ys)
          \<or> firstListed roots dir (deName e) = Some e \<and> deName e \<notin> deName ` set (addSeen [] ys)"
        using mergedReadDir_entries [OF merged] by auto
      moreover have "deName e \<in> deName ` set (addSeen [] ys) \<longleftrightarrow> find (\<lambda>x. deName x = deName e) ys \<noteq> None"
        unfolding addSeen_names by (simp add: name_found)
      ultimately show ?thesis by (auto simp: addSeen_set split: option.splits)
    qed
    with es show ?thesis by blast
  qed
qed simp

lemma listed_merged: "listed (MergeFS roots) dir name d \<longleftrightarrow> firstListed roots dir name = Some (DirEntry name d)"
proof (cases "\<exists>r\<in>set roots. \<exists>xs. fsReadDir r dir = Inr xs")
  case True
  then obtain r xs where "r \<in> set roots" "fsReadDir r dir = Inr xs" by blast
  from mergedReadDir_listing [OF this, of None] obtain es where
    "mergedReadDir roots dir [] None False = Inr es" "set es = {e. firstListed roots dir (deName e) = Some e}" by blast
  then show ?thesis by (simp add: listed_def MergeFS_def)
next
  case False
  then have none: "\<forall>r\<in>set roots. \<exists>e. fsReadDir r dir = Inl e" by (meson sum.exhaust)
  then have "concat (map (\<lambda>r. case fsReadDir r dir of Inl e \<Rightarrow> [] | Inr es \<Rightarrow> es) roots) = []" by auto
  then have "firstListed roots dir name = None" unfolding firstListed_def by (simp only: find.simps)
  moreover have "\<not> listed (MergeFS roots) dir name d"
    using mergedReadDir_missing [OF none] by (fastforce simp: listed_def MergeFS_def split: sum.splits)
  ultimately show ?thesis by simp
qed

lemma mergedOpen_first:
  "mergedOpen roots name err = Inr f \<longleftrightarrow>
   (\<exists>i<length roots. fsOpen (roots ! i) name = Inr f \<and> (\<forall>j<i. \<exists>e. fsOpen (roots ! j) name = Inl e))"
proof (induction roots arbitrary: err)
  case (Cons root roots)
  show ?case
  proof (cases "fsOpen root name")
    case (Inl e)
    have "(\<exists>i<length (root # roots). fsOpen ((root # roots) ! i) name = Inr f
          \<and> (\<forall>j<i. \<exists>e. fsOpen ((root # roots) ! j) name = Inl e))
      \<longleftrightarrow> (\<exists>i<length roots. fsOpen (roots ! i) name = Inr f \<and> (\<forall>j<i. \<exists>e. fsOpen (roots ! j) name = Inl e))"
      (is "?l \<longleftrightarrow> ?r")
    proof
      assume ?l
      then obtain i where i: "i < length (root # roots)" "fsOpen ((root # roots) ! i) name = Inr f"
        "\<And>j. j < i \<Longrightarrow> \<exists>e. fsOpen ((root # roots) ! j) name = Inl e" by blast
      with Inl obtain k where "i = Suc k" by (cases i) auto
      with i i(3) [of "Suc _"] show ?r by auto
    next
      assume ?r
      then obtain i where i: "i < length roots" "fsOpen (roots ! i) name = Inr f"
        "\<And>j. j < i \<Longrightarrow> \<exists>e. fsOpen (roots ! j) name = Inl e" by blast
      with Inl show ?l by (intro exI [of _ "Suc i"]) (auto simp: less_Suc_eq_0_disj)
    qed
    with Cons.IH Inl show ?thesis by simp
  next
    case (Inr g)
    then show ?thesis by (auto simp: less_Suc_eq_0_disj)
  qed
qed simp

lemma firstListed_opens:
  assumes "\<forall>r\<in>set roots. treeFS r" and "name \<noteq> ''.''"
  shows "firstListed roots dir name = Some (DirEntry name d) \<longleftrightarrow> opens (MergeFS roots) (child dir name) d"
  using assms
proof (induction roots)
  case Nil
  then show ?case by (simp add: firstListed_def opens_def MergeFS_def)
next
  case (Cons root roots)
  let ?ys = "case fsReadDir root dir of Inl e \<Rightarrow> [] | Inr es \<Rightarrow> es"
  have tree: "DirEntry name b \<in> set ?ys \<longleftrightarrow> opens root (child dir name) b" for b
  proof -
    have "treeFS root" using Cons.prems by simp
    with Cons.prems(2) have "listed root dir name b \<longleftrightarrow> opens root (child dir name) b" by (simp add: treeFS_def)
    then show ?thesis by (simp add: listed_def split: sum.splits)
  qed
  have first: "firstListed (root # roots) dir name
      = (case find (\<lambda>x. deName x = name) ?ys of None \<Rightarrow> firstListed roots dir name | Some x \<Rightarrow> Some x)"
    by (simp add: firstListed_def find_in_append split: option.split)
  show ?case
  proof (cases "find (\<lambda>x. deName x = name) ?ys")
    case None
    then have "\<And>b. \<not> opens root (child dir name) b" unfolding find_None_name tree [symmetric] by force
    then obtain e where "fsOpen root (child dir name) = Inl e" unfolding opens_def by (cases "fsOpen root (child dir name)") auto
    then have "opens (MergeFS (root # roots)) (child dir name) d \<longleftrightarrow> opens (MergeFS roots) (child dir name) d"
      by (auto simp: opens_def MergeFS_def mergedOpen_first split: sum.splits) (metis mergedOpen_first sum.distinct(1) sum.inject(2))+
    with None Cons first show ?thesis by simp
  next
    case (Some e)
    then have e: "deName e = name" "e \<in> set ?ys" by (auto dest: find_name)
    then have "opens root (child dir name) (deIsDir e)" using tree [of "deIsDir e"] by (cases e) simp
    then have "opens (MergeFS (root # roots)) (child dir name) d \<longleftrightarrow> deIsDir e = d"
      by (auto simp: opens_def MergeFS_def split: sum.splits)
    with Some e first show ?thesis by (cases e) auto
  qed
qed

text \<open>A merge of trees is a tree: what one of its directories lists, from whatever root, is what
  opens there, with the right kind; and what opens is the file of the first root that has it.\<close>

theorem merge_overlays:
  assumes "\<forall>r\<in>set roots. treeFS r"
  shows "treeFS (MergeFS roots)
    \<and> (fsOpen (MergeFS roots) name = Inr f \<longleftrightarrow>
        (\<exists>i<length roots. fsOpen (roots ! i) name = Inr f \<and> (\<forall>j<i. \<exists>e. fsOpen (roots ! j) name = Inl e)))"
proof
  show "treeFS (MergeFS roots)" using firstListed_opens [OF assms] by (simp add: treeFS_def listed_merged)
  show "fsOpen (MergeFS roots) name = Inr f \<longleftrightarrow>
        (\<exists>i<length roots. fsOpen (roots ! i) name = Inr f \<and> (\<forall>j<i. \<exists>e. fsOpen (roots ! j) name = Inl e))"
    by (simp add: MergeFS_def mergedOpen_first)
qed

text \<open>A directory of files, as a tree.\<close>

definition flatFS :: "(string \<times> bytes) list \<Rightarrow> fileSystem" where
  "flatFS files =
     plainFS (\<lambda>name. if name = ''.'' then Inr (DirNode (map (\<lambda>f. DirEntry (fst f) False) files))
                   else case map_of files name of None \<Rightarrow> Inl (Some ''file does not exist'') | Some d \<Rightarrow> Inr (FileNode d))"

lemma flatFS_opens: "opens (flatFS files) n d \<longleftrightarrow> (if n = ''.'' then d else \<not> d \<and> n \<in> fst ` set files)"
proof -
  have "n \<in> fst ` set files \<longleftrightarrow> map_of files n \<noteq> None" by (simp add: map_of_eq_None_iff)
  then show ?thesis by (auto simp: opens_def flatFS_def plainFS_def split: option.splits)
qed

lemma flatFS_listed: "listed (flatFS files) dir n d \<longleftrightarrow> dir = ''.'' \<and> \<not> d \<and> n \<in> fst ` set files"
  by (auto simp: listed_def flatFS_def plainFS_def image_iff split: option.splits)

lemma flatFS_tree:
  assumes "\<forall>f\<in>set files. CHR ''/'' \<notin> set (fst f)"
  shows "treeFS (flatFS files)"
proof -
  have "dir @ CHR ''/'' # n \<notin> fst ` set files" for dir n
    using assms by (metis imageE in_set_conv_decomp)
  moreover have "dir @ CHR ''/'' # n \<noteq> ''.''" for dir n
    by (cases dir) auto
  ultimately show ?thesis by (simp add: treeFS_def flatFS_opens flatFS_listed child_def)
qed

definition hostFS :: fileSystem where
  "hostFS = flatFS [(''a.txt'', ''host a''), (''c.txt'', ''host c'')]"

definition spurFS :: fileSystem where
  "spurFS = flatFS [(''a.txt'', ''spur a''), (''b.txt'', ''spur b'')]"

lemma merge_overlays_witness:
  "treeFS (MergeFS [hostFS, spurFS])
   \<and> fsReadDir (MergeFS [hostFS, spurFS]) ''.''
       = Inr [DirEntry ''a.txt'' False, DirEntry ''b.txt'' False, DirEntry ''c.txt'' False]
   \<and> fsReadFile (MergeFS [hostFS, spurFS]) ''a.txt'' = Inr ''host a''
   \<and> fsReadFile (MergeFS [hostFS, spurFS]) ''b.txt'' = Inr ''spur b''"
proof -
  have "\<forall>r\<in>set [hostFS, spurFS]. treeFS r" by (simp add: hostFS_def spurFS_def flatFS_tree)
  with merge_overlays have "treeFS (MergeFS [hostFS, spurFS])" by blast
  moreover have "fsReadDir (MergeFS [hostFS, spurFS]) ''.''
       = Inr [DirEntry ''a.txt'' False, DirEntry ''b.txt'' False, DirEntry ''c.txt'' False]" by code_simp
  moreover have "fsReadFile (MergeFS [hostFS, spurFS]) ''a.txt'' = Inr ''host a''" by code_simp
  moreover have "fsReadFile (MergeFS [hostFS, spurFS]) ''b.txt'' = Inr ''spur b''" by code_simp
  ultimately show ?thesis by blast
qed

end
