(* ===== verification/Assets.thy ===== *)
theory Assets
  imports Fs
begin

text \<open>
  The asset pipeline (\<open>assets/\<close>): manifests, the compilation of a tree of built files into
  fingerprinted ones (\<open>compile.go\<close>), import maps (\<open>importmap.go\<close>), the template functions and the
  bundler scripts. Go maps that the code iterates over are lists of their entries, in an order
  that is arbitrary. SHA-256, JSON, TOML and the network are parameters.
\<close>

section \<open>Manifests\<close>

type_synonym manifest = "(string \<times> string) list"

datatype assetError =
    ReadingManifest string | ParsingManifest string
  | UnknownReference string string
  | DiskError string string
  | NoPinEntry string string
  | BadPattern string string
  | NoManifestEntry string
  | ImportMapError string
  | JspmError string
  | DownloadError string
  | ScriptFailed string "string list" string

definition manifestPath :: "manifest \<Rightarrow> string \<Rightarrow> string option" where
  "manifestPath m logical = map_of m logical"

text \<open>\<open>MergeManifests\<close>: the first entry of a path stays.\<close>

definition addEntry :: "string \<times> string \<Rightarrow> manifest \<Rightarrow> manifest" where
  "addEntry e merged = (if map_of merged (fst e) = None then merged @ [e] else merged)"

definition MergeManifests :: "manifest list \<Rightarrow> manifest" where
  "MergeManifests ms = fold (fold addEntry) ms []"

text \<open>\<open>decode\<close> is \<open>json.Unmarshal\<close> into a manifest.\<close>

definition LoadManifest :: "(bytes \<Rightarrow> manifest option) \<Rightarrow> fileSystem \<Rightarrow> string \<Rightarrow> assetError + manifest" where
  "LoadManifest decode fs name =
     (case fsReadFile fs name of
        Inl e \<Rightarrow> Inl (ReadingManifest name)
      | Inr d \<Rightarrow> (case decode d of None \<Rightarrow> Inl (ParsingManifest name) | Some m \<Rightarrow> Inr m))"

section \<open>References\<close>

definition isExternal :: "string \<Rightarrow> bool" where
  "isExternal target \<longleftrightarrow>
     hasPrefix target ''http://'' \<or> hasPrefix target ''https://'' \<or> hasPrefix target ''//'' \<or> hasPrefix target ''data:''"

definition allowedExt :: "string \<Rightarrow> bool" where
  "allowedExt ext \<longleftrightarrow> ext \<in> {''.css'', ''.js'', ''.map''}"

text \<open>A pattern, the item of it that is the target, and how a reference to a URL is written.\<close>

record refPattern =
  rpRegex :: "reItem list"
  rpGroup :: nat
  rpRewrite :: "string \<Rightarrow> string"

definition isQuote :: "char \<Rightarrow> bool" where
  "isQuote c \<longleftrightarrow> c = CHR 0x27 \<or> c = CHR 0x22"

text \<open>\<open>@import\s+url\(\s*['"]?([^'")]+)['"]?\s*\)\<close>\<close>

definition cssImport :: refPattern where
  "cssImport =
     \<lparr>rpRegex = reLit ''@import'' @ [ReMany 1 reSpace] @ reLit ''url('' @ [ReMany 0 reSpace, ReOpt isQuote,
        ReMany 1 (\<lambda>c. \<not> isQuote c \<and> c \<noteq> CHR '')''), ReOpt isQuote, ReMany 0 reSpace] @ reLit '')'',
      rpGroup = 14,
      rpRewrite = (\<lambda>url. ''@import url('' @ [CHR 0x22] @ url @ [CHR 0x22] @ '')'')\<rparr>"

text \<open>\<open>//#\s*sourceMappingURL=(\S+)\<close>\<close>

definition jsSourceMap :: refPattern where
  "jsSourceMap =
     \<lparr>rpRegex = reLit ''//#'' @ [ReMany 0 reSpace] @ reLit ''sourceMappingURL='' @ [ReMany 1 (\<lambda>c. \<not> reSpace c)],
      rpGroup = 21,
      rpRewrite = (\<lambda>url. ''//# sourceMappingURL='' @ url)\<rparr>"

definition refPatterns :: "string \<Rightarrow> refPattern option" where
  "refPatterns ext = (if ext = ''.css'' then Some cssImport else if ext = ''.js'' then Some jsSourceMap else None)"

definition resolveImportTarget :: "string \<Rightarrow> string \<Rightarrow> string" where
  "resolveImportTarget relPath target = pathClean (pathJoin [pathDir relPath, target])"

type_synonym files = "(string \<times> bytes) list"

text \<open>The local references of one file, in order, each checked against the files.\<close>

fun localRefs :: "files \<Rightarrow> string \<Rightarrow> string list \<Rightarrow> assetError + string list" where
  "localRefs fs relPath [] = Inr []"
| "localRefs fs relPath (target # ts) =
     (if isExternal target then localRefs fs relPath ts
      else let resolved = resolveImportTarget relPath target in
        if map_of fs resolved = None then Inl (UnknownReference relPath target)
        else rbind (localRefs fs relPath ts) (\<lambda>rs. Inr (resolved # rs)))"

definition targetsOf :: "string \<Rightarrow> bytes \<Rightarrow> string list" where
  "targetsOf relPath content =
     (case refPatterns (pathExt relPath) of
        None \<Rightarrow> []
      | Some p \<Rightarrow> map (\<lambda>ms. ms ! rpGroup p) (reFindAll (rpRegex p) content))"

fun resolveFrom :: "files \<Rightarrow> files \<Rightarrow> assetError + (string \<times> string list) list" where
  "resolveFrom fs [] = Inr []"
| "resolveFrom fs ((relPath, content) # rest) =
     rbind (localRefs fs relPath (targetsOf relPath content)) (\<lambda>rs.
     rbind (resolveFrom fs rest) (\<lambda>refs. Inr ((relPath, rs) # refs)))"

definition resolveReferences :: "files \<Rightarrow> assetError + (string \<times> string list) list" where
  "resolveReferences fs = resolveFrom fs fs"

section \<open>Digests\<close>

text \<open>\<open>refs[p]\<close>, sorted; a path without references has none.\<close>

definition refList :: "(string \<times> string list) list \<Rightarrow> string \<Rightarrow> string list" where
  "refList refs p = sort (case map_of refs p of None \<Rightarrow> [] | Some rs \<Rightarrow> rs)"

text \<open>\<open>walk\<close>: the files it writes into the hash, in order, and the visited set after it. \<open>fuel\<close>
  bounds the depth; the number of files is enough, since each level marks one more file.\<close>

fun walkRefs :: "(string \<Rightarrow> string list) \<Rightarrow> nat \<Rightarrow> string list \<Rightarrow> string list \<Rightarrow> string list \<times> string list" where
  "walkRefs refs fuel [] visited = ([], visited)"
| "walkRefs refs 0 (r # rs) visited = ([], visited)"
| "walkRefs refs (Suc fuel) (r # rs) visited =
     (if r \<in> set visited then walkRefs refs (Suc fuel) rs visited
      else let (out1, visited1) = walkRefs refs fuel (refs r) (r # visited);
               (out2, visited2) = walkRefs refs (Suc fuel) rs visited1
           in (r # out1 @ out2, visited2))"

definition hashedFiles :: "files \<Rightarrow> (string \<times> string list) list \<Rightarrow> string \<Rightarrow> string list" where
  "hashedFiles fs refs relPath =
     relPath # fst (walkRefs (refList refs) (length fs) (refList refs relPath) [relPath])"

definition contentOf :: "files \<Rightarrow> string \<Rightarrow> bytes" where
  "contentOf fs p = (case map_of fs p of None \<Rightarrow> [] | Some d \<Rightarrow> d)"

definition hashInput :: "files \<Rightarrow> (string \<times> string list) list \<Rightarrow> string \<Rightarrow> bytes" where
  "hashInput fs refs relPath = concat (map (contentOf fs) (hashedFiles fs refs relPath))"

text \<open>\<open>sha\<close> is the hexadecimal SHA-256 digest.\<close>

definition digest :: "(bytes \<Rightarrow> string) \<Rightarrow> files \<Rightarrow> (string \<times> string list) list \<Rightarrow> string \<Rightarrow> string" where
  "digest sha fs refs relPath = take 16 (sha (hashInput fs refs relPath))"

definition digestedName :: "string \<Rightarrow> string \<Rightarrow> string" where
  "digestedName relPath d =
     (let (dir, file) = pathSplit relPath; ext = pathExt file in dir @ trimSuffix file ext @ ''-'' @ d @ ext)"

section \<open>Compile\<close>

definition rewriteMatch :: "refPattern \<Rightarrow> string \<Rightarrow> manifest \<Rightarrow> string \<Rightarrow> string list \<Rightarrow> string" where
  "rewriteMatch p relPath m prfx ms =
     (let target = ms ! rpGroup p in
      if isExternal target then concat ms
      else case manifestPath m (resolveImportTarget relPath target) of
        None \<Rightarrow> concat ms
      | Some digested \<Rightarrow> rpRewrite p (pathJoin [prfx, digested]))"

definition rewriteReferences :: "string \<Rightarrow> string \<Rightarrow> manifest \<Rightarrow> string \<Rightarrow> string" where
  "rewriteReferences content relPath m prfx =
     (case refPatterns (pathExt relPath) of
        None \<Rightarrow> content
      | Some p \<Rightarrow> reReplace (rpRegex p) (rewriteMatch p relPath m prfx) content)"

text \<open>The output directory by relative path, and which operation on it fails.\<close>

type_synonym diskFaults = "string \<Rightarrow> string \<Rightarrow> string option"
type_synonym outDir = "string \<rightharpoonup> bytes"

definition onDisk :: "diskFaults \<Rightarrow> string \<Rightarrow> string \<Rightarrow> (outDir \<Rightarrow> outDir) \<Rightarrow> outDir \<Rightarrow> assetError option \<times> outDir" where
  "onDisk faults op path f d = (case faults op path of Some e \<Rightarrow> (Some (DiskError op path), d) | None \<Rightarrow> (None, f d))"

fun writeAll :: "diskFaults \<Rightarrow> manifest \<Rightarrow> string \<Rightarrow> files \<Rightarrow> outDir \<Rightarrow> assetError option \<times> outDir" where
  "writeAll faults m prfx [] d = (None, d)"
| "writeAll faults m prfx ((relPath, content) # fs) d =
     (let out = rewriteReferences content relPath m prfx;
          path = (case manifestPath m relPath of None \<Rightarrow> [] | Some p \<Rightarrow> p) in
      case onDisk faults ''mkdir'' (pathDir path) id d of
        (Some e, d) \<Rightarrow> (Some e, d)
      | (None, d) \<Rightarrow>
          (case onDisk faults ''write'' path (\<lambda>d. d(path \<mapsto> out)) d of
             (Some e, d) \<Rightarrow> (Some e, d)
           | (None, d) \<Rightarrow> writeAll faults m prfx fs d))"

definition compileManifest :: "(bytes \<Rightarrow> string) \<Rightarrow> files \<Rightarrow> (string \<times> string list) list \<Rightarrow> manifest" where
  "compileManifest sha fs refs = map (\<lambda>(p, c). (p, digestedName p (digest sha fs refs p))) fs"

text \<open>\<open>walked\<close> is what walking the source directory finds (\<open>readSourceFiles\<close>): the error of the walk,
  or every file; \<open>encode\<close> is the JSON of the manifest.\<close>

definition readSourceFiles :: "assetError + files \<Rightarrow> assetError + files" where
  "readSourceFiles walked = rbind walked (\<lambda>fs. Inr (filter (\<lambda>(p, c). allowedExt (pathExt p)) fs))"

definition Compile ::
    "(bytes \<Rightarrow> string) \<Rightarrow> (manifest \<Rightarrow> bytes) \<Rightarrow> diskFaults \<Rightarrow> assetError + files \<Rightarrow> string \<Rightarrow> outDir
       \<Rightarrow> (assetError + manifest) \<times> outDir" where
  "Compile sha encode faults walked prfx d =
     (case onDisk faults ''remove'' [] (\<lambda>d. Map.empty) d of
        (Some e, d) \<Rightarrow> (Inl e, d)
      | (None, d) \<Rightarrow>
     (case onDisk faults ''mkdir'' [] id d of
        (Some e, d) \<Rightarrow> (Inl e, d)
      | (None, d) \<Rightarrow>
     (case readSourceFiles walked of
        Inl e \<Rightarrow> (Inl e, d)
      | Inr fs \<Rightarrow>
     (case resolveReferences fs of
        Inl e \<Rightarrow> (Inl e, d)
      | Inr refs \<Rightarrow>
          (let m = compileManifest sha fs refs in
           case writeAll faults m prfx fs d of
             (Some e, d) \<Rightarrow> (Inl e, d)
           | (None, d) \<Rightarrow>
               (case onDisk faults ''write'' ''manifest.json'' (\<lambda>d. d(''manifest.json'' \<mapsto> encode m)) d of
                  (Some e, d) \<Rightarrow> (Inl e, d)
                | (None, d) \<Rightarrow> (Inr m, d)))))))"

section \<open>Import maps\<close>

record pin =
  pnName :: string
  pnTo :: string
  pnPreload :: bool

record pinAll =
  paDir :: string
  paUnder :: string
  paPreload :: bool
  paPattern :: string

record resolvedEntry =
  reName :: string
  reURL :: string
  rePreload :: bool

record importMap =
  imPins :: "pin list"
  imPinAlls :: "pinAll list"

definition pinEntry :: "pin \<Rightarrow> string \<Rightarrow> resolvedEntry" where
  "pinEntry p url = \<lparr>reName = pnName p, reURL = url, rePreload = pnPreload p\<rparr>"

definition resolvePin :: "manifest \<Rightarrow> string \<Rightarrow> pin \<Rightarrow> assetError + resolvedEntry" where
  "resolvePin m prfx p =
     (if pnTo p = [] then
        (case manifestPath m (pnName p @ ''.js'') of
           None \<Rightarrow> Inl (NoPinEntry (pnName p) (pnName p @ ''.js''))
         | Some digested \<Rightarrow> Inr (pinEntry p (pathJoin [prfx, digested])))
      else if isExternal (pnTo p) then Inr (pinEntry p (pnTo p))
      else let key = pathJoin [''vendor'', pnTo p] in
        (case manifestPath m key of
           None \<Rightarrow> Inl (NoPinEntry (pnName p) key)
         | Some digested \<Rightarrow> Inr (pinEntry p (pathJoin [prfx, digested]))))"

text \<open>What one entry of the manifest gives for a \<open>PinAll\<close>.\<close>

definition pinAllEntry :: "globTok list \<Rightarrow> bool \<Rightarrow> string \<Rightarrow> pinAll \<Rightarrow> string \<times> string \<Rightarrow> resolvedEntry option" where
  "pinAllEntry ts recursive prfx pa e =
     (let dirPrefix = trimSuffix (paDir pa) ''/'' @ ''/'' in
      if \<not> hasPrefix (fst e) dirPrefix then None
      else let rel = drop (length dirPrefix) (fst e);
               candidate = (if recursive then pathBase rel else rel) in
        if globMatch ts candidate
        then Some \<lparr>reName = pathJoin [paUnder pa, trimSuffix rel (pathExt rel)],
                   reURL = pathJoin [prfx, snd e], rePreload = paPreload pa\<rparr>
        else None)"

text \<open>The pattern is only looked at when an entry is under the directory.\<close>

definition resolvePinAll :: "manifest \<Rightarrow> string \<Rightarrow> pinAll \<Rightarrow> assetError + resolvedEntry list" where
  "resolvePinAll m prfx pa =
     (let pattern0 = (if paPattern pa = [] then ''**/*.js'' else paPattern pa);
          recursive = hasPrefix pattern0 ''**/'';
          pattern = trimPrefix pattern0 ''**/'';
          dirPrefix = trimSuffix (paDir pa) ''/'' @ ''/'' in
      case parseGlob pattern of
        None \<Rightarrow> (if list_ex (\<lambda>e. hasPrefix (fst e) dirPrefix) m then Inl (BadPattern (paDir pa) (paPattern pa)) else Inr [])
      | Some ts \<Rightarrow> Inr (sort_key reName (List.map_filter (pinAllEntry ts recursive prfx pa) m)))"

fun resolveEach :: "('p \<Rightarrow> assetError + 'r) \<Rightarrow> 'p list \<Rightarrow> assetError + 'r list" where
  "resolveEach f [] = Inr []"
| "resolveEach f (p # ps) = rbind (f p) (\<lambda>r. rbind (resolveEach f ps) (\<lambda>rs. Inr (r # rs)))"

definition Resolve :: "importMap \<Rightarrow> manifest \<Rightarrow> string \<Rightarrow> assetError + resolvedEntry list" where
  "Resolve im m prfx =
     rbind (resolveEach (resolvePin m prfx) (imPins im)) (\<lambda>entries.
     rbind (resolveEach (resolvePinAll m prfx) (imPinAlls im)) (\<lambda>more. Inr (entries @ concat more)))"

text \<open>\<open>AddPin\<close> and \<open>RemovePin\<close>.\<close>

fun addPinTo :: "pin \<Rightarrow> pin list \<Rightarrow> pin list" where
  "addPinTo p [] = [p]"
| "addPinTo p (q # qs) = (if pnName q = pnName p then p # qs else q # addPinTo p qs)"

definition AddPin :: "pin \<Rightarrow> importMap \<Rightarrow> importMap" where
  "AddPin p im = im\<lparr>imPins := addPinTo p (imPins im)\<rparr>"

fun removePinFrom :: "string \<Rightarrow> pin list \<Rightarrow> pin option \<times> pin list" where
  "removePinFrom name [] = (None, [])"
| "removePinFrom name (q # qs) =
     (if pnName q = name then (Some q, qs) else let (r, rest) = removePinFrom name qs in (r, q # rest))"

definition RemovePin :: "string \<Rightarrow> importMap \<Rightarrow> pin option \<times> importMap" where
  "RemovePin name im = (let (r, pins) = removePinFrom name (imPins im) in (r, im\<lparr>imPins := pins\<rparr>))"

definition LoadImportMapConfig :: "(bytes \<Rightarrow> importMap option) \<Rightarrow> fileSystem \<Rightarrow> string \<Rightarrow> assetError + importMap" where
  "LoadImportMapConfig decode fs name =
     (case fsReadFile fs name of
        Inl e \<Rightarrow> Inl (ImportMapError ''reading'')
      | Inr d \<Rightarrow> (case decode d of None \<Rightarrow> Inl (ImportMapError ''parsing'') | Some im \<Rightarrow> Inr im))"

text \<open>\<open>json\<close> encodes the \<open>imports\<close> object: of entries with one name the last counts. \<open>htmlEscape\<close> is
  \<open>template.HTMLEscapeString\<close>.\<close>

definition preloadTag :: "(string \<Rightarrow> string) \<Rightarrow> resolvedEntry \<Rightarrow> string" where
  "preloadTag htmlEscape e =
     (if rePreload e
      then ''<link rel='' @ [CHR 0x22] @ ''modulepreload'' @ [CHR 0x22] @ '' href='' @ [CHR 0x22] @ htmlEscape (reURL e)
           @ [CHR 0x22] @ ''>'' @ [CHR 0x0A]
      else [])"

definition importJson :: "((string \<rightharpoonup> string) \<Rightarrow> string) \<Rightarrow> resolvedEntry list \<Rightarrow> string" where
  "importJson json entries =
     replaceAll ''</'' (CHR ''<'' # CHR 0x5C # ''/'') (json (map_of (rev (map (\<lambda>e. (reName e, reURL e)) entries))))"

definition RenderImportMapTag ::
    "((string \<rightharpoonup> string) \<Rightarrow> string) \<Rightarrow> (string \<Rightarrow> string) \<Rightarrow> resolvedEntry list \<Rightarrow> string" where
  "RenderImportMapTag json htmlEscape entries =
     ''<script type='' @ [CHR 0x22] @ ''importmap'' @ [CHR 0x22] @ ''>'' @ importJson json entries @ ''</script>'' @ [CHR 0x0A]
     @ concat (map (preloadTag htmlEscape) entries)
     @ (if list_ex (\<lambda>e. reName e = ''application'') entries
        then ''<script type='' @ [CHR 0x22] @ ''module'' @ [CHR 0x22] @ ''>import '' @ [CHR 0x22] @ ''application''
             @ [CHR 0x22] @ ''</script>'' @ [CHR 0x0A]
        else [])"

section \<open>Template functions\<close>

text \<open>\<open>asset_path\<close> and \<open>asset_url\<close>.\<close>

definition assetPath :: "manifest \<Rightarrow> string \<Rightarrow> string \<Rightarrow> assetError + string" where
  "assetPath m prfx logical =
     (case manifestPath m logical of
        None \<Rightarrow> Inl (NoManifestEntry logical)
      | Some digested \<Rightarrow> Inr (pathJoin [prfx, digested]))"

section \<open>The jspm API and downloads\<close>

record httpAnswer =
  haStatus :: nat
  haBody :: "string + bytes"

text \<open>\<open>send\<close> posts a package and is the error of the transport or the answer; \<open>decode\<close> reads the
  \<open>error\<close> and the \<open>imports\<close> of the body.\<close>

definition Generate ::
    "(string \<Rightarrow> string + httpAnswer) \<Rightarrow> (bytes \<Rightarrow> (string \<times> (string \<times> string) list) option) \<Rightarrow> string
       \<Rightarrow> assetError + (string \<times> string) list" where
  "Generate send decode pkg =
     (case send pkg of
        Inl e \<Rightarrow> Inl (JspmError ''calling'')
      | Inr a \<Rightarrow>
          (case haBody a of
             Inl e \<Rightarrow> Inl (JspmError ''reading'')
           | Inr body \<Rightarrow>
               if haStatus a \<noteq> 200 then Inl (JspmError body)
               else (case decode body of
                  None \<Rightarrow> Inl (JspmError ''parsing'')
                | Some (err, imports) \<Rightarrow>
                    if err \<noteq> [] then Inl (JspmError err)
                    else if imports = [] then Inl (JspmError ''no imports'')
                    else Inr imports)))"

definition Download :: "(string \<Rightarrow> string + httpAnswer) \<Rightarrow> string \<Rightarrow> assetError + bytes" where
  "Download get url =
     (case get url of
        Inl e \<Rightarrow> Inl (DownloadError url)
      | Inr a \<Rightarrow>
          if haStatus a \<noteq> 200 then Inl (DownloadError url)
          else (case haBody a of Inl e \<Rightarrow> Inl (DownloadError url) | Inr d \<Rightarrow> Inr d))"

text \<open>\<open>(?m)^[ \t]*//#\s*sourceMappingURL=\S+[ \t]*\n?\<close>, tried at the start of each line.\<close>

definition isBlank :: "char \<Rightarrow> bool" where
  "isBlank c \<longleftrightarrow> c = CHR '' '' \<or> c = CHR 0x09"

definition sourceMapLine :: "reItem list" where
  "sourceMapLine =
     [ReMany 0 isBlank] @ reLit ''//#'' @ [ReMany 0 reSpace] @ reLit ''sourceMappingURL=''
     @ [ReMany 1 (\<lambda>c. \<not> reSpace c), ReMany 0 isBlank, ReOpt (\<lambda>c. c = CHR 0x0A)]"

fun stripLines :: "bool \<Rightarrow> nat \<Rightarrow> bytes \<Rightarrow> bytes" where
  "stripLines lineStart skip [] = []"
| "stripLines lineStart (Suc skip) (c # s) = stripLines (c = CHR 0x0A) skip s"
| "stripLines lineStart 0 (c # s) =
     (case (if lineStart then reMatch sourceMapLine (c # s) else None) of
        Some (ms, rest) \<Rightarrow> stripLines (c = CHR 0x0A) (length (concat ms) - 1) s
      | None \<Rightarrow> c # stripLines (c = CHR 0x0A) 0 s)"

definition StripSourceMappingURL :: "bytes \<Rightarrow> bytes" where
  "StripSourceMappingURL data = stripLines True 0 data"

text \<open>\<open>urlPath\<close> is the path of a parsed URL.\<close>

definition VendorFilename :: "(string \<Rightarrow> string option) \<Rightarrow> string \<Rightarrow> string \<Rightarrow> string" where
  "VendorFilename urlPath specifier url =
     (let base = (case urlPath url of None \<Rightarrow> [] | Some p \<Rightarrow> pathBase p);
          ext = (if base \<notin> {[], ''.'', ''/''} \<and> pathExt base \<noteq> [] then pathExt base else ''.js'')
      in replaceAll ''/'' ''-'' (replaceAll ''@'' [] specifier) @ ext)"

section \<open>Bundler scripts\<close>

definition lockFileManagers :: "(string \<times> string) list" where
  "lockFileManagers =
     [(''yarn.lock'', ''yarn''), (''pnpm-lock.yaml'', ''pnpm''), (''bun.lock'', ''bun''), (''package-lock.json'', ''npm'')]"

definition DetectPackageManager :: "(string \<Rightarrow> bool) \<Rightarrow> string" where
  "DetectPackageManager has =
     (case find (\<lambda>lf. has (fst lf)) lockFileManagers of None \<Rightarrow> ''npm'' | Some lf \<Rightarrow> snd lf)"

definition scriptArgs :: "string \<Rightarrow> string \<Rightarrow> string list \<Rightarrow> string list" where
  "scriptArgs manager script extra =
     (if manager = ''yarn'' \<or> manager = ''bun'' then script # extra else ''run'' # script # extra)"

text \<open>\<open>exec\<close> is the error of a command, if any. The result has the commands that were started.\<close>

fun runScripts :: "(string \<Rightarrow> string list \<Rightarrow> string option) \<Rightarrow> string \<Rightarrow> string list
    \<Rightarrow> assetError option \<times> string list list" where
  "runScripts exec manager [] = (None, [])"
| "runScripts exec manager (script # scripts) =
     (let args = scriptArgs manager script [] in
      case exec manager args of
        Some e \<Rightarrow> (Some (ScriptFailed manager args e), [args])
      | None \<Rightarrow> (let (r, ran) = runScripts exec manager scripts in (r, args # ran)))"

definition RunBundlerScripts ::
    "(string \<Rightarrow> string list \<Rightarrow> string option) \<Rightarrow> (string \<Rightarrow> bool) \<Rightarrow> string \<Rightarrow> string list
       \<Rightarrow> assetError option \<times> string list list" where
  "RunBundlerScripts exec has manager scripts =
     runScripts exec (if manager \<noteq> [] then manager else DetectPackageManager has) scripts"

end
