(* ===== verification/AssetsClaims.thy ===== *)
theory AssetsClaims
  imports Assets "HOL-Library.Multiset"
begin

text \<open>
  Properties of the asset pipeline: what a digest covers, what a compilation leaves on disk, what
  an import map says; then where a digest does not change with the file.
\<close>

section \<open>References\<close>

definition refEdges :: "(string \<times> string list) list \<Rightarrow> (string \<times> string) set" where
  "refEdges refs = {(p, q). \<exists>rs. map_of refs p = Some rs \<and> q \<in> set rs}"

lemma refList_edges: "q \<in> set (refList refs p) \<longleftrightarrow> (p, q) \<in> refEdges refs"
  by (cases "map_of refs p") (auto simp: refList_def refEdges_def)

lemma localRefs_known: "localRefs fs relPath ts = Inr rs \<Longrightarrow> q \<in> set rs \<Longrightarrow> map_of fs q \<noteq> None"
  by (induction ts arbitrary: rs) (auto simp: Let_def res_simps split: if_splits)

lemma resolveFrom_known:
  "resolveFrom fs gs = Inr refs \<Longrightarrow> (p, rs) \<in> set refs \<Longrightarrow> q \<in> set rs \<Longrightarrow> map_of fs q \<noteq> None"
  by (induction fs gs arbitrary: refs rule: resolveFrom.induct) (auto simp: res_simps dest: localRefs_known)

lemma refEdges_known:
  "resolveReferences fs = Inr refs \<Longrightarrow> (p, q) \<in> refEdges refs \<Longrightarrow> q \<in> fst ` set fs"
  by (force simp: resolveReferences_def refEdges_def dest!: resolveFrom_known map_of_SomeD)

section \<open>The walk\<close>

text \<open>With fuel for every file not visited yet, the walk writes each file that can be reached and was
  not visited, once.\<close>

lemma walk_facts:
  assumes "finite U" and "card (U - set visited) \<le> fuel" and "set rs \<subseteq> U"
    and "\<And>p. p \<in> U \<Longrightarrow> set (refs p) \<subseteq> U" and "walkRefs refs fuel rs visited = (out, visited')"
  shows "distinct out \<and> set out \<inter> set visited = {} \<and> set visited' = set visited \<union> set out
    \<and> set rs \<subseteq> set visited' \<and> (\<forall>p\<in>set out. set (refs p) \<subseteq> set visited')
    \<and> (\<forall>p\<in>set out. \<exists>r\<in>set rs. (r, p) \<in> {(a, b). b \<in> set (refs a)}\<^sup>*)"
  using assms
proof (induction refs fuel rs visited arbitrary: out visited' rule: walkRefs.induct)
  case (1 refs fuel visited)
  then show ?case by simp
next
  case (2 refs r rs visited)
  then have "U \<subseteq> set visited" by (simp add: card_0_eq)
  with 2 show ?case by auto
next
  case (3 refs fuel r rs visited)
  show ?case
  proof (cases "r \<in> set visited")
    case True
    have rs: "set rs \<subseteq> U" using 3(6) by simp
    have w: "walkRefs refs (Suc fuel) rs visited = (out, visited')" using 3(8) True by simp
    from 3(1) [OF True 3(4,5) rs 3(7) w] True show ?thesis unfolding list.set by blast
  next
    case False
    obtain o1 v1 where w1: "walkRefs refs fuel (refs r) (r # visited) = (o1, v1)" by force
    obtain o2 v2 where w2: "walkRefs refs (Suc fuel) rs v1 = (o2, v2)" by force
    have out: "out = r # o1 @ o2" "visited' = v2" using 3(8) False w1 w2 by auto
    have r: "r \<in> U" using 3(6) by simp
    have "card (U - set (r # visited)) < card (U - set visited)"
      using 3(4) r False by (intro psubset_card_mono) auto
    with 3(5) have c1: "card (U - set (r # visited)) \<le> fuel" by simp
    from 3(2) [OF False 3(4) c1 3(7) [OF r] 3(7) w1]
    have i1: "distinct o1" "set o1 \<inter> set (r # visited) = {}" "set v1 = set (r # visited) \<union> set o1"
      "set (refs r) \<subseteq> set v1" "\<forall>p\<in>set o1. set (refs p) \<subseteq> set v1"
      "\<forall>p\<in>set o1. \<exists>q\<in>set (refs r). (q, p) \<in> {(a, b). b \<in> set (refs a)}\<^sup>*" by blast+
    have "U - set v1 \<subseteq> U - set visited" using i1(3) by auto
    then have "card (U - set v1) \<le> card (U - set visited)" using 3(4) by (intro card_mono) auto
    with 3(5) have c2: "card (U - set v1) \<le> Suc fuel" by simp
    have rs: "set rs \<subseteq> U" using 3(6) by simp
    from 3(3) [OF False w1 [symmetric] refl 3(4) c2 rs 3(7) w2]
    have i2: "distinct o2" "set o2 \<inter> set v1 = {}" "set v2 = set v1 \<union> set o2" "set rs \<subseteq> set v2"
      "\<forall>p\<in>set o2. set (refs p) \<subseteq> set v2"
      "\<forall>p\<in>set o2. \<exists>q\<in>set rs. (q, p) \<in> {(a, b). b \<in> set (refs a)}\<^sup>*" by blast+
    have "\<exists>q\<in>set (r # rs). (q, p) \<in> {(a, b). b \<in> set (refs a)}\<^sup>*" if p: "p \<in> set out" for p
    proof -
      consider "p = r" | "p \<in> set o1" | "p \<in> set o2" using p out by auto
      then show ?thesis
      proof cases
        case 2
        with i1(6) obtain q where "q \<in> set (refs r)" "(q, p) \<in> {(a, b). b \<in> set (refs a)}\<^sup>*" by blast
        then show ?thesis by (auto intro: converse_rtrancl_into_rtrancl)
      qed (use i2(6) in auto)
    qed
    moreover have "\<forall>p\<in>set out. set (refs p) \<subseteq> set visited'" using i1(4,5) i2(3,5) out by auto
    moreover have "distinct out" using i1(1,2,3) i2(1,2) out by auto
    moreover have "set out \<inter> set visited = {}" using i1(2,3) i2(2) out False by auto
    ultimately show ?thesis using i1(3) i2(3,4) out by auto
  qed
qed

lemma hashedFiles_reach:
  assumes "resolveReferences fs = Inr refs" and "p \<in> fst ` set fs"
  shows "distinct (hashedFiles fs refs p) \<and> set (hashedFiles fs refs p) = {q. (p, q) \<in> (refEdges refs)\<^sup>*}"
proof -
  let ?U = "fst ` set fs" and ?r = "refList refs"
  obtain out vs where w: "walkRefs ?r (length fs) (?r p) [p] = (out, vs)" by force
  have U: "set (?r q) \<subseteq> ?U" for q using refEdges_known [OF assms(1)] by (auto simp: refList_edges)
  have card: "card (?U - set [p]) \<le> length fs"
    by (meson List.finite_set card_Diff_subset_Int card_image_le card_length card_mono finite_imageI Diff_subset le_trans)
  have edges: "{(a, b). b \<in> set (?r a)} = refEdges refs" by (auto simp: refList_edges)
  have f: "distinct out" "set out \<inter> set [p] = {}" "set vs = set [p] \<union> set out" "set (?r p) \<subseteq> set vs"
    "\<forall>q\<in>set out. set (?r q) \<subseteq> set vs" "\<forall>q\<in>set out. \<exists>r\<in>set (?r p). (r, q) \<in> (refEdges refs)\<^sup>*"
    using walk_facts [OF _ card U U w, unfolded edges] by blast+
  have "q \<in> set (p # out)" if "(p, q) \<in> (refEdges refs)\<^sup>*" for q
    using that
  proof (induction rule: rtrancl_induct)
    case (step a b)
    then have "b \<in> set (?r a)" by (simp add: refList_edges)
    with step.IH f(3-5) show ?case by auto
  qed simp
  moreover have "(p, q) \<in> (refEdges refs)\<^sup>*" if "q \<in> set (p # out)" for q
    using that f(6) by (auto simp: refList_edges intro: converse_rtrancl_into_rtrancl)
  ultimately show ?thesis using f(1,2) w by (auto simp: hashedFiles_def)
qed

definition setContent :: "string \<Rightarrow> bytes \<Rightarrow> files \<Rightarrow> files" where
  "setContent q new fs = map (\<lambda>(p, c). (p, if p = q then new else c)) fs"

lemma setContent_of: "contentOf (setContent q new fs) p = (if p = q \<and> map_of fs q \<noteq> None then new else contentOf fs p)"
  by (induction fs) (auto simp: setContent_def contentOf_def)

lemma concat_change_one:
  assumes "distinct ps" and "\<And>p. p \<in> set ps \<Longrightarrow> p \<noteq> q \<Longrightarrow> f p = g p" and "f q \<noteq> g q"
  shows "concat (map f ps) = concat (map g ps) \<longleftrightarrow> q \<notin> set ps"
proof (cases "q \<in> set ps")
  case True
  then obtain xs ys where ps: "ps = xs @ q # ys" by (meson split_list)
  with assms(1,2) have "map f xs = map g xs" "map f ys = map g ys" by auto
  with ps assms(3) True show ?thesis by (simp del: map_eq_conv)
next
  case False
  with assms(2) have "map f ps = map g ps" by auto
  with False show ?thesis by (simp del: map_eq_conv)
qed


text \<open>Three style sheets, two of them in a cycle.\<close>

definition importOf :: "string \<Rightarrow> string" where
  "importOf url = ''@import url('' @ [CHR 0x22] @ url @ [CHR 0x22] @ '')''"

definition sheets :: files where
  "sheets = [(''app.css'', importOf ''ui/a.css'' @ ''body{}''), (''ui/a.css'', importOf ''b.css''),
             (''ui/b.css'', importOf ''../ui/a.css''), (''print.css'', importOf ''https://cdn/x.css'')]"

lemma sheets_refs:
  "resolveReferences sheets = Inr [(''app.css'', [''ui/a.css'']), (''ui/a.css'', [''ui/b.css'']),
     (''ui/b.css'', [''ui/a.css'']), (''print.css'', [])]"
  by code_simp


text \<open>The contents are hashed without a separator: moving text from a file to the one it references
  changes the file but not its fingerprint.\<close>

theorem moved_text_keeps_digest:
  "let before = [(''app.js'', ''go();//# sourceMappingURL=app.js.map'' @ [CHR 0x0A] @ ''AB''), (''app.js.map'', ''C'')];
       after = [(''app.js'', ''go();//# sourceMappingURL=app.js.map'' @ [CHR 0x0A] @ ''A''), (''app.js.map'', ''BC'')];
       refs = [(''app.js'', [''app.js.map'']), (''app.js.map'', [])]
   in resolveReferences before = Inr refs \<and> resolveReferences after = Inr refs
      \<and> digest sha before refs ''app.js'' = digest sha after refs ''app.js''
      \<and> map_of before ''app.js'' \<noteq> map_of after ''app.js''"
proof -
  let ?b = "[(''app.js'', ''go();//# sourceMappingURL=app.js.map'' @ [CHR 0x0A] @ ''AB''), (''app.js.map'', ''C'')]"
  let ?a = "[(''app.js'', ''go();//# sourceMappingURL=app.js.map'' @ [CHR 0x0A] @ ''A''), (''app.js.map'', ''BC'')]"
  let ?refs = "[(''app.js'', [''app.js.map'']), (''app.js.map'', [])]"
  have "hashInput ?b ?refs ''app.js'' = hashInput ?a ?refs ''app.js''" by code_simp
  then have "digest sha ?b ?refs ''app.js'' = digest sha ?a ?refs ''app.js''" by (simp add: digest_def)
  moreover have "resolveReferences ?b = Inr ?refs" by code_simp
  moreover have "resolveReferences ?a = Inr ?refs" by code_simp
  moreover have "map_of ?b ''app.js'' \<noteq> map_of ?a ''app.js''" by code_simp
  ultimately show ?thesis unfolding Let_def by blast
qed

section \<open>Fingerprinted names\<close>

lemma pathSplit_parts:
  "CHR ''/'' \<notin> set (snd (pathSplit s)) \<and> (fst (pathSplit s) = [] \<or> last (fst (pathSplit s)) = CHR ''/'')"
proof
  let ?f = "takeWhile (\<lambda>c. c \<noteq> CHR ''/'') (rev s)" and ?r = "dropWhile (\<lambda>c. c \<noteq> CHR ''/'') (rev s)"
  have "snd (pathSplit s) = rev ?f" by (simp add: pathSplit_def Let_def)
  then show "CHR ''/'' \<notin> set (snd (pathSplit s))" by (auto dest: set_takeWhileD)
  have "rev s = ?f @ ?r" by simp
  then have s: "s = rev ?r @ rev ?f" by (metis rev_append rev_rev_ident)
  moreover have "s = fst (pathSplit s) @ rev ?f"
    using pathSplit_append [of s] \<open>snd (pathSplit s) = rev ?f\<close> by simp
  ultimately have dir: "fst (pathSplit s) = rev ?r" by (metis append_same_eq)
  show "fst (pathSplit s) = [] \<or> last (fst (pathSplit s)) = CHR ''/''"
  proof (cases ?r)
    case (Cons x xs)
    then have "x = CHR ''/''" by (simp add: dropWhile_eq_Cons_conv)
    with Cons dir show ?thesis by simp
  qed (use dir in simp)
qed

lemma last_slash_unique:
  assumes "d @ f = d' @ f'" and "CHR ''/'' \<notin> set f" and "CHR ''/'' \<notin> set f'"
    and "d = [] \<or> last d = CHR ''/''" and "d' = [] \<or> last d' = CHR ''/''"
  shows "d = d' \<and> f = f'"
proof -
  from assms(1) obtain us where "d = d' @ us \<and> us @ f = f' \<or> d @ us = d' \<and> f = us @ f'"
    unfolding append_eq_append_conv2 by blast
  then show ?thesis
  proof
    assume u: "d = d' @ us \<and> us @ f = f'"
    then have "us = []" using assms(3,4) by (cases us rule: rev_cases) auto
    with u show ?thesis by simp
  next
    assume u: "d @ us = d' \<and> f = us @ f'"
    then have "us = []" using assms(2,5) by (cases us rule: rev_cases) auto
    with u show ?thesis by simp
  qed
qed

lemma pathSplit_file: "CHR ''/'' \<notin> set f \<Longrightarrow> d = [] \<or> last d = CHR ''/'' \<Longrightarrow> pathSplit (d @ f) = (d, f)"
  using last_slash_unique [OF pathSplit_append [of "d @ f"]] pathSplit_parts [of "d @ f"] by (metis prod.collapse)

lemma pathSplit_no_slash: "CHR ''/'' \<notin> set f \<Longrightarrow> pathSplit f = ([], f)"
  using pathSplit_file [of f "[]"] by simp

lemma pathExt_append:
  assumes "CHR ''/'' \<notin> set b" and "CHR ''/'' \<notin> set e" and "CHR ''.'' \<notin> set e"
  shows "pathExt (b @ CHR ''.'' # e) = CHR ''.'' # e"
proof -
  have "takeWhile (\<lambda>c. c \<noteq> CHR ''.'') (rev (b @ CHR ''.'' # e)) = rev e"
    using assms(3) by (auto simp: takeWhile_append)
  then show ?thesis using assms(1,2) by (simp add: pathExt_def pathSplit_no_slash)
qed

lemma allowed_parts:
  assumes "allowedExt (pathExt p)"
  obtains d b e where "p = d @ b @ CHR ''.'' # e" "pathExt p = CHR ''.'' # e" "e \<in> {''css'', ''js'', ''map''}"
    "CHR ''/'' \<notin> set b" "d = [] \<or> last d = CHR ''/''"
    "\<And>x. digestedName p x = d @ b @ ''-'' @ x @ CHR ''.'' # e"
proof -
  obtain e where e: "pathExt p = CHR ''.'' # e" "e \<in> {''css'', ''js'', ''map''}"
    using assms by (auto simp: allowedExt_def)
  obtain d f where df: "pathSplit p = (d, f)" by (cases "pathSplit p")
  then have f: "CHR ''/'' \<notin> set f" "d = [] \<or> last d = CHR ''/''" "p = d @ f"
    using pathSplit_parts [of p] pathSplit_append [of p] by simp_all
  have ext: "pathExt f = pathExt p" using df f(1) by (simp add: pathExt_def pathSplit_no_slash)
  then obtain b where b: "f = b @ CHR ''.'' # e" using pathExt_suffix [of f] e(1) by auto
  have "trimSuffix f (pathExt f) = b" using b ext e(1) by (auto simp: trimSuffix_def hasSuffix_def suffix_def)
  then have "digestedName p x = d @ b @ ''-'' @ x @ CHR ''.'' # e" for x
    using df ext e(1) by (simp add: digestedName_def)
  with that e f b show ?thesis by simp
qed

lemma digestedName_inj:
  assumes "allowedExt (pathExt p)" "allowedExt (pathExt q)" "digestedName p x = digestedName q y"
    "length x = length y" "CHR ''/'' \<notin> set x" "CHR ''/'' \<notin> set y" "CHR ''.'' \<notin> set x" "CHR ''.'' \<notin> set y"
  shows "p = q"
proof -
  obtain d b e where p: "p = d @ b @ CHR ''.'' # e" "e \<in> {''css'', ''js'', ''map''}" "CHR ''/'' \<notin> set b"
    "d = [] \<or> last d = CHR ''/''" "digestedName p x = d @ b @ ''-'' @ x @ CHR ''.'' # e"
    by (rule allowed_parts [OF assms(1)]) blast
  obtain d' b' e' where q: "q = d' @ b' @ CHR ''.'' # e'" "e' \<in> {''css'', ''js'', ''map''}" "CHR ''/'' \<notin> set b'"
    "d' = [] \<or> last d' = CHR ''/''" "digestedName q y = d' @ b' @ ''-'' @ y @ CHR ''.'' # e'"
    by (rule allowed_parts [OF assms(2)]) blast
  have "d = d' \<and> b @ ''-'' @ x @ CHR ''.'' # e = b' @ ''-'' @ y @ CHR ''.'' # e'"
    by (rule last_slash_unique) (use p q assms in auto)
  then have eq: "d = d'" "(b @ ''-'' @ x) @ CHR ''.'' # e = (b' @ ''-'' @ y) @ CHR ''.'' # e'" by simp_all
  have "e = e'"
    using pathExt_append [of "b @ ''-'' @ x" e] pathExt_append [of "b' @ ''-'' @ y" e'] p q assms(5,6) eq(2) by auto
  with eq(2) have "b @ ''-'' @ x = b' @ ''-'' @ y" by simp
  with assms(4) have "b = b'" by (metis append_eq_append_conv length_append)
  with eq(1) \<open>e = e'\<close> p q show ?thesis by simp
qed

lemma digestedName_json: "allowedExt (pathExt p) \<Longrightarrow> digestedName p x \<noteq> ''manifest.json''"
  by (erule allowed_parts) (auto dest: arg_cong [where f = rev])

section \<open>What a compilation leaves\<close>

lemma onDisk_ok: "onDisk faults op path f d = (None, d') \<Longrightarrow> d' = f d"
  by (auto simp: onDisk_def split: option.splits)

definition nameIn :: "manifest \<Rightarrow> string \<Rightarrow> string" where
  "nameIn m p = (case manifestPath m p of None \<Rightarrow> [] | Some n \<Rightarrow> n)"

definition written :: "manifest \<Rightarrow> string \<Rightarrow> files \<Rightarrow> (string \<times> bytes) list" where
  "written m prfx fs = map (\<lambda>(p, c). (nameIn m p, rewriteReferences c p m prfx)) fs"

lemma writeAll_ok:
  assumes "writeAll faults m prfx fs d = (None, d')" and "distinct (map (\<lambda>f. nameIn m (fst f)) fs)"
  shows "d' = d ++ map_of (written m prfx fs)"
  using assms
proof (induction fs arbitrary: d)
  case (Cons f fs)
  obtain p c where f: "f = (p, c)" by (cases f)
  let ?r = "rewriteReferences c p m prfx" and ?M = "map_of (written m prfx fs)"
  from Cons.prems(1) f have w: "writeAll faults m prfx fs (d(nameIn m p \<mapsto> ?r)) = (None, d')"
    by (auto simp: Let_def nameIn_def dest!: onDisk_ok split: prod.splits option.splits)
  have "fst ` set (written m prfx fs) = (\<lambda>f. nameIn m (fst f)) ` set fs"
    by (force simp: written_def)
  then have "?M (nameIn m p) = None" using Cons.prems(2) f by (simp add: map_of_eq_None_iff)
  then have "d(nameIn m p \<mapsto> ?r) ++ ?M = d ++ ?M(nameIn m p \<mapsto> ?r)"
    by (auto simp: map_add_def fun_eq_iff split: option.splits)
  also have "?M(nameIn m p \<mapsto> ?r) = map_of (written m prfx (f # fs))" by (simp add: written_def f)
  finally show ?case using Cons.IH [OF w] Cons.prems(2) by simp
qed (simp add: written_def)

lemma localRefs_targets:
  "localRefs fs relPath ts = Inr rs \<Longrightarrow> t \<in> set ts \<Longrightarrow> \<not> isExternal t \<Longrightarrow> map_of fs (resolveImportTarget relPath t) \<noteq> None"
  by (induction ts arbitrary: rs) (auto simp: Let_def res_simps split: if_splits)

lemma resolveFrom_targets:
  "resolveFrom fs gs = Inr refs \<Longrightarrow> (p, c) \<in> set gs \<Longrightarrow> t \<in> set (targetsOf p c) \<Longrightarrow> \<not> isExternal t \<Longrightarrow>
   map_of fs (resolveImportTarget p t) \<noteq> None"
  by (induction fs gs arbitrary: refs rule: resolveFrom.induct) (auto simp: res_simps dest: localRefs_targets)

lemma Compile_ok:
  assumes "Compile sha encode faults (Inr found) prfx d0 = (Inr m, d)"
  obtains refs d1 where "resolveReferences (filter (\<lambda>(p, c). allowedExt (pathExt p)) found) = Inr refs"
    and "m = compileManifest sha (filter (\<lambda>(p, c). allowedExt (pathExt p)) found) refs"
    and "writeAll faults m prfx (filter (\<lambda>(p, c). allowedExt (pathExt p)) found) Map.empty = (None, d1)"
    and "d = d1(''manifest.json'' \<mapsto> encode m)"
  using assms
  by (auto simp: Compile_def readSourceFiles_def Let_def dest!: onDisk_ok split: prod.splits option.splits sum.splits)


definition sampleSha :: "bytes \<Rightarrow> string" where
  "sampleSha x = replicate 64 (digitChar (length x mod 10))"

definition sampleSource :: files where
  "sampleSource = (''README.md'', ''no asset'') # sheets"

lemma writeAll_no_faults: "\<exists>d'. writeAll (\<lambda>op path. None) m prfx fs d = (None, d')"
  by (induction fs arbitrary: d) (auto simp: onDisk_def Let_def)


section \<open>Import maps\<close>

text \<open>Whatever the encoder of the JSON does, the import map cannot close its script element.\<close>

lemma replaceAll_no_close:
  "\<not> sublist ''</'' (replaceAll ''</'' (CHR ''<'' # CHR 0x5C # ''/'') s)"
proof (induction "''</''" "CHR ''<'' # CHR 0x5C # ''/''" s rule: replaceAll.induct)
  case (2 c s)
  show ?case
  proof (cases "hasPrefix (c # s) ''</''")
    case True
    then obtain t where "c = CHR ''<''" "s = CHR ''/'' # t" by (auto simp: hasPrefix_def prefix_def)
    with True 2(1) show ?thesis by (auto simp: sublist_Cons_right)
  next
    case False
    with 2(2) have "\<not> sublist ''</'' (replaceAll ''</'' (CHR ''<'' # CHR 0x5C # ''/'') s)" by simp
    moreover have "\<not> (c = CHR ''<'' \<and> prefix ''/'' (replaceAll ''</'' (CHR ''<'' # CHR 0x5C # ''/'') s))"
    proof
      assume a: "c = CHR ''<'' \<and> prefix ''/'' (replaceAll ''</'' (CHR ''<'' # CHR 0x5C # ''/'') s)"
      then have "prefix ''/'' s" by (cases s) (auto split: if_splits)
      with a False show False by (auto simp: hasPrefix_def prefix_def)
    qed
    ultimately show ?thesis using False by (auto simp: sublist_Cons_right)
  qed
qed simp

theorem import_map_stays_in_script: "\<not> sublist ''</'' (importJson json entries)"
  by (simp add: importJson_def replaceAll_no_close)

text \<open>A pin that is added is the only one of its name, at its old place; the others are as before.\<close>

lemma addPinTo_names:
  "map pnName (addPinTo p pins) = map pnName pins @ (if pnName p \<in> pnName ` set pins then [] else [pnName p])"
  by (induction pins) auto

lemma addPinTo_lookup:
  "find (\<lambda>q. pnName q = n) (addPinTo p pins) = (if n = pnName p then Some p else find (\<lambda>q. pnName q = n) pins)"
  by (induction pins) auto

lemma removePinFrom_spec:
  "distinct (map pnName pins) \<Longrightarrow>
   removePinFrom n pins = (find (\<lambda>q. pnName q = n) pins, filter (\<lambda>q. pnName q \<noteq> n) pins)"
proof (induction pins)
  case (Cons q pins)
  have "filter (\<lambda>q. pnName q \<noteq> n) pins = pins" if "pnName q = n"
  proof -
    have "pnName q \<notin> pnName ` set pins" using Cons.prems by simp
    with that show ?thesis unfolding filter_id_conv by (metis image_eqI)
  qed
  with Cons show ?case by auto
qed simp

lemma filter_one: "distinct (map f xs) \<Longrightarrow> k \<in> set xs \<Longrightarrow> filter (\<lambda>x. f k = f x) xs = [k]"
proof (induction xs)
  case (Cons a xs)
  show ?case
  proof (cases "k = a")
    case True
    have "filter (\<lambda>x. f a = f x) xs = []" unfolding filter_empty_conv using Cons.prems(1) by force
    with True show ?thesis by simp
  next
    case False
    with Cons.prems have "f a \<noteq> f k" by force
    with False Cons show ?thesis by auto
  qed
qed simp

text \<open>The order in which the code meets the entries of the manifest does not show in what a directory
  of pins resolves to, as long as no two of its entries get the same name.\<close>

theorem pin_all_order:
  assumes "mset m = mset m'" and "resolvePinAll m prfx pa = Inr es" and "distinct (map reName es)"
  shows "resolvePinAll m' prfx pa = Inr es"
proof -
  have ex: "list_ex P m = list_ex P m'" for P using arg_cong [OF assms(1), of set_mset] by (simp add: list_ex_iff)
  let ?p = "if paPattern pa = [] then ''**/*.js'' else paPattern pa"
  show ?thesis
  proof (cases "parseGlob (trimPrefix ?p ''**/'')")
    case None
    with assms(2) ex show ?thesis by (auto simp: resolvePinAll_def Let_def split: if_splits)
  next
    case (Some ts)
    define found where "found = List.map_filter (pinAllEntry ts (hasPrefix ?p ''**/'') prfx pa)"
    have es: "es = sort_key reName (found m)"
      using assms(2) Some by (simp add: resolvePinAll_def Let_def found_def)
    have "mset (found m) = mset (found m')" using assms(1) by (simp add: found_def List.map_filter_def)
    then have ms: "mset (found m') = mset es" by (simp add: es)
    have "sort_key reName (found m') = es"
    proof (rule properties_for_sort_key)
      fix k assume "k \<in> set es"
      with assms(3) have one: "filter (\<lambda>x. reName k = reName x) es = [k]" by (rule filter_one)
      then have "mset (filter (\<lambda>x. reName k = reName x) (found m')) = {#k#}"
        using ms by (metis mset_filter mset.simps)
      with one show "filter (\<lambda>x. reName k = reName x) es = filter (\<lambda>x. reName k = reName x) (found m')"
        by (simp only: mset_single_iff)
    qed (use ms es in simp_all)
    with Some show ?thesis by (simp add: resolvePinAll_def Let_def found_def)
  qed
qed

text \<open>With such entries it does show: two files that differ in their extension.\<close>

theorem pin_all_order_matters:
  "let pa = \<lparr>paDir = ''lib'', paUnder = ''lib'', paPreload = False, paPattern = ''*''\<rparr>;
       m = [(''lib/a.js'', ''lib/a-1.js''), (''lib/a.css'', ''lib/a-2.css'')]
   in resolvePinAll m ''/assets'' pa \<noteq> resolvePinAll (rev m) ''/assets'' pa"
  by code_simp

end
