(* ===== verification/Templates.thy ===== *)
theory Templates
  imports Fs
begin

text \<open>
  Views (\<open>template_renderer.go\<close>) and mail templates (\<open>mail/renderer.go\<close>): which files are parsed
  into which template, and what rendering does to the parsed templates. A template of
  \<open>html/template\<close> is a parsed set of files (parsing and execution are parameters) and whether
  it has been executed, after which it can no longer be cloned.
\<close>

section \<open>Finding the files\<close>

datatype viewError =
    ReadRootFailed
  | ReadDirFailed string
  | LayoutNotFound string
  | ParseFailed string string
  | TemplateNotFound string
  | CloneFailed string
  | ExecuteFailed string string

definition gohtml :: string where
  "gohtml = ''.gohtml''"

text \<open>The partials of the layouts directory and the file of the configured layout.\<close>

fun scanLayouts :: "string \<Rightarrow> string list \<Rightarrow> string list \<Rightarrow> string \<Rightarrow> string list \<times> string" where
  "scanLayouts layoutName [] partials layoutFile = (partials, layoutFile)"
| "scanLayouts layoutName (file # files) partials layoutFile =
     (let base = pathBase file in
      if hasPrefix base ''_'' then scanLayouts layoutName files (partials @ [file]) layoutFile
      else if trimSuffix base gohtml = layoutName then scanLayouts layoutName files partials file
      else scanLayouts layoutName files partials layoutFile)"

text \<open>The layout files for every template, and the layout itself; empty when there is none. The pattern is
  constant and well formed, so \<open>fs.Glob\<close> has no error.\<close>

definition findLayouts :: "fileSystem \<Rightarrow> string \<Rightarrow> string list \<times> string" where
  "findLayouts fs layoutName =
     (case fsGlob fs ''layouts'' (''*'' @ gohtml) of
        None \<Rightarrow> ([], [])
      | Some matches \<Rightarrow>
          (case scanLayouts layoutName matches [] [] of
             (partials, layoutFile) \<Rightarrow>
               (if layoutFile \<noteq> [] then partials @ [layoutFile] else partials, layoutFile)))"

definition isView :: "dirEntry \<Rightarrow> bool" where
  "isView e \<longleftrightarrow> \<not> deIsDir e \<and> hasSuffix (deName e) gohtml"

fun scanController :: "string \<Rightarrow> dirEntry list \<Rightarrow> string list \<Rightarrow> string list \<Rightarrow> string list \<times> string list" where
  "scanController controller [] partials actions = (partials, actions)"
| "scanController controller (e # es) partials actions =
     (if \<not> isView e then scanController controller es partials actions
      else let file = pathJoin [controller, deName e] in
        if hasPrefix (deName e) ''_'' then scanController controller es (partials @ [file]) actions
        else scanController controller es partials (actions @ [file]))"

definition actionName :: "string \<Rightarrow> string" where
  "actionName file = trimSuffix (pathBase file) gohtml"

section \<open>Loading the views\<close>

text \<open>\<open>parse name files\<close> is \<open>template.New(name).Funcs(funcMap).ParseFS(viewFs, files...)\<close>.\<close>

type_synonym 't parser = "string \<Rightarrow> string list \<Rightarrow> string + 't"

fun loadActions ::
    "'t parser \<Rightarrow> string \<Rightarrow> string list \<times> string \<Rightarrow> string \<Rightarrow> string list \<Rightarrow> string list \<Rightarrow> (string \<rightharpoonup> 't)
       \<Rightarrow> viewError + (string \<rightharpoonup> 't)" where
  "loadActions parse layoutName layouts controller partials [] m = Inr m"
| "loadActions parse layoutName layouts controller partials (action # actions) m =
     (if snd layouts = [] then Inl (LayoutNotFound layoutName)
      else let name = actionName action; key = controller @ ''/'' @ name in
        case parse name (fst layouts @ partials @ [action]) of
          Inl e \<Rightarrow> Inl (ParseFailed key e)
        | Inr t \<Rightarrow> loadActions parse layoutName layouts controller partials actions (m(key \<mapsto> t)))"

definition isController :: "dirEntry \<Rightarrow> bool" where
  "isController e \<longleftrightarrow> deIsDir e \<and> deName e \<noteq> ''layouts''"

fun loadControllers ::
    "'t parser \<Rightarrow> fileSystem \<Rightarrow> string \<Rightarrow> string list \<times> string \<Rightarrow> dirEntry list \<Rightarrow> (string \<rightharpoonup> 't)
       \<Rightarrow> viewError + (string \<rightharpoonup> 't)" where
  "loadControllers parse fs layoutName layouts [] m = Inr m"
| "loadControllers parse fs layoutName layouts (e # es) m =
     (if \<not> isController e then loadControllers parse fs layoutName layouts es m
      else case fsReadDir fs (deName e) of
        Inl err \<Rightarrow> Inl (ReadDirFailed (deName e))
      | Inr ces \<Rightarrow>
          (case scanController (deName e) ces [] [] of
             (partials, actions) \<Rightarrow>
               rbind (loadActions parse layoutName layouts (deName e) partials actions m)
                 (loadControllers parse fs layoutName layouts es)))"

definition loadViews :: "'t parser \<Rightarrow> fileSystem \<Rightarrow> string \<Rightarrow> viewError + (string \<rightharpoonup> 't)" where
  "loadViews parse fs layoutName =
     (case fsReadDir fs ''.'' of
        Inl e \<Rightarrow> Inl ReadRootFailed
      | Inr entries \<Rightarrow> loadControllers parse fs layoutName (findLayouts fs layoutName) entries Map.empty)"

section \<open>Rendering\<close>

text \<open>A template object and whether it has been executed.\<close>

datatype 't tmplObject = Tmpl (tmParsed: 't) (tmExecuted: bool)

record 't templateRenderer =
  trTemplates :: "string \<rightharpoonup> 't tmplObject"
  trExecTemplates :: "string \<rightharpoonup> 't tmplObject"
  trLayoutName :: string
  trHasRequestFuncs :: bool

text \<open>\<open>Clone\<close>: an error once the template has been executed; the copy is fresh.\<close>

definition tmplClone :: "'t tmplObject \<Rightarrow> 't tmplObject option" where
  "tmplClone t = (if tmExecuted t then None else Some (Tmpl (tmParsed t) False))"

definition newTemplateRenderer :: "'t parser \<Rightarrow> fileSystem \<Rightarrow> string \<Rightarrow> bool \<Rightarrow> viewError + 't templateRenderer" where
  "newTemplateRenderer parse fs layoutName requestFuncs =
     rbind (loadViews parse fs layoutName) (\<lambda>m.
       Inr \<lparr>trTemplates = (\<lambda>k. map_option (\<lambda>t. Tmpl t False) (m k)),
            trExecTemplates = (if requestFuncs then (\<lambda>k. map_option (\<lambda>t. Tmpl t False) (m k)) else Map.empty),
            trLayoutName = layoutName, trHasRequestFuncs = requestFuncs\<rparr>)"

text \<open>\<open>exec t funcs name\<close> executes the template \<open>name\<close> of a parsed set with the functions of a request,
  if any: the output so far and the error, if any.\<close>

type_synonym ('t, 'c) executor = "'t \<Rightarrow> 'c option \<Rightarrow> string \<Rightarrow> string \<times> string option"

definition renderView ::
    "('t, 'c) executor \<Rightarrow> 'c \<Rightarrow> string \<Rightarrow> 't templateRenderer \<Rightarrow> (viewError + string) \<times> 't templateRenderer" where
  "renderView exec c name r =
     (case trTemplates r name of
        None \<Rightarrow> (Inl (TemplateNotFound name), r)
      | Some t \<Rightarrow>
          if \<not> trHasRequestFuncs r then
            (case exec (tmParsed t) None (trLayoutName r) of (out, e) \<Rightarrow>
               (case e of Some e \<Rightarrow> Inl (ExecuteFailed (trLayoutName r) e) | None \<Rightarrow> Inr out,
                r\<lparr>trTemplates := (trTemplates r)(name \<mapsto> Tmpl (tmParsed t) True)\<rparr>))
          else
            (case tmplClone t of
               None \<Rightarrow> (Inl (CloneFailed name), r)
             | Some clone \<Rightarrow>
                 (case exec (tmParsed clone) (Some c) (trLayoutName r) of (out, e) \<Rightarrow>
                    (case e of Some e \<Rightarrow> Inl (ExecuteFailed (trLayoutName r) e) | None \<Rightarrow> Inr out, r))))"

text \<open>\<open>RenderNamed\<close> executes the copy of its own when there are request functions.\<close>

definition renderNamed ::
    "('t, 'c) executor \<Rightarrow> string \<Rightarrow> string \<Rightarrow> 't templateRenderer \<Rightarrow> (viewError + string) \<times> 't templateRenderer" where
  "renderNamed exec action block r =
     (case (if trHasRequestFuncs r then trExecTemplates r else trTemplates r) action of
        None \<Rightarrow> (Inl (TemplateNotFound action), r)
      | Some t \<Rightarrow>
          (case exec (tmParsed t) None block of (out, e) \<Rightarrow>
             (case e of Some e \<Rightarrow> Inl (ExecuteFailed block e) | None \<Rightarrow> Inr out,
              if trHasRequestFuncs r
              then r\<lparr>trExecTemplates := (trExecTemplates r)(action \<mapsto> Tmpl (tmParsed t) True)\<rparr>
              else r\<lparr>trTemplates := (trTemplates r)(action \<mapsto> Tmpl (tmParsed t) True)\<rparr>)))"

datatype 'c renderCall = CallRender 'c string | CallNamed string string

fun renderOne :: "('t, 'c) executor \<Rightarrow> 'c renderCall \<Rightarrow> 't templateRenderer \<Rightarrow> (viewError + string) \<times> 't templateRenderer" where
  "renderOne exec (CallRender c name) r = renderView exec c name r"
| "renderOne exec (CallNamed action block) r = renderNamed exec action block r"

fun renderCalls :: "('t, 'c) executor \<Rightarrow> 'c renderCall list \<Rightarrow> 't templateRenderer \<Rightarrow> (viewError + string) list" where
  "renderCalls exec [] r = []"
| "renderCalls exec (a # as) r = (case renderOne exec a r of (out, r') \<Rightarrow> out # renderCalls exec as r')"

section \<open>What is parsed into a view\<close>

text \<open>The action files of a controller, its partials, and the template set of an action, as the
  documentation of \<open>ViewFS\<close> says.\<close>

definition viewFiles :: "fileSystem \<Rightarrow> string \<Rightarrow> bool \<Rightarrow> string list" where
  "viewFiles fs controller partial =
     (case fsReadDir fs controller of
        Inl e \<Rightarrow> []
      | Inr es \<Rightarrow> map (\<lambda>e. pathJoin [controller, deName e]) (filter (\<lambda>e. isView e \<and> hasPrefix (deName e) ''_'' = partial) es))"

definition isAction :: "fileSystem \<Rightarrow> string \<Rightarrow> string \<Rightarrow> bool" where
  "isAction fs controller action \<longleftrightarrow>
     (case fsReadDir fs ''.'' of Inl e \<Rightarrow> False | Inr es \<Rightarrow> DirEntry controller True \<in> set es)
     \<and> controller \<noteq> ''layouts'' \<and> action \<in> set (viewFiles fs controller False)"

lemma scanController_files:
  "scanController controller es ps as =
    (ps @ map (\<lambda>e. pathJoin [controller, deName e]) (filter (\<lambda>e. isView e \<and> hasPrefix (deName e) ''_'') es),
     as @ map (\<lambda>e. pathJoin [controller, deName e]) (filter (\<lambda>e. isView e \<and> \<not> hasPrefix (deName e) ''_'') es))"
  by (induction es arbitrary: ps as) (auto simp: Let_def)

lemma scanController_viewFiles:
  "fsReadDir fs controller = Inr es \<Longrightarrow>
   scanController controller es [] [] = (viewFiles fs controller True, viewFiles fs controller False)"
  by (simp add: scanController_files viewFiles_def)

definition viewKey :: "string \<Rightarrow> string \<Rightarrow> string" where
  "viewKey controller action = controller @ ''/'' @ actionName action"

lemma loadActions_ok:
  "loadActions parse ln layouts c ps as m = Inr m' \<Longrightarrow>
   (\<forall>k t. m' k = Some t \<longrightarrow> m k = Some t \<or>
      (\<exists>a\<in>set as. k = viewKey c a \<and> parse (actionName a) (fst layouts @ ps @ [a]) = Inr t))
   \<and> (\<forall>a\<in>set as. m' (viewKey c a) \<noteq> None) \<and> dom m \<subseteq> dom m' \<and> (as \<noteq> [] \<longrightarrow> snd layouts \<noteq> [])"
proof (induction as arbitrary: m)
  case (Cons a as)
  from Cons.prems obtain t where t: "snd layouts \<noteq> []" "parse (actionName a) (fst layouts @ ps @ [a]) = Inr t"
    "loadActions parse ln layouts c ps as (m(viewKey c a \<mapsto> t)) = Inr m'"
    by (auto simp: Let_def viewKey_def split: if_splits sum.splits)
  note ih = Cons.IH [OF t(3)]
  then have "dom (m(viewKey c a \<mapsto> t)) \<subseteq> dom m'" by blast
  then have d: "viewKey c a \<in> dom m'" "dom m \<subseteq> dom m'" unfolding dom_fun_upd by auto
  have "m k = Some u \<or> (\<exists>a\<in>set (a # as). k = viewKey c a \<and> parse (actionName a) (fst layouts @ ps @ [a]) = Inr u)"
    if "m' k = Some u" for k u
  proof -
    from ih that have "(m(viewKey c a \<mapsto> t)) k = Some u
        \<or> (\<exists>a\<in>set as. k = viewKey c a \<and> parse (actionName a) (fst layouts @ ps @ [a]) = Inr u)" by blast
    with t(2) show ?thesis by (auto split: if_splits)
  qed
  moreover have "\<forall>a\<in>set (a # as). m' (viewKey c a) \<noteq> None" using ih d(1) by auto
  ultimately show ?case using d(2) t(1) by blast
qed simp

definition parsedAs :: "'t parser \<Rightarrow> fileSystem \<Rightarrow> string \<Rightarrow> string \<Rightarrow> string \<Rightarrow> 't \<Rightarrow> bool" where
  "parsedAs parse fs layoutName c a t \<longleftrightarrow>
     parse (actionName a) (fst (findLayouts fs layoutName) @ viewFiles fs c True @ [a]) = Inr t"

lemma loadControllers_ok:
  assumes "loadControllers parse fs ln (findLayouts fs ln) es m = Inr m'"
  shows "(\<forall>k t. m' k = Some t \<longrightarrow> m k = Some t \<or>
      (\<exists>c a. DirEntry c True \<in> set es \<and> c \<noteq> ''layouts'' \<and> a \<in> set (viewFiles fs c False)
        \<and> k = viewKey c a \<and> parsedAs parse fs ln c a t))
   \<and> (\<forall>c a. DirEntry c True \<in> set es \<and> c \<noteq> ''layouts'' \<and> a \<in> set (viewFiles fs c False)
        \<longrightarrow> m' (viewKey c a) \<noteq> None \<and> snd (findLayouts fs ln) \<noteq> [])
   \<and> dom m \<subseteq> dom m'"
  using assms
proof (induction es arbitrary: m)
  case (Cons e es)
  show ?case
  proof (cases "isController e")
    case True
    then have e: "e = DirEntry (deName e) True" "deName e \<noteq> ''layouts''" by (cases e; simp add: isController_def)+
    from Cons.prems True obtain ces where r: "fsReadDir fs (deName e) = Inr ces"
      by (auto split: sum.splits)
    from Cons.prems True obtain m1 where
      m1: "loadActions parse ln (findLayouts fs ln) (deName e) (viewFiles fs (deName e) True) (viewFiles fs (deName e) False) m = Inr m1"
      and m2: "loadControllers parse fs ln (findLayouts fs ln) es m1 = Inr m'"
      by (auto simp: r scanController_viewFiles [OF r] res_simps)
    note a = loadActions_ok [OF m1] and b = Cons.IH [OF m2]
    have p1: "m k = Some t \<or> (\<exists>c a. DirEntry c True \<in> set (e # es) \<and> c \<noteq> ''layouts'' \<and> a \<in> set (viewFiles fs c False)
        \<and> k = viewKey c a \<and> parsedAs parse fs ln c a t)" if "m' k = Some t" for k t
    proof -
      from b that consider "m1 k = Some t" | "\<exists>c a. DirEntry c True \<in> set es \<and> c \<noteq> ''layouts'' \<and> a \<in> set (viewFiles fs c False)
        \<and> k = viewKey c a \<and> parsedAs parse fs ln c a t" by blast
      then show ?thesis
      proof cases
        case 1
        with a have "m k = Some t \<or> (\<exists>a\<in>set (viewFiles fs (deName e) False). k = viewKey (deName e) a
            \<and> parsedAs parse fs ln (deName e) a t)" by (auto simp: parsedAs_def)
        with e show ?thesis by (metis list.set_intros(1))
      qed auto
    qed
    have p2: "m' (viewKey c x) \<noteq> None \<and> snd (findLayouts fs ln) \<noteq> []"
      if "DirEntry c True \<in> set (e # es)" "c \<noteq> ''layouts''" "x \<in> set (viewFiles fs c False)" for c x
    proof (cases "DirEntry c True \<in> set es")
      case False
      with that have "c = deName e" by auto
      with that(3) a have "m1 (viewKey c x) \<noteq> None" "snd (findLayouts fs ln) \<noteq> []" by auto
      with b show ?thesis by (metis domIff subset_iff)
    qed (use b that in blast)
    from p1 p2 a b show ?thesis by (meson subset_trans)
  next
    case False
    with Cons.prems have "loadControllers parse fs ln (findLayouts fs ln) es m = Inr m'" by simp
    from Cons.IH [OF this] False show ?thesis by (auto simp: isController_def)
  qed
qed simp

lemma loadViews_ok:
  assumes "loadViews parse fs ln = Inr m"
  shows "(\<forall>k t. m k = Some t \<longrightarrow> (\<exists>c a. isAction fs c a \<and> k = viewKey c a \<and> parsedAs parse fs ln c a t))
    \<and> (\<forall>c a. isAction fs c a \<longrightarrow> m (viewKey c a) \<noteq> None)"
proof -
  from assms obtain es where es: "fsReadDir fs ''.'' = Inr es"
    "loadControllers parse fs ln (findLayouts fs ln) es Map.empty = Inr m"
    by (auto simp: loadViews_def split: sum.splits)
  from loadControllers_ok [OF es(2)] show ?thesis by (simp add: isAction_def es(1))
qed

section \<open>Rendering does not depend on what was rendered before\<close>

text \<open>What a call gives on freshly parsed templates.\<close>

definition freshly :: "string \<Rightarrow> string \<times> string option \<Rightarrow> viewError + string" where
  "freshly name r = (case snd r of Some e \<Rightarrow> Inl (ExecuteFailed name e) | None \<Rightarrow> Inr (fst r))"

fun renderSpec :: "('t, 'c) executor \<Rightarrow> (string \<rightharpoonup> 't) \<Rightarrow> string \<Rightarrow> bool \<Rightarrow> 'c renderCall \<Rightarrow> viewError + string" where
  "renderSpec exec m ln rf (CallRender c name) =
     (case m name of None \<Rightarrow> Inl (TemplateNotFound name)
      | Some t \<Rightarrow> freshly ln (exec t (if rf then Some c else None) ln))"
| "renderSpec exec m ln rf (CallNamed action block) =
     (case m action of None \<Rightarrow> Inl (TemplateNotFound action) | Some t \<Rightarrow> freshly block (exec t None block))"

text \<open>The templates that \<open>Render\<close> clones are never executed.\<close>

definition rendererOk :: "(string \<rightharpoonup> 't) \<Rightarrow> string \<Rightarrow> bool \<Rightarrow> 't templateRenderer \<Rightarrow> bool" where
  "rendererOk m ln rf r \<longleftrightarrow> trLayoutName r = ln \<and> trHasRequestFuncs r = rf
     \<and> (\<forall>k. map_option tmParsed (trTemplates r k) = m k)
     \<and> (rf \<longrightarrow> (\<forall>k. map_option tmParsed (trExecTemplates r k) = m k)
              \<and> (\<forall>k t. trTemplates r k = Some t \<longrightarrow> \<not> tmExecuted t))"

lemma renderOne_ok:
  assumes "rendererOk m ln rf r" and "renderOne exec a r = (out, r')"
  shows "out = renderSpec exec m ln rf a \<and> rendererOk m ln rf r'"
proof (cases a)
  case (CallRender c name)
  have ok: "map_option tmParsed (trTemplates r name) = m name" using assms(1) by (simp add: rendererOk_def)
  show ?thesis
  proof (cases "trTemplates r name")
    case None
    with ok assms CallRender show ?thesis by (auto simp: renderView_def)
  next
    case (Some t)
    with ok have "m name = Some (tmParsed t)" by simp
    with Some assms CallRender show ?thesis
      by (auto simp: renderView_def tmplClone_def rendererOk_def freshly_def split: prod.splits option.splits if_splits)
  qed
next
  case (CallNamed action block)
  show ?thesis
  proof (cases rf)
    case True
    with assms(1) have "map_option tmParsed (trExecTemplates r action) = m action" by (simp add: rendererOk_def)
    with True assms CallNamed show ?thesis
      by (cases "trExecTemplates r action")
        (auto simp: renderNamed_def rendererOk_def freshly_def split: prod.splits option.splits)
  next
    case False
    with assms(1) have "map_option tmParsed (trTemplates r action) = m action" by (simp add: rendererOk_def)
    with False assms CallNamed show ?thesis
      by (cases "trTemplates r action")
        (auto simp: renderNamed_def rendererOk_def freshly_def split: prod.splits option.splits)
  qed
qed

lemma renderCalls_ok: "rendererOk m ln rf r \<Longrightarrow> renderCalls exec calls r = map (renderSpec exec m ln rf) calls"
proof (induction calls arbitrary: r)
  case (Cons a as)
  obtain out r' where "renderOne exec a r = (out, r')" by force
  with renderOne_ok [OF Cons.prems this] Cons.IH show ?case by simp
qed simp

text \<open>C38: A renderer has exactly one template set per action file of the views: the layout partials,
  the layout, the partials of the controller, the action. Any sequence of \<open>Render\<close> and
  \<open>RenderNamed\<close> calls gives what each call gives on freshly parsed templates: in particular, with
  functions of the request, no call finds a template that can no longer be cloned.\<close>

theorem views_render:
  assumes "newTemplateRenderer parse fs ln rf = Inr r"
  shows "\<exists>m. (\<forall>k t. m k = Some t \<longrightarrow> (\<exists>c a. isAction fs c a \<and> k = viewKey c a \<and> parsedAs parse fs ln c a t))
    \<and> (\<forall>c a. isAction fs c a \<longrightarrow> m (viewKey c a) \<noteq> None)
    \<and> renderCalls exec calls r = map (renderSpec exec m ln rf) calls"
proof -
  from assms obtain m where m: "loadViews parse fs ln = Inr m" by (auto simp: newTemplateRenderer_def res_simps)
  with assms have r: "r = \<lparr>trTemplates = (\<lambda>k. map_option (\<lambda>t. Tmpl t False) (m k)),
            trExecTemplates = (if rf then (\<lambda>k. map_option (\<lambda>t. Tmpl t False) (m k)) else Map.empty),
            trLayoutName = ln, trHasRequestFuncs = rf\<rparr>"
    by (simp add: newTemplateRenderer_def)
  have "rendererOk m ln rf r"
    by (auto simp: rendererOk_def r option.map_comp comp_def option.map_ident)
  from renderCalls_ok [OF this] loadViews_ok [OF m] show ?thesis by blast
qed

text \<open>Two views with a layout, partials of both kinds and a mail-like extra file; parsing lists the
  files.\<close>

definition sampleViews :: fileSystem where
  "sampleViews = plainFS (\<lambda>name.
     if name = ''.'' then Inr (DirNode [DirEntry ''posts'' True, DirEntry ''layouts'' True, DirEntry ''robots.txt'' False])
     else if name = ''layouts'' then Inr (DirNode [DirEntry ''application.gohtml'' False, DirEntry ''_nav.gohtml'' False])
     else if name = ''posts'' then
       Inr (DirNode [DirEntry ''show.gohtml'' False, DirEntry ''_form.gohtml'' False, DirEntry ''edit.gohtml'' False])
     else Inl (Some ''file does not exist''))"

definition sampleParse :: "(string list) parser" where
  "sampleParse name files = Inr files"

definition sampleExec :: "(string list, nat) executor" where
  "sampleExec files c name = (join '','' files @ itoa (case c of None \<Rightarrow> 0 | Some n \<Rightarrow> n), None)"

definition sampleCalls :: "nat renderCall list" where
  "sampleCalls = [CallRender 7 ''posts/show'', CallNamed ''posts/show'' ''title'', CallRender 8 ''posts/show'', CallRender 9 ''posts/new'']"

lemma views_render_witness:
  "\<exists>r m. newTemplateRenderer sampleParse sampleViews ''application'' True = Inr r
     \<and> renderCalls sampleExec sampleCalls r = map (renderSpec sampleExec m ''application'' True) sampleCalls
     \<and> renderCalls sampleExec sampleCalls r ! 2
         = Inr ''layouts/_nav.gohtml,layouts/application.gohtml,posts/_form.gohtml,posts/show.gohtml8''"
proof -
  have "map_sum (\<lambda>e. ()) (\<lambda>r. renderCalls sampleExec sampleCalls r ! 2) (newTemplateRenderer sampleParse sampleViews ''application'' True)
      = Inr (Inr ''layouts/_nav.gohtml,layouts/application.gohtml,posts/_form.gohtml,posts/show.gohtml8'')"
    by code_simp
  then obtain r where r: "newTemplateRenderer sampleParse sampleViews ''application'' True = Inr r"
    "renderCalls sampleExec sampleCalls r ! 2
         = Inr ''layouts/_nav.gohtml,layouts/application.gohtml,posts/_form.gohtml,posts/show.gohtml8''"
    by (cases "newTemplateRenderer sampleParse sampleViews ''application'' True") auto
  from views_render [OF r(1), of sampleExec sampleCalls] r show ?thesis by blast
qed

section \<open>Mail templates\<close>

text \<open>A mailer directory: text files by action, partials, actions.\<close>

definition textSuffix :: string where
  "textSuffix = ''.text.gohtml''"

fun scanMailer ::
    "string \<Rightarrow> dirEntry list \<Rightarrow> (string \<rightharpoonup> string) \<Rightarrow> string list \<Rightarrow> string list
       \<Rightarrow> (string \<rightharpoonup> string) \<times> string list \<times> string list" where
  "scanMailer mailer [] texts partials actions = (texts, partials, actions)"
| "scanMailer mailer (e # es) texts partials actions =
     (if \<not> isView e then scanMailer mailer es texts partials actions
      else let file = pathJoin [mailer, deName e] in
        if hasSuffix (deName e) textSuffix
        then scanMailer mailer es (texts(trimSuffix (deName e) textSuffix \<mapsto> file)) partials actions
        else if hasPrefix (deName e) ''_'' then scanMailer mailer es texts (partials @ [file]) actions
        else scanMailer mailer es texts partials (actions @ [file]))"

record ('h, 't) mailRenderer =
  mrHtml :: "string \<rightharpoonup> 'h"
  mrText :: "string \<rightharpoonup> 't"
  mrLayoutName :: string

fun loadMailActions ::
    "'h parser \<Rightarrow> 't parser \<Rightarrow> string list \<times> string \<Rightarrow> string \<Rightarrow> (string \<rightharpoonup> string) \<Rightarrow> string list \<Rightarrow> string list
       \<Rightarrow> ('h, 't) mailRenderer \<Rightarrow> viewError + ('h, 't) mailRenderer" where
  "loadMailActions parseH parseT layouts mailer texts partials [] r = Inr r"
| "loadMailActions parseH parseT layouts mailer texts partials (action # actions) r =
     (if snd layouts = [] then Inl (LayoutNotFound (mrLayoutName r))
      else let name = actionName action; key = mailer @ ''/'' @ name in
        case parseH name (fst layouts @ partials @ [action]) of
          Inl e \<Rightarrow> Inl (ParseFailed key e)
        | Inr h \<Rightarrow>
            let r1 = r\<lparr>mrHtml := (mrHtml r)(key \<mapsto> h)\<rparr> in
            case texts name of
              None \<Rightarrow> loadMailActions parseH parseT layouts mailer texts partials actions r1
            | Some textFile \<Rightarrow>
                (case parseT (pathBase textFile) [textFile] of
                   Inl e \<Rightarrow> Inl (ParseFailed key e)
                 | Inr t \<Rightarrow> loadMailActions parseH parseT layouts mailer texts partials actions
                              (r1\<lparr>mrText := (mrText r1)(key \<mapsto> t)\<rparr>)))"

fun loadMailers ::
    "'h parser \<Rightarrow> 't parser \<Rightarrow> fileSystem \<Rightarrow> string list \<times> string \<Rightarrow> dirEntry list \<Rightarrow> ('h, 't) mailRenderer
       \<Rightarrow> viewError + ('h, 't) mailRenderer" where
  "loadMailers parseH parseT fs layouts [] r = Inr r"
| "loadMailers parseH parseT fs layouts (e # es) r =
     (if \<not> isController e then loadMailers parseH parseT fs layouts es r
      else case fsReadDir fs (deName e) of
        Inl err \<Rightarrow> Inl (ReadDirFailed (deName e))
      | Inr mes \<Rightarrow>
          (case scanMailer (deName e) mes Map.empty [] [] of
             (texts, partials, actions) \<Rightarrow>
               rbind (loadMailActions parseH parseT layouts (deName e) texts partials actions r)
                 (loadMailers parseH parseT fs layouts es)))"

definition NewMailRenderer ::
    "'h parser \<Rightarrow> 't parser \<Rightarrow> fileSystem \<Rightarrow> string \<Rightarrow> viewError + ('h, 't) mailRenderer" where
  "NewMailRenderer parseH parseT fs layoutName =
     (case fsReadDir fs ''.'' of
        Inl e \<Rightarrow> Inl ReadRootFailed
      | Inr entries \<Rightarrow>
          loadMailers parseH parseT fs (findLayouts fs layoutName) entries
            \<lparr>mrHtml = Map.empty, mrText = Map.empty, mrLayoutName = layoutName\<rparr>)"

text \<open>\<open>Render\<close>: the bodies in HTML and text.\<close>

definition mailRender ::
    "('h \<Rightarrow> string \<Rightarrow> 'd \<Rightarrow> string + string) \<Rightarrow> ('t \<Rightarrow> 'd \<Rightarrow> string + string) \<Rightarrow> ('h, 't) mailRenderer \<Rightarrow> string \<Rightarrow> 'd
       \<Rightarrow> viewError + string \<times> string" where
  "mailRender execH execT r name d =
     (case mrHtml r name of
        None \<Rightarrow> Inl (TemplateNotFound name)
      | Some h \<Rightarrow>
          (case execH h (mrLayoutName r) d of
             Inl e \<Rightarrow> Inl (ExecuteFailed name e)
           | Inr html \<Rightarrow>
               (case mrText r name of
                  None \<Rightarrow> Inr (html, [])
                | Some t \<Rightarrow> (case execT t d of Inl e \<Rightarrow> Inl (ExecuteFailed name e) | Inr text \<Rightarrow> Inr (html, text)))))"

text \<open>An action in HTML is looked up in the directory of actions; a text file alone is nothing.\<close>

theorem text_only_mail_not_found:
  "let fs = plainFS (\<lambda>name.
         if name = ''.'' then Inr (DirNode [DirEntry ''layouts'' True, DirEntry ''users'' True])
         else if name = ''layouts'' then Inr (DirNode [DirEntry ''mail.gohtml'' False])
         else if name = ''users'' then Inr (DirNode [DirEntry ''welcome.text.gohtml'' False])
         else Inl (Some ''file does not exist''))
   in rbind (NewMailRenderer sampleParse sampleParse fs ''mail'')
        (\<lambda>r. mailRender (\<lambda>h l d. Inr ''html'') (\<lambda>t d. Inr ''text'') r ''users/welcome'' ())
      = Inl (TemplateNotFound ''users/welcome'')"
  by code_simp

end
