(* ===== verification/Mail.thy ===== *)
theory Mail
  imports Templates Http
begin

text \<open>
  Mail (\<open>mail/\<close>): \<open>Mailer.Deliver\<close>, the encoding of a message (\<open>mime.go\<close>), the SMTP and logging
  transports and the recorder for tests. Rendering, \<open>net/smtp\<close>, the Q-encoding of subjects, the
  clock and the random boundary are parameters. A reader of messages says what the encoding is
  good for.
\<close>

section \<open>Messages\<close>

record message =
  msFrom :: string
  msTo :: "string list"
  msCc :: "string list"
  msBcc :: "string list"
  msReplyTo :: string
  msSubject :: string
  msHeaders :: "(string \<times> string) list"
  msHTML :: string
  msText :: string

datatype mailError =
    NoBody
  | RenderingFailed string viewError
  | SendingFailed string mailError
  | Cancelled
  | BuildingFailed mailError
  | SmtpFailed string

text \<open>\<open>mime.QEncoding.Encode("UTF-8", \<dots>)\<close>, the formatted time and the boundary of \<open>multipart\<close>.\<close>

record mailEnv =
  meQEncode :: "string \<Rightarrow> string"
  meDate :: string
  meBoundary :: string

definition crlf :: string where
  "crlf = [CHR 0x0D, CHR 0x0A]"

section \<open>Encoding\<close>

text \<open>The parts as \<open>multipart.Writer\<close> writes them.\<close>

definition mimePart :: "string \<Rightarrow> bool \<Rightarrow> string \<Rightarrow> string \<Rightarrow> string" where
  "mimePart boundary first contentType content =
     (if first then [] else crlf) @ ''--'' @ boundary @ crlf @ ''Content-Type: '' @ contentType @ crlf @ crlf @ content"

definition textPlainUtf8Part :: string where
  "textPlainUtf8Part = ''text/plain; charset=UTF-8''"

definition textHtmlUtf8Part :: string where
  "textHtmlUtf8Part = ''text/html; charset=UTF-8''"

definition buildBody :: "mailEnv \<Rightarrow> message \<Rightarrow> string \<times> string" where
  "buildBody env msg =
     (if msHTML msg \<noteq> [] \<and> msText msg \<noteq> [] then
        (mimePart (meBoundary env) True textPlainUtf8Part (msText msg)
         @ mimePart (meBoundary env) False textHtmlUtf8Part (msHTML msg)
         @ crlf @ ''--'' @ meBoundary env @ ''--'' @ crlf,
         ''multipart/alternative; boundary='' @ meBoundary env)
      else if msHTML msg \<noteq> [] then (msHTML msg, textHtmlUtf8Part)
      else (msText msg, textPlainUtf8Part))"

text \<open>\<open>textproto.MIMEHeader.Set\<close>, on the entries of the map.\<close>

definition mimeSet :: "string \<times> string \<Rightarrow> (string \<times> string) list \<Rightarrow> (string \<times> string) list" where
  "mimeSet e h = AList.update (canonicalHeaderKey (fst e)) (snd e) h"

text \<open>The calls of \<open>Set\<close>, in order.\<close>

definition headerCalls :: "mailEnv \<Rightarrow> message \<Rightarrow> (string \<times> string) list" where
  "headerCalls env msg =
     [(''From'', msFrom msg)]
     @ (if msTo msg \<noteq> [] then [(''To'', join '', '' (msTo msg))] else [])
     @ (if msCc msg \<noteq> [] then [(''Cc'', join '', '' (msCc msg))] else [])
     @ (if msReplyTo msg \<noteq> [] then [(''Reply-To'', msReplyTo msg)] else [])
     @ [(''Subject'', meQEncode env (msSubject msg)), (''Date'', meDate env), (''MIME-Version'', ''1.0''),
        (''Content-Type'', snd (buildBody env msg))]
     @ msHeaders msg"

definition mimeHeader :: "mailEnv \<Rightarrow> message \<Rightarrow> (string \<times> string) list" where
  "mimeHeader env msg = sort_key fst (fold mimeSet (headerCalls env msg) [])"

definition rfcField :: "string \<times> string \<Rightarrow> string" where
  "rfcField e = fst e @ '': '' @ snd e @ crlf"

definition BuildRFC822 :: "mailEnv \<Rightarrow> message \<Rightarrow> mailError + string" where
  "BuildRFC822 env msg =
     (if msHTML msg = [] \<and> msText msg = [] then Inl NoBody
      else Inr (concat (map rfcField (mimeHeader env msg)) @ crlf @ fst (buildBody env msg)))"

section \<open>Delivery\<close>

definition Deliver ::
    "(string \<Rightarrow> 'd \<Rightarrow> viewError + string \<times> string) \<Rightarrow> (message \<Rightarrow> 's \<Rightarrow> mailError option \<times> 's) \<Rightarrow> string
       \<Rightarrow> string \<Rightarrow> message \<Rightarrow> 'd \<Rightarrow> 's \<Rightarrow> mailError option \<times> 's" where
  "Deliver render transport from0 template msg d s =
     (case render template d of
        Inl e \<Rightarrow> (Some (RenderingFailed template e), s)
      | Inr (html, text) \<Rightarrow>
          (case transport (msg\<lparr>msHTML := html, msText := text,
                               msFrom := (if msFrom msg = [] then from0 else msFrom msg)\<rparr>) s of
             (Some e, s') \<Rightarrow> (Some (SendingFailed template e), s')
           | (None, s') \<Rightarrow> (None, s')))"

text \<open>The SMTP transport. \<open>sendMail\<close> has the address, the credentials if any, the sender, the
  recipients and the message.\<close>

record smtpConfig =
  smHost :: string
  smPort :: int
  smUsername :: string
  smPassword :: string

definition recipients :: "message \<Rightarrow> string list" where
  "recipients msg = msTo msg @ msCc msg @ msBcc msg"

definition smtpSend ::
    "(string \<Rightarrow> (string \<times> string) option \<Rightarrow> string \<Rightarrow> string list \<Rightarrow> string \<Rightarrow> 's \<Rightarrow> string option \<times> 's)
       \<Rightarrow> mailEnv \<Rightarrow> smtpConfig \<Rightarrow> bool \<Rightarrow> message \<Rightarrow> 's \<Rightarrow> mailError option \<times> 's" where
  "smtpSend sendMail env cfg cancelled msg s =
     (if cancelled then (Some Cancelled, s)
      else case BuildRFC822 env msg of
        Inl e \<Rightarrow> (Some (BuildingFailed e), s)
      | Inr raw \<Rightarrow>
          (case sendMail (smHost cfg @ '':'' @ formatInt (smPort cfg))
                  (if smUsername cfg \<noteq> [] then Some (smUsername cfg, smPassword cfg) else None)
                  (msFrom msg) (recipients msg) raw s of
             (Some e, s') \<Rightarrow> (Some (SmtpFailed e), s')
           | (None, s') \<Rightarrow> (None, s')))"

definition logSend :: "message \<Rightarrow> message list \<Rightarrow> mailError option \<times> message list" where
  "logSend msg lines = (None, lines @ [msg])"

text \<open>The recorder of \<open>mailtest\<close> and its assertions.\<close>

definition recorderSend :: "message \<Rightarrow> message list \<Rightarrow> mailError option \<times> message list" where
  "recorderSend msg sent = (None, sent @ [msg])"

definition AssertSent :: "(message \<Rightarrow> bool) \<Rightarrow> message list \<Rightarrow> bool" where
  "AssertSent p sent = list_ex p sent"

definition AssertSentTo :: "string \<Rightarrow> message list \<Rightarrow> bool" where
  "AssertSentTo address sent = list_ex (\<lambda>m. address \<in> set (msTo m)) sent"

definition AssertSentCount :: "nat \<Rightarrow> message list \<Rightarrow> bool" where
  "AssertSentCount n sent \<longleftrightarrow> length sent = n"

section \<open>Reading a message\<close>

text \<open>Up to the first CRLF, and after it.\<close>

fun readLine :: "string \<Rightarrow> (string \<times> string) option" where
  "readLine [] = None"
| "readLine (c # s) =
     (if c = CHR 0x0D \<and> hasPrefix s [CHR 0x0A] then Some ([], tl s)
      else map_option (\<lambda>(l, rest). (c # l, rest)) (readLine s))"

lemma readLine_shorter: "readLine s = Some (l, rest) \<Longrightarrow> length rest < length s"
  by (induction s arbitrary: l) (auto split: if_splits)

definition readField :: "string \<Rightarrow> (string \<times> string) option" where
  "readField l =
     (let k = takeWhile (\<lambda>c. c \<noteq> CHR '':'') l in
      if length k < length l then Some (k, trimPrefix (drop (Suc (length k)) l) '' '') else None)"

function readMessage :: "string \<Rightarrow> ((string \<times> string) list \<times> string) option" where
  "readMessage s =
     (case readLine s of
        None \<Rightarrow> None
      | Some (l, rest) \<Rightarrow>
          if l = [] then Some ([], rest)
          else (case readField l of
             None \<Rightarrow> None
           | Some f \<Rightarrow> map_option (\<lambda>(fs, body). (f # fs, body)) (readMessage rest)))"
  by pat_completeness auto
termination
  by (relation "measure length") (auto dest: readLine_shorter)

declare readMessage.simps [simp del]

definition plainValue :: "string \<Rightarrow> bool" where
  "plainValue s \<longleftrightarrow> CHR 0x0D \<notin> set s \<and> CHR 0x0A \<notin> set s"

definition plainField :: "string \<times> string \<Rightarrow> bool" where
  "plainField e \<longleftrightarrow> fst e \<noteq> [] \<and> CHR '':'' \<notin> set (fst e) \<and> plainValue (fst e) \<and> plainValue (snd e)"

lemma readLine_plain: "plainValue l \<Longrightarrow> readLine (l @ crlf @ rest) = Some (l, rest)"
  by (induction l) (auto simp: crlf_def plainValue_def hasPrefix_def)

lemma readField_plain: "plainField (k, v) \<Longrightarrow> readField (k @ '': '' @ v) = Some (k, v)"
proof -
  assume p: "plainField (k, v)"
  then have "takeWhile (\<lambda>c. c \<noteq> CHR '':'') (k @ '': '' @ v) = k"
    by (simp add: plainField_def takeWhile_append)
  then show ?thesis by (simp add: readField_def trimPrefix_def hasPrefix_def)
qed

lemma plainValue_append: "plainValue (a @ b) \<longleftrightarrow> plainValue a \<and> plainValue b"
  by (auto simp: plainValue_def)

lemma readMessage_fields:
  "list_all plainField fs \<Longrightarrow> readMessage (concat (map rfcField fs) @ crlf @ body) = Some (fs, body)"
proof (induction fs)
  case Nil
  have "readLine (crlf @ body) = Some ([], body)" using readLine_plain [of "[]" body] by (simp add: plainValue_def)
  then show ?case by (simp add: readMessage.simps [of "crlf @ body"])
next
  case (Cons f fs)
  obtain k v where f: "f = (k, v)" by (cases f)
  let ?rest = "concat (map rfcField fs) @ crlf @ body"
  have p: "plainField (k, v)" using Cons.prems f by simp
  then have "plainValue (k @ '': '' @ v)" by (auto simp: plainField_def plainValue_def)
  then have "readLine ((k @ '': '' @ v) @ crlf @ ?rest) = Some (k @ '': '' @ v, ?rest)" by (rule readLine_plain)
  moreover have "concat (map rfcField (f # fs)) @ crlf @ body = (k @ '': '' @ v) @ crlf @ ?rest"
    by (simp add: rfcField_def f)
  moreover have "readMessage ((k @ '': '' @ v) @ crlf @ ?rest) = Some (f # fs, body)"
    using readField_plain [OF p] Cons f calculation(1) by (subst readMessage.simps) simp
  ultimately show ?case by simp
qed

section \<open>What a reader finds\<close>

text \<open>What the encoder can rely on: the caller's addresses and headers are single lines, and so are
  what the libraries produce.\<close>

definition plainMessage :: "message \<Rightarrow> bool" where
  "plainMessage msg \<longleftrightarrow> plainValue (msFrom msg) \<and> list_all plainValue (msTo msg) \<and> list_all plainValue (msCc msg)
     \<and> plainValue (msReplyTo msg) \<and> list_all plainField (msHeaders msg)"

definition plainEnv :: "mailEnv \<Rightarrow> bool" where
  "plainEnv env \<longleftrightarrow> (\<forall>s. plainValue (meQEncode env s)) \<and> plainValue (meDate env) \<and> plainValue (meBoundary env)"

lemma plainValue_join: "list_all plainValue xs \<Longrightarrow> plainValue (join '', '' xs)"
  by (induction "'', ''" xs rule: join.induct) (auto simp: plainValue_def)

lemma toUpperChar_plain:
  assumes "d \<in> {CHR 0x0D, CHR 0x0A, CHR '':''}" and "toUpperChar c = d"
  shows "c = d"
proof (rule ccontr)
  assume "c \<noteq> d"
  let ?n = "of_char c :: nat"
  from \<open>c \<noteq> d\<close> assms(2) have n: "97 \<le> ?n" "?n \<le> 122" and "char_of (?n - 32) = d"
    by (auto simp: toUpperChar_def Let_def split: if_splits)
  then have "of_char d = (?n - 32) mod 256" by (metis of_char_of)
  with n have "of_char d = ?n - 32" by simp
  with n assms(1) show False by auto
qed

lemma toLowerChar_plain:
  assumes "d \<in> {CHR 0x0D, CHR 0x0A, CHR '':''}" and "toLowerChar c = d"
  shows "c = d"
proof (rule ccontr)
  assume "c \<noteq> d"
  let ?n = "of_char c :: nat"
  from \<open>c \<noteq> d\<close> assms(2) have n: "65 \<le> ?n" "?n \<le> 90" and "char_of (?n + 32) = d"
    by (auto simp: toLowerChar_def Let_def split: if_splits)
  then have "of_char d = (?n + 32) mod 256" by (metis of_char_of)
  with n have "of_char d = ?n + 32" by simp
  with n assms(1) show False by auto
qed

lemma mimeSet_lookup: "map_of (mimeSet c h) k = (if k = canonicalHeaderKey (fst c) then Some (snd c) else map_of h k)"
  by (simp add: mimeSet_def update_conv')

lemma fold_mimeSet_lookup:
  "map_of (fold mimeSet cs h) k = (case map_of (rev (map (\<lambda>c. (canonicalHeaderKey (fst c), snd c)) cs)) k of
      None \<Rightarrow> map_of h k | Some v \<Rightarrow> Some v)"
proof (induction cs arbitrary: h)
  case (Cons c cs)
  show ?case by (simp add: Cons.IH mimeSet_lookup map_add_def split: option.splits)
qed simp

lemma fold_mimeSet_distinct: "distinct (map fst h) \<Longrightarrow> distinct (map fst (fold mimeSet cs h))"
  by (induction cs arbitrary: h) (auto simp: mimeSet_def distinct_update)

lemma canonicalFrom_chars:
  "d \<in> {CHR 0x0D, CHR 0x0A, CHR '':''} \<Longrightarrow> d \<in> set (canonicalFrom up s) \<Longrightarrow> list_all isTokenChar s \<Longrightarrow> False"
proof (induction s arbitrary: up)
  case (Cons c s)
  have tok: "\<not> isTokenChar d" using Cons.prems(1) by (auto simp: isTokenChar_def isDigit_def)
  have lower: "toLowerChar c = d \<Longrightarrow> c = d" using Cons.prems(1) by (rule toLowerChar_plain)
  from Cons toUpperChar_plain [OF Cons.prems(1), of c] lower tok show ?case by (auto split: if_splits)
qed simp

lemma canonical_plain:
  assumes "k \<noteq> []" and "CHR '':'' \<notin> set k" and "plainValue k"
  shows "canonicalHeaderKey k \<noteq> [] \<and> CHR '':'' \<notin> set (canonicalHeaderKey k) \<and> plainValue (canonicalHeaderKey k)"
proof (cases "list_all isTokenChar k")
  case True
  have "canonicalFrom True k \<noteq> []" using assms(1) by (cases k) simp_all
  moreover have "d \<notin> set (canonicalFrom True k)" if "d \<in> {CHR 0x0D, CHR 0x0A, CHR '':''}" for d
    using canonicalFrom_chars [OF that _ True] by blast
  ultimately show ?thesis using True by (simp add: canonicalHeaderKey_def plainValue_def)
qed (use assms in \<open>auto simp: canonicalHeaderKey_def\<close>)

lemma fold_mimeSet_set:
  "e \<in> set (fold mimeSet cs []) \<Longrightarrow> \<exists>c\<in>set cs. e = (canonicalHeaderKey (fst c), snd c)"
proof -
  assume e: "e \<in> set (fold mimeSet cs [])"
  have "distinct (map fst (fold mimeSet cs []))" by (rule fold_mimeSet_distinct) simp
  with e have "map_of (fold mimeSet cs []) (fst e) = Some (snd e)"
    by (intro map_of_is_SomeI) simp_all
  then have "map_of (rev (map (\<lambda>c. (canonicalHeaderKey (fst c), snd c)) cs)) (fst e) = Some (snd e)"
    by (simp add: fold_mimeSet_lookup split: option.splits)
  then show ?thesis by (cases e) (auto dest!: map_of_SomeD)
qed

lemma plain_calls:
  assumes "plainMessage msg" and "plainEnv env"
  shows "list_all plainField (headerCalls env msg)"
proof -
  have "plainValue (snd (buildBody env msg))"
    using assms(2) by (auto simp: buildBody_def plainEnv_def plainValue_append textHtmlUtf8Part_def textPlainUtf8Part_def plainValue_def)
  moreover have "plainValue (join '', '' (msTo msg))" "plainValue (join '', '' (msCc msg))"
    using assms(1) by (simp_all add: plainMessage_def plainValue_join)
  moreover have "plainValue k" if "k \<in> {''From'', ''To'', ''Cc'', ''Reply-To'', ''Subject'', ''Date'', ''MIME-Version'', ''Content-Type'', ''1.0''}" for k
    using that by (auto simp: plainValue_def)
  ultimately show ?thesis using assms by (simp add: headerCalls_def plainMessage_def plainEnv_def plainField_def)
qed

text \<open>C39: A reader of an encoded message gets back its body and one field per header, sorted: the
  sender, recipients, subject, date and content type that the message says, replaced by the
  message's own headers of the same name, the last one counting. The blind copies are no field.\<close>

theorem mime_roundtrip:
  assumes "BuildRFC822 env msg = Inr raw" and "plainMessage msg" and "plainEnv env"
  shows "\<exists>fds. readMessage raw = Some (fds, fst (buildBody env msg))
    \<and> sorted (map fst fds) \<and> distinct (map fst fds)
    \<and> (\<forall>k. map_of fds k = map_of (rev (map (\<lambda>c. (canonicalHeaderKey (fst c), snd c)) (headerCalls env msg))) k)"
proof (intro exI conjI)
  let ?h = "fold mimeSet (headerCalls env msg) []"
  have d: "distinct (map fst ?h)" by (rule fold_mimeSet_distinct) simp
  have "plainField e" if e: "e \<in> set ?h" for e
  proof -
    obtain c where c: "c \<in> set (headerCalls env msg)" "e = (canonicalHeaderKey (fst c), snd c)"
      using fold_mimeSet_set [OF e] by blast
    with plain_calls [OF assms(2,3)] have "plainField c" by (simp add: list_all_iff)
    with c(2) canonical_plain [of "fst c"] show ?thesis by (simp add: plainField_def)
  qed
  then have "list_all plainField (mimeHeader env msg)" by (simp add: mimeHeader_def list_all_iff)
  moreover have "raw = concat (map rfcField (mimeHeader env msg)) @ crlf @ fst (buildBody env msg)"
    using assms(1) by (simp add: BuildRFC822_def split: if_splits)
  ultimately show "readMessage raw = Some (mimeHeader env msg, fst (buildBody env msg))"
    by (simp add: readMessage_fields)
  show "sorted (map fst (mimeHeader env msg))" by (simp add: mimeHeader_def)
  show dm: "distinct (map fst (mimeHeader env msg))"
    using d by (simp add: mimeHeader_def distinct_map inj_on_def)
  have "map_of (mimeHeader env msg) = map_of ?h"
    using d dm by (intro map_of_eqI) (auto simp: mimeHeader_def)
  then show "\<forall>k. map_of (mimeHeader env msg) k = map_of (rev (map (\<lambda>c. (canonicalHeaderKey (fst c), snd c)) (headerCalls env msg))) k"
    by (simp add: fold_mimeSet_lookup split: option.splits)
qed

definition sampleEnv :: mailEnv where
  "sampleEnv = \<lparr>meQEncode = filter (\<lambda>c. 32 \<le> (of_char c :: nat)), meDate = ''Thu, 01 Jan 1970 00:00:00 +0000'', meBoundary = ''b0''\<rparr>"

definition sampleMessage :: message where
  "sampleMessage = \<lparr>msFrom = ''app@example.com'', msTo = [''ada@example.com'', ''bob@example.com''], msCc = [],
     msBcc = [''audit@example.com''], msReplyTo = [], msSubject = ''Hello'', msHeaders = [(''x-tag'', ''welcome'')],
     msHTML = ''<p>Hi</p>'', msText = ''Hi''\<rparr>"

lemma mime_roundtrip_witness:
  "\<exists>raw fds. BuildRFC822 sampleEnv sampleMessage = Inr raw \<and> readMessage raw = Some (fds, fst (buildBody sampleEnv sampleMessage))
     \<and> map_of fds ''To'' = Some ''ada@example.com, bob@example.com'' \<and> map_of fds ''X-Tag'' = Some ''welcome''
     \<and> map_of fds ''Bcc'' = None"
proof -
  have env: "plainEnv sampleEnv" by (auto simp: plainEnv_def sampleEnv_def plainValue_def)
  have msg: "plainMessage sampleMessage" by code_simp
  obtain raw where raw: "BuildRFC822 sampleEnv sampleMessage = Inr raw"
    by (simp add: BuildRFC822_def sampleMessage_def)
  obtain fds where f: "readMessage raw = Some (fds, fst (buildBody sampleEnv sampleMessage))"
    "\<And>k. map_of fds k = map_of (rev (map (\<lambda>c. (canonicalHeaderKey (fst c), snd c)) (headerCalls sampleEnv sampleMessage))) k"
    using mime_roundtrip [OF raw msg env] by blast
  have "map_of (rev (map (\<lambda>c. (canonicalHeaderKey (fst c), snd c)) (headerCalls sampleEnv sampleMessage))) ''To''
      = Some ''ada@example.com, bob@example.com''" by code_simp
  moreover have "map_of (rev (map (\<lambda>c. (canonicalHeaderKey (fst c), snd c)) (headerCalls sampleEnv sampleMessage))) ''X-Tag''
      = Some ''welcome''" by code_simp
  moreover have "map_of (rev (map (\<lambda>c. (canonicalHeaderKey (fst c), snd c)) (headerCalls sampleEnv sampleMessage))) ''Bcc'' = None"
    by code_simp
  ultimately show ?thesis using raw f by metis
qed

text \<open>Addresses and headers are written as they are: a reply address from a form with a line break in
  it adds a header of the sender's choosing.\<close>

theorem reply_to_injects_header:
  "case BuildRFC822 sampleEnv (sampleMessage\<lparr>msReplyTo := ''a@b.c'' @ crlf @ ''Bcc: all@example.com''\<rparr>) of
     Inl e \<Rightarrow> False
   | Inr raw \<Rightarrow> (case readMessage raw of None \<Rightarrow> False | Some (fds, body) \<Rightarrow> map_of fds ''Bcc'' = Some ''all@example.com'')"
  by code_simp

end
