(* ===== verification/Settings.thy ===== *)
theory Settings
  imports BindClaims Credentials
begin

text \<open>
  Configuration (\<open>settings.go\<close>, \<open>options.go\<close>, \<open>redact.go\<close>): the layers of \<open>LoadConfig\<close> with the
  resolution of \<open>TRAILS_*\<close> variables against the tags of a configuration struct, the defaults of
  the application's options, and what is taken out of parameters and headers before logging. The
  TOML decoder is a parameter.
\<close>

section \<open>Resolving a variable\<close>

text \<open>The name parts of a field's tag; none for a field without one.\<close>

definition tomlNames :: "sfield \<Rightarrow> string list" where
  "tomlNames f =
     (let tag = takeWhile (\<lambda>c. c \<noteq> CHR '','') (case tagLookup ''toml'' f of None \<Rightarrow> [] | Some t \<Rightarrow> t) in
      if tag = [] then [] else splitOn (CHR ''_'') tag)"

text \<open>The candidate fields, by index, with the number of names they take; most names first.\<close>

definition candidates :: "sfield list \<Rightarrow> string list \<Rightarrow> (nat \<times> nat) list" where
  "candidates fs names =
     sort_key (\<lambda>c. - int (snd c))
       (concat (map (\<lambda>(i, f). if tomlNames f \<noteq> [] \<and> prefix (tomlNames f) names then [(i, length (tomlNames f))] else [])
          (enumerate 0 fs)))"

datatype settingsError =
    LoadingFile string string
  | DecodingFile string string
  | LoadingCredentials string
  | OverrideFailed string bindError
  | OverridePanics string

text \<open>What a resolution gives: whether a field was found, an error, and the value. \<open>Panicked\<close>: the
  field, or a struct around it, is unexported, which reflection refuses to set.\<close>

datatype resolved = Resolved bool "bindError option" bval | Panicked

type_synonym resolver = "bool \<Rightarrow> string list \<Rightarrow> string \<Rightarrow> bval \<Rightarrow> resolved"

text \<open>The loop over the candidates; \<open>rs\<close> resolves within each field.\<close>

fun tryCandidates ::
    "unmarshalers \<Rightarrow> (nat \<Rightarrow> string \<Rightarrow> string option) \<Rightarrow> sfield list \<Rightarrow> resolver list \<Rightarrow> bool \<Rightarrow> string list \<Rightarrow> string
       \<Rightarrow> (nat \<times> nat) list \<Rightarrow> bval list \<Rightarrow> resolved" where
  "tryCandidates um pf fs rs ro names val [] vs = Resolved False None (BvStruct vs)"
| "tryCandidates um pf fs rs ro names val ((i, k) # cs) vs =
     (let ro' = (ro \<or> \<not> sfExported (fs ! i)); rest = drop k names in
      if rest = [] then
        (if ro' then Panicked
         else (case setScalar um pf (sfType (fs ! i)) val (vs ! i) of
                 (Some e, x) \<Rightarrow> Resolved False (Some e) (BvStruct (vs[i := x]))
               | (None, x) \<Rightarrow> Resolved True None (BvStruct (vs[i := x]))))
      else
        (case (rs ! i) ro' rest val (vs ! i) of
           Panicked \<Rightarrow> Panicked
         | Resolved b (Some e) x \<Rightarrow> Resolved False (Some e) (BvStruct (vs[i := x]))
         | Resolved b None x \<Rightarrow>
             if b then Resolved True None (BvStruct (vs[i := x]))
             else tryCandidates um pf fs rs ro names val cs (vs[i := x])))"

fun resolveField :: "unmarshalers \<Rightarrow> (nat \<Rightarrow> string \<Rightarrow> string option) \<Rightarrow> bty \<Rightarrow> resolver"
  and resolvers :: "unmarshalers \<Rightarrow> (nat \<Rightarrow> string \<Rightarrow> string option) \<Rightarrow> sfield list \<Rightarrow> resolver list" where
  "resolveField um pf (TyNamed n t) ro names val v = resolveField um pf t ro names val v"
| "resolveField um pf (TyStruct fs) ro names val v =
     (case v of
        BvStruct vs \<Rightarrow>
          if names = [] then Resolved False None v
          else tryCandidates um pf fs (resolvers um pf fs) ro names val (candidates fs names) vs
      | _ \<Rightarrow> Resolved False None v)"
| "resolveField um pf ty ro names val v = Resolved False None v"
| "resolvers um pf [] = []"
| "resolvers um pf (SField n e tags t # fs) = resolveField um pf t # resolvers um pf fs"

section \<open>The layers\<close>

definition envNames :: "string \<Rightarrow> string list" where
  "envNames key = splitOn (CHR ''_'') (toLower (trimPrefix key ''TRAILS_''))"

fun applyEnvOverrides ::
    "unmarshalers \<Rightarrow> (nat \<Rightarrow> string \<Rightarrow> string option) \<Rightarrow> bty \<Rightarrow> string list \<Rightarrow> bval \<Rightarrow> settingsError + bval" where
  "applyEnvOverrides um pf ty [] v = Inr v"
| "applyEnvOverrides um pf ty (kv # environ) v =
     (let key = takeWhile (\<lambda>c. c \<noteq> CHR ''='') kv; val = drop (Suc (length key)) kv in
      if CHR ''='' \<notin> set kv \<or> \<not> hasPrefix key ''TRAILS_'' then applyEnvOverrides um pf ty environ v
      else case resolveField um pf ty False (envNames key) val v of
        Panicked \<Rightarrow> Inl (OverridePanics key)
      | Resolved b (Some e) x \<Rightarrow> Inl (OverrideFailed key e)
      | Resolved b None x \<Rightarrow> applyEnvOverrides um pf ty environ x)"

text \<open>\<open>toml\<close> decodes a file over a value: its error, if any, or the value with the file's keys set.\<close>

definition decodeTOML :: "(bytes \<Rightarrow> bval \<Rightarrow> string + bval) \<Rightarrow> (string \<Rightarrow> fileRead) \<Rightarrow> string \<Rightarrow> bval \<Rightarrow> settingsError + bval" where
  "decodeTOML toml fsys name v =
     (case fsys name of
        Missing \<Rightarrow> Inl (LoadingFile name ''file does not exist'')
      | Unreadable e \<Rightarrow> Inl (LoadingFile name e)
      | Contents d \<Rightarrow> (case toml d v of Inl e \<Rightarrow> Inl (DecodingFile name e) | Inr x \<Rightarrow> Inr x))"

definition decodeCredentials ::
    "(bytes \<Rightarrow> bval \<Rightarrow> string + bval) \<Rightarrow> (string \<Rightarrow> credError + bytes option) \<Rightarrow> string \<Rightarrow> bval \<Rightarrow> settingsError + bval" where
  "decodeCredentials toml readDecrypted environment v =
     (case readDecrypted environment of
        Inl e \<Rightarrow> Inl (LoadingCredentials environment)
      | Inr None \<Rightarrow> Inr v
      | Inr (Some plain) \<Rightarrow> (case toml plain v of Inl e \<Rightarrow> Inl (LoadingCredentials environment) | Inr x \<Rightarrow> Inr x))"

definition LoadConfig ::
    "unmarshalers \<Rightarrow> (nat \<Rightarrow> string \<Rightarrow> string option) \<Rightarrow> (bytes \<Rightarrow> bval \<Rightarrow> string + bval) \<Rightarrow> aead \<Rightarrow> string
       \<Rightarrow> (string \<Rightarrow> fileRead) \<Rightarrow> (string \<Rightarrow> fileRead) \<Rightarrow> string list \<Rightarrow> bty \<Rightarrow> string \<Rightarrow> settingsError + bval" where
  "LoadConfig um pf toml ae masterKeyEnv files configFS environ ty environment =
     rbind (decodeTOML toml configFS ''application.toml'' (zeroOf ty)) (\<lambda>v.
     rbind (decodeTOML toml configFS (''environments/'' @ environment @ ''.toml'') v) (\<lambda>v.
     rbind (decodeCredentials toml (ReadDecrypted ae masterKeyEnv files configFS) environment v) (\<lambda>v.
     applyEnvOverrides um pf ty environ v)))"

definition Environment :: "string \<Rightarrow> bool \<Rightarrow> string" where
  "Environment trailsEnv underTest =
     (if trailsEnv \<noteq> [] then trailsEnv else if underTest then ''test'' else ''development'')"

section \<open>Options\<close>

text \<open>\<open>'o\<close> stands for the values behind pointers, interfaces and functions; durations are in
  nanoseconds.\<close>

record 'o trailOptions =
  opContext :: "'o option"
  opLogger :: "'o option"
  opViewFS :: "'o option"
  opAssetsFS :: "'o option"
  opConfigFS :: "'o option"
  opErrorHandler :: "'o option"
  opRouteBuilder :: "'o option"
  opBinder :: "'o option"
  opLayoutName :: string
  opFuncMap :: "'o option"
  opHost :: string
  opPort :: int
  opAssetsStrategy :: string
  opRunners :: "'o list"
  opRequestFuncMap :: "'o option"
  opReadHeaderTimeout :: int
  opReadTimeout :: int
  opWriteTimeout :: int
  opIdleTimeout :: int

text \<open>The values that stand in for nil: \<open>context.Background()\<close>, \<open>slog.Default()\<close>, the default error
  handler, a route builder that does nothing, the default binder.\<close>

record 'o optionDefaults =
  dfContext :: 'o
  dfLogger :: 'o
  dfErrorHandler :: 'o
  dfRouteBuilder :: 'o
  dfBinder :: 'o

definition orElse :: "'o option \<Rightarrow> 'o \<Rightarrow> 'o option" where
  "orElse x d = (case x of None \<Rightarrow> Some d | Some y \<Rightarrow> Some y)"

definition orDefault :: "'v \<Rightarrow> 'v \<Rightarrow> 'v \<Rightarrow> 'v" where
  "orDefault zero d x = (if x = zero then d else x)"

definition WithDefaultOptions :: "'o optionDefaults \<Rightarrow> 'o trailOptions \<Rightarrow> 'o trailOptions" where
  "WithDefaultOptions df o1 =
     o1\<lparr>opContext := orElse (opContext o1) (dfContext df),
        opLogger := orElse (opLogger o1) (dfLogger df),
        opErrorHandler := orElse (opErrorHandler o1) (dfErrorHandler df),
        opRouteBuilder := orElse (opRouteBuilder o1) (dfRouteBuilder df),
        opBinder := orElse (opBinder o1) (dfBinder df),
        opLayoutName := orDefault [] ''application'' (opLayoutName o1),
        opHost := orDefault [] ''127.0.0.1'' (opHost o1),
        opPort := orDefault 0 3000 (opPort o1),
        opAssetsStrategy := orDefault [] ''importmap'' (opAssetsStrategy o1),
        opReadHeaderTimeout := orDefault 0 5000000000 (opReadHeaderTimeout o1),
        opReadTimeout := orDefault 0 30000000000 (opReadTimeout o1),
        opIdleTimeout := orDefault 0 120000000000 (opIdleTimeout o1)\<rparr>"

lemma WithDefaultOptions_idem: "WithDefaultOptions df (WithDefaultOptions df o1) = WithDefaultOptions df o1"
  by (simp add: WithDefaultOptions_def orElse_def orDefault_def split: option.splits)

section \<open>What is not logged\<close>

definition SensitiveParams :: "string list" where
  "SensitiveParams =
     [''password'', ''passwd'', ''secret'', ''token'', ''api_key'', ''apikey'', ''auth'', ''credit_card'', ''card_number'',
      ''cvv'', ''ssn'']"

definition SensitiveHeaders :: "string list" where
  "SensitiveHeaders = [''Authorization'', ''Proxy-Authorization'', ''Cookie'', ''Set-Cookie'']"

definition isSensitiveParam :: "string \<Rightarrow> bool" where
  "isSensitiveParam key \<longleftrightarrow> list_ex (\<lambda>s. containsStr (toLower key) (toLower s)) SensitiveParams"

definition isSensitiveHeader :: "string \<Rightarrow> bool" where
  "isSensitiveHeader name \<longleftrightarrow> list_ex (\<lambda>s. canonicalHeaderKey s = canonicalHeaderKey name) SensitiveHeaders"

definition FilterParams :: "(string \<rightharpoonup> string list) \<Rightarrow> (string \<rightharpoonup> string list)" where
  "FilterParams values0 k = map_option (\<lambda>v. if isSensitiveParam k then [''[FILTERED]''] else v) (values0 k)"

definition FilterHeader :: "(string \<rightharpoonup> string list) \<Rightarrow> (string \<rightharpoonup> string list)" where
  "FilterHeader header0 k = map_option (\<lambda>v. if isSensitiveHeader k then [''[FILTERED]''] else v) (header0 k)"

section \<open>Which field a variable sets\<close>

text \<open>Paths of field indices whose tags, put together, are the names of a variable.\<close>

fun tagsAlong :: "bty \<Rightarrow> nat list \<Rightarrow> string list option" where
  "tagsAlong ty [] = None"
| "tagsAlong ty (i # p) =
     (case underlying ty of
        TyStruct fs \<Rightarrow>
          if i < length fs \<and> tomlNames (fs ! i) \<noteq> [] then
            (if p = [] then Some (tomlNames (fs ! i))
             else map_option (append (tomlNames (fs ! i))) (tagsAlong (sfType (fs ! i)) p))
          else None
      | _ \<Rightarrow> None)"

definition namesField :: "bty \<Rightarrow> string list \<Rightarrow> nat list \<Rightarrow> bool" where
  "namesField ty names p \<longleftrightarrow> tagsAlong ty p = Some names"

text \<open>How many names the tags along a path take; a path is preferred to another where it first takes
  more.\<close>

fun takes :: "bty \<Rightarrow> nat list \<Rightarrow> nat list" where
  "takes ty [] = []"
| "takes ty (i # p) =
     (case underlying ty of
        TyStruct fs \<Rightarrow> if i < length fs then length (tomlNames (fs ! i)) # takes (sfType (fs ! i)) p else []
      | _ \<Rightarrow> [])"

fun takesMore :: "nat list \<Rightarrow> nat list \<Rightarrow> bool" where
  "takesMore (a # as) (b # bs) = (a > b \<or> a = b \<and> takesMore as bs)"
| "takesMore as bs = False"

fun fieldAt :: "bty \<Rightarrow> nat list \<Rightarrow> bty" where
  "fieldAt ty [] = ty"
| "fieldAt ty (i # p) = (case underlying ty of TyStruct fs \<Rightarrow> fieldAt (sfType (fs ! i)) p | _ \<Rightarrow> ty)"

fun getAt :: "bval \<Rightarrow> nat list \<Rightarrow> bval" where
  "getAt v [] = v"
| "getAt v (i # p) = (case v of BvStruct vs \<Rightarrow> getAt (vs ! i) p | _ \<Rightarrow> v)"

fun setAt :: "bval \<Rightarrow> nat list \<Rightarrow> bval \<Rightarrow> bval" where
  "setAt v [] x = x"
| "setAt v (i # p) x = (case v of BvStruct vs \<Rightarrow> BvStruct (vs[i := setAt (vs ! i) p x]) | _ \<Rightarrow> v)"

text \<open>Configuration structs as they are meant: every field exported, no two tags of a struct equal.\<close>

fun plainConfig :: "bty \<Rightarrow> bool" and plainFields :: "sfield list \<Rightarrow> bool" where
  "plainConfig (TyNamed n t) = plainConfig t"
| "plainConfig (TyStruct fs) = (distinct (filter (\<lambda>ns. ns \<noteq> []) (map tomlNames fs)) \<and> plainFields fs)"
| "plainConfig t = True"
| "plainFields [] = True"
| "plainFields (SField n e tags t # fs) = (e \<and> plainConfig t \<and> plainFields fs)"

text \<open>The result of setting the field at a path.\<close>

definition setPath ::
    "unmarshalers \<Rightarrow> (nat \<Rightarrow> string \<Rightarrow> string option) \<Rightarrow> bty \<Rightarrow> string \<Rightarrow> bval \<Rightarrow> nat list \<Rightarrow> resolved" where
  "setPath um pf ty val v p =
     (case setScalar um pf (fieldAt ty p) val (getAt v p) of (e, x) \<Rightarrow> Resolved (e = None) e (setAt v p x))"

definition picks :: "bty \<Rightarrow> string list \<Rightarrow> nat list \<Rightarrow> bool" where
  "picks ty names p \<longleftrightarrow> namesField ty names p \<and> (\<forall>q. namesField ty names q \<longrightarrow> \<not> takesMore (takes ty q) (takes ty p))"

definition resolvesTo ::
    "unmarshalers \<Rightarrow> (nat \<Rightarrow> string \<Rightarrow> string option) \<Rightarrow> bty \<Rightarrow> string list \<Rightarrow> string \<Rightarrow> bval \<Rightarrow> resolved \<Rightarrow> bool" where
  "resolvesTo um pf ty names val v r \<longleftrightarrow>
     (if \<exists>p. namesField ty names p then \<exists>p. picks ty names p \<and> r = setPath um pf ty val v p
      else r = Resolved False None v)"

lemma plainFields_nth: "plainFields fs \<Longrightarrow> i < length fs \<Longrightarrow> sfExported (fs ! i) \<and> plainConfig (sfType (fs ! i))"
proof (induction fs arbitrary: i)
  case (Cons f fs)
  then show ?case by (cases f; cases i) auto
qed simp

lemma wellFields_nth: "wellFields fs vs \<Longrightarrow> length vs = length fs \<and> (\<forall>i<length fs. wellTyped (sfType (fs ! i)) (vs ! i))"
proof (induction fs arbitrary: vs)
  case (Cons f fs)
  then show ?case by (cases f; cases vs) (auto simp: less_Suc_eq_0_disj)
qed simp

lemma distinct_tags_nth:
  assumes "distinct (filter (\<lambda>ns. ns \<noteq> []) (map g fs))" and "i < length fs" and "j < length fs"
    and "g (fs ! i) = g (fs ! j)" and "g (fs ! i) \<noteq> []"
  shows "i = j"
  using assms
proof (induction fs arbitrary: i j)
  case (Cons f fs)
  have out: "g f \<noteq> [] \<Longrightarrow> k < length fs \<Longrightarrow> g f \<noteq> g (fs ! k)" for k
    using Cons.prems(1) by (force simp: filter_map comp_def image_iff)
  have rest: "distinct (filter (\<lambda>ns. ns \<noteq> []) (map g fs))" using Cons.prems(1) by (simp split: if_splits)
  show ?case
  proof (cases i)
    case 0
    with Cons.prems out show ?thesis by (cases j) auto
  next
    case (Suc i')
    show ?thesis
    proof (cases j)
      case 0
      with Suc Cons.prems out [of i'] show ?thesis by auto
    next
      case (Suc j')
      with \<open>i = Suc i'\<close> Cons.prems Cons.IH [OF rest, of i' j'] show ?thesis by simp
    qed
  qed
qed simp

section \<open>Candidates\<close>

lemma enumerate_set: "(i, f) \<in> set (enumerate 0 fs) \<longleftrightarrow> i < length fs \<and> f = fs ! i"
  by (auto simp: enumerate_eq_zip in_set_zip intro!: exI [of _ i])

lemma candidates_set:
  "(i, k) \<in> set (candidates fs names) \<longleftrightarrow>
   i < length fs \<and> tomlNames (fs ! i) \<noteq> [] \<and> prefix (tomlNames (fs ! i)) names \<and> k = length (tomlNames (fs ! i))"
  by (force simp: candidates_def enumerate_set split: if_splits)

lemma candidates_sorted: "sorted (map (\<lambda>c. - int (snd c)) (candidates fs names))"
  by (simp add: candidates_def)

text \<open>A path below a candidate.\<close>

definition below :: "sfield list \<Rightarrow> string list \<Rightarrow> nat \<Rightarrow> nat list \<Rightarrow> bool" where
  "below fs names i p \<longleftrightarrow>
     (if p = [] then tomlNames (fs ! i) = names
      else namesField (sfType (fs ! i)) (drop (length (tomlNames (fs ! i))) names) p)"

lemma namesField_struct:
  "namesField (TyStruct fs) names (i # p) \<longleftrightarrow>
   i < length fs \<and> tomlNames (fs ! i) \<noteq> [] \<and> prefix (tomlNames (fs ! i)) names \<and> below fs names i p"
  by (cases "p = []") (auto simp: namesField_def below_def prefix_def)

lemma namesField_Nil [simp]: "\<not> namesField ty names []"
  by (simp add: namesField_def)

lemma namesField_nonempty: "\<not> namesField ty [] p"
proof (induction p arbitrary: ty)
  case (Cons i p)
  then show ?case by (auto simp: namesField_def split: bty.splits if_splits)
qed simp

lemma takesMore_irrefl: "\<not> takesMore xs xs"
  by (induction xs) auto

lemma tryCandidates_spec:
  assumes "length vs = length fs" and "\<And>i. i < length fs \<Longrightarrow> sfExported (fs ! i)"
    and "\<And>i rest. i < length fs \<Longrightarrow> resolvesTo um pf (sfType (fs ! i)) rest val (vs ! i) ((rs ! i) False rest val (vs ! i))"
    and "distinct (filter (\<lambda>ns. ns \<noteq> []) (map tomlNames fs))"
    and "set cs \<subseteq> set (candidates fs names)" and "sorted (map (\<lambda>c. - int (snd c)) cs)"
  shows "if \<exists>i p. i \<in> fst ` set cs \<and> below fs names i p
    then \<exists>i p. i \<in> fst ` set cs \<and> below fs names i p
      \<and> (\<forall>j q. j \<in> fst ` set cs \<and> below fs names j q \<longrightarrow> \<not> takesMore (takes (TyStruct fs) (j # q)) (takes (TyStruct fs) (i # p)))
      \<and> tryCandidates um pf fs rs False names val cs vs = setPath um pf (TyStruct fs) val (BvStruct vs) (i # p)
    else tryCandidates um pf fs rs False names val cs vs = Resolved False None (BvStruct vs)"
  using assms(5,6)
proof (induction cs)
  case (Cons c cs)
  obtain i k where c: "c = (i, k)" by (cases c)
  with Cons.prems(1) have i: "i < length fs" "tomlNames (fs ! i) \<noteq> []" "prefix (tomlNames (fs ! i)) names"
    "k = length (tomlNames (fs ! i))" by (auto simp: candidates_set)
  let ?rest = "drop k names"
  have restN: "?rest = [] \<longleftrightarrow> tomlNames (fs ! i) = names" using i(3,4) by (auto simp: prefix_def)
  have IH: "if \<exists>i p. i \<in> fst ` set cs \<and> below fs names i p
    then \<exists>i p. i \<in> fst ` set cs \<and> below fs names i p
      \<and> (\<forall>j q. j \<in> fst ` set cs \<and> below fs names j q \<longrightarrow> \<not> takesMore (takes (TyStruct fs) (j # q)) (takes (TyStruct fs) (i # p)))
      \<and> tryCandidates um pf fs rs False names val cs vs = setPath um pf (TyStruct fs) val (BvStruct vs) (i # p)
    else tryCandidates um pf fs rs False names val cs vs = Resolved False None (BvStruct vs)"
    using Cons by simp
  have tk: "takes (TyStruct fs) (j # q) = length (tomlNames (fs ! j)) # takes (sfType (fs ! j)) q"
    if j: "j \<in> fst ` set (c # cs)" for j q
  proof -
    from j obtain m where "(j, m) \<in> set (c # cs)" by (metis imageE prod.collapse)
    with Cons.prems(1) have "(j, m) \<in> set (candidates fs names)" by blast
    then show ?thesis by (simp add: candidates_set)
  qed
  text \<open>A candidate with as many names has the same tag, so it is the same field.\<close>
  have other: "length (tomlNames (fs ! j)) < k \<or> j = i" if j: "j \<in> fst ` set (c # cs)" for j
  proof -
    from j obtain m where m: "(j, m) \<in> set (c # cs)" by (metis imageE prod.collapse)
    with Cons.prems(1) have jm: "j < length fs" "prefix (tomlNames (fs ! j)) names" "m = length (tomlNames (fs ! j))"
      by (auto simp: candidates_set)
    have "m \<le> k" using m Cons.prems(2) c by auto
    show ?thesis
    proof (cases "m = k")
      case True
      then have "tomlNames (fs ! i) = tomlNames (fs ! j)" using i(3,4) jm(2,3) by (auto simp: prefix_def)
      with distinct_tags_nth [OF assms(4) i(1) jm(1) _ i(2)] show ?thesis by simp
    qed (use \<open>m \<le> k\<close> jm(3) in simp)
  qed
  show ?case
  proof (cases "?rest = []")
    case True
    then have b: "below fs names i []" using restN by (simp add: below_def)
    have t: "tryCandidates um pf fs rs False names val (c # cs) vs = setPath um pf (TyStruct fs) val (BvStruct vs) [i]"
      using True assms(2) [OF i(1)] by (auto simp: c setPath_def split: prod.splits option.splits)
    have best: "\<not> takesMore (takes (TyStruct fs) (j # q)) (takes (TyStruct fs) [i])" if "j \<in> fst ` set (c # cs)" for j q
      using other [OF that] tk [OF that] i(1,4) by auto
    have ic: "i \<in> fst ` set (c # cs)" by (simp add: c)
    have ex: "\<exists>i p. i \<in> fst ` set (c # cs) \<and> below fs names i p" using ic b by blast
    show ?thesis unfolding if_P [OF ex]
      by (intro exI [of _ i] exI [of _ "[]"] conjI allI impI ic b t) (elim conjE best)
  next
    case False
    note sub = assms(3) [OF i(1), of ?rest]
    have bp: "below fs names i p \<longleftrightarrow> namesField (sfType (fs ! i)) ?rest p" for p
      using False restN i(4) by (cases "p = []") (auto simp: below_def)
    show ?thesis
    proof (cases "\<exists>p. namesField (sfType (fs ! i)) ?rest p")
      case True
      with sub obtain p where p: "picks (sfType (fs ! i)) ?rest p"
        "(rs ! i) False ?rest val (vs ! i) = setPath um pf (sfType (fs ! i)) val (vs ! i) p"
        by (auto simp: resolvesTo_def)
      have b: "below fs names i p" using p(1) bp by (simp add: picks_def)
      have t: "tryCandidates um pf fs rs False names val (c # cs) vs = setPath um pf (TyStruct fs) val (BvStruct vs) (i # p)"
        using False p(2) assms(2) [OF i(1)]
        by (auto simp: c setPath_def split: prod.splits option.splits resolved.splits)
      have best: "\<not> takesMore (takes (TyStruct fs) (j # q)) (takes (TyStruct fs) (i # p))"
        if j: "j \<in> fst ` set (c # cs)" "below fs names j q" for j q
      proof (cases "j = i")
        case True
        with j bp p(1) have "\<not> takesMore (takes (sfType (fs ! i)) q) (takes (sfType (fs ! i)) p)" by (simp add: picks_def)
        with True i(1) show ?thesis by simp
      next
        case False
        with other [OF j(1)] tk [OF j(1)] i(1,4) show ?thesis by simp
      qed
      have ic: "i \<in> fst ` set (c # cs)" by (simp add: c)
      have ex: "\<exists>i p. i \<in> fst ` set (c # cs) \<and> below fs names i p" using ic b by blast
      show ?thesis unfolding if_P [OF ex]
        by (intro exI [of _ i] exI [of _ p] conjI allI impI ic b t) (elim conjE best)
    next
      case none: False
      with sub have r: "(rs ! i) False ?rest val (vs ! i) = Resolved False None (vs ! i)" by (simp add: resolvesTo_def)
      have t: "tryCandidates um pf fs rs False names val (c # cs) vs = tryCandidates um pf fs rs False names val cs vs"
        using False r assms(1,2) i(1) by (simp add: c)
      have nb: "\<not> below fs names i p" for p using none bp by blast
      have ex: "(j \<in> fst ` set (c # cs) \<and> below fs names j q) \<longleftrightarrow> (j \<in> fst ` set cs \<and> below fs names j q)" for j q
        using nb by (auto simp: c)
      show ?thesis unfolding t using IH unfolding ex [symmetric] by (metis ex)
    qed
  qed
qed simp

section \<open>Resolution\<close>

lemma resolvesTo_named: "resolvesTo um pf (TyNamed n t) names val v r = resolvesTo um pf t names val v r"
proof -
  have tags: "tagsAlong (TyNamed n t) p = tagsAlong t p" for p by (cases p) simp_all
  have tk: "takes (TyNamed n t) p = takes t p" for p by (cases p) simp_all
  have names: "namesField (TyNamed n t) names p = namesField t names p" for p by (simp add: namesField_def tags)
  have "setPath um pf (TyNamed n t) val v p = setPath um pf t val v p" if "namesField t names p" for p
    using that by (cases p; cases "underlying t") (simp_all add: setPath_def namesField_def)
  then show ?thesis unfolding resolvesTo_def picks_def names tk by (metis (no_types, lifting))
qed

lemma resolvesTo_leaf:
  "(\<And>i p. \<not> namesField ty names (i # p)) \<Longrightarrow> resolvesTo um pf ty names val v (Resolved False None v)"
  by (auto simp: resolvesTo_def) (metis list.exhaust namesField_Nil)

lemma length_resolvers [simp]: "length (resolvers um pf fs) = length fs"
proof (induction fs)
  case (Cons f fs)
  then show ?case by (cases f) simp
qed simp

lemma resolvers_nth: "i < length fs \<Longrightarrow> resolvers um pf fs ! i = resolveField um pf (sfType (fs ! i))"
proof (induction fs arbitrary: i)
  case (Cons f fs)
  then show ?case by (cases f; cases i) auto
qed simp

lemma resolve_struct:
  assumes plain: "plainConfig (TyStruct fs)" and typed: "wellTyped (TyStruct fs) v"
    and IH: "\<And>i names w. i < length fs \<Longrightarrow> plainConfig (sfType (fs ! i)) \<Longrightarrow> wellTyped (sfType (fs ! i)) w \<Longrightarrow>
      resolvesTo um pf (sfType (fs ! i)) names val w (resolveField um pf (sfType (fs ! i)) False names val w)"
  shows "resolvesTo um pf (TyStruct fs) names val v (resolveField um pf (TyStruct fs) False names val v)"
proof -
  from typed obtain vs where v: "v = BvStruct vs" "wellFields fs vs" by (cases v) auto
  show ?thesis
  proof (cases "names = []")
    case True
    then show ?thesis using v(1) by (simp add: resolvesTo_leaf namesField_nonempty)
  next
    case False
    let ?cs = "candidates fs names"
    have len: "length vs = length fs" and ty: "\<And>i. i < length fs \<Longrightarrow> wellTyped (sfType (fs ! i)) (vs ! i)"
      using wellFields_nth [OF v(2)] by auto
    have pf: "plainFields fs" "distinct (filter (\<lambda>ns. ns \<noteq> []) (map tomlNames fs))" using plain by simp_all
    have sub: "resolvesTo um pf (sfType (fs ! i)) rest val (vs ! i) ((resolvers um pf fs ! i) False rest val (vs ! i))"
      if "i < length fs" for i rest
      using IH [OF that _ ty [OF that]] plainFields_nth [OF pf(1) that] resolvers_nth [OF that] by metis
    have "i \<in> fst ` set ?cs \<longleftrightarrow> i < length fs \<and> tomlNames (fs ! i) \<noteq> [] \<and> prefix (tomlNames (fs ! i)) names" for i
      by (metis candidates_set fst_conv imageE image_eqI prod.collapse)
    then have nf: "namesField (TyStruct fs) names (i # p) \<longleftrightarrow> i \<in> fst ` set ?cs \<and> below fs names i p" for i p
      by (auto simp: namesField_struct)
    have some: "(\<exists>p. namesField (TyStruct fs) names p) \<longleftrightarrow> (\<exists>i p. i \<in> fst ` set ?cs \<and> below fs names i p)"
      unfolding nf [symmetric] by (metis list.exhaust namesField_Nil)
    have eq: "resolveField um pf (TyStruct fs) False names val v = tryCandidates um pf fs (resolvers um pf fs) False names val ?cs vs"
      using v(1) False by simp
    have exp: "\<And>i. i < length fs \<Longrightarrow> sfExported (fs ! i)" using plainFields_nth [OF pf(1)] by blast
    note spec = tryCandidates_spec [OF len exp sub pf(2) subset_refl candidates_sorted]
    show ?thesis
    proof (cases "\<exists>p. namesField (TyStruct fs) names p")
      case True
      with some have ex: "\<exists>i p. i \<in> fst ` set ?cs \<and> below fs names i p" by blast
      obtain i p where p: "namesField (TyStruct fs) names (i # p)"
        "\<forall>j q. namesField (TyStruct fs) names (j # q) \<longrightarrow> \<not> takesMore (takes (TyStruct fs) (j # q)) (takes (TyStruct fs) (i # p))"
        "tryCandidates um pf fs (resolvers um pf fs) False names val ?cs vs = setPath um pf (TyStruct fs) val (BvStruct vs) (i # p)"
        using spec [of names] unfolding if_P [OF ex] nf by blast
      have "picks (TyStruct fs) names (i # p)"
        unfolding picks_def using p(1,2) by (metis list.exhaust namesField_Nil)
      then show ?thesis unfolding resolvesTo_def eq if_P [OF True] using p(3) v(1) by blast
    next
      case False
      with some have nex: "\<not> (\<exists>i p. i \<in> fst ` set ?cs \<and> below fs names i p)" by blast
      have "tryCandidates um pf fs (resolvers um pf fs) False names val ?cs vs = Resolved False None (BvStruct vs)"
        using spec [of names] unfolding if_not_P [OF nex] .
      then show ?thesis unfolding resolvesTo_def eq if_not_P [OF False] using v(1) by blast
    qed
  qed
qed

lemma size_field: "i < length fs \<Longrightarrow> size (sfType (fs ! i)) < size (TyStruct fs)"
proof (induction fs arbitrary: i)
  case (Cons f fs)
  then show ?case
  proof (cases i)
    case 0
    then show ?thesis by (cases f) simp
  next
    case (Suc j)
    with Cons.IH [of j] Cons.prems show ?thesis by simp
  qed
qed simp

lemma resolve_any:
  "plainConfig ty \<Longrightarrow> wellTyped ty v \<Longrightarrow> resolvesTo um pf ty names val v (resolveField um pf ty False names val v)"
proof (induction "size ty" arbitrary: ty names v rule: less_induct)
  case less
  show ?case
  proof (cases ty)
    case (TyNamed n t)
    with less show ?thesis by (simp add: resolvesTo_named)
  next
    case (TyStruct fs)
    show ?thesis unfolding TyStruct
    proof (rule resolve_struct)
      show "plainConfig (TyStruct fs)" "wellTyped (TyStruct fs) v" using less.prems TyStruct by simp_all
      fix i names w
      assume i: "i < length fs" "plainConfig (sfType (fs ! i))" "wellTyped (sfType (fs ! i)) w"
      with less.hyps [of "sfType (fs ! i)"] size_field [OF i(1)] TyStruct
      show "resolvesTo um pf (sfType (fs ! i)) names val w (resolveField um pf (sfType (fs ! i)) False names val w)" by simp
    qed
  qed (simp_all add: resolvesTo_leaf namesField_def)
qed


text \<open>The example of the documentation: a field \<open>log_level\<close> and a struct \<open>log\<close> with a field
  \<open>level_name\<close>.\<close>

definition logConfig :: bty where
  "logConfig = TyStruct
     [SField ''LogLevel'' True [(''toml'', ''log_level'')] TyString,
      SField ''Log'' True [(''toml'', ''log,omitempty'')]
        (TyNamed ''LogConfig'' (TyStruct [SField ''LevelName'' True [(''toml'', ''level_name'')] TyString])),
      SField ''Port'' True [(''toml'', ''port'')] (TyInt 64)]"

definition noUnmarshalers :: unmarshalers where
  "noUnmarshalers t = None"

definition noFloats :: "nat \<Rightarrow> string \<Rightarrow> string option" where
  "noFloats n s = None"


text \<open>Names are lowered, tags are not: a tag with an upper-case letter is never found, although TOML
  files set it.\<close>

theorem upper_case_tag_not_overridable:
  "applyEnvOverrides noUnmarshalers noFloats (TyStruct [SField ''APIKey'' True [(''toml'', ''apiKey'')] TyString])
     [''TRAILS_apiKey=k'', ''TRAILS_APIKEY=k''] (BvStruct [BvString []]) = Inr (BvStruct [BvString []])"
  by code_simp

end
