(* ===== verification/Spec2Isabelle.thy ===== *)
theory Spec2Isabelle
  imports SqlClaims SqlDdl Schema RateLimit CacheApi DbQueue Router AllowedHosts TrustedProxy Cors SecureHeaders
    Csrf HttpCache Auth Transport CloudTask PackQueryClaims PackCreateClaims PackTx Preload PackCols MigrateClaims AsyncClaims BindClaims Run AssetsClaims Mail Settings
begin

text \<open>
  Trails: a verification development.
\<close>

end
